(* ===== verification/Prelude.thy ===== *)
theory Prelude
  imports Main "HOL-Library.Word" "HOL-Library.AList" "HOL-Library.List_Lexorder"
    "HOL-Library.Sublist"
begin

text \<open>
  Shared vocabulary of the development: machine integers and byte strings, errors as values,
  hash maps as association lists, lazily consumed iterators as streams, and the lemmas on them
  that the component theories use.
\<close>

section \<open>Machine integers, bytes and hashes\<close>

type_synonym u8 = "8 word"
type_synonym u16 = "16 word"
type_synonym u32 = "32 word"
type_synonym u64 = "64 word"
type_synonym bytes = "8 word list"

text \<open>
  A 32-byte hash (\<^verbatim>\<open>[u8; 32]\<close>, \<^verbatim>\<open>Txid\<close>, \<^verbatim>\<open>BlockHash\<close>, script hashes) is the 256-bit
  number its bytes spell, first byte most significant; \<^verbatim>\<open>Default::default()\<close> is zero.
\<close>

type_synonym hash = "256 word"
type_synonym txid = hash
type_synonym blockhash = hash
type_synonym scripthash = hash

text \<open>The \<open>n\<close> low-order bytes of a number, most significant first.\<close>

fun nat_be :: "nat \<Rightarrow> nat \<Rightarrow> bytes" where
  "nat_be 0 k = []"
| "nat_be (Suc n) k = of_nat (k div 256 ^ n) # nat_be n k"

fun be_nat :: "bytes \<Rightarrow> nat" where
  "be_nat [] = 0"
| "be_nat (b # bs) = unat b * 256 ^ length bs + be_nat bs"

text \<open>Rust's \<^verbatim>\<open>u32::to_be_bytes\<close> and \<^verbatim>\<open>u32::from_be_bytes\<close>; the raw bytes of a hash.\<close>

definition u32_to_be_bytes :: "u32 \<Rightarrow> bytes" where
  "u32_to_be_bytes w = nat_be 4 (unat w)"

definition u32_from_be_bytes :: "bytes \<Rightarrow> u32" where
  "u32_from_be_bytes bs = of_nat (be_nat bs)"

definition hash_bytes :: "hash \<Rightarrow> bytes" where
  "hash_bytes h = nat_be 32 (unat h)"

definition bytes_hash :: "bytes \<Rightarrow> hash" where
  "bytes_hash bs = of_nat (be_nat bs)"

lemma unat_less_pow: "unat (w :: 'a::len word) < 2 ^ LENGTH('a)"
  by (rule unsigned_less)

lemma unat_of_nat_less: "n < 2 ^ LENGTH('a) \<Longrightarrow> unat (of_nat n :: 'a::len word) = n"
  by (simp add: unat_of_nat)

lemma of_nat_word_inject:
  "m < 2 ^ LENGTH('a) \<Longrightarrow> n < 2 ^ LENGTH('a) \<Longrightarrow> (of_nat m :: 'a::len word) = of_nat n \<longleftrightarrow> m = n"
  using unat_of_nat_less [where 'a = 'a] by metis

lemma length_nat_be [simp]: "length (nat_be n k) = n"
  by (induction n) auto

lemma nat_be_4:
  "nat_be 4 k = [of_nat (k div 16777216), of_nat (k div 65536), of_nat (k div 256), of_nat k]"
proof -
  have four: "(4::nat) = Suc (Suc (Suc (Suc 0)))" by simp
  show ?thesis unfolding four nat_be.simps by simp
qed

lemma nat_be_mod: "nat_be n (k mod 256 ^ n) = nat_be n k"
proof -
  have "nat_be n (k mod 256 ^ m) = nat_be n k" if "n \<le> m" for m
    using that
  proof (induction n)
    case 0
    then show ?case by simp
  next
    case (Suc n)
    then obtain d where m: "m = Suc n + d" using le_Suc_ex by blast
    have pow: "(256::nat) ^ m = 256 ^ n * (256 * 256 ^ d)"
      by (simp add: m power_add)
    have "k mod 256 ^ m div 256 ^ n = k div 256 ^ n mod (256 * 256 ^ d)"
      unfolding pow by (simp add: mod_mult2_eq)
    then have "(of_nat (k mod 256 ^ m div 256 ^ n) :: u8) = of_nat (k div 256 ^ n)"
      by (simp add: word_of_nat_eq_iff take_bit_eq_mod mod_mod_cancel)
    with Suc show ?case by simp
  qed
  then show ?thesis by blast
qed

lemma be_nat_less: "be_nat bs < 256 ^ length bs"
proof (induction bs)
  case Nil
  then show ?case by simp
next
  case (Cons b bs)
  have "unat b < 256" using unat_less_pow [of b] by simp
  then have "unat b \<le> 255" by simp
  then have "unat b * 256 ^ length bs \<le> 255 * 256 ^ length bs" by (rule mult_le_mono1)
  then have "unat b * 256 ^ length bs + be_nat bs < 255 * 256 ^ length bs + 256 ^ length bs"
    using Cons by linarith
  then show ?case by simp
qed

lemma be_nat_nat_be: "k < 256 ^ n \<Longrightarrow> be_nat (nat_be n k) = k"
proof (induction n arbitrary: k)
  case 0
  then show ?case by simp
next
  case (Suc n)
  have q: "k div 256 ^ n < 256"
    using Suc.prems by (simp add: less_mult_imp_div_less)
  have "be_nat (nat_be n k) = be_nat (nat_be n (k mod 256 ^ n))"
    by (simp add: nat_be_mod)
  also have "\<dots> = k mod 256 ^ n" by (rule Suc.IH) simp
  finally have r: "be_nat (nat_be n k) = k mod 256 ^ n" .
  have "unat (of_nat (k div 256 ^ n) :: u8) = k div 256 ^ n"
    using q by (simp add: unat_of_nat)
  with r show ?case by (simp add: div_mult_mod_eq)
qed

lemma nat_be_be_nat: "nat_be (length bs) (be_nat bs) = bs"
proof (induction bs)
  case Nil
  then show ?case by simp
next
  case (Cons b bs)
  have lt: "be_nat bs < 256 ^ length bs" by (rule be_nat_less)
  then have "nat_be (length bs) (unat b * 256 ^ length bs + be_nat bs) = bs"
    using Cons nat_be_mod [of "length bs" "unat b * 256 ^ length bs + be_nat bs"] by simp
  with lt show ?case by simp
qed

lemma nat_be_inject:
  "k < 256 ^ n \<Longrightarrow> l < 256 ^ n \<Longrightarrow> nat_be n k = nat_be n l \<longleftrightarrow> k = l"
  using be_nat_nat_be by metis

lemma less_div_mod: "(k::nat) < l \<longleftrightarrow> k div m < l div m \<or> k div m = l div m \<and> k mod m < l mod m"
proof (cases "k div m" "l div m" rule: linorder_cases)
  case less
  then have "\<not> l \<le> k" using div_le_mono [of l k m] by auto
  with less show ?thesis by simp
next
  case equal
  have "k = l div m * m + k mod m" using equal div_mult_mod_eq [of k m] by simp
  moreover have "l = l div m * m + l mod m" by simp
  ultimately have "k < l \<longleftrightarrow> k mod m < l mod m"
    by (metis nat_add_left_cancel_less)
  with equal show ?thesis by simp
next
  case greater
  then have "\<not> k \<le> l" using div_le_mono [of k l m] by auto
  with greater show ?thesis by simp
qed

lemma nat_be_less:
  "k < 256 ^ n \<Longrightarrow> l < 256 ^ n \<Longrightarrow> nat_be n k < nat_be n l \<longleftrightarrow> k < l"
proof (induction n arbitrary: k l)
  case 0
  then show ?case by simp
next
  case (Suc n)
  let ?m = "256 ^ n :: nat"
  have q: "k div ?m < 256" "l div ?m < 256"
    using Suc.prems by (simp_all add: less_mult_imp_div_less)
  have lo: "nat_be n k < nat_be n l \<longleftrightarrow> k mod ?m < l mod ?m"
    using Suc.IH [of "k mod ?m" "l mod ?m"] by (simp add: nat_be_mod)
  have hi: "((of_nat (k div ?m) :: u8) < of_nat (l div ?m)) \<longleftrightarrow> k div ?m < l div ?m"
    "((of_nat (k div ?m) :: u8) = of_nat (l div ?m)) \<longleftrightarrow> k div ?m = l div ?m"
    using q by (simp_all add: word_less_nat_alt word_unat_eq_iff unat_of_nat)
  have "k < l \<longleftrightarrow> k div ?m < l div ?m \<or> k div ?m = l div ?m \<and> k mod ?m < l mod ?m"
    by (rule less_div_mod)
  with lo hi show ?case by simp
qed

lemma length_u32_to_be_bytes [simp]: "length (u32_to_be_bytes w) = 4"
  by (simp add: u32_to_be_bytes_def)

lemma length_hash_bytes [simp]: "length (hash_bytes h) = 32"
  by (simp add: hash_bytes_def)

lemma u32_from_to_be_bytes [simp]: "u32_from_be_bytes (u32_to_be_bytes w) = w"
proof -
  have "unat w < 256 ^ 4" using unat_less_pow [of w] by simp
  then show ?thesis
    by (simp add: u32_from_be_bytes_def u32_to_be_bytes_def be_nat_nat_be)
qed

lemma u32_to_be_bytes_less [simp]: "u32_to_be_bytes v < u32_to_be_bytes w \<longleftrightarrow> v < w"
proof -
  have "unat v < 256 ^ 4" "unat w < 256 ^ 4" using unat_less_pow [of v] unat_less_pow [of w] by simp_all
  then show ?thesis
    by (simp add: u32_to_be_bytes_def nat_be_less word_less_nat_alt)
qed

lemma u32_to_be_bytes_inject [simp]: "u32_to_be_bytes v = u32_to_be_bytes w \<longleftrightarrow> v = w"
  using u32_from_to_be_bytes by metis

lemma bytes_hash_bytes [simp]: "bytes_hash (hash_bytes h) = h"
proof -
  have "unat h < 256 ^ 32" using unat_less_pow [of h] by simp
  then show ?thesis
    by (simp only: bytes_hash_def hash_bytes_def be_nat_nat_be of_nat_unat ucast_id)
qed

lemma hash_bytes_inject [simp]: "hash_bytes g = hash_bytes h \<longleftrightarrow> g = h"
  using bytes_hash_bytes by metis

lemma hash_bytes_bytes_hash: "length bs = 32 \<Longrightarrow> hash_bytes (bytes_hash bs) = bs"
proof -
  assume len: "length bs = 32"
  have "be_nat bs < 2 ^ 256" using be_nat_less [of bs] len by simp
  then have "unat (bytes_hash bs) = be_nat bs"
    by (simp add: bytes_hash_def unat_of_nat)
  then show ?thesis using nat_be_be_nat [of bs] len by (simp add: hash_bytes_def)
qed

section \<open>The lexicographic order of keys\<close>

lemma prefix_le: "prefix p k \<Longrightarrow> p \<le> (k :: 'a::linorder list)"
proof (induction p arbitrary: k)
  case Nil
  then show ?case by simp
next
  case (Cons a p)
  then obtain l where "k = a # l" "prefix p l" by (cases k) auto
  with Cons.IH show ?case by simp
qed

lemma prefix_less_beyond:
  "prefix p k' \<Longrightarrow> p \<le> k \<Longrightarrow> \<not> prefix p k \<Longrightarrow> k' < (k :: 'a::linorder list)"
proof (induction p arbitrary: k k')
  case Nil
  then show ?case by simp
next
  case (Cons a p)
  obtain l where "k' = a # l" "prefix p l" using Cons.prems(1) by (cases k') auto
  moreover obtain b m where "k = b # m" using Cons.prems(2) by (cases k) auto
  ultimately show ?case using Cons by auto
qed

lemma append_less_cancel [simp]: "p @ k < p @ l \<longleftrightarrow> k < (l :: 'a::linorder list)"
  by (induction p) auto

lemma append_le_cancel [simp]: "p @ k \<le> p @ l \<longleftrightarrow> k \<le> (l :: 'a::linorder list)"
  by (induction p) auto

lemma append_less_same_length:
  "length k = length l \<Longrightarrow> k < l \<Longrightarrow> k @ a < l @ (b :: 'a::linorder list)"
  by (induction k l rule: list_induct2) auto

lemma sorted_wrt_takeWhile: "sorted_wrt P xs \<Longrightarrow> sorted_wrt P (takeWhile Q xs)"
  by (induction xs) (auto dest: set_takeWhileD)

section \<open>Errors and panics as values\<close>

text \<open>
  The \<^verbatim>\<open>ErrorKind\<close> of \<^verbatim>\<open>src/src/errors.rs\<close> with error\_chain's \<^verbatim>\<open>Msg\<close>, and, as one more constructor,
  a panic of the running thread. A fallible computation is a value of \<open>'a res\<close>.
\<close>

datatype error =
    Panic string
  | Msg string
  | Connection string
  | Interrupt int
  | TooPopular

type_synonym 'a res = "error + 'a"

abbreviation Ok :: "'a \<Rightarrow> 'a res" where
  "Ok \<equiv> Inr"

abbreviation Err :: "error \<Rightarrow> 'a res" where
  "Err \<equiv> Inl"

definition panic :: "string \<Rightarrow> 'a res" where
  "panic m = Inl (Panic m)"

definition bail :: "string \<Rightarrow> 'a res" where
  "bail m = Inl (Msg m)"

fun and_then :: "'a res \<Rightarrow> ('a \<Rightarrow> 'b res) \<Rightarrow> 'b res" where
  "and_then (Inl e) f = Inl e"
| "and_then (Inr x) f = f x"

text \<open>\<^verbatim>\<open>assert!\<close>, \<^verbatim>\<open>Option::expect\<close> and error\_chain's \<^verbatim>\<open>chain_err\<close> on options and results.\<close>

definition assert_res :: "bool \<Rightarrow> string \<Rightarrow> unit res" where
  "assert_res b m = (if b then Inr () else panic m)"

definition expect :: "string \<Rightarrow> 'a option \<Rightarrow> 'a res" where
  "expect m r = (case r of None \<Rightarrow> panic m | Some x \<Rightarrow> Inr x)"

definition ok_or :: "string \<Rightarrow> 'a option \<Rightarrow> 'a res" where
  "ok_or m r = (case r of None \<Rightarrow> bail m | Some x \<Rightarrow> Inr x)"

fun is_panic :: "error \<Rightarrow> bool" where
  "is_panic (Panic m) = True"
| "is_panic _ = False"

definition chain_err :: "string \<Rightarrow> 'a res \<Rightarrow> 'a res" where
  "chain_err m r = (case r of Inl e \<Rightarrow> if is_panic e then Inl e else bail m | Inr x \<Rightarrow> Inr x)"

text \<open>\<^verbatim>\<open>Result::unwrap\<close>: an error becomes a panic.\<close>

definition unwrap :: "string \<Rightarrow> 'a res \<Rightarrow> 'a res" where
  "unwrap m r = (case r of Inl e \<Rightarrow> if is_panic e then Inl e else panic m | Inr x \<Rightarrow> Inr x)"

text \<open>\<^verbatim>\<open>for\<close> loops and \<^verbatim>\<open>map\<close> with an early exit.\<close>

fun fold_res :: "('s \<Rightarrow> 'a \<Rightarrow> 's res) \<Rightarrow> 's \<Rightarrow> 'a list \<Rightarrow> 's res" where
  "fold_res f s [] = Inr s"
| "fold_res f s (x # xs) = and_then (f s x) (\<lambda>s'. fold_res f s' xs)"

fun map_res :: "('a \<Rightarrow> 'b res) \<Rightarrow> 'a list \<Rightarrow> 'b list res" where
  "map_res f [] = Inr []"
| "map_res f (x # xs) = and_then (f x) (\<lambda>y. and_then (map_res f xs) (\<lambda>ys. Inr (y # ys)))"

text \<open>\<^verbatim>\<open>collect::<Option<Vec<_>>>()\<close>.\<close>

fun sequence_option :: "'a option list \<Rightarrow> 'a list option" where
  "sequence_option [] = Some []"
| "sequence_option (None # xs) = None"
| "sequence_option (Some x # xs) = map_option ((#) x) (sequence_option xs)"

named_theorems res_simps \<open>unfolding the result combinators\<close>

lemmas [res_simps] =
  panic_def bail_def assert_res_def expect_def ok_or_def chain_err_def unwrap_def

lemma and_then_eq_Inr [simp]: "and_then m f = Inr y \<longleftrightarrow> (\<exists>x. m = Inr x \<and> f x = Inr y)"
  by (cases m) auto

lemma and_then_eq_Inl: "and_then m f = Inl e \<longleftrightarrow> m = Inl e \<or> (\<exists>x. m = Inr x \<and> f x = Inl e)"
  by (cases m) auto

lemma and_then_assoc: "and_then (and_then m f) g = and_then m (\<lambda>x. and_then (f x) g)"
  by (cases m) auto

lemma and_then_Inr_right [simp]: "and_then m Inr = m"
  by (cases m) auto

lemma assert_res_eq_Inr [simp]: "assert_res b m = Inr u \<longleftrightarrow> b"
  by (simp add: assert_res_def panic_def)

lemma expect_eq_Inr [simp]: "expect m r = Inr x \<longleftrightarrow> r = Some x"
  by (cases r) (auto simp: res_simps)

lemma ok_or_eq_Inr [simp]: "ok_or m r = Inr x \<longleftrightarrow> r = Some x"
  by (cases r) (auto simp: res_simps)

lemma panic_neq_Inr [simp]: "panic m \<noteq> Inr x" "bail m \<noteq> Inr x"
  by (simp_all add: res_simps)

lemma chain_err_eq_Inr [simp]: "chain_err m r = Inr x \<longleftrightarrow> r = Inr x"
  by (cases r) (auto simp: res_simps)

lemma unwrap_eq_Inr [simp]: "unwrap m r = Inr x \<longleftrightarrow> r = Inr x"
  by (cases r) (auto simp: res_simps)

lemma fold_res_append: "fold_res f s (xs @ ys) = and_then (fold_res f s xs) (\<lambda>s'. fold_res f s' ys)"
  by (induction xs arbitrary: s) (auto simp: and_then_assoc)

lemma fold_res_pure: "(\<And>s x. x \<in> set xs \<Longrightarrow> f s x = Inr (g s x)) \<Longrightarrow> fold_res f s xs = Inr (foldl g s xs)"
  by (induction xs arbitrary: s) auto

lemma fold_res_invariant:
  assumes "fold_res f s xs = Inr s'" "P s"
    and "\<And>s x s'. x \<in> set xs \<Longrightarrow> P s \<Longrightarrow> f s x = Inr s' \<Longrightarrow> P s'"
  shows "P s'"
  using assms
proof (induction xs arbitrary: s)
  case Nil
  then show ?case by simp
next
  case (Cons x xs)
  from Cons.prems(1) obtain t where t: "f s x = Inr t" "fold_res f t xs = Inr s'" by auto
  have "P t" using Cons.prems(3) [OF _ Cons.prems(2) t(1)] by simp
  then show ?case by (rule Cons.IH [OF t(2)]) (auto intro: Cons.prems(3))
qed

lemma foldl_invariant:
  "P s \<Longrightarrow> (\<And>s x. x \<in> set xs \<Longrightarrow> P s \<Longrightarrow> P (f s x)) \<Longrightarrow> P (foldl f s xs)"
  by (induction xs arbitrary: s) auto

lemma map_res_eq_Inr: "map_res f xs = Inr ys \<longleftrightarrow> list_all2 (\<lambda>x y. f x = Inr y) xs ys"
  by (induction xs arbitrary: ys) (auto simp: list_all2_Cons1)

lemma map_res_pure: "(\<And>x. x \<in> set xs \<Longrightarrow> f x = Inr (g x)) \<Longrightarrow> map_res f xs = Inr (map g xs)"
  by (induction xs) auto

lemma sequence_option_Some: "sequence_option xs = Some ys \<longleftrightarrow> xs = map Some ys"
  by (induction xs arbitrary: ys rule: sequence_option.induct) auto

section \<open>Iterators\<close>

text \<open>
  A lazily consumed iterator whose items may panic when they are produced is a list of results:
  a consumer that stops early (\<^verbatim>\<open>take\<close>) never meets the later items, and \<^verbatim>\<open>collect\<close> stops at the
  first panic.
\<close>

type_synonym 'a stream = "'a res list"

definition collect :: "'a stream \<Rightarrow> 'a list res" where
  "collect xs = map_res id xs"

definition smap :: "('a \<Rightarrow> 'b res) \<Rightarrow> 'a stream \<Rightarrow> 'b stream" where
  "smap f xs = map (\<lambda>r. and_then r f) xs"

fun sfilter_map :: "('a \<Rightarrow> 'b option res) \<Rightarrow> 'a stream \<Rightarrow> 'b stream" where
  "sfilter_map f [] = []"
| "sfilter_map f (r # rs) =
     (case and_then r f of
        Inl e \<Rightarrow> Inl e # sfilter_map f rs
      | Inr None \<Rightarrow> sfilter_map f rs
      | Inr (Some y) \<Rightarrow> Inr y # sfilter_map f rs)"

fun sskip :: "nat \<Rightarrow> 'a stream \<Rightarrow> 'a stream" where
  "sskip 0 rs = rs"
| "sskip (Suc n) [] = []"
| "sskip (Suc n) (Inl e # rs) = [Inl e]"
| "sskip (Suc n) (Inr x # rs) = sskip n rs"

fun sskip_while :: "('a \<Rightarrow> bool) \<Rightarrow> 'a stream \<Rightarrow> 'a stream" where
  "sskip_while P [] = []"
| "sskip_while P (Inl e # rs) = Inl e # rs"
| "sskip_while P (Inr x # rs) = (if P x then sskip_while P rs else Inr x # rs)"

fun stake_while :: "('a \<Rightarrow> bool) \<Rightarrow> 'a stream \<Rightarrow> 'a stream" where
  "stake_while P [] = []"
| "stake_while P (Inl e # rs) = Inl e # stake_while P rs"
| "stake_while P (Inr x # rs) = (if P x then Inr x # stake_while P rs else [])"

text \<open>Itertools' \<^verbatim>\<open>unique\<close>: the first occurrence of every item, in order.\<close>

fun unique_from :: "'a list \<Rightarrow> 'a list \<Rightarrow> 'a list" where
  "unique_from seen [] = []"
| "unique_from seen (x # xs) =
     (if x \<in> set seen then unique_from seen xs else x # unique_from (x # seen) xs)"

definition unique :: "'a list \<Rightarrow> 'a list" where
  "unique xs = unique_from [] xs"

fun sunique_from :: "'a list \<Rightarrow> 'a stream \<Rightarrow> 'a stream" where
  "sunique_from seen [] = []"
| "sunique_from seen (Inl e # rs) = Inl e # sunique_from seen rs"
| "sunique_from seen (Inr x # rs) =
     (if x \<in> set seen then sunique_from seen rs else Inr x # sunique_from (x # seen) rs)"

definition sunique :: "'a stream \<Rightarrow> 'a stream" where
  "sunique rs = sunique_from [] rs"

named_theorems stream_simps \<open>iterators without panics\<close>

lemma collect_pure [stream_simps]: "collect (map Inr xs) = Inr xs"
  unfolding collect_def by (induction xs) auto

lemma collect_eq_Inr: "collect rs = Inr xs \<longleftrightarrow> rs = map Inr xs"
  unfolding collect_def by (induction rs arbitrary: xs) auto

lemma smap_pure [stream_simps]: "smap f (map Inr xs) = map f xs"
  by (simp add: smap_def)

lemma sfilter_map_pure [stream_simps]:
  "sfilter_map (\<lambda>x. Inr (f x)) (map Inr xs) = map Inr (List.map_filter f xs)"
  by (induction xs) (auto simp: List.map_filter_simps split: option.split)

lemma sskip_pure [stream_simps]: "sskip n (map Inr xs) = map Inr (drop n xs)"
proof (induction xs arbitrary: n)
  case Nil
  then show ?case by (cases n) simp_all
next
  case (Cons x xs)
  then show ?case by (cases n) simp_all
qed

lemma sskip_while_pure [stream_simps]: "sskip_while P (map Inr xs) = map Inr (dropWhile P xs)"
  by (induction xs) auto

lemma stake_while_pure [stream_simps]: "stake_while P (map Inr xs) = map Inr (takeWhile P xs)"
  by (induction xs) auto

lemma sunique_from_pure: "sunique_from seen (map Inr xs) = map Inr (unique_from seen xs)"
  by (induction xs arbitrary: seen) auto

lemma sunique_pure [stream_simps]: "sunique (map Inr xs) = map Inr (unique xs)"
  by (simp add: sunique_def unique_def sunique_from_pure)

lemma set_unique_from: "set (unique_from seen xs) = set xs - set seen"
  by (induction xs arbitrary: seen) auto

lemma set_unique [simp]: "set (unique xs) = set xs"
  by (simp add: unique_def set_unique_from)

lemma distinct_unique_from: "distinct (unique_from seen xs)"
  by (induction xs arbitrary: seen) (auto simp: set_unique_from)

lemma distinct_unique [simp]: "distinct (unique xs)"
  by (simp add: unique_def distinct_unique_from)

lemma subseq_unique_from: "subseq (unique_from seen xs) xs"
  by (induction xs arbitrary: seen) auto

lemma subseq_unique: "subseq (unique xs) xs"
  by (simp add: unique_def subseq_unique_from)

lemma length_unique_le: "length (unique xs) \<le> length xs"
  using subseq_unique by (rule list_emb_length)

section \<open>Hash maps and hash sets\<close>

text \<open>
  A \<^verbatim>\<open>HashMap\<close> is an association list with distinct keys, read with \<open>map_of\<close>; its iteration order,
  which Rust leaves unspecified, is the order of the list. A \<^verbatim>\<open>HashSet\<close> is a set, or a list when
  the code iterates over it.
\<close>

type_synonym ('k, 'v) hashmap = "('k \<times> 'v) list"

abbreviation hm_get :: "('k, 'v) hashmap \<Rightarrow> 'k \<Rightarrow> 'v option" where
  "hm_get \<equiv> map_of"

abbreviation hm_insert :: "'k \<Rightarrow> 'v \<Rightarrow> ('k, 'v) hashmap \<Rightarrow> ('k, 'v) hashmap" where
  "hm_insert \<equiv> AList.update"

abbreviation hm_remove :: "'k \<Rightarrow> ('k, 'v) hashmap \<Rightarrow> ('k, 'v) hashmap" where
  "hm_remove \<equiv> AList.delete"

definition hm_ok :: "('k, 'v) hashmap \<Rightarrow> bool" where
  "hm_ok m = distinct (map fst m)"

definition hm_collect :: "('k \<times> 'v) list \<Rightarrow> ('k, 'v) hashmap" where
  "hm_collect kvs = fold (\<lambda>(k, v). hm_insert k v) kvs []"

lemma hm_ok_Nil [simp, intro]: "hm_ok []"
  by (simp add: hm_ok_def)

lemma hm_ok_insert [simp]: "hm_ok m \<Longrightarrow> hm_ok (hm_insert k v m)"
  by (simp add: hm_ok_def distinct_update)

lemma hm_ok_remove [simp]: "hm_ok m \<Longrightarrow> hm_ok (hm_remove k m)"
  by (simp add: hm_ok_def distinct_delete)

lemma hm_ok_filter [simp]: "hm_ok m \<Longrightarrow> hm_ok (filter P m)"
  by (simp add: hm_ok_def distinct_map_filter)

lemma hm_get_insert [simp]: "hm_get (hm_insert k v m) = (hm_get m)(k \<mapsto> v)"
  by (rule update_conv')

lemma hm_get_remove [simp]: "hm_get (hm_remove k m) = (hm_get m)(k := None)"
  by (rule delete_conv')

lemma hm_get_Some_iff: "hm_ok m \<Longrightarrow> hm_get m k = Some v \<longleftrightarrow> (k, v) \<in> set m"
  by (simp add: hm_ok_def)

lemma hm_get_fold_insert:
  "hm_get (fold (\<lambda>(k, v). hm_insert k v) kvs m) = hm_get m ++ map_of (rev kvs)"
  by (induction kvs arbitrary: m) (auto simp: map_add_def fun_eq_iff split: option.split)

lemma hm_get_collect: "hm_get (hm_collect kvs) = map_of (rev kvs)"
  by (simp add: hm_collect_def hm_get_fold_insert)

lemma hm_get_collect_distinct:
  assumes "distinct (map fst kvs)"
  shows "hm_get (hm_collect kvs) k = Some v \<longleftrightarrow> (k, v) \<in> set kvs"
proof -
  have "distinct (map fst (rev kvs))"
    using assms by (simp only: rev_map [symmetric] distinct_rev)
  then have "map_of (rev kvs) k = Some v \<longleftrightarrow> (k, v) \<in> set (rev kvs)"
    by (rule map_of_eq_Some_iff)
  then show ?thesis by (simp add: hm_get_collect)
qed

lemma hm_ok_fold_insert: "hm_ok m \<Longrightarrow> hm_ok (fold (\<lambda>(k, v). hm_insert k v) kvs m)"
  by (induction kvs arbitrary: m) auto

lemma hm_ok_collect [simp]: "hm_ok (hm_collect kvs)"
  by (simp add: hm_collect_def hm_ok_fold_insert)

section \<open>Byte codecs\<close>

text \<open>
  A decoder reads a value off the front of a byte string. \<open>decodes p bs x\<close> says that \<open>p\<close> reads \<open>x\<close>
  from \<open>bs\<close> whatever follows, so that decoders compose.
\<close>

type_synonym 'a decoder = "bytes \<Rightarrow> ('a \<times> bytes) option"

definition decodes :: "'a decoder \<Rightarrow> bytes \<Rightarrow> 'a \<Rightarrow> bool" where
  "decodes p bs x \<longleftrightarrow> (\<forall>rest. p (bs @ rest) = Some (x, rest))"

definition d_ret :: "'a \<Rightarrow> 'a decoder" where
  "d_ret x = (\<lambda>bs. Some (x, bs))"

definition d_bind :: "'a decoder \<Rightarrow> ('a \<Rightarrow> 'b decoder) \<Rightarrow> 'b decoder" where
  "d_bind p f = (\<lambda>bs. case p bs of None \<Rightarrow> None | Some (x, rest) \<Rightarrow> f x rest)"

fun d_u8 :: "u8 decoder" where
  "d_u8 [] = None"
| "d_u8 (b # bs) = Some (b, bs)"

definition d_bytes :: "nat \<Rightarrow> bytes decoder" where
  "d_bytes n = (\<lambda>bs. if n \<le> length bs then Some (take n bs, drop n bs) else None)"

definition d_hash :: "hash decoder" where
  "d_hash = d_bind (d_bytes 32) (\<lambda>bs. d_ret (bytes_hash bs))"

fun d_many :: "nat \<Rightarrow> 'a decoder \<Rightarrow> 'a list decoder" where
  "d_many 0 p = d_ret []"
| "d_many (Suc n) p = d_bind p (\<lambda>x. d_bind (d_many n p) (\<lambda>xs. d_ret (x # xs)))"

text \<open>Reading a whole message, with (\<open>d_prefix\<close>) and without (\<open>d_all\<close>) bytes left over.\<close>

definition d_prefix :: "'a decoder \<Rightarrow> bytes \<Rightarrow> 'a option" where
  "d_prefix p bs = map_option fst (p bs)"

definition d_all :: "'a decoder \<Rightarrow> bytes \<Rightarrow> 'a option" where
  "d_all p bs = (case p bs of Some (x, []) \<Rightarrow> Some x | _ \<Rightarrow> None)"

named_theorems decode_simps \<open>running a decoder on what was encoded\<close>

lemma d_bind_decodes: "decodes p bs x \<Longrightarrow> d_bind p f (bs @ rest) = f x rest"
  by (simp add: decodes_def d_bind_def)

lemma decodesI: "(\<And>rest. p (bs @ rest) = Some (x, rest)) \<Longrightarrow> decodes p bs x"
  by (simp add: decodes_def)

lemma decodesD: "decodes p bs x \<Longrightarrow> p (bs @ rest) = Some (x, rest)"
  by (simp add: decodes_def)

lemma decodes_bind:
  "decodes p bs x \<Longrightarrow> decodes (f x) cs y \<Longrightarrow> decodes (d_bind p f) (bs @ cs) y"
  by (simp add: decodes_def d_bind_def)

lemma d_bind_u8 [decode_simps]: "d_bind d_u8 f (b # bs) = f b bs"
  by (simp add: d_bind_def)

lemma d_ret_apply [decode_simps]: "d_ret x bs = Some (x, bs)"
  by (simp add: d_ret_def)

lemma d_bind_assoc: "d_bind (d_bind p f) g = d_bind p (\<lambda>x. d_bind (f x) g)"
  by (simp add: d_bind_def fun_eq_iff split: option.split)

lemma decodes_bytes: "length bs = n \<Longrightarrow> decodes (d_bytes n) bs bs"
  by (simp add: decodes_def d_bytes_def)

lemma decodes_hash: "decodes d_hash (hash_bytes h) h"
  by (simp add: decodes_def d_hash_def d_bind_decodes [OF decodes_bytes] decode_simps)

lemmas d_bind_hash [decode_simps] = d_bind_decodes [OF decodes_hash]

lemma d_bind_bytes_u32 [decode_simps]: "d_bind (d_bytes 4) f (u32_to_be_bytes w @ rest) = f (u32_to_be_bytes w) rest"
  by (rule d_bind_decodes) (simp add: decodes_bytes)

lemma decodes_bind_ret: "decodes p bs x \<Longrightarrow> decodes (d_bind p (\<lambda>x. d_ret (f x))) bs (f x)"
  by (simp add: decodes_def d_bind_def d_ret_def)

lemma decodes_many:
  "(\<And>x. x \<in> set xs \<Longrightarrow> decodes p (e x) x) \<Longrightarrow> decodes (d_many (length xs) p) (concat (map e xs)) xs"
proof (induction xs)
  case Nil
  then show ?case by (simp add: decodes_def decode_simps)
next
  case (Cons x xs)
  then have "decodes (d_many (length xs) p) (concat (map e xs)) xs" "decodes p (e x) x" by simp_all
  then show ?case
    by (intro decodesI) (simp add: d_bind_decodes decode_simps)
qed

lemma decodes_inject:
  assumes "\<And>x. decodes p (e x) x"
  shows "e x @ a = e y @ b \<longleftrightarrow> x = y \<and> a = b"
proof
  assume eq: "e x @ a = e y @ b"
  have "p (e x @ a) = Some (x, a)" by (rule decodesD [OF assms])
  moreover have "p (e x @ a) = Some (y, b)" unfolding eq by (rule decodesD [OF assms])
  ultimately show "x = y \<and> a = b" by simp
next
  assume "x = y \<and> a = b"
  then show "e x @ a = e y @ b" by blast
qed

lemma d_prefix_decodes: "decodes p bs x \<Longrightarrow> d_prefix p (bs @ rest) = Some x"
  by (simp add: decodes_def d_prefix_def)

lemma d_all_decodes: "decodes p bs x \<Longrightarrow> d_all p bs = Some x"
proof -
  assume "decodes p bs x"
  then have "p (bs @ []) = Some (x, [])" unfolding decodes_def by (rule spec)
  then show ?thesis by (simp add: d_all_def)
qed

end
