(* ===== verification/Chain.thy ===== *)
theory Chain
  imports Prelude
begin

text \<open>
  The chain data types the program shares (\<^verbatim>\<open>src/src/chain.rs\<close>): scripts, colour identifiers,
  transactions, headers and blocks with the fields the program reads, and the network selection.
  The types come from the tapyrus library; their behaviour beyond field access is a parameter
  (theory \<open>Externals\<close>).
\<close>

section \<open>Scripts and colour identifiers\<close>

type_synonym script = bytes

text \<open>\<^verbatim>\<open>ColorIdentifier\<close>: a token type byte and a 32-byte payload; the default has type NONE.\<close>

datatype color = ColorId (token_type: u8) (payload: hash)

abbreviation default_color :: color where
  "default_color \<equiv> ColorId 0 0"

section \<open>Transactions\<close>

record outpoint =
  op_txid :: txid
  op_vout :: u32

record txin =
  txi_previous_output :: outpoint
  txi_script_sig :: script
  txi_sequence :: u32
  txi_witness :: "bytes list"

record txout =
  txo_value :: u64
  txo_script_pubkey :: script

record transaction =
  tx_version :: u32
  tx_lock_time :: u32
  tx_input :: "txin list"
  tx_output :: "txout list"

section \<open>Blocks\<close>

text \<open>\<^verbatim>\<open>XField\<close>: the program only distinguishes the absent extra field from the others.\<close>

datatype xfield = XFieldNone | XFieldSome bytes

record block_header =
  bh_version :: u32
  bh_prev_blockhash :: blockhash
  bh_merkle_root :: hash
  bh_im_merkle_root :: hash
  bh_time :: u32
  bh_xfield :: xfield
  bh_proof :: "bytes option"

record block =
  blk_header :: block_header
  blk_txdata :: "transaction list"

section \<open>Networks\<close>

text \<open>\<^verbatim>\<open>enum NetworkType\<close> and \<^verbatim>\<open>struct Network\<close>; the library's own \<^verbatim>\<open>BNetwork\<close> has the same two cases.\<close>

datatype network_type = Prod | Dev

datatype bnetwork = BProd | BDev

record network =
  network_type :: network_type
  network_id :: u32

definition network_type_names :: "string list" where
  "network_type_names = [''prod'', ''dev'']"

definition network_type_new :: "string \<Rightarrow> network_type res" where
  "network_type_new network_name =
     (if network_name = ''prod'' then Inr Prod
      else if network_name = ''dev'' then Inr Dev
      else panic ''unsupported Tapyrus network'')"

definition network_new :: "string \<Rightarrow> u32 \<Rightarrow> network res" where
  "network_new ty i =
     and_then (network_type_new ty) (\<lambda>t. Inr \<lparr>network_type = t, network_id = i\<rparr>)"

fun bnetwork_from_network :: "network \<Rightarrow> bnetwork" where
  "bnetwork_from_network n = (case network_type n of Prod \<Rightarrow> BProd | Dev \<Rightarrow> BDev)"

fun network_type_from_bnetwork :: "bnetwork \<Rightarrow> network_type" where
  "network_type_from_bnetwork BProd = Prod"
| "network_type_from_bnetwork BDev = Dev"

lemma network_type_roundtrip [simp]:
  "network_type_from_bnetwork (bnetwork_from_network n) = network_type n"
  by (cases "network_type n") simp_all

lemma network_type_new_iff: "(\<exists>t. network_type_new s = Inr t) \<longleftrightarrow> s \<in> set network_type_names"
  by (auto simp: network_type_new_def network_type_names_def)

end
