(* ===== verification/Externals.thy ===== *)
theory Externals
  imports Chain
begin

text \<open>
  The interface to code that is not in the repository: the tapyrus library, bincode and RocksDB.
  Each is a record of functions the model is parameterised by; what the program relies on is stated
  as the assumptions of a locale, and each locale has an interpretation on a reference instance.
\<close>

section \<open>The tapyrus library\<close>

datatype instruction = PushBytes bytes | Op u8

record tapyrus =
  malfix_txid :: "transaction \<Rightarrow> txid"
  block_hash :: "block_header \<Rightarrow> blockhash"
  tx_is_coin_base :: "transaction \<Rightarrow> bool"
  tx_get_weight :: "transaction \<Rightarrow> nat"
  tx_get_size :: "transaction \<Rightarrow> nat"
  block_get_weight :: "block \<Rightarrow> nat"
  split_color :: "script \<Rightarrow> (color \<times> script) option"
  is_provably_unspendable :: "script \<Rightarrow> bool"
  is_op_return :: "script \<Rightarrow> bool"
  is_p2pk :: "script \<Rightarrow> bool"
  is_p2pkh :: "script \<Rightarrow> bool"
  is_p2sh :: "script \<Rightarrow> bool"
  is_cp2pkh :: "script \<Rightarrow> bool"
  is_cp2sh :: "script \<Rightarrow> bool"
  is_v0_p2wsh :: "script \<Rightarrow> bool"
  script_is_colored :: "script \<Rightarrow> bool"
  instructions_minimal :: "script \<Rightarrow> (unit + instruction) list"
  script_debug :: "script \<Rightarrow> string"
  address_from_script :: "script \<Rightarrow> bnetwork \<Rightarrow> string option"
  serialize_tx :: "transaction \<Rightarrow> bytes"
  deserialize_tx :: "bytes \<Rightarrow> transaction option"
  serialize_txout :: "txout \<Rightarrow> bytes"
  deserialize_txout :: "bytes \<Rightarrow> txout option"
  serialize_header :: "block_header \<Rightarrow> bytes"
  deserialize_header :: "bytes \<Rightarrow> block_header option"
  serialize_color :: "color \<Rightarrow> bytes"
  color_from_slice :: "bytes \<Rightarrow> color option"
  sha256 :: "bytes \<Rightarrow> hash"
  sha256d :: "bytes \<Rightarrow> hash"
  network_magic :: "u32 \<Rightarrow> u32"

text \<open>
  What the indexer relies on: the consensus encodings can be read back, a colour identifier is
  encoded as its type byte and its payload, and \<^verbatim>\<open>from_slice\<close> is its inverse on the colours of
  coloured scripts; a script is coloured when a colour can be split off it.
\<close>

locale tapyrus_laws =
  fixes T :: tapyrus
  assumes deserialize_serialize_tx: "deserialize_tx T (serialize_tx T tx) = Some tx"
    and deserialize_serialize_txout: "deserialize_txout T (serialize_txout T txo) = Some txo"
    and deserialize_serialize_header: "deserialize_header T (serialize_header T h) = Some h"
    and serialize_color: "serialize_color T c = token_type c # hash_bytes (payload c)"
    and color_from_slice: "split_color T s = Some (c, s') \<Longrightarrow>
      color_from_slice T (token_type c # hash_bytes (payload c)) = Some c"
    and script_is_colored: "script_is_colored T s \<longleftrightarrow> split_color T s \<noteq> None"

section \<open>Bincode\<close>

text \<open>
  The program serialises with two configurations of bincode: the default one
  (\<^verbatim>\<open>bincode::serialize\<close>: fixed-width little-endian integers) and
  \<^verbatim>\<open>bincode::options().with_big_endian()\<close> (variable-width big-endian integers). A configuration is
  given by its encoding of an unsigned integer of \<open>w\<close> bytes (\<open>w > 1\<close>; a byte is written as it is in
  both) and of the two library types that have their own \<^verbatim>\<open>Serialize\<close> implementation, hashes and
  colour identifiers. Structs, tuples and arrays are the concatenation of their fields, an enum is
  preceded by its variant number as a \<^verbatim>\<open>u32\<close>, a sequence by its length as a \<^verbatim>\<open>u64\<close>.
\<close>

record bincode =
  bc_int :: "nat \<Rightarrow> nat \<Rightarrow> bytes"
  bc_de_int :: "nat \<Rightarrow> nat decoder"
  bc_hash :: "hash \<Rightarrow> bytes"
  bc_de_hash :: "hash decoder"
  bc_color :: "color \<Rightarrow> bytes"
  bc_de_color :: "color decoder"

definition bc_u16 :: "bincode \<Rightarrow> u16 \<Rightarrow> bytes" where
  "bc_u16 B x = bc_int B 2 (unat x)"

definition bc_u32 :: "bincode \<Rightarrow> u32 \<Rightarrow> bytes" where
  "bc_u32 B x = bc_int B 4 (unat x)"

definition bc_u64 :: "bincode \<Rightarrow> u64 \<Rightarrow> bytes" where
  "bc_u64 B x = bc_int B 8 (unat x)"

definition bc_usize :: "bincode \<Rightarrow> nat \<Rightarrow> bytes" where
  "bc_usize B n = bc_int B 8 n"

definition bc_seq :: "bincode \<Rightarrow> ('a \<Rightarrow> bytes) \<Rightarrow> 'a list \<Rightarrow> bytes" where
  "bc_seq B e xs = bc_usize B (length xs) @ concat (map e xs)"

definition bc_de_u16 :: "bincode \<Rightarrow> u16 decoder" where
  "bc_de_u16 B = d_bind (bc_de_int B 2) (\<lambda>n. d_ret (of_nat n))"

definition bc_de_u32 :: "bincode \<Rightarrow> u32 decoder" where
  "bc_de_u32 B = d_bind (bc_de_int B 4) (\<lambda>n. d_ret (of_nat n))"

definition bc_de_u64 :: "bincode \<Rightarrow> u64 decoder" where
  "bc_de_u64 B = d_bind (bc_de_int B 8) (\<lambda>n. d_ret (of_nat n))"

definition bc_de_usize :: "bincode \<Rightarrow> nat decoder" where
  "bc_de_usize B = bc_de_int B 8"

definition bc_de_seq :: "bincode \<Rightarrow> 'a decoder \<Rightarrow> 'a list decoder" where
  "bc_de_seq B p = d_bind (bc_de_usize B) (\<lambda>n. d_many n p)"

locale bincode_laws =
  fixes B :: bincode
  assumes de_int: "1 < w \<Longrightarrow> w \<le> 8 \<Longrightarrow> n < 256 ^ w \<Longrightarrow> decodes (bc_de_int B w) (bc_int B w n) n"
    and de_hash: "decodes (bc_de_hash B) (bc_hash B h) h"
    and de_color: "decodes (bc_de_color B) (bc_color B c) c"
begin

lemma de_u16: "decodes (bc_de_u16 B) (bc_u16 B x) x"
proof -
  have "unat x < 256 ^ 2" using unat_less_pow [of x] by simp
  then have "decodes (bc_de_u16 B) (bc_u16 B x) (of_nat (unat x))"
    unfolding bc_de_u16_def bc_u16_def by (intro decodes_bind_ret de_int) simp_all
  then show ?thesis by simp
qed

lemma de_u32: "decodes (bc_de_u32 B) (bc_u32 B x) x"
proof -
  have "unat x < 256 ^ 4" using unat_less_pow [of x] by simp
  then have "decodes (bc_de_u32 B) (bc_u32 B x) (of_nat (unat x))"
    unfolding bc_de_u32_def bc_u32_def by (intro decodes_bind_ret de_int) simp_all
  then show ?thesis by simp
qed

lemma de_u64: "decodes (bc_de_u64 B) (bc_u64 B x) x"
proof -
  have "unat x < 256 ^ 8" using unat_less_pow [of x] by simp
  then have "decodes (bc_de_u64 B) (bc_u64 B x) (of_nat (unat x))"
    unfolding bc_de_u64_def bc_u64_def by (intro decodes_bind_ret de_int) simp_all
  then show ?thesis by simp
qed

lemma de_usize: "n < 2 ^ 64 \<Longrightarrow> decodes (bc_de_usize B) (bc_usize B n) n"
  unfolding bc_de_usize_def bc_usize_def by (rule de_int) simp_all

lemma de_seq:
  assumes "length xs < 2 ^ 64" "\<And>x. x \<in> set xs \<Longrightarrow> decodes p (e x) x"
  shows "decodes (bc_de_seq B p) (bc_seq B e xs) xs"
proof -
  have "decodes (d_many (length xs) p) (concat (map e xs)) xs"
    using assms(2) by (rule decodes_many)
  then show ?thesis unfolding bc_de_seq_def bc_seq_def
    by (rule decodes_bind [where f = "\<lambda>n. d_many n p", OF de_usize [OF assms(1)]])
qed

lemmas u16_inject = decodes_inject [of "bc_de_u16 B" "bc_u16 B", OF de_u16]

lemmas color_inject = decodes_inject [of "bc_de_color B" "bc_color B", OF de_color]

lemmas bc_decode_simps =
  d_bind_decodes [OF de_u16] d_bind_decodes [OF de_u32] d_bind_decodes [OF de_u64]
  d_bind_decodes [OF de_usize] d_bind_decodes [OF de_hash] d_bind_decodes [OF de_color]

end

text \<open>
  The big-endian configuration moreover orders integers as their encodings are ordered, whatever
  follows them: this is what makes scans by height possible. No integer starts with the byte 255,
  which the format does not use.
\<close>

locale bincode_ordered = bincode_laws +
  assumes int_order: "1 < w \<Longrightarrow> w \<le> 8 \<Longrightarrow> m < n \<Longrightarrow> n < 256 ^ w \<Longrightarrow> bc_int B w m @ a < bc_int B w n @ b"
    and int_marker: "1 < w \<Longrightarrow> w \<le> 8 \<Longrightarrow> n < 256 ^ w \<Longrightarrow> \<exists>b bs. bc_int B w n = b # bs \<and> b < 255"
begin

lemma u32_order: "v < w \<Longrightarrow> bc_u32 B v @ a < bc_u32 B w @ b"
  unfolding bc_u32_def
  using unat_less_pow [of w] by (intro int_order) (simp_all add: word_less_nat_alt)

lemma u32_order_iff: "v \<noteq> w \<Longrightarrow> bc_u32 B v @ a < bc_u32 B w @ b \<longleftrightarrow> v < w"
  using u32_order [of v w a b] u32_order [of w v b a] by (auto simp: neq_iff)

end

section \<open>RocksDB\<close>

text \<open>
  A database of state \<open>'d\<close>: lookups, batched writes, a forward iterator from a key, the iterator of a
  prefix (items may be errors, here \<open>None\<close>), and the raw iterator after \<^verbatim>\<open>seek_for_prev\<close>, read backwards.
\<close>

type_synonym kv = "bytes \<times> bytes"

record 'd rocksdb =
  rdb_get :: "'d \<Rightarrow> bytes \<Rightarrow> bytes option"
  rdb_put :: "'d \<Rightarrow> bytes \<Rightarrow> bytes \<Rightarrow> 'd"
  rdb_write :: "'d \<Rightarrow> kv list \<Rightarrow> 'd"
  rdb_iter_from :: "'d \<Rightarrow> bytes \<Rightarrow> kv option list"
  rdb_prefix_iter :: "'d \<Rightarrow> bytes \<Rightarrow> kv option list"
  rdb_rev_from :: "'d \<Rightarrow> bytes \<Rightarrow> kv list"

locale rocksdb =
  fixes R :: "'d rocksdb"
  assumes get_put: "rdb_get R (rdb_put R d k v) = (rdb_get R d)(k \<mapsto> v)"
    and get_write: "rdb_get R (rdb_write R d kvs) = rdb_get R d ++ map_of (rev kvs)"
    and iter_from: "\<exists>xs. rdb_iter_from R d k = map Some xs \<and> sorted_wrt (\<lambda>x y. fst x < fst y) xs \<and>
      (\<forall>k' v. (k', v) \<in> set xs \<longleftrightarrow> k \<le> k' \<and> rdb_get R d k' = Some v)"
    and prefix_iter: "\<exists>xs ys. rdb_prefix_iter R d p = map Some (xs @ ys) \<and> sorted_wrt (\<lambda>x y. fst x < fst y) xs \<and>
      (\<forall>k' v. (k', v) \<in> set xs \<longleftrightarrow> prefix p k' \<and> rdb_get R d k' = Some v) \<and>
      (ys \<noteq> [] \<longrightarrow> \<not> prefix p (fst (hd ys)))"
    and rev_from: "sorted_wrt (\<lambda>x y. fst y < fst x) (rdb_rev_from R d k) \<and>
      (\<forall>k' v. (k', v) \<in> set (rdb_rev_from R d k) \<longleftrightarrow> k' \<le> k \<and> rdb_get R d k' = Some v)"

section \<open>The parameters together\<close>

record 'd ext =
  tap :: tapyrus
  bc :: bincode
  bo :: bincode
  rdb :: "'d rocksdb"

end
