(* ===== verification/Reference.thy ===== *)
theory Reference
  imports Externals "HOL-Library.Multiset"
begin

text \<open>
  Reference instances of the external interfaces: bincode's two configurations, written from its
  documented format, a sorted key-value store for RocksDB, and a small instance of the tapyrus
  library. They show that the assumptions made of the external code can hold together, and they
  are what concrete runs of the model use.
\<close>

section \<open>Bincode\<close>

definition le_de_int :: "nat \<Rightarrow> nat decoder" where
  "le_de_int w = d_bind (d_bytes w) (\<lambda>bs. d_ret (be_nat (rev bs)))"

definition color_bytes :: "color \<Rightarrow> bytes" where
  "color_bytes c = token_type c # hash_bytes (payload c)"

definition d_color :: "color decoder" where
  "d_color = d_bind d_u8 (\<lambda>t. d_bind d_hash (\<lambda>h. d_ret (ColorId t h)))"

definition bincode_le :: bincode where
  "bincode_le = \<lparr>
     bc_int = (\<lambda>w n. rev (nat_be w n)), bc_de_int = le_de_int,
     bc_hash = (\<lambda>h. rev (nat_be 8 32) @ hash_bytes h),
     bc_de_hash = d_bind (le_de_int 8) (\<lambda>_. d_hash),
     bc_color = color_bytes, bc_de_color = d_color\<rparr>"

definition varint_be :: "nat \<Rightarrow> bytes" where
  "varint_be n =
     (if n < 251 then [of_nat n]
      else if n < 256 ^ 2 then 251 # nat_be 2 n
      else if n < 256 ^ 4 then 252 # nat_be 4 n
      else 253 # nat_be 8 n)"

definition de_varint_be :: "nat decoder" where
  "de_varint_be = d_bind d_u8 (\<lambda>b.
     if b < 251 then d_ret (unat b)
     else if b = 251 then d_bind (d_bytes 2) (\<lambda>bs. d_ret (be_nat bs))
     else if b = 252 then d_bind (d_bytes 4) (\<lambda>bs. d_ret (be_nat bs))
     else d_bind (d_bytes 8) (\<lambda>bs. d_ret (be_nat bs)))"

definition bincode_be :: bincode where
  "bincode_be = \<lparr>
     bc_int = (\<lambda>w n. varint_be n), bc_de_int = (\<lambda>w. de_varint_be),
     bc_hash = (\<lambda>h. varint_be 32 @ hash_bytes h),
     bc_de_hash = d_bind de_varint_be (\<lambda>_. d_hash),
     bc_color = color_bytes, bc_de_color = d_color\<rparr>"

lemma decodes_le_int: "n < 256 ^ w \<Longrightarrow> decodes (le_de_int w) (rev (nat_be w n)) n"
proof -
  assume n: "n < 256 ^ w"
  have "decodes (le_de_int w) (rev (nat_be w n)) (be_nat (rev (rev (nat_be w n))))"
    unfolding le_de_int_def by (rule decodes_bind_ret) (simp add: decodes_bytes)
  with n show ?thesis by (simp add: be_nat_nat_be)
qed

lemma decodes_color: "decodes d_color (color_bytes c) c"
  by (cases c) (simp add: decodes_def d_color_def color_bytes_def decode_simps)

lemma decodes_be_bytes: "n < 256 ^ w \<Longrightarrow> decodes (d_bind (d_bytes w) (\<lambda>bs. d_ret (be_nat bs))) (nat_be w n) n"
proof -
  assume n: "n < 256 ^ w"
  have "decodes (d_bind (d_bytes w) (\<lambda>bs. d_ret (be_nat bs))) (nat_be w n) (be_nat (nat_be w n))"
    by (rule decodes_bind_ret) (simp add: decodes_bytes)
  with n show ?thesis by (simp add: be_nat_nat_be)
qed

lemma decodes_varint: "n < 256 ^ 8 \<Longrightarrow> decodes de_varint_be (varint_be n) n"
proof -
  assume n: "n < 256 ^ 8"
  show ?thesis
  proof (cases "n < 251")
    case True
    have "unat (of_nat n :: u8) = n" using True by (simp add: unat_of_nat)
    moreover have "(of_nat n :: u8) < 251" using True by (simp add: word_less_nat_alt unat_of_nat)
    ultimately show ?thesis using True
      by (intro decodesI) (simp add: varint_be_def de_varint_be_def decode_simps)
  next
    case False
    note be = decodesD [OF decodes_be_bytes]
    show ?thesis using False n
      by (intro decodesI) (simp add: varint_be_def de_varint_be_def decode_simps be)
  qed
qed

interpretation le: bincode_laws bincode_le
proof unfold_locales
  show "decodes (bc_de_int bincode_le w) (bc_int bincode_le w n) n"
    if "1 < w" "w \<le> 8" "n < 256 ^ w" for w n
    using that by (simp add: bincode_le_def decodes_le_int)
  show "decodes (bc_de_hash bincode_le) (bc_hash bincode_le h) h" for h
    unfolding bincode_le_def bincode.simps
    by (rule decodes_bind [where f = "\<lambda>_. d_hash", OF decodes_le_int decodes_hash]) simp
  show "decodes (bc_de_color bincode_le) (bc_color bincode_le c) c" for c
    by (simp add: bincode_le_def decodes_color)
qed

lemma varint_order: "m < n \<Longrightarrow> n < 256 ^ 8 \<Longrightarrow> varint_be m @ a < varint_be n @ b"
proof -
  assume m: "m < n" and n: "n < 256 ^ 8"
  have same: "nat_be w m @ a < nat_be w n @ b" if "n < 256 ^ w" for w
    using that m by (intro append_less_same_length) (simp_all add: nat_be_less)
  show ?thesis
  proof (cases "n < 251")
    case True
    then have "(of_nat m :: u8) < of_nat n"
      using m by (simp add: word_less_nat_alt unat_of_nat)
    with True m show ?thesis by (simp add: varint_be_def)
  next
    case False
    have small: "(of_nat m :: u8) < 251" if "m < 251"
      using that by (simp add: word_less_nat_alt unat_of_nat)
    then have less: "(of_nat m :: u8) < 252" "(of_nat m :: u8) < 253" if "m < 251"
      using that by (auto intro: less_trans)
    show ?thesis
      using False m n same [of 2] same [of 4] same [of 8] small less
      by (auto simp: varint_be_def)
  qed
qed

interpretation be: bincode_ordered bincode_be
proof unfold_locales
  have le: "(256::nat) ^ w \<le> 256 ^ 8" if "w \<le> 8" for w :: nat
    using that by (intro power_increasing) simp_all
  show "decodes (bc_de_int bincode_be w) (bc_int bincode_be w n) n"
    if "1 < w" "w \<le> 8" "n < 256 ^ w" for w n
    using that le [of w] by (simp add: bincode_be_def decodes_varint)
  show "decodes (bc_de_hash bincode_be) (bc_hash bincode_be h) h" for h
    unfolding bincode_be_def bincode.simps
    by (rule decodes_bind [where f = "\<lambda>_. d_hash", OF decodes_varint decodes_hash]) simp
  show "decodes (bc_de_color bincode_be) (bc_color bincode_be c) c" for c
    by (simp add: bincode_be_def decodes_color)
  show "bc_int bincode_be w m @ a < bc_int bincode_be w n @ b"
    if "1 < w" "w \<le> 8" "m < n" "n < 256 ^ w" for w m n a b
    using that le [of w] by (simp add: bincode_be_def varint_order)
  show "\<exists>b bs. bc_int bincode_be w n = b # bs \<and> b < 255" for w n :: nat
  proof (cases "n < 251")
    case True
    then have "(of_nat n :: u8) < 255" by (simp add: word_less_nat_alt unat_of_nat)
    with True show ?thesis by (simp add: bincode_be_def varint_be_def)
  qed (auto simp: bincode_be_def varint_be_def)
qed

section \<open>RocksDB\<close>

text \<open>The state is a list of entries, the newest first; reading sorts it by key.\<close>

definition kv_sorted :: "kv list \<Rightarrow> kv list" where
  "kv_sorted d = sort_key fst (AList.clearjunk d)"

definition kv_iter_from :: "kv list \<Rightarrow> bytes \<Rightarrow> kv list" where
  "kv_iter_from d k = filter (\<lambda>e. k \<le> fst e) (kv_sorted d)"

definition rocksdb_ref :: "kv list rocksdb" where
  "rocksdb_ref = \<lparr>
     rdb_get = map_of, rdb_put = (\<lambda>d k v. (k, v) # d), rdb_write = (\<lambda>d kvs. rev kvs @ d),
     rdb_iter_from = (\<lambda>d k. map Some (kv_iter_from d k)),
     rdb_prefix_iter = (\<lambda>d p. map Some (kv_iter_from d p)),
     rdb_rev_from = (\<lambda>d k. rev (filter (\<lambda>e. fst e \<le> k) (kv_sorted d)))\<rparr>"

lemma set_kv_sorted: "(k, v) \<in> set (kv_sorted d) \<longleftrightarrow> map_of d k = Some v"
proof -
  have "(k, v) \<in> set (AList.clearjunk d) \<longleftrightarrow> map_of (AList.clearjunk d) k = Some v"
    by (simp add: distinct_clearjunk)
  then show ?thesis by (simp add: kv_sorted_def map_of_clearjunk)
qed

lemma sorted_kv_sorted: "sorted_wrt (\<lambda>x y. fst x < fst y) (kv_sorted d)"
proof -
  have "sorted (map fst (kv_sorted d))" by (simp add: kv_sorted_def)
  moreover have "distinct (map fst (kv_sorted d))"
  proof -
    have "mset (map fst (kv_sorted d)) = mset (map fst (AList.clearjunk d))"
      by (simp add: kv_sorted_def)
    then show ?thesis using distinct_clearjunk mset_eq_imp_distinct_iff by blast
  qed
  ultimately have "sorted_wrt (<) (map fst (kv_sorted d))"
    by (simp add: strict_sorted_iff)
  then show ?thesis by (simp add: sorted_wrt_map)
qed

lemma sorted_prefix_split:
  fixes es :: "('k::linorder list \<times> 'v) list"
  assumes "sorted_wrt (\<lambda>x y. fst x < fst y) es" "\<And>e. e \<in> set es \<Longrightarrow> p \<le> fst e"
  shows "filter (\<lambda>e. prefix p (fst e)) es = takeWhile (\<lambda>e. prefix p (fst e)) es"
  using assms
proof (induction es)
  case Nil
  then show ?case by simp
next
  case (Cons e es)
  have "\<not> prefix p (fst e')" if e: "\<not> prefix p (fst e)" and e': "e' \<in> set es" for e'
  proof
    assume "prefix p (fst e')"
    moreover have "p \<le> fst e" "fst e < fst e'" using Cons.prems e' by simp_all
    ultimately show False using prefix_less_beyond [of p "fst e'" "fst e"] e by simp
  qed
  then have "filter (\<lambda>e. prefix p (fst e)) es = []" if "\<not> prefix p (fst e)"
    using that by (simp add: filter_empty_conv)
  with Cons show ?case by auto
qed

interpretation ref_db: rocksdb rocksdb_ref
proof unfold_locales
  fix d :: "kv list" and k v :: bytes and kvs :: "kv list"
  show "rdb_get rocksdb_ref (rdb_put rocksdb_ref d k v) = (rdb_get rocksdb_ref d)(k \<mapsto> v)"
    by (simp add: rocksdb_ref_def)
  show "rdb_get rocksdb_ref (rdb_write rocksdb_ref d kvs) = rdb_get rocksdb_ref d ++ map_of (rev kvs)"
    by (simp add: rocksdb_ref_def)
  have sorted: "sorted_wrt (\<lambda>x y. fst x < fst y) (kv_iter_from d k)"
    unfolding kv_iter_from_def by (rule sorted_wrt_filter) (rule sorted_kv_sorted)
  have mem: "(k', v) \<in> set (kv_iter_from d k) \<longleftrightarrow> k \<le> k' \<and> map_of d k' = Some v" for k k' v
    by (auto simp: kv_iter_from_def set_kv_sorted)
  show "\<exists>xs. rdb_iter_from rocksdb_ref d k = map Some xs \<and> sorted_wrt (\<lambda>x y. fst x < fst y) xs \<and>
      (\<forall>k' v. (k', v) \<in> set xs \<longleftrightarrow> k \<le> k' \<and> rdb_get rocksdb_ref d k' = Some v)"
  proof (intro exI conjI)
    show "rdb_iter_from rocksdb_ref d k = map Some (kv_iter_from d k)"
      by (simp add: rocksdb_ref_def)
    show "\<forall>k' v. (k', v) \<in> set (kv_iter_from d k) \<longleftrightarrow> k \<le> k' \<and> rdb_get rocksdb_ref d k' = Some v"
      by (simp add: rocksdb_ref_def mem)
  qed (rule sorted)
  let ?xs = "takeWhile (\<lambda>e. prefix k (fst e)) (kv_iter_from d k)"
  let ?ys = "dropWhile (\<lambda>e. prefix k (fst e)) (kv_iter_from d k)"
  have "?xs = filter (\<lambda>e. prefix k (fst e)) (kv_iter_from d k)"
    by (rule sorted_prefix_split [symmetric, OF sorted]) (auto simp: kv_iter_from_def)
  then have "(k', v) \<in> set ?xs \<longleftrightarrow> (k \<le> k' \<and> map_of d k' = Some v) \<and> prefix k k'" for k' v
    by (simp only: set_filter mem_Collect_eq fst_conv mem)
  then have "(k', v) \<in> set ?xs \<longleftrightarrow> prefix k k' \<and> map_of d k' = Some v" for k' v
    using prefix_le [of k k'] by blast
  moreover have "sorted_wrt (\<lambda>x y. fst x < fst y) ?xs"
    using sorted by (rule sorted_wrt_takeWhile)
  moreover have "\<not> prefix k (fst (hd ?ys))" if "?ys \<noteq> []"
    using that by (rule hd_dropWhile)
  ultimately show "\<exists>xs ys. rdb_prefix_iter rocksdb_ref d k = map Some (xs @ ys) \<and>
      sorted_wrt (\<lambda>x y. fst x < fst y) xs \<and>
      (\<forall>k' v. (k', v) \<in> set xs \<longleftrightarrow> prefix k k' \<and> rdb_get rocksdb_ref d k' = Some v) \<and>
      (ys \<noteq> [] \<longrightarrow> \<not> prefix k (fst (hd ys)))"
    by (intro exI [of _ ?xs] exI [of _ ?ys] conjI) (simp_all add: rocksdb_ref_def)
  show "sorted_wrt (\<lambda>x y. fst y < fst x) (rdb_rev_from rocksdb_ref d k) \<and>
      (\<forall>k' v. (k', v) \<in> set (rdb_rev_from rocksdb_ref d k) \<longleftrightarrow> k' \<le> k \<and> rdb_get rocksdb_ref d k' = Some v)"
    using sorted_wrt_filter [OF sorted_kv_sorted, of "\<lambda>e. fst e \<le> k" d]
    by (auto simp: rocksdb_ref_def sorted_wrt_rev set_kv_sorted)
qed

section \<open>The tapyrus library\<close>

text \<open>
  A small instance with the script format of coloured outputs, a self-delimiting encoding of
  transactions and headers, and cheap functions in place of the cryptographic hashes, of which
  nothing is assumed: a header is named by its time and a transaction by its lock time, so that
  concrete runs stay readable.
\<close>

definition enc_list :: "('a \<Rightarrow> bytes) \<Rightarrow> 'a list \<Rightarrow> bytes" where
  "enc_list e xs = concat (map (\<lambda>x. 1 # e x) xs) @ [0]"

fun d_list_fuel :: "nat \<Rightarrow> 'a decoder \<Rightarrow> 'a list decoder" where
  "d_list_fuel 0 p = (\<lambda>_. None)"
| "d_list_fuel (Suc n) p = d_bind d_u8 (\<lambda>b. if b = 0 then d_ret []
     else d_bind p (\<lambda>x. d_bind (d_list_fuel n p) (\<lambda>xs. d_ret (x # xs))))"

definition d_list :: "'a decoder \<Rightarrow> 'a list decoder" where
  "d_list p = (\<lambda>bs. d_list_fuel (length bs) p bs)"

definition d_u32 :: "u32 decoder" where
  "d_u32 = d_bind (d_bytes 4) (\<lambda>bs. d_ret (u32_from_be_bytes bs))"

definition d_u64 :: "u64 decoder" where
  "d_u64 = d_bind (d_bytes 8) (\<lambda>bs. d_ret (of_nat (be_nat bs)))"

lemma decodes_u32: "decodes d_u32 (u32_to_be_bytes w) w"
  by (intro decodesI) (simp add: d_u32_def decode_simps)

lemma decodes_u64: "decodes d_u64 (nat_be 8 (unat (w :: u64))) w"
proof -
  have "unat w < 256 ^ 8" using unat_less_pow [of w] by simp
  then show ?thesis
    by (intro decodesI) (simp add: d_u64_def d_bind_decodes [OF decodes_bytes] decode_simps be_nat_nat_be)
qed

lemma d_list_fuel_enc:
  "(\<And>x. x \<in> set xs \<Longrightarrow> decodes p (e x) x) \<Longrightarrow> length xs < n \<Longrightarrow>
   d_list_fuel n p (enc_list e xs @ rest) = Some (xs, rest)"
proof (induction xs arbitrary: n)
  case Nil
  then show ?case by (cases n) (simp_all add: enc_list_def decode_simps)
next
  case (Cons x xs)
  then obtain m where n: "n = Suc m" "length xs < m" by (cases n) auto
  have "d_list_fuel m p (enc_list e xs @ rest) = Some (xs, rest)" using Cons n by simp
  then have "d_list_fuel m p (concat (map (\<lambda>x. 1 # e x) xs) @ 0 # rest) = Some (xs, rest)"
    by (simp add: enc_list_def)
  with n Cons.prems(1) [of x] show ?case
    by (simp add: enc_list_def decode_simps d_bind_decodes) (simp add: d_bind_def decode_simps)
qed

lemma decodes_list:
  assumes "\<And>x. decodes p (e x) x"
  shows "decodes (d_list p) (enc_list e xs) xs"
proof (rule decodesI)
  fix rest
  have "length xs \<le> length (concat (map (\<lambda>x. (1::u8) # e x) xs))" by (induction xs) auto
  then have "length xs < length (enc_list e xs @ rest)" by (simp add: enc_list_def)
  with assms show "d_list p (enc_list e xs @ rest) = Some (xs, rest)"
    unfolding d_list_def by (intro d_list_fuel_enc)
qed

definition enc_bytes :: "bytes \<Rightarrow> bytes" where
  "enc_bytes = enc_list (\<lambda>b. [b])"

definition d_enc_bytes :: "bytes decoder" where
  "d_enc_bytes = d_list d_u8"

lemma decodes_enc_bytes: "decodes d_enc_bytes (enc_bytes bs) bs"
  unfolding d_enc_bytes_def enc_bytes_def
  by (rule decodes_list) (simp add: decodes_def)

definition enc_txout :: "txout \<Rightarrow> bytes" where
  "enc_txout o' = nat_be 8 (unat (txo_value o')) @ enc_bytes (txo_script_pubkey o')"

definition d_txout :: "txout decoder" where
  "d_txout = d_bind d_u64 (\<lambda>v. d_bind d_enc_bytes (\<lambda>s. d_ret \<lparr>txo_value = v, txo_script_pubkey = s\<rparr>))"

definition enc_txin :: "txin \<Rightarrow> bytes" where
  "enc_txin i = hash_bytes (op_txid (txi_previous_output i)) @ u32_to_be_bytes (op_vout (txi_previous_output i)) @
     enc_bytes (txi_script_sig i) @ u32_to_be_bytes (txi_sequence i) @ enc_list enc_bytes (txi_witness i)"

definition d_txin :: "txin decoder" where
  "d_txin = d_bind d_hash (\<lambda>t. d_bind d_u32 (\<lambda>v. d_bind d_enc_bytes (\<lambda>s. d_bind d_u32 (\<lambda>q.
     d_bind (d_list d_enc_bytes) (\<lambda>w. d_ret
       \<lparr>txi_previous_output = \<lparr>op_txid = t, op_vout = v\<rparr>, txi_script_sig = s, txi_sequence = q,
        txi_witness = w\<rparr>)))))"

definition enc_tx :: "transaction \<Rightarrow> bytes" where
  "enc_tx t = u32_to_be_bytes (tx_version t) @ u32_to_be_bytes (tx_lock_time t) @
     enc_list enc_txin (tx_input t) @ enc_list enc_txout (tx_output t)"

definition d_tx :: "transaction decoder" where
  "d_tx = d_bind d_u32 (\<lambda>v. d_bind d_u32 (\<lambda>l. d_bind (d_list d_txin) (\<lambda>is. d_bind (d_list d_txout) (\<lambda>os.
     d_ret \<lparr>tx_version = v, tx_lock_time = l, tx_input = is, tx_output = os\<rparr>))))"

definition enc_header :: "block_header \<Rightarrow> bytes" where
  "enc_header h = u32_to_be_bytes (bh_version h) @ hash_bytes (bh_prev_blockhash h) @
     hash_bytes (bh_merkle_root h) @ hash_bytes (bh_im_merkle_root h) @ u32_to_be_bytes (bh_time h) @
     enc_list enc_bytes (case bh_xfield h of XFieldNone \<Rightarrow> [] | XFieldSome b \<Rightarrow> [b]) @
     enc_list enc_bytes (case bh_proof h of None \<Rightarrow> [] | Some b \<Rightarrow> [b])"

definition d_header :: "block_header decoder" where
  "d_header = d_bind d_u32 (\<lambda>v. d_bind d_hash (\<lambda>p. d_bind d_hash (\<lambda>m. d_bind d_hash (\<lambda>i.
     d_bind d_u32 (\<lambda>t. d_bind (d_list d_enc_bytes) (\<lambda>x. d_bind (d_list d_enc_bytes) (\<lambda>s. d_ret
       \<lparr>bh_version = v, bh_prev_blockhash = p, bh_merkle_root = m, bh_im_merkle_root = i, bh_time = t,
        bh_xfield = (case x of [] \<Rightarrow> XFieldNone | b # _ \<Rightarrow> XFieldSome b),
        bh_proof = (case s of [] \<Rightarrow> None | b # _ \<Rightarrow> Some b)\<rparr>)))))))"

lemmas ref_decodes =
  d_bind_decodes [OF decodes_u32] d_bind_decodes [OF decodes_u64] d_bind_decodes [OF decodes_enc_bytes]
  d_bind_decodes [OF decodes_list [OF decodes_enc_bytes]] decode_simps

lemma decodes_txout: "decodes d_txout (enc_txout x) x"
  by (intro decodesI) (simp add: d_txout_def enc_txout_def ref_decodes)

lemma decodes_txin: "decodes d_txin (enc_txin x) x"
  by (intro decodesI) (simp add: d_txin_def enc_txin_def ref_decodes)

lemma decodes_tx: "decodes d_tx (enc_tx x) x"
  by (intro decodesI)
    (simp add: d_tx_def enc_tx_def ref_decodes d_bind_decodes [OF decodes_list [OF decodes_txin]]
      d_bind_decodes [OF decodes_list [OF decodes_txout]])

lemma decodes_header: "decodes d_header (enc_header x) x"
  by (intro decodesI)
    (simp add: d_header_def enc_header_def ref_decodes split: xfield.split option.split)

definition ref_sha256 :: "bytes \<Rightarrow> hash" where
  "ref_sha256 bs = of_nat (be_nat bs mod (2 ^ 256 - 189))"

definition color_types :: "u8 list" where
  "color_types = [0xc1, 0xc2, 0xc3]"

text \<open>A coloured script: push of 33 bytes, the colour identifier, \<^verbatim>\<open>OP_COLOR\<close>, the script proper.\<close>

definition ref_split_color :: "script \<Rightarrow> (color \<times> script) option" where
  "ref_split_color s =
     (if 35 \<le> length s \<and> hd s = 0x21 \<and> s ! 1 \<in> set color_types \<and> s ! 34 = 0xbc
      then Some (ColorId (s ! 1) (bytes_hash (take 32 (drop 2 s))), drop 35 s) else None)"

definition ref_color_from_slice :: "bytes \<Rightarrow> color option" where
  "ref_color_from_slice bs =
     (if length bs = 33 \<and> hd bs \<in> set color_types then Some (ColorId (hd bs) (bytes_hash (tl bs))) else None)"

definition tapyrus_ref :: tapyrus where
  "tapyrus_ref = \<lparr>
     malfix_txid = (\<lambda>t. ucast (tx_lock_time t)), block_hash = (\<lambda>h. ucast (bh_time h)),
     tx_is_coin_base = (\<lambda>t. length (tx_input t) = 1 \<and> op_txid (txi_previous_output (hd (tx_input t))) = 0),
     tx_get_weight = (\<lambda>t. 4 * length (enc_tx t)), tx_get_size = (\<lambda>t. length (enc_tx t)),
     block_get_weight = (\<lambda>b. length (blk_txdata b)),
     split_color = ref_split_color,
     is_provably_unspendable = (\<lambda>s. s \<noteq> [] \<and> hd s = 0x6a),
     is_op_return = (\<lambda>s. s \<noteq> [] \<and> hd s = 0x6a),
     is_p2pk = (\<lambda>s. s \<noteq> [] \<and> hd s = 0x41),
     is_p2pkh = (\<lambda>s. s \<noteq> [] \<and> hd s = 0x76), is_p2sh = (\<lambda>s. s \<noteq> [] \<and> hd s = 0xa9),
     is_cp2pkh = (\<lambda>s. case ref_split_color s of None \<Rightarrow> False | Some (c, s') \<Rightarrow> s' \<noteq> [] \<and> hd s' = 0x76),
     is_cp2sh = (\<lambda>s. case ref_split_color s of None \<Rightarrow> False | Some (c, s') \<Rightarrow> s' \<noteq> [] \<and> hd s' = 0xa9),
     is_v0_p2wsh = (\<lambda>s. False), script_is_colored = (\<lambda>s. ref_split_color s \<noteq> None),
     instructions_minimal = map (\<lambda>b. Inr (Op b)), script_debug = (\<lambda>s. ''Script()''),
     address_from_script = (\<lambda>s n. if s = [] then None else Some (map (\<lambda>b. char_of (unat b)) s)),
     serialize_tx = enc_tx, deserialize_tx = d_all d_tx,
     serialize_txout = enc_txout, deserialize_txout = d_all d_txout,
     serialize_header = enc_header, deserialize_header = d_all d_header,
     serialize_color = color_bytes, color_from_slice = ref_color_from_slice,
     sha256 = ref_sha256, sha256d = (\<lambda>bs. ref_sha256 bs + 1), network_magic = (\<lambda>i. i)\<rparr>"

interpretation ref_tap: tapyrus_laws tapyrus_ref
proof unfold_locales
  show "serialize_color tapyrus_ref c = token_type c # hash_bytes (payload c)" for c
    by (simp add: tapyrus_ref_def color_bytes_def)
  show "color_from_slice tapyrus_ref (token_type c # hash_bytes (payload c)) = Some c"
    if "split_color tapyrus_ref s = Some (c, s')" for c s s'
    using that by (auto simp: tapyrus_ref_def ref_split_color_def ref_color_from_slice_def split: if_splits)
qed (simp_all add: tapyrus_ref_def d_all_decodes [OF decodes_tx] d_all_decodes [OF decodes_txout]
      d_all_decodes [OF decodes_header])

definition ext_ref :: "kv list ext" where
  "ext_ref = \<lparr>tap = tapyrus_ref, bc = bincode_le, bo = bincode_be, rdb = rocksdb_ref\<rparr>"

end
