(* ===== verification/Headers.thy ===== *)
theory Headers
  imports Reference
begin

text \<open>
  The in-memory chain of block headers (\<^verbatim>\<open>src/src/util/block.rs\<close>): \<open>header_list\<close> with its
  constructor, the ordering of new headers, the (reorganising) \<open>apply\<close>, and the lookups by height
  and by hash. The invariant \<open>hl_ok\<close> says that the list is a linked chain of consecutive heights
  from the null hash to the tip and that every listed block is found under its hash.
\<close>

section \<open>Entries and lists\<close>

record header_entry =
  he_height :: nat
  he_hash :: blockhash
  he_header :: block_header

record header_list =
  hl_headers :: "header_entry list"
  hl_heights :: "(blockhash, nat) hashmap"
  hl_tip :: blockhash

record block_id =
  bid_height :: nat
  bid_hash :: blockhash
  bid_time :: u32

definition block_id_from :: "header_entry \<Rightarrow> block_id" where
  "block_id_from h = \<lparr>bid_height = he_height h, bid_hash = he_hash h, bid_time = bh_time (he_header h)\<rparr>"

definition header_list_empty :: header_list where
  "header_list_empty = \<lparr>hl_headers = [], hl_heights = [], hl_tip = 0\<rparr>"

definition header_by_blockhash :: "header_list \<Rightarrow> blockhash \<Rightarrow> header_entry option" where
  "header_by_blockhash hl h =
     (case hm_get (hl_heights hl) h of
        None \<Rightarrow> None
      | Some height \<Rightarrow>
          if height < length (hl_headers hl)
          then let header = hl_headers hl ! height in if h = he_hash header then Some header else None
          else None)"

definition header_by_height :: "header_list \<Rightarrow> nat \<Rightarrow> header_entry option res" where
  "header_by_height hl height =
     (if height < length (hl_headers hl)
      then let entry = hl_headers hl ! height in
        and_then (assert_res (he_height entry = height) ''entry.height() == height'') (\<lambda>_. Inr (Some entry))
      else Inr None)"

definition header_list_equals :: "header_list \<Rightarrow> header_list \<Rightarrow> bool" where
  "header_list_equals a b \<longleftrightarrow>
     (if hl_headers a = [] \<or> hl_headers b = [] then hl_headers a = [] \<and> hl_headers b = []
      else last (hl_headers a) = last (hl_headers b))"

definition last_hash :: "header_entry list \<Rightarrow> blockhash" where
  "last_hash es = (if es = [] then 0 else he_hash (last es))"

definition header_list_tip :: "header_list \<Rightarrow> blockhash res" where
  "header_list_tip hl =
     and_then (assert_res (hl_tip hl = last_hash (hl_headers hl)) ''tip'') (\<lambda>_. Inr (hl_tip hl))"

definition header_list_len :: "header_list \<Rightarrow> nat" where
  "header_list_len hl = length (hl_headers hl)"

definition header_list_is_empty :: "header_list \<Rightarrow> bool" where
  "header_list_is_empty hl \<longleftrightarrow> hl_headers hl = []"

definition header_list_iter :: "header_list \<Rightarrow> header_entry list" where
  "header_list_iter hl = hl_headers hl"

section \<open>Ordering new headers\<close>

text \<open>The loop \<^verbatim>\<open>for i in 1..len\<close> asserting that every header points to the one before it.\<close>

fun assert_linked :: "(blockhash \<times> block_header) list \<Rightarrow> unit res" where
  "assert_linked (a # b # hs) =
     and_then (assert_res (bh_prev_blockhash (snd b) = fst a) ''prev_blockhash == blockhash'')
       (\<lambda>_. assert_linked (b # hs))"
| "assert_linked _ = Inr ()"

text \<open>\<^verbatim>\<open>(new_height..).zip(hashed_headers).map(HeaderEntry)\<close>.\<close>

fun entries_from :: "nat \<Rightarrow> (blockhash \<times> block_header) list \<Rightarrow> header_entry list" where
  "entries_from n [] = []"
| "entries_from n ((h, header) # hs) =
     \<lparr>he_height = n, he_hash = h, he_header = header\<rparr> # entries_from (Suc n) hs"

definition header_list_order :: "tapyrus \<Rightarrow> header_list \<Rightarrow> block_header list \<Rightarrow> header_entry list res" where
  "header_list_order T hl new_headers =
     (let hashed_headers = map (\<lambda>h. (block_hash T h, h)) new_headers in
      and_then (assert_linked hashed_headers) (\<lambda>_.
        case hashed_headers of
          [] \<Rightarrow> Inr []
        | (_, h) # _ \<Rightarrow>
            and_then
              (if bh_prev_blockhash h = 0 then Inr 0
               else case header_by_blockhash hl (bh_prev_blockhash h) of
                   None \<Rightarrow> panic ''is not part of the blockchain''
                 | Some e \<Rightarrow> Inr (he_height e + 1))
              (\<lambda>new_height. Inr (entries_from new_height hashed_headers))))"

section \<open>Applying new headers\<close>

fun assert_consecutive :: "header_entry list \<Rightarrow> unit res" where
  "assert_consecutive (a # b # es) =
     and_then (assert_res (he_height a + 1 = he_height b) ''height() + 1 == height()'') (\<lambda>_.
     and_then (assert_res (he_hash a = bh_prev_blockhash (he_header b)) ''hash() == prev_blockhash'') (\<lambda>_.
       assert_consecutive (b # es)))"
| "assert_consecutive _ = Inr ()"

definition push_header :: "header_list \<Rightarrow> header_entry \<Rightarrow> header_list res" where
  "push_header hl e =
     and_then (assert_res (he_height e = length (hl_headers hl)) ''height == self.headers.len()'') (\<lambda>_.
       Inr (hl\<lparr>hl_tip := he_hash e,
               hl_headers := hl_headers hl @ [e],
               hl_heights := hm_insert (he_hash e) (he_height e) (hl_heights hl)\<rparr>))"

definition header_list_apply :: "header_list \<Rightarrow> header_entry list \<Rightarrow> header_list res" where
  "header_list_apply hl new_headers =
     and_then (assert_consecutive new_headers) (\<lambda>_.
       case new_headers of
         [] \<Rightarrow> Inr hl
       | entry # _ \<Rightarrow>
           let height = he_height entry in
           and_then
             (if 0 < height
              then if height - 1 < length (hl_headers hl)
                then Inr (he_hash (hl_headers hl ! (height - 1)))
                else panic ''index out of bounds''
              else Inr 0) (\<lambda>expected_prev_blockhash.
           and_then (assert_res (bh_prev_blockhash (he_header entry) = expected_prev_blockhash)
               ''prev_blockhash == expected_prev_blockhash'') (\<lambda>_.
           and_then (assert_res (height \<le> length (hl_headers hl)) ''split_off'') (\<lambda>_.
             fold_res push_header (hl\<lparr>hl_headers := take height (hl_headers hl)\<rparr>) new_headers))))"

section \<open>Building the list from a header map\<close>

text \<open>
  The \<^verbatim>\<open>while\<close> loop of \<^verbatim>\<open>new\<close>: follow \<^verbatim>\<open>prev_blockhash\<close> from the tip to the null hash, removing every
  header from the map, which bounds the number of iterations.
\<close>

function chain_headers ::
  "blockhash \<Rightarrow> (blockhash, block_header) hashmap \<Rightarrow> block_header list \<Rightarrow> block_header list res" where
  "chain_headers blockhash headers_map headers_chain =
     (if blockhash = 0 then Inr headers_chain
      else case hm_get headers_map blockhash of
          None \<Rightarrow> panic ''missing expected blockhash in headers map''
        | Some header \<Rightarrow>
            chain_headers (bh_prev_blockhash header) (hm_remove blockhash headers_map)
              (headers_chain @ [header]))"
  by pat_completeness auto

lemma length_hm_remove_less: "hm_get m k = Some v \<Longrightarrow> length (hm_remove k m) < length m"
  by (induction m) (auto simp: less_Suc_eq_le length_delete_le split: if_splits)

termination chain_headers
  by (relation "measure (\<lambda>(_, m, _). length m)") (auto simp: length_hm_remove_less)

declare chain_headers.simps [simp del]

definition header_list_new :: "tapyrus \<Rightarrow> (blockhash, block_header) hashmap \<Rightarrow> blockhash \<Rightarrow> header_list res" where
  "header_list_new T headers_map tip_hash =
     and_then (chain_headers tip_hash headers_map []) (\<lambda>headers_chain.
     and_then (header_list_order T header_list_empty (rev headers_chain)) (\<lambda>ordered.
       header_list_apply header_list_empty ordered))"

section \<open>Block status and metadata\<close>

record block_status =
  bs_in_best_chain :: bool
  bs_height :: "nat option"
  bs_next_best :: "blockhash option"

definition block_status_confirmed :: "nat \<Rightarrow> blockhash option \<Rightarrow> block_status" where
  "block_status_confirmed height next_best =
     \<lparr>bs_in_best_chain = True, bs_height = Some height, bs_next_best = next_best\<rparr>"

definition block_status_orphaned :: block_status where
  "block_status_orphaned = \<lparr>bs_in_best_chain = False, bs_height = None, bs_next_best = None\<rparr>"

record block_meta =
  bm_tx_count :: u32
  bm_size :: u32
  bm_weight :: u32

record block_header_meta =
  bhm_header_entry :: header_entry
  bhm_meta :: block_meta

text \<open>\<^verbatim>\<open>BlockEntry\<close> of \<^verbatim>\<open>new_index/fetch.rs\<close>: a block, its header entry and its size.\<close>

record block_entry =
  be_block :: block
  be_entry :: header_entry
  be_size :: u32

definition block_meta_from :: "tapyrus \<Rightarrow> block_entry \<Rightarrow> block_meta" where
  "block_meta_from T b =
     \<lparr>bm_tx_count = of_nat (length (blk_txdata (be_block b))),
      bm_size = be_size b,
      bm_weight = of_nat (block_get_weight T (be_block b))\<rparr>"

section \<open>The invariant\<close>

text \<open>\<open>linked es p n\<close>: the entries have heights \<open>n, n + 1, \<dots>\<close> and each points to the one before it, the
  first one to \<open>p\<close>.\<close>

fun linked :: "blockhash \<Rightarrow> nat \<Rightarrow> header_entry list \<Rightarrow> bool" where
  "linked p n [] \<longleftrightarrow> True"
| "linked p n (e # es) \<longleftrightarrow>
     he_height e = n \<and> bh_prev_blockhash (he_header e) = p \<and> linked (he_hash e) (Suc n) es"

definition heights_ok :: "(blockhash, nat) hashmap \<Rightarrow> header_entry list \<Rightarrow> bool" where
  "heights_ok m es \<longleftrightarrow> (\<forall>i < length es. hm_get m (he_hash (es ! i)) = Some i)"

definition hl_ok :: "header_list \<Rightarrow> bool" where
  "hl_ok hl \<longleftrightarrow> linked 0 0 (hl_headers hl) \<and> heights_ok (hl_heights hl) (hl_headers hl) \<and>
     hl_tip hl = last_hash (hl_headers hl)"

lemma linked_append:
  "linked p n (es @ fs) \<longleftrightarrow> linked p n es \<and> linked (if es = [] then p else he_hash (last es)) (n + length es) fs"
  by (induction es arbitrary: p n) auto

lemma linked_heights: "linked p n es \<Longrightarrow> i < length es \<Longrightarrow> he_height (es ! i) = n + i"
  by (induction es arbitrary: p n i) (auto simp: nth_Cons split: nat.split)

lemma linked_take: "linked p n es \<Longrightarrow> linked p n (take k es)"
  by (metis append_take_drop_id linked_append)

lemma linked_prev:
  "linked p n es \<Longrightarrow> i < length es \<Longrightarrow>
   bh_prev_blockhash (he_header (es ! i)) = (if i = 0 then p else he_hash (es ! (i - 1)))"
  by (induction es arbitrary: p n i) (auto simp: nth_Cons split: nat.split)

lemma heights_ok_distinct: "heights_ok m es \<Longrightarrow> distinct (map he_hash es)"
  unfolding heights_ok_def distinct_conv_nth by (metis length_map nth_map option.inject)

lemma heights_ok_take: "heights_ok m es \<Longrightarrow> heights_ok m (take k es)"
  by (simp add: heights_ok_def)

lemma heights_ok_push:
  "heights_ok m es \<Longrightarrow> he_hash e \<notin> he_hash ` set es \<Longrightarrow>
   heights_ok (hm_insert (he_hash e) (length es) m) (es @ [e])"
  by (auto simp: heights_ok_def nth_append less_Suc_eq image_iff) (metis nth_mem)

lemma hl_ok_empty [simp, intro]: "hl_ok header_list_empty"
  by (simp add: hl_ok_def header_list_empty_def heights_ok_def last_hash_def)

lemma assert_consecutive_linked:
  "assert_consecutive (e # es) = Inr u \<longleftrightarrow> linked (bh_prev_blockhash (he_header e)) (he_height e) (e # es)"
proof (induction es arbitrary: e)
  case Nil
  then show ?case by simp
next
  case (Cons b es)
  have "assert_consecutive (e # b # es) = Inr u \<longleftrightarrow>
    he_height e + 1 = he_height b \<and> he_hash e = bh_prev_blockhash (he_header b) \<and>
    assert_consecutive (b # es) = Inr u"
    by (simp only: assert_consecutive.simps and_then_eq_Inr assert_res_eq_Inr) simp
  with Cons.IH [of b] show ?case by auto
qed

lemma fold_push_header:
  assumes "heights_ok (hl_heights hl) (hl_headers hl)" "linked p (length (hl_headers hl)) es"
    "distinct (map he_hash (hl_headers hl @ es))"
  shows "\<exists>hl'. fold_res push_header hl es = Inr hl' \<and> hl_headers hl' = hl_headers hl @ es \<and>
    heights_ok (hl_heights hl') (hl_headers hl @ es) \<and>
    (es \<noteq> [] \<longrightarrow> hl_tip hl' = he_hash (last es))"
  using assms
proof (induction es arbitrary: hl p)
  case Nil
  then show ?case by simp
next
  case (Cons e es)
  let ?hl = "hl\<lparr>hl_tip := he_hash e, hl_headers := hl_headers hl @ [e],
    hl_heights := hm_insert (he_hash e) (he_height e) (hl_heights hl)\<rparr>"
  have push: "push_header hl e = Inr ?hl"
    using Cons.prems(2) by (simp add: push_header_def assert_res_def)
  have "heights_ok (hl_heights ?hl) (hl_headers ?hl)"
    using Cons.prems heights_ok_push [of "hl_heights hl" "hl_headers hl" e] by simp
  moreover have "linked (he_hash e) (length (hl_headers ?hl)) es" using Cons.prems(2) by simp
  moreover have "distinct (map he_hash (hl_headers ?hl @ es))" using Cons.prems(3) by simp
  ultimately obtain hl' where "fold_res push_header ?hl es = Inr hl'"
    "hl_headers hl' = hl_headers ?hl @ es" "heights_ok (hl_heights hl') (hl_headers ?hl @ es)"
    "es \<noteq> [] \<longrightarrow> hl_tip hl' = he_hash (last es)" "es = [] \<longrightarrow> hl_tip hl' = he_hash e"
    using Cons.IH [of ?hl "he_hash e"] by (cases es) auto
  with push show ?case by auto
qed

section \<open>Correctness\<close>

lemma header_by_blockhash_ok:
  assumes "hl_ok hl"
  shows "header_by_blockhash hl h = Some e \<longleftrightarrow> e \<in> set (hl_headers hl) \<and> he_hash e = h"
proof
  assume "header_by_blockhash hl h = Some e"
  then show "e \<in> set (hl_headers hl) \<and> he_hash e = h"
    by (auto simp: header_by_blockhash_def Let_def split: option.splits if_splits)
next
  assume "e \<in> set (hl_headers hl) \<and> he_hash e = h"
  then obtain i where "i < length (hl_headers hl)" "hl_headers hl ! i = e" "he_hash e = h"
    by (auto simp: in_set_conv_nth)
  with assms show "header_by_blockhash hl h = Some e"
    by (auto simp: header_by_blockhash_def hl_ok_def heights_ok_def)
qed

lemma header_by_height_ok:
  assumes "hl_ok hl"
  shows "header_by_height hl n = Inr (if n < length (hl_headers hl) then Some (hl_headers hl ! n) else None)"
  using assms linked_heights [of 0 0 "hl_headers hl" n]
  by (simp add: header_by_height_def hl_ok_def assert_res_def Let_def)

lemma header_list_tip_ok: "hl_ok hl \<Longrightarrow> header_list_tip hl = Inr (last_hash (hl_headers hl))"
  by (simp add: header_list_tip_def hl_ok_def assert_res_def)

text \<open>\<open>anchored hl new\<close>: the new headers are a chain of consecutive heights that continues \<open>hl\<close> at the
  height of its first header, or replaces \<open>hl\<close> from there on.\<close>

definition anchored :: "header_list \<Rightarrow> header_entry list \<Rightarrow> bool" where
  "anchored hl new \<longleftrightarrow>
     (let n = he_height (hd new) in
      n \<le> length (hl_headers hl) \<and> linked (last_hash (take n (hl_headers hl))) n new)"

lemma last_hash_take: "0 < n \<Longrightarrow> n \<le> length es \<Longrightarrow> last_hash (take n es) = he_hash (es ! (n - 1))"
  by (auto simp: last_hash_def last_conv_nth)

lemma header_list_apply_ok:
  assumes "hl_ok hl" "anchored hl new" "new \<noteq> []"
    "distinct (map he_hash (take (he_height (hd new)) (hl_headers hl) @ new))"
  shows "\<exists>hl'. header_list_apply hl new = Inr hl' \<and> hl_ok hl' \<and>
    hl_headers hl' = take (he_height (hd new)) (hl_headers hl) @ new"
proof -
  obtain e es where new: "new = e # es" using assms(3) by (cases new) auto
  let ?n = "he_height e" and ?hs = "take (he_height e) (hl_headers hl)"
  have n: "?n \<le> length (hl_headers hl)" and link: "linked (last_hash ?hs) ?n new"
    using assms(2) by (simp_all add: anchored_def new Let_def)
  have len: "length ?hs = ?n" using n by simp
  have prev: "bh_prev_blockhash (he_header e) = last_hash ?hs" using link new by simp
  have keep: "linked 0 0 ?hs" "heights_ok (hl_heights hl) ?hs"
    using assms(1) by (simp_all add: hl_ok_def linked_take heights_ok_take)
  obtain hl' where hl': "fold_res push_header (hl\<lparr>hl_headers := ?hs\<rparr>) new = Inr hl'"
    "hl_headers hl' = ?hs @ new" "heights_ok (hl_heights hl') (?hs @ new)" "hl_tip hl' = he_hash (last new)"
    using fold_push_header [of "hl\<lparr>hl_headers := ?hs\<rparr>" "last_hash ?hs" new] keep link len assms(3,4) new
    by auto
  have run: "assert_consecutive new = Inr ()"
    using link prev unfolding new by (simp add: assert_consecutive_linked del: assert_consecutive.simps)
  have "header_list_apply hl new = Inr hl'"
    using run hl'(1) n prev last_hash_take [of ?n "hl_headers hl"]
    by (auto simp: header_list_apply_def new assert_res_def last_hash_def Let_def)
  moreover have "linked 0 0 (?hs @ new)"
    using keep link len by (auto simp: linked_append last_hash_def)
  ultimately show ?thesis using hl' assms(3) by (auto simp: hl_ok_def new last_hash_def)
qed

lemma header_list_apply_anchored:
  assumes "header_list_apply hl new = Inr hl'" "new \<noteq> []"
  shows "anchored hl new"
proof -
  obtain e es where new: "new = e # es" using assms(2) by (cases new) auto
  have "linked (bh_prev_blockhash (he_header e)) (he_height e) new"
    using assms(1) by (auto simp: header_list_apply_def new assert_consecutive_linked Let_def
        simp del: assert_consecutive.simps linked.simps)
  moreover have "he_height e \<le> length (hl_headers hl)"
    "bh_prev_blockhash (he_header e) = last_hash (take (he_height e) (hl_headers hl))"
    using assms(1) last_hash_take [of "he_height e" "hl_headers hl"]
    by (auto simp: header_list_apply_def new Let_def last_hash_def split: if_splits)
  ultimately show ?thesis by (simp add: anchored_def new)
qed

lemma chain_headers_linked:
  assumes "linked 0 0 es" "distinct (map he_hash es)" "0 \<notin> he_hash ` set es"
    "\<And>e. e \<in> set es \<Longrightarrow> hm_get m (he_hash e) = Some (he_header e)"
  shows "chain_headers (last_hash es) m acc = Inr (acc @ rev (map he_header es))"
  using assms
proof (induction es arbitrary: m acc rule: rev_induct)
  case Nil
  then show ?case by (simp add: last_hash_def chain_headers.simps)
next
  case (snoc e es)
  have "bh_prev_blockhash (he_header e) = last_hash es"
    using snoc.prems(1) by (auto simp: linked_append last_hash_def)
  moreover have "chain_headers (last_hash es) (hm_remove (he_hash e) m) (acc @ [he_header e]) =
      Inr ((acc @ [he_header e]) @ rev (map he_header es))"
  proof (rule snoc.IH)
    show "hm_get (hm_remove (he_hash e) m) (he_hash e') = Some (he_header e')" if "e' \<in> set es" for e'
    proof -
      have "he_hash e' \<noteq> he_hash e" using snoc.prems(2) that by (metis (no_types, lifting)
          distinct_append disjoint_iff imageI list.set_intros(1) list.set_map map_append list.simps(9))
      with that snoc.prems(4) show ?thesis by simp
    qed
  qed (use snoc.prems in \<open>auto simp: linked_append\<close>)
  ultimately show ?case
    using snoc.prems(3,4) by (subst chain_headers.simps) (simp add: last_hash_def)
qed

lemma assert_linked_entries:
  "linked p n es \<Longrightarrow> assert_linked (map (\<lambda>e. (he_hash e, he_header e)) es) = Inr ()"
proof (induction es arbitrary: p n)
  case Nil
  then show ?case by simp
next
  case (Cons a es)
  then show ?case by (cases es) (auto simp: assert_res_def)
qed

lemma entries_from_linked:
  "linked p n es \<Longrightarrow> entries_from n (map (\<lambda>e. (he_hash e, he_header e)) es) = es"
  by (induction es arbitrary: p n) auto

lemma header_list_order_linked:
  assumes "linked 0 0 es" "\<And>e. e \<in> set es \<Longrightarrow> he_hash e = block_hash T (he_header e)"
  shows "header_list_order T header_list_empty (map he_header es) = Inr es"
proof -
  have hashed: "map (\<lambda>h. (block_hash T h, h)) (map he_header es) = map (\<lambda>e. (he_hash e, he_header e)) es"
    using assms(2) by simp
  show ?thesis
    unfolding header_list_order_def Let_def hashed
    using assms(1) assert_linked_entries [OF assms(1)] entries_from_linked [OF assms(1)]
    by (cases es) simp_all
qed

text \<open>
  C1: \<open>HeaderList::apply\<close> succeeds exactly on headers that are anchored in the list, and then it keeps the
  blocks below the first new height, drops the others, appends the new ones and re-establishes the
  invariant; otherwise it panics.
\<close>

theorem header_list_apply_spec:
  assumes "hl_ok hl" "new \<noteq> []"
    "distinct (map he_hash (take (he_height (hd new)) (hl_headers hl) @ new))"
  shows "case header_list_apply hl new of
      Inl e \<Rightarrow> \<not> anchored hl new
    | Inr hl' \<Rightarrow> anchored hl new \<and> hl_ok hl' \<and>
        hl_headers hl' = take (he_height (hd new)) (hl_headers hl) @ new"
  using header_list_apply_ok [OF assms(1) _ assms(2,3)] header_list_apply_anchored [OF _ assms(2), of hl]
  by (auto split: sum.split)


text \<open>A chain of three blocks, a fork of its last two, and the reorganisation.\<close>

definition ex_header :: "blockhash \<Rightarrow> u32 \<Rightarrow> block_header" where
  "ex_header p t = \<lparr>bh_version = 1, bh_prev_blockhash = p, bh_merkle_root = 0, bh_im_merkle_root = 0,
     bh_time = t, bh_xfield = XFieldNone, bh_proof = None\<rparr>"

definition ex_entry :: "nat \<Rightarrow> blockhash \<Rightarrow> blockhash \<Rightarrow> header_entry" where
  "ex_entry n h p = \<lparr>he_height = n, he_hash = h, he_header = ex_header p (of_nat n)\<rparr>"

definition ex_chain :: header_list where
  "ex_chain = \<lparr>hl_headers = [ex_entry 0 10 0, ex_entry 1 11 10, ex_entry 2 12 11],
     hl_heights = [(10, 0), (11, 1), (12, 2)], hl_tip = 12\<rparr>"

definition ex_fork :: "header_entry list" where
  "ex_fork = [ex_entry 1 21 10, ex_entry 2 22 21, ex_entry 3 23 22]"

lemmas ex_header_defs = ex_chain_def ex_fork_def ex_entry_def ex_header_def

lemma ex_chain_ok: "hl_ok ex_chain"
  by (simp add: hl_ok_def heights_ok_def ex_header_defs last_hash_def nth_Cons less_Suc_eq split: nat.split)

lemma header_list_apply_spec_witness:
  "case header_list_apply ex_chain ex_fork of Inl e \<Rightarrow> \<not> anchored ex_chain ex_fork
   | Inr hl' \<Rightarrow> anchored ex_chain ex_fork \<and> hl_ok hl' \<and>
       hl_headers hl' = take (he_height (hd ex_fork)) (hl_headers ex_chain) @ ex_fork"
  by (rule header_list_apply_spec [OF ex_chain_ok]) (simp_all add: ex_header_defs)

text \<open>
  C2: after any reorganisation a block is found by its hash exactly when it is in the new best chain:
  the entries that \<open>apply\<close> leaves behind in the height map do not resurrect blocks that were dropped.
\<close>

theorem header_by_blockhash_after_apply:
  assumes "hl_ok hl" "anchored hl new" "new \<noteq> []"
    "distinct (map he_hash (take (he_height (hd new)) (hl_headers hl) @ new))"
  shows "\<exists>hl'. header_list_apply hl new = Inr hl' \<and>
    (\<forall>h e. header_by_blockhash hl' h = Some e \<longleftrightarrow>
       he_hash e = h \<and> (e \<in> set new \<or> e \<in> set (take (he_height (hd new)) (hl_headers hl))))"
proof -
  obtain hl' where "header_list_apply hl new = Inr hl'" "hl_ok hl'"
    "hl_headers hl' = take (he_height (hd new)) (hl_headers hl) @ new"
    using header_list_apply_ok [OF assms] by blast
  then show ?thesis by (intro exI [of _ hl']) (auto simp: header_by_blockhash_ok)
qed

lemma header_by_blockhash_after_apply_witness:
  "\<exists>hl'. header_list_apply ex_chain ex_fork = Inr hl' \<and> header_by_blockhash hl' 12 = None \<and>
     header_by_blockhash hl' 21 = Some (ex_entry 1 21 10)"
proof -
  have "anchored ex_chain ex_fork" "ex_fork \<noteq> []"
    "distinct (map he_hash (take (he_height (hd ex_fork)) (hl_headers ex_chain) @ ex_fork))"
    by (simp_all add: anchored_def ex_header_defs last_hash_def)
  from header_by_blockhash_after_apply [OF ex_chain_ok this]
  obtain hl' where hl': "header_list_apply ex_chain ex_fork = Inr hl'"
    and found: "\<And>h e. header_by_blockhash hl' h = Some e \<longleftrightarrow>
       he_hash e = h \<and> (e \<in> set ex_fork \<or> e \<in> set (take (he_height (hd ex_fork)) (hl_headers ex_chain)))"
    by blast
  have "header_by_blockhash hl' 12 \<noteq> Some e" for e
    unfolding found by (auto simp: ex_header_defs)
  then have "header_by_blockhash hl' 12 = None" by (metis not_None_eq)
  moreover have "header_by_blockhash hl' 21 = Some (ex_entry 1 21 10)"
    unfolding found by (simp add: ex_header_defs)
  ultimately show ?thesis using hl' by blast
qed

text \<open>
  C3: reloading. From any map of headers that contains the blocks of a best chain under their hashes, orphans
  besides them or not, \<open>HeaderList::new\<close> started at the chain's tip returns that chain.
\<close>

theorem header_list_new_reload:
  assumes "hl_ok hl" "0 \<notin> he_hash ` set (hl_headers hl)"
    "\<forall>e \<in> set (hl_headers hl). he_hash e = block_hash T (he_header e) \<and> hm_get m (he_hash e) = Some (he_header e)"
  shows "\<exists>hl'. header_list_new T m (hl_tip hl) = Inr hl' \<and> hl_headers hl' = hl_headers hl \<and> hl_ok hl'"
proof -
  let ?es = "hl_headers hl"
  have ok: "linked 0 0 ?es" "distinct (map he_hash ?es)" "hl_tip hl = last_hash ?es"
    using assms(1) by (auto simp: hl_ok_def dest: heights_ok_distinct)
  have chain: "chain_headers (hl_tip hl) m [] = Inr (rev (map he_header ?es))"
  proof -
    have "hm_get m (he_hash e) = Some (he_header e)" if "e \<in> set ?es" for e
      using assms(3) that by blast
    then show ?thesis using chain_headers_linked [OF ok(1,2) assms(2), of m "[]"] ok(3) by simp
  qed
  have order: "header_list_order T header_list_empty (map he_header ?es) = Inr ?es"
    by (rule header_list_order_linked [OF ok(1)]) (use assms(3) in blast)
  show ?thesis
  proof (cases "?es = []")
    case True
    then show ?thesis using chain order
      by (simp add: header_list_new_def header_list_apply_def) (simp add: header_list_empty_def)
  next
    case False
    then have "he_height (hd ?es) = 0" using ok(1) by (cases ?es) auto
    then have "\<exists>hl'. header_list_apply header_list_empty ?es = Inr hl' \<and> hl_ok hl' \<and> hl_headers hl' = ?es"
      using header_list_apply_ok [OF hl_ok_empty _ False] ok(1,2)
      by (simp add: anchored_def last_hash_def)
    with chain order show ?thesis by (auto simp: header_list_new_def rev_map)
  qed
qed

text \<open>The chain of two blocks whose hashes are those of the reference instance.\<close>

definition ex_loaded :: header_list where
  "ex_loaded = \<lparr>hl_headers =
       [\<lparr>he_height = 0, he_hash = 7, he_header = ex_header 0 7\<rparr>,
        \<lparr>he_height = 1, he_hash = 8, he_header = ex_header 7 8\<rparr>],
     hl_heights = [(7, 0), (8, 1)], hl_tip = 8\<rparr>"

definition ex_header_map :: "(blockhash, block_header) hashmap" where
  "ex_header_map = [(5, ex_header 3 5), (8, ex_header 7 8), (7, ex_header 0 7)]"

lemma ex_loaded_ok: "hl_ok ex_loaded"
  by (simp add: hl_ok_def heights_ok_def ex_loaded_def ex_header_def last_hash_def nth_Cons less_Suc_eq
      split: nat.split)

lemma header_list_new_reload_witness:
  "\<exists>hl'. header_list_new tapyrus_ref ex_header_map 8 = Inr hl' \<and>
     hl_headers hl' = hl_headers ex_loaded \<and> hl_ok hl'"
  using header_list_new_reload [OF ex_loaded_ok, of tapyrus_ref ex_header_map]
  by (simp add: ex_loaded_def ex_header_map_def ex_header_def tapyrus_ref_def)

section \<open>The chain as its clients see it\<close>

text \<open>
  Clients of the header list rely on lookups by hash and by height of an indexed sequence of
  blocks; \<open>ok\<close> is the provider's invariant.
\<close>

locale header_index =
  fixes ok :: "'s \<Rightarrow> bool"
    and by_hash :: "'s \<Rightarrow> blockhash \<Rightarrow> header_entry option"
    and by_height :: "'s \<Rightarrow> nat \<Rightarrow> header_entry option res"
    and size_of :: "'s \<Rightarrow> nat"
  assumes by_height_total: "ok s \<Longrightarrow> \<exists>r. by_height s n = Inr r \<and> (r \<noteq> None \<longleftrightarrow> n < size_of s)"
    and by_height_height: "ok s \<Longrightarrow> by_height s n = Inr (Some e) \<Longrightarrow> he_height e = n"
    and by_hash_iff: "ok s \<Longrightarrow> by_hash s h = Some e \<longleftrightarrow>
      he_hash e = h \<and> by_height s (he_height e) = Inr (Some e)"
begin

lemma by_hash_unique: "ok s \<Longrightarrow> by_hash s h = Some e \<Longrightarrow> by_hash s h' = Some e \<Longrightarrow> h = h'"
  by (simp add: by_hash_iff)

lemma by_height_no_error: "ok s \<Longrightarrow> by_height s n \<noteq> Inl e"
  using by_height_total [of s n] by auto

lemma by_hash_below: "ok s \<Longrightarrow> by_hash s h = Some e \<Longrightarrow> he_height e < size_of s"
  using by_height_total [of s "he_height e"] by (auto simp: by_hash_iff)

lemma by_height_by_hash: "ok s \<Longrightarrow> by_height s n = Inr (Some e) \<Longrightarrow> by_hash s (he_hash e) = Some e"
  using by_height_height [of s n e] by (simp add: by_hash_iff)

lemma same_height_same_block:
  "ok s \<Longrightarrow> by_hash s h = Some e \<Longrightarrow> by_hash s h' = Some e' \<Longrightarrow> he_height e = he_height e' \<Longrightarrow> h = h'"
  by (auto simp: by_hash_iff)

end

lemma header_by_blockhash_by_height:
  assumes "hl_ok hl"
  shows "header_by_blockhash hl h = Some e \<longleftrightarrow> he_hash e = h \<and> header_by_height hl (he_height e) = Inr (Some e)"
  using assms linked_heights [of 0 0 "hl_headers hl"]
  by (auto simp: header_by_blockhash_ok header_by_height_ok hl_ok_def in_set_conv_nth)

interpretation hl: header_index hl_ok header_by_blockhash header_by_height header_list_len
proof unfold_locales
  show "he_height e = n" if "hl_ok s" "header_by_height s n = Inr (Some e)" for s n e
    using that linked_heights [of 0 0 "hl_headers s" n]
    by (auto simp: header_by_height_ok hl_ok_def split: if_splits)
qed (auto simp: header_by_blockhash_by_height header_by_height_ok header_list_len_def)

end
