(* ===== verification/Transactions.thy ===== *)
theory Transactions
  imports Headers
begin

text \<open>
  Transaction and script helpers (\<^verbatim>\<open>src/src/util/transaction.rs\<close>, \<^verbatim>\<open>src/src/util/script.rs\<close>): the status of a
  transaction, which inputs have a previous output, the extraction of the outputs a transaction
  spends, and the classification of scripts.
\<close>

section \<open>Transactions\<close>

record transaction_status =
  ts_confirmed :: bool
  ts_block_height :: "nat option"
  ts_block_hash :: "blockhash option"
  ts_block_time :: "u32 option"

fun transaction_status_from :: "block_id option \<Rightarrow> transaction_status" where
  "transaction_status_from (Some b) =
     \<lparr>ts_confirmed = True, ts_block_height = Some (bid_height b), ts_block_hash = Some (bid_hash b),
      ts_block_time = Some (bid_time b)\<rparr>"
| "transaction_status_from None =
     \<lparr>ts_confirmed = False, ts_block_height = None, ts_block_hash = None, ts_block_time = None\<rparr>"

record tx_input_ref =
  ti_txid :: txid
  ti_vin :: u16

definition is_coinbase :: "txin \<Rightarrow> bool" where
  "is_coinbase txi \<longleftrightarrow> op_txid (txi_previous_output txi) = 0"

definition has_prevout :: "txin \<Rightarrow> bool" where
  "has_prevout txi \<longleftrightarrow> \<not> is_coinbase txi"

definition is_spendable :: "tapyrus \<Rightarrow> txout \<Rightarrow> bool" where
  "is_spendable T txo \<longleftrightarrow> \<not> is_provably_unspendable T (txo_script_pubkey txo)"

text \<open>The iterator chain of \<^verbatim>\<open>extract_tx_prevouts\<close>: enumerate, filter, look up, collect.\<close>

fun extract_prevouts_from ::
  "nat \<Rightarrow> txin list \<Rightarrow> (outpoint, txout) hashmap \<Rightarrow> bool \<Rightarrow> (u32 \<times> txout) list res" where
  "extract_prevouts_from i [] txos allow_missing = Inr []"
| "extract_prevouts_from i (txi # txis) txos allow_missing =
     (if has_prevout txi then
        case hm_get txos (txi_previous_output txi) of
          Some txo \<Rightarrow>
            and_then (extract_prevouts_from (Suc i) txis txos allow_missing) (\<lambda>r. Inr ((of_nat i, txo) # r))
        | None \<Rightarrow>
            and_then (assert_res allow_missing ''missing outpoint'')
              (\<lambda>_. extract_prevouts_from (Suc i) txis txos allow_missing)
      else extract_prevouts_from (Suc i) txis txos allow_missing)"

definition extract_tx_prevouts ::
  "transaction \<Rightarrow> (outpoint, txout) hashmap \<Rightarrow> bool \<Rightarrow> (u32, txout) hashmap res" where
  "extract_tx_prevouts tx txos allow_missing =
     and_then (extract_prevouts_from 0 (tx_input tx) txos allow_missing) (\<lambda>r. Inr (hm_collect r))"

section \<open>Scripts\<close>

record inner_scripts =
  is_redeem_script :: "script option"
  is_witness_script :: "script option"

definition script_to_address :: "tapyrus \<Rightarrow> script \<Rightarrow> network \<Rightarrow> string option" where
  "script_to_address T s n = address_from_script T s (bnetwork_from_network n)"

definition get_script_asm :: "tapyrus \<Rightarrow> script \<Rightarrow> string res" where
  "get_script_asm T s =
     (let asm = script_debug T s in
      if 8 \<le> length asm then Inr (take (length asm - 1 - 7) (drop 7 asm))
      else panic ''slice index out of range'')"

definition get_script_type :: "tapyrus \<Rightarrow> script \<Rightarrow> string" where
  "get_script_type T s =
     (if s = [] then ''empty''
      else if is_op_return T s then ''op_return''
      else if is_p2pk T s then ''p2pk''
      else if is_p2pkh T s then ''p2pkh''
      else if is_p2sh T s then ''p2sh''
      else if is_provably_unspendable T s then ''provably_unspendable''
      else if is_cp2pkh T s then ''cp2pkh''
      else if is_cp2sh T s then ''cp2sh''
      else ''unknown'')"

definition last_push :: "(unit + instruction) list \<Rightarrow> bytes option" where
  "last_push is =
     (if is = [] then None
      else case last is of Inr (PushBytes b) \<Rightarrow> Some b | _ \<Rightarrow> None)"

definition get_innerscripts :: "tapyrus \<Rightarrow> txin \<Rightarrow> txout \<Rightarrow> inner_scripts" where
  "get_innerscripts T txi prevout =
     (let redeem_script =
            (if is_p2sh T (txo_script_pubkey prevout)
             then last_push (instructions_minimal T (txi_script_sig txi)) else None);
          witness_script =
            (if is_v0_p2wsh T (txo_script_pubkey prevout) \<or>
                (case redeem_script of None \<Rightarrow> False | Some s \<Rightarrow> is_v0_p2wsh T s)
             then if txi_witness txi = [] then None else Some (last (txi_witness txi))
             else None)
      in \<lparr>is_redeem_script = redeem_script, is_witness_script = witness_script\<rparr>)"

section \<open>The extracted outputs\<close>

lemma extract_prevouts_from_keys:
  assumes "extract_prevouts_from i txis txos am = Inr r"
  shows "(k, txo) \<in> set r \<longleftrightarrow> (\<exists>j < length txis. k = of_nat (i + j) \<and> has_prevout (txis ! j) \<and>
    hm_get txos (txi_previous_output (txis ! j)) = Some txo)"
  using assms
proof (induction i txis txos am arbitrary: r rule: extract_prevouts_from.induct)
  case (1 i txos am)
  then show ?case by simp
next
  case (2 i txi txis txos am)
  have split: "(\<exists>j < length (txi # txis). P j) \<longleftrightarrow> P 0 \<or> (\<exists>j < length txis. P (Suc j))" for P
    using Ex_less_Suc2 by simp
  show ?case
    unfolding split using 2
    by (auto split: if_splits option.splits)
qed

lemma extract_prevouts_from_distinct:
  assumes "extract_prevouts_from i txis txos am = Inr r" "i + length txis \<le> 2 ^ 32"
  shows "distinct (map fst r)"
  using assms
proof (induction i txis txos am arbitrary: r rule: extract_prevouts_from.induct)
  case (1 i txos am)
  then show ?case by simp
next
  case (2 i txi txis txos am)
  have fresh: "of_nat i \<notin> fst ` set r'"
    if rest: "extract_prevouts_from (Suc i) txis txos am = Inr r'" for r' :: "(u32 \<times> txout) list"
  proof
    assume "of_nat i \<in> fst ` set r'"
    then obtain txo where "(of_nat i, txo) \<in> set r'" by auto
    then obtain j where j: "j < length txis" "(of_nat i :: u32) = of_nat (Suc i + j)"
      using extract_prevouts_from_keys [OF rest] by blast
    have bounds: "i < 2 ^ LENGTH(32)" "Suc i + j < 2 ^ LENGTH(32)" using "2.prems"(2) j(1) by simp_all
    have "i = Suc i + j" by (rule iffD1 [OF of_nat_word_inject [OF bounds] j(2)])
    then show False by linarith
  qed
  show ?case
    using "2.IH" "2.prems" fresh by (auto split: if_splits option.splits)
qed

lemma extract_tx_prevouts_get:
  assumes "extract_tx_prevouts tx txos am = Inr r" "length (tx_input tx) \<le> 2 ^ 32" "j < length (tx_input tx)"
  shows "hm_get r (of_nat j) =
    (if has_prevout (tx_input tx ! j) then hm_get txos (txi_previous_output (tx_input tx ! j)) else None)"
proof -
  obtain l where l: "extract_prevouts_from 0 (tx_input tx) txos am = Inr l" "r = hm_collect l"
    using assms(1) by (auto simp: extract_tx_prevouts_def)
  have dist: "distinct (map fst l)"
    using extract_prevouts_from_distinct [OF l(1)] assms(2) by simp
  have get: "hm_get r k = Some txo \<longleftrightarrow> (k, txo) \<in> set l" for k txo
    unfolding l(2) by (rule hm_get_collect_distinct [OF dist])
  have inj: "(of_nat j :: u32) = of_nat i \<longleftrightarrow> j = i" if "i < length (tx_input tx)" for i
  proof -
    have "j < 2 ^ LENGTH(32)" "i < 2 ^ LENGTH(32)" using that assms(2,3) by simp_all
    then show ?thesis by (rule of_nat_word_inject)
  qed
  have iff: "hm_get r (of_nat j) = Some txo \<longleftrightarrow>
      has_prevout (tx_input tx ! j) \<and> hm_get txos (txi_previous_output (tx_input tx ! j)) = Some txo" for txo
  proof
    assume "hm_get r (of_nat j) = Some txo"
    then obtain i where i: "i < length (tx_input tx)" "(of_nat j :: u32) = of_nat i" "has_prevout (tx_input tx ! i)"
      "hm_get txos (txi_previous_output (tx_input tx ! i)) = Some txo"
      unfolding get using extract_prevouts_from_keys [OF l(1)] by auto
    then have "j = i" using inj by blast
    with i show "has_prevout (tx_input tx ! j) \<and> hm_get txos (txi_previous_output (tx_input tx ! j)) = Some txo"
      by simp
  next
    assume "has_prevout (tx_input tx ! j) \<and> hm_get txos (txi_previous_output (tx_input tx ! j)) = Some txo"
    then have "(of_nat j, txo) \<in> set l"
      using extract_prevouts_from_keys [OF l(1), of "of_nat j" txo] assms(3) by auto
    then show "hm_get r (of_nat j) = Some txo" by (simp only: get)
  qed
  show ?thesis
  proof (cases "has_prevout (tx_input tx ! j)")
    case True
    then show ?thesis using iff by (cases "hm_get txos (txi_previous_output (tx_input tx ! j))") (metis not_None_eq)+
  next
    case False
    then show ?thesis using iff by (metis not_None_eq)
  qed
qed

end
