(* ===== verification/Fees.thy ===== *)
theory Fees
  imports Transactions "HOL-Library.Log_Nat" "HOL-Library.Multiset"
begin

text \<open>
  Fees of transactions and the mempool fee histogram (\<^verbatim>\<open>src/src/util/fees.rs\<close>). Single-precision
  floats appear as fee rates only: non-negative values with a 24-bit significand (no rate is large
  or small enough to leave the normal range), infinity (a fee over size zero) and NaN (zero over
  zero).
\<close>

section \<open>Single-precision rates\<close>

datatype f32 = Fin rat | Infinity | NaN

definition pow2 :: "int \<Rightarrow> rat" where
  "pow2 e = (if 0 \<le> e then 2 ^ nat e else 1 / 2 ^ nat (- e))"

definition round_half_even :: "rat \<Rightarrow> int" where
  "round_half_even x =
     (let f = \<lfloor>x\<rfloor>; r = x - of_int f in
      if r < 1 / 2 then f else if 1 / 2 < r then f + 1 else if even f then f else f + 1)"

definition f32_round :: "rat \<Rightarrow> rat" where
  "f32_round q =
     (if q \<le> 0 then 0
      else
        let (n, d) = quotient_of q;
            e = int (floorlog 2 (nat n)) - int (floorlog 2 (nat d)) - 24;
            e' = (if q / pow2 e < 2 ^ 24 then e else e + 1)
        in of_int (round_half_even (q / pow2 e')) * pow2 e')"

definition f32_of_nat :: "nat \<Rightarrow> rat" where
  "f32_of_nat n = f32_round (of_nat n)"

definition f32_div :: "rat \<Rightarrow> rat \<Rightarrow> f32" where
  "f32_div a b = (if b = 0 then if a = 0 then NaN else Infinity else Fin (f32_round (a / b)))"

text \<open>The total order used to sort rates; the code never sorts a NaN.\<close>

fun f32_le :: "f32 \<Rightarrow> f32 \<Rightarrow> bool" where
  "f32_le (Fin a) (Fin b) \<longleftrightarrow> a \<le> b"
| "f32_le (Fin a) _ \<longleftrightarrow> True"
| "f32_le Infinity (Fin b) \<longleftrightarrow> False"
| "f32_le Infinity _ \<longleftrightarrow> True"
| "f32_le NaN NaN \<longleftrightarrow> True"
| "f32_le NaN _ \<longleftrightarrow> False"

instantiation f32 :: linorder
begin

definition less_eq_f32 :: "f32 \<Rightarrow> f32 \<Rightarrow> bool" where
  "a \<le> b \<longleftrightarrow> f32_le a b"

definition less_f32 :: "f32 \<Rightarrow> f32 \<Rightarrow> bool" where
  "a < b \<longleftrightarrow> f32_le a b \<and> \<not> f32_le b a"

instance
proof
  fix x y z :: f32
  show "x < y \<longleftrightarrow> x \<le> y \<and> \<not> y \<le> x" by (simp add: less_eq_f32_def less_f32_def)
  show "x \<le> x" by (cases x) (simp_all add: less_eq_f32_def)
  show "x \<le> y \<Longrightarrow> y \<le> z \<Longrightarrow> x \<le> z"
    by (cases x; cases y; cases z) (simp_all add: less_eq_f32_def)
  show "x \<le> y \<Longrightarrow> y \<le> x \<Longrightarrow> x = y" by (cases x; cases y) (simp_all add: less_eq_f32_def)
  show "x \<le> y \<or> y \<le> x" by (cases x; cases y) (auto simp: less_eq_f32_def)
qed

end

text \<open>\<^verbatim>\<open>!=\<close> on floats: a NaN differs from itself.\<close>

definition f32_ne :: "f32 \<Rightarrow> f32 \<Rightarrow> bool" where
  "f32_ne a b \<longleftrightarrow> a = NaN \<or> b = NaN \<or> a \<noteq> b"

section \<open>Fees\<close>

definition VSIZE_BIN_WIDTH :: u32 where
  "VSIZE_BIN_WIDTH = 50000"

record tx_fee_info =
  tfi_fee :: u64
  tfi_vsize :: u32
  tfi_fee_per_vbyte :: f32

definition get_tx_fee :: "tapyrus \<Rightarrow> transaction \<Rightarrow> (u32, txout) hashmap \<Rightarrow> u64" where
  "get_tx_fee T tx prevouts =
     (if tx_is_coin_base T tx then 0
      else
        let total_in = sum_list (map txo_value
              (filter (\<lambda>prevout. \<not> script_is_colored T (txo_script_pubkey prevout)) (map snd prevouts)));
            total_out = sum_list (map txo_value
              (filter (\<lambda>vout. \<not> script_is_colored T (txo_script_pubkey vout)) (tx_output tx)))
        in total_in - total_out)"

definition tx_fee_info_new :: "tapyrus \<Rightarrow> transaction \<Rightarrow> (u32, txout) hashmap \<Rightarrow> tx_fee_info" where
  "tx_fee_info_new T tx prevouts =
     (let fee = get_tx_fee T tx prevouts; vsize = tx_get_weight T tx div 4 in
      \<lparr>tfi_fee = fee, tfi_vsize = of_nat vsize,
       tfi_fee_per_vbyte = f32_div (f32_of_nat (unat fee)) (f32_of_nat vsize)\<rparr>)"

section \<open>The histogram\<close>

text \<open>
  The sort compares with \<^verbatim>\<open>partial_cmp().unwrap()\<close>: with two entries or more, a NaN rate panics. The order
  the unstable sort gives to entries of equal rate does not matter (they end up in the same bin).
  The loop state is the histogram, the current bin and the last rate.
\<close>

definition histogram_step ::
  "(f32 \<times> u32) list \<times> u32 \<times> f32 \<Rightarrow> tx_fee_info \<Rightarrow> (f32 \<times> u32) list \<times> u32 \<times> f32" where
  "histogram_step st e =
     (case st of (histogram, bin_size, last_fee_rate) \<Rightarrow>
        if VSIZE_BIN_WIDTH < bin_size \<and> f32_ne last_fee_rate (tfi_fee_per_vbyte e)
        then (histogram @ [(last_fee_rate, bin_size)], 0 + tfi_vsize e, tfi_fee_per_vbyte e)
        else (histogram, bin_size + tfi_vsize e, tfi_fee_per_vbyte e))"

definition make_fee_histogram :: "tx_fee_info list \<Rightarrow> (f32 \<times> u32) list res" where
  "make_fee_histogram entries =
     (if 1 < length entries \<and> (\<exists>e \<in> set entries. tfi_fee_per_vbyte e = NaN)
      then panic ''called Option::unwrap on a None value''
      else
        let sorted = sort_key tfi_fee_per_vbyte entries;
            (histogram, bin_size, last_fee_rate) = foldl histogram_step ([], 0, Fin 0) (rev sorted)
        in Inr (if 0 < bin_size then histogram @ [(last_fee_rate, bin_size)] else histogram))"

section \<open>What the histogram says\<close>

abbreviation rate :: "tx_fee_info \<Rightarrow> f32" where
  "rate \<equiv> tfi_fee_per_vbyte"

definition vsize_sum :: "tx_fee_info list \<Rightarrow> nat" where
  "vsize_sum es = (\<Sum>e\<leftarrow>es. unat (tfi_vsize e))"

definition bin_sum :: "(f32 \<times> u32) list \<Rightarrow> nat" where
  "bin_sum h = (\<Sum>b\<leftarrow>h. unat (snd b))"

definition vsize_from :: "f32 \<Rightarrow> tx_fee_info list \<Rightarrow> nat" where
  "vsize_from r es = vsize_sum (filter (\<lambda>e. r \<le> rate e) es)"

text \<open>The cumulative reading of a histogram: up to and including the bin of rate \<open>r\<close>, it accounts for the
  sizes of exactly the transactions that pay at least \<open>r\<close>.\<close>

fun cumulative :: "nat \<Rightarrow> (f32 \<times> u32) list \<Rightarrow> tx_fee_info list \<Rightarrow> bool" where
  "cumulative acc [] es \<longleftrightarrow> True"
| "cumulative acc ((r, s) # h) es \<longleftrightarrow> acc + unat s = vsize_from r es \<and> cumulative (acc + unat s) h es"

lemma cumulative_append:
  "cumulative acc (h @ h') es \<longleftrightarrow> cumulative acc h es \<and> cumulative (acc + bin_sum h) h' es"
  by (induction acc h es rule: cumulative.induct) (auto simp: bin_sum_def add.assoc)

lemma vsize_sum_append [simp]: "vsize_sum (es @ fs) = vsize_sum es + vsize_sum fs"
  by (simp add: vsize_sum_def)

lemma vsize_from_append [simp]: "vsize_from r (es @ fs) = vsize_from r es + vsize_from r fs"
  by (simp add: vsize_from_def)

lemma vsize_from_less: "\<forall>e \<in> set es. rate e < r \<Longrightarrow> vsize_from r es = 0"
  by (simp add: vsize_from_def vsize_sum_def filter_False linorder_not_le)

lemma vsize_from_all: "\<forall>e \<in> set es. r \<le> rate e \<Longrightarrow> vsize_from r es = vsize_sum es"
  by (simp add: vsize_from_def filter_True)

lemma cumulative_more:
  "\<forall>b \<in> set h. rate e < fst b \<Longrightarrow> cumulative acc h (es @ [e]) \<longleftrightarrow> cumulative acc h es"
  by (induction acc h es rule: cumulative.induct) (auto simp: vsize_from_less)

lemma vsize_sum_mset: "mset es = mset fs \<Longrightarrow> vsize_sum es = vsize_sum fs"
  unfolding vsize_sum_def by (metis mset_map sum_mset_sum_list)

lemma cumulative_mset: "mset es = mset fs \<Longrightarrow> cumulative acc h es = cumulative acc h fs"
proof (induction acc h es rule: cumulative.induct)
  case (2 acc r s h es)
  have "vsize_from r es = vsize_from r fs"
    unfolding vsize_from_def using 2(2) by (intro vsize_sum_mset) simp
  with 2 show ?case by simp
qed simp

text \<open>The loop invariant, after the entries \<open>ds\<close>, highest rate first.\<close>

definition histogram_inv :: "tx_fee_info list \<Rightarrow> (f32 \<times> u32) list \<times> u32 \<times> f32 \<Rightarrow> bool" where
  "histogram_inv ds st \<longleftrightarrow>
     (case st of (h, bin, r) \<Rightarrow>
        bin_sum h + unat bin = vsize_sum ds \<and> cumulative 0 h ds \<and>
        sorted_wrt (\<lambda>a b. fst b < fst a) h \<and> (\<forall>b \<in> set h. VSIZE_BIN_WIDTH < snd b) \<and>
        (if ds = [] then h = [] else r = rate (last ds) \<and> (\<forall>b \<in> set h. r < fst b)))"

lemma histogram_step_inv:
  assumes inv: "histogram_inv ds st" and sorted: "sorted_wrt (\<lambda>a b. rate b \<le> rate a) (ds @ [e])"
    and nan: "\<forall>d \<in> set (ds @ [e]). rate d \<noteq> NaN" and small: "vsize_sum (ds @ [e]) < 2 ^ 32"
  shows "histogram_inv (ds @ [e]) (histogram_step st e)"
proof -
  obtain h bin r where st: "st = (h, bin, r)" by (cases st)
  note I = inv [unfolded st histogram_inv_def prod.case]
  have below: "rate e \<le> rate d" if "d \<in> set ds" for d
    using sorted that by (simp add: sorted_wrt_append)
  have above: "\<forall>d \<in> set ds. rate (last ds) \<le> rate d"
    using sorted by (cases ds rule: rev_cases) (auto simp: sorted_wrt_append)
  have sum: "vsize_sum [e] = unat (tfi_vsize e)" by (simp add: vsize_sum_def)
  have "unat bin + unat (tfi_vsize e) < 2 ^ LENGTH(32)" using I small sum by simp
  then have add: "unat (bin + tfi_vsize e) = unat bin + unat (tfi_vsize e)"
    using unat_add_lem [of bin "tfi_vsize e"] by blast
  show ?thesis
  proof (cases "VSIZE_BIN_WIDTH < bin \<and> f32_ne r (rate e)")
    case True
    then have "ds \<noteq> []" using I by (auto simp: VSIZE_BIN_WIDTH_def bin_sum_def vsize_sum_def word_less_nat_alt)
    then have r: "r = rate (last ds)" "\<forall>b \<in> set h. r < fst b" "last ds \<in> set ds" using I by auto
    then have less: "rate e < r" using True nan below [of "last ds"]
      by (auto simp: f32_ne_def order_less_le)
    have "cumulative 0 (h @ [(r, bin)]) ds"
      using I above r(1) by (simp add: cumulative_append vsize_from_all)
    then have "cumulative 0 (h @ [(r, bin)]) (ds @ [e])"
      using less r(2) by (subst cumulative_more) auto
    then show ?thesis
      using True I less r(2) sum
      by (auto simp: st histogram_step_def histogram_inv_def bin_sum_def sorted_wrt_append)
  next
    case False
    have "\<forall>b \<in> set h. rate e < fst b"
    proof (cases "ds = []")
      case True
      then show ?thesis using I by simp
    next
      case False
      then have "rate e \<le> rate (last ds)" "\<forall>b \<in> set h. rate (last ds) < fst b" using I below by auto
      then show ?thesis by (blast intro: le_less_trans)
    qed
    moreover from this have "cumulative 0 h (ds @ [e])" using I by (simp add: cumulative_more)
    ultimately show ?thesis
      using False I sum add by (auto simp: st histogram_step_def histogram_inv_def)
  qed
qed

lemma histogram_fold_inv:
  assumes "sorted_wrt (\<lambda>a b. rate b \<le> rate a) ds" "\<forall>d \<in> set ds. rate d \<noteq> NaN" "vsize_sum ds < 2 ^ 32"
  shows "histogram_inv ds (foldl histogram_step ([], 0, Fin 0) ds)"
  using assms
proof (induction ds rule: rev_induct)
  case Nil
  then show ?case by (simp add: histogram_inv_def bin_sum_def vsize_sum_def)
next
  case (snoc e ds)
  then have "histogram_inv ds (foldl histogram_step ([], 0, Fin 0) ds)"
    by (simp add: sorted_wrt_append)
  from histogram_step_inv [OF this snoc.prems] show ?case by simp
qed

text \<open>
  C29: the fee histogram. For rates that are numbers and sizes that fit the counter, the bins have strictly
  decreasing rates, every bin but the last is wider than the bin width, the sizes add up to all entries, and
  up to the bin of rate r the histogram counts exactly the transactions paying at least r.
\<close>

theorem make_fee_histogram_cumulative:
  assumes "\<forall>e \<in> set es. rate e \<noteq> NaN" "vsize_sum es < 2 ^ 32"
  shows "\<exists>h. make_fee_histogram es = Inr h \<and> sorted_wrt (\<lambda>a b. fst b < fst a) h \<and>
    (\<forall>b \<in> set (butlast h). VSIZE_BIN_WIDTH < snd b) \<and> bin_sum h = vsize_sum es \<and> cumulative 0 h es"
proof -
  let ?ds = "rev (sort_key rate es)"
  have perm: "mset ?ds = mset es" by simp
  have "sorted_wrt (\<lambda>a b. rate b \<le> rate a) ?ds"
    using sorted_sort_key [of rate es] by (simp add: sorted_map sorted_wrt_rev)
  moreover have "\<forall>d \<in> set ?ds. rate d \<noteq> NaN" using assms(1) by simp
  moreover have "vsize_sum ?ds < 2 ^ 32" using assms(2) vsize_sum_mset [OF perm] by simp
  ultimately have inv: "histogram_inv ?ds (foldl histogram_step ([], 0, Fin 0) ?ds)"
    by (rule histogram_fold_inv)
  obtain h bin r where st: "foldl histogram_step ([], 0, Fin 0) ?ds = (h, bin, r)"
    using prod_cases3 by blast
  have run: "make_fee_histogram es = Inr (if 0 < bin then h @ [(r, bin)] else h)"
    using assms(1) st by (auto simp: make_fee_histogram_def Let_def)
  note I = inv [unfolded st histogram_inv_def prod.case cumulative_mset [OF perm] vsize_sum_mset [OF perm]]
  show ?thesis
  proof (cases "0 < bin")
    case True
    then have "vsize_sum es \<noteq> 0" using I by (auto simp: word_less_nat_alt)
    then have "set ?ds \<noteq> {}" by (auto simp: vsize_sum_def)
    then have ne: "?ds \<noteq> []" by (metis set_empty)
    have "\<forall>d \<in> set ?ds. r \<le> rate d"
      using I ne \<open>sorted_wrt (\<lambda>a b. rate b \<le> rate a) ?ds\<close>
      by (cases ?ds rule: rev_cases) (auto simp: sorted_wrt_append)
    then have "vsize_from r es = vsize_sum es" by (intro vsize_from_all) simp
    then show ?thesis unfolding run using True I ne
      by (auto simp: cumulative_append sorted_wrt_append bin_sum_def)
  next
    case False
    then have "unat bin = 0" by (simp add: word_less_nat_alt)
    then show ?thesis unfolding run using False I by (auto dest: in_set_butlastD)
  qed
qed

definition ex_fees :: "tx_fee_info list" where
  "ex_fees = [\<lparr>tfi_fee = 5, tfi_vsize = 5, tfi_fee_per_vbyte = Fin 1\<rparr>,
     \<lparr>tfi_fee = 120000, tfi_vsize = 40000, tfi_fee_per_vbyte = Fin 3\<rparr>,
     \<lparr>tfi_fee = 40000, tfi_vsize = 20000, tfi_fee_per_vbyte = Fin 2\<rparr>]"

lemma make_fee_histogram_cumulative_witness:
  "\<exists>h. make_fee_histogram ex_fees = Inr h \<and> bin_sum h = 60005 \<and> cumulative 0 h ex_fees"
proof -
  have "\<forall>e \<in> set ex_fees. rate e \<noteq> NaN" "vsize_sum ex_fees < 2 ^ 32" "vsize_sum ex_fees = 60005"
    by (simp_all add: ex_fees_def vsize_sum_def)
  with make_fee_histogram_cumulative [of ex_fees] show ?thesis by auto
qed

end
