(* ===== verification/Open_Assets.thy ===== *)
theory Open_Assets
  imports Headers
begin

text \<open>
  Open-assets colouring of a transaction's outputs (\<^verbatim>\<open>src/src/open_assets/mod.rs\<close>, \<open>compute_assets\<close>).
  The \<^verbatim>\<open>while\<close> loop that fills an output from the inputs need not end: it is a partial function into
  \<open>option\<close>, where \<open>None\<close> is a run that never returns. The asset id of an issuance is the library's
  \<^verbatim>\<open>AssetId::new\<close>, a parameter.
\<close>

type_synonym asset_id = bytes

record open_asset =
  oa_asset_id :: asset_id
  oa_asset_quantity :: u64
  oa_metadata :: bytes

type_synonym prev_out = "txout \<times> open_asset option"

section \<open>Filling one output\<close>

text \<open>
  The loop state: the rest of the inputs, the units left of the current one, the current input
  (\<open>None\<close> when there is none), the units left to fill and the asset found so far.
\<close>

fun fetch_input ::
  "prev_out list \<Rightarrow> u64 \<Rightarrow> open_asset option option \<Rightarrow> prev_out list \<times> u64 \<times> open_asset option option" where
  "fetch_input input_enum input_units_left current_input =
     (if input_units_left = 0 then
        case input_enum of
          [] \<Rightarrow> ([], input_units_left, None)
        | (_, a) # rest \<Rightarrow>
            (rest, case a of Some asset \<Rightarrow> oa_asset_quantity asset | None \<Rightarrow> input_units_left, Some a)
      else (input_enum, input_units_left, current_input))"

partial_function (option) fill_output ::
  "prev_out list \<Rightarrow> u64 \<Rightarrow> open_asset option option \<Rightarrow> u64 \<Rightarrow> asset_id option \<Rightarrow>
   (prev_out list \<times> u64 \<times> open_asset option option \<times> asset_id option) res option" where
  "fill_output input_enum input_units_left current_input output_units_left asset_id =
     (if output_units_left = 0 then Some (Inr (input_enum, input_units_left, current_input, asset_id))
      else
        case fetch_input input_enum input_units_left current_input of
          (input_enum, input_units_left, current_input) \<Rightarrow>
            case current_input of
              Some (Some asset) \<Rightarrow>
                let progress =
                  (if input_units_left < output_units_left then input_units_left else output_units_left) in
                if asset_id = None then
                  fill_output input_enum (input_units_left - progress) current_input
                    (output_units_left - progress) (Some (oa_asset_id asset))
                else if asset_id \<noteq> Some (oa_asset_id asset) then Some (panic ''invalid asset'')
                else
                  fill_output input_enum (input_units_left - progress) current_input
                    (output_units_left - progress) asset_id
            | _ \<Rightarrow> fill_output input_enum input_units_left current_input output_units_left asset_id)"

declare fill_output.simps [code]

section \<open>The outputs of a transaction\<close>

text \<open>The outputs before the marker: the issuance.\<close>

definition issuance_output :: "asset_id \<Rightarrow> bytes \<Rightarrow> u64 list \<Rightarrow> nat \<Rightarrow> open_asset option" where
  "issuance_output issuance_asset_id metadata quantities i =
     (if i < length quantities \<and> 0 < quantities ! i
      then Some \<lparr>oa_asset_id = issuance_asset_id, oa_asset_quantity = quantities ! i, oa_metadata = metadata\<rparr>
      else None)"

text \<open>The loop over the quantities of the outputs after the marker: the transfers.\<close>

fun transfer_outputs ::
  "bytes \<Rightarrow> prev_out list \<Rightarrow> u64 \<Rightarrow> open_asset option option \<Rightarrow> u64 list \<Rightarrow> open_asset option list res option" where
  "transfer_outputs metadata input_enum input_units_left current_input [] = Some (Inr [])"
| "transfer_outputs metadata input_enum input_units_left current_input (quantity # quantities) =
     (case fill_output input_enum input_units_left current_input quantity None of
        None \<Rightarrow> None
      | Some (Inl e) \<Rightarrow> Some (Inl e)
      | Some (Inr (input_enum, input_units_left, current_input, asset_id)) \<Rightarrow>
          let asset = (case asset_id of
              Some a \<Rightarrow> if 0 < quantity
                then Some \<lparr>oa_asset_id = a, oa_asset_quantity = quantity, oa_metadata = metadata\<rparr> else None
            | None \<Rightarrow> None)
          in map_option (\<lambda>r. and_then r (\<lambda>rest. Inr (asset # rest)))
               (transfer_outputs metadata input_enum input_units_left current_input quantities))"

definition compute_assets ::
  "(script \<Rightarrow> bnetwork \<Rightarrow> asset_id) \<Rightarrow> prev_out list \<Rightarrow> nat \<Rightarrow> transaction \<Rightarrow> u64 list \<Rightarrow> bnetwork \<Rightarrow> bytes \<Rightarrow>
   open_asset option list res option" where
  "compute_assets asset_id_new prev_outs marker_output_index txn quantities network metadata =
     (if tx_output txn \<noteq> [] \<and> \<not> length quantities \<le> length (tx_output txn) - 1
      then Some (panic ''quantities.len() <= txn.output.len() - 1'')
      else if prev_outs = [] then Some (panic ''!prev_outs.is_empty()'')
      else
        let issuance_asset_id = asset_id_new (txo_script_pubkey (fst (hd prev_outs))) network;
            issued = map (issuance_output issuance_asset_id metadata quantities) [0..<marker_output_index];
            uncolored = replicate (length (tx_output txn) - (length quantities + 1)) None
        in map_option (\<lambda>r. and_then r (\<lambda>transferred. Inr (issued @ [None] @ transferred @ uncolored)))
             (transfer_outputs metadata prev_outs 0 None (drop marker_output_index quantities)))"

section \<open>The units of the inputs\<close>

text \<open>The inputs as a sequence of single units, each with its asset; an output takes the next ones.\<close>

fun asset_units :: "open_asset option \<Rightarrow> asset_id list" where
  "asset_units None = []"
| "asset_units (Some a) = replicate (unat (oa_asset_quantity a)) (oa_asset_id a)"

definition input_units :: "prev_out list \<Rightarrow> asset_id list" where
  "input_units ins = concat (map (\<lambda>(_, a). asset_units a) ins)"

fun current_units :: "u64 \<Rightarrow> open_asset option option \<Rightarrow> asset_id list" where
  "current_units n (Some (Some a)) = replicate (unat n) (oa_asset_id a)"
| "current_units n _ = []"

definition fill_ok :: "u64 \<Rightarrow> open_asset option option \<Rightarrow> bool" where
  "fill_ok n cur \<longleftrightarrow> n = 0 \<or> (\<exists>a. cur = Some (Some a))"

lemma input_units_Cons [simp]: "input_units ((t, a) # ins) = asset_units a @ input_units ins"
  by (simp add: input_units_def)

lemma input_units_Nil [simp]: "input_units [] = []"
  by (simp add: input_units_def)

lemma replicate_split: "m \<le> n \<Longrightarrow> replicate n x = replicate m x @ replicate (n - m) x"
  by (metis le_add_diff_inverse replicate_add)

text \<open>One iteration with a coloured current input.\<close>

lemma progress_units:
  fixes n k :: u64
  defines "p \<equiv> if n < k then n else k"
  shows "replicate (unat n) x = replicate (unat p) x @ replicate (unat (n - p)) x"
    and "unat k = unat p + unat (k - p)" and "unat (n - p) = unat n - unat p"
proof -
  have p: "p \<le> n" "p \<le> k" by (auto simp: p_def)
  then show "unat k = unat p + unat (k - p)" "unat (n - p) = unat n - unat p"
    by (simp_all add: unat_sub word_le_nat_alt)
  then show "replicate (unat n) x = replicate (unat p) x @ replicate (unat (n - p)) x"
    using p(1) by (simp add: replicate_split word_le_nat_alt)
qed

declare fetch_input.simps [simp del]

lemma fetch_units:
  assumes "fetch_input ins n cur = (ins1, n1, cur1)" "fill_ok n cur"
  shows "current_units n cur @ input_units ins = current_units n1 cur1 @ input_units ins1" "fill_ok n1 cur1"
proof -
  show "fill_ok n1 cur1"
    using assms by (auto simp: fetch_input.simps fill_ok_def split: if_splits list.splits option.splits)
  show "current_units n cur @ input_units ins = current_units n1 cur1 @ input_units ins1"
  proof (cases "n = 0")
    case False
    then show ?thesis using assms(1) by (simp add: fetch_input.simps)
  next
    case True
    then have "current_units n cur = []" by (cases "(n, cur)" rule: current_units.cases) auto
    then show ?thesis
      using True assms(1) by (auto simp: fetch_input.simps split: list.splits option.splits)
  qed
qed

text \<open>What a run that returns has done: taken the next \<open>k\<close> units, all of one asset.\<close>

fun fill_result ::
  "prev_out list \<Rightarrow> u64 \<Rightarrow> open_asset option option \<Rightarrow> u64 \<Rightarrow> asset_id option \<Rightarrow>
   (prev_out list \<times> u64 \<times> open_asset option option \<times> asset_id option) res \<Rightarrow> bool" where
  "fill_result ins n cur k aid (Inr (ins', n', cur', aid')) \<longleftrightarrow>
     fill_ok n' cur' \<and>
     (if k = 0 then (ins', n', cur', aid') = (ins, n, cur, aid)
      else \<exists>a. aid' = Some a \<and> (aid = None \<or> aid = Some a) \<and>
        current_units n cur @ input_units ins =
          replicate (unat k) a @ current_units n' cur' @ input_units ins')"
| "fill_result ins n cur k aid (Inl e) \<longleftrightarrow> True"

lemma fill_output_result:
  assumes "fill_output ins n cur k aid = Some r"
  shows "fill_ok n cur \<longrightarrow> fill_result ins n cur k aid r"
proof (rule fill_output.raw_induct [OF _ assms], goal_cases)
  case (1 fill ins n cur k aid r)
  show ?case
  proof (intro impI)
    assume ok: "fill_ok n cur"
    obtain ins1 n1 cur1 where f: "fetch_input ins n cur = (ins1, n1, cur1)" by (metis prod_cases3)
    note units = fetch_units [OF f ok]
    note body = "1"(2) [unfolded f prod.case]
    consider "k = 0" | e where "k \<noteq> 0" "r = Inl e"
      | "k \<noteq> 0" "\<nexists>a. cur1 = Some (Some a)"
      | a where "k \<noteq> 0" "cur1 = Some (Some a)" "\<nexists>e. r = Inl e" by blast
    then show "fill_result ins n cur k aid r"
    proof cases
      case 1
      then show ?thesis using body ok by auto
    next
      case (2 e)
      then show ?thesis by simp
    next
      case 3
      then have "fill ins1 n1 cur1 k aid = Some r" using body by (auto split: option.splits)
      from "1"(1) [OF this] units 3(1) show ?thesis by (cases r) auto
    next
      case (4 a)
      define p where "p = (if n1 < k then n1 else k)"
      have run: "fill ins1 (n1 - p) cur1 (k - p) (Some (oa_asset_id a)) = Some r"
        and aid: "aid = None \<or> aid = Some (oa_asset_id a)"
        using body 4 by (auto simp: p_def Let_def panic_def split: if_splits)
      have "fill_ok (n1 - p) cur1" by (simp add: 4 fill_ok_def)
      then have ih: "fill_result ins1 (n1 - p) cur1 (k - p) (Some (oa_asset_id a)) r"
        using "1"(1) [OF run] by blast
      note pu = progress_units [where n = n1 and k = k, folded p_def]
      have first: "current_units n cur @ input_units ins =
          replicate (unat p) (oa_asset_id a) @ current_units (n1 - p) cur1 @ input_units ins1"
        using units(1) pu(1) [of "oa_asset_id a"] by (simp add: 4)
      have second: "replicate (unat k) (oa_asset_id a) =
          replicate (unat p) (oa_asset_id a) @ replicate (unat (k - p)) (oa_asset_id a)"
        using pu(2) replicate_add [of "unat p" "unat (k - p)" "oa_asset_id a"] by simp
      show ?thesis
      proof (cases r)
        case (Inr t)
        then obtain ins' n' cur' aid' where r: "r = Inr (ins', n', cur', aid')" by (cases t) auto
        show ?thesis
          using ih aid 4(1) second unfolding r fill_result.simps first
          by (cases "k - p = 0") auto
      qed (use 4 in simp)
    qed
  qed
qed

text \<open>When the inputs hold enough units, the loop returns.\<close>

lemma fill_output_returns:
  assumes "fill_ok n cur" "unat k \<le> length (current_units n cur @ input_units ins)"
  shows "\<exists>r. fill_output ins n cur k aid = Some r"
  using assms
proof (induction "2 * length ins + (if n = 0 then 0 else 1)" arbitrary: ins n cur k aid rule: less_induct)
  case less
  obtain ins1 n1 cur1 where f: "fetch_input ins n cur = (ins1, n1, cur1)" by (metis prod_cases3)
  note units = fetch_units [OF f less.prems(1)]
  show ?case
  proof (cases "k = 0")
    case True
    then show ?thesis by (subst fill_output.simps) simp
  next
    case False
    then have "current_units n cur @ input_units ins \<noteq> []"
      using less.prems(2) by (auto simp: unat_eq_0)
    then have fetched: "if n = 0 then length ins = Suc (length ins1) else ins1 = ins \<and> n1 = n \<and> cur1 = cur"
      using f less.prems(1) by (cases "(n, cur)" rule: current_units.cases)
        (auto simp: fetch_input.simps split: if_splits list.splits)
    show ?thesis
    proof (cases "\<exists>a. cur1 = Some (Some a)")
      case uncoloured: False
      then have "n1 = 0" "n = 0" using units(2) fetched by (auto simp: fill_ok_def split: if_splits)
      then have "\<exists>r. fill_output ins1 n1 cur1 k aid = Some r"
        using fetched less.prems(2) units(2) unfolding units(1) by (intro less.hyps) auto
      then show ?thesis
        using False uncoloured f by (subst fill_output.simps) (auto split: option.splits)
    next
      case True
      then obtain a where a: "cur1 = Some (Some a)" by blast
      define p where "p = (if n1 < k then n1 else k)"
      note pu = progress_units [where n = n1 and k = k, folded p_def]
      have "\<exists>r. fill_output ins1 (n1 - p) cur1 (k - p) aid' = Some r" for aid'
      proof (cases "k - p = 0")
        case True
        then show ?thesis by (subst fill_output.simps) simp
      next
        case rest: False
        then have p: "p = n1" by (auto simp: p_def split: if_splits)
        have "unat (k - p) \<le> length (current_units (n1 - p) cur1 @ input_units ins1)"
          using less.prems(2) units(1) pu by (simp add: a)
        moreover have "2 * length ins1 < 2 * length ins + (if n = 0 then 0 else 1)"
          using fetched by (auto split: if_splits)
        ultimately show ?thesis
          using p by (intro less.hyps) (auto simp: fill_ok_def)
      qed
      then show ?thesis
        using False a f by (subst fill_output.simps) (auto simp: Let_def p_def)
    qed
  qed
qed

text \<open>With one asset in the inputs the run cannot panic.\<close>

fun one_asset :: "asset_id \<Rightarrow> open_asset option option \<Rightarrow> prev_out list \<Rightarrow> bool" where
  "one_asset a cur ins \<longleftrightarrow>
     (\<forall>c. cur = Some (Some c) \<longrightarrow> oa_asset_id c = a) \<and> (\<forall>(t, b) \<in> set ins. \<forall>c. b = Some c \<longrightarrow> oa_asset_id c = a)"

lemma fetch_one_asset:
  "fetch_input ins n cur = (ins1, n1, cur1) \<Longrightarrow> one_asset a cur ins \<Longrightarrow> one_asset a cur1 ins1"
  by (auto simp: fetch_input.simps split: if_splits list.splits)

lemma fill_output_one_asset:
  assumes "fill_output ins n cur k aid = Some r"
  shows "one_asset a cur ins \<and> (aid = None \<or> aid = Some a) \<longrightarrow>
    (\<exists>ins' n' cur' aid'. r = Inr (ins', n', cur', aid') \<and> one_asset a cur' ins')"
proof (rule fill_output.raw_induct [OF _ assms], goal_cases)
  case (1 fill ins n cur k aid r)
  show ?case
  proof (intro impI)
    assume one: "one_asset a cur ins \<and> (aid = None \<or> aid = Some a)"
    obtain ins1 n1 cur1 where f: "fetch_input ins n cur = (ins1, n1, cur1)" by (metis prod_cases3)
    have one1: "one_asset a cur1 ins1" using fetch_one_asset [OF f] one by blast
    note body = "1"(2) [unfolded f prod.case]
    show "\<exists>ins' n' cur' aid'. r = Inr (ins', n', cur', aid') \<and> one_asset a cur' ins'"
    proof (cases "k = 0")
      case True
      then show ?thesis using body one by auto
    next
      case False
      show ?thesis
      proof (cases "\<exists>c. cur1 = Some (Some c)")
        case True
        then obtain c where c: "cur1 = Some (Some c)" "oa_asset_id c = a" using one1 by auto
        show ?thesis
          using body False one one1 "1"(1) unfolding c Let_def
          by (auto simp: c(2) simp del: one_asset.simps split: if_splits)
      next
        case uncoloured: False
        then have "fill ins1 n1 cur1 k aid = Some r" using body False by (auto split: option.splits)
        then show ?thesis using "1"(1) one one1 by blast
      qed
    qed
  qed
qed

section \<open>The transfers and the whole transaction\<close>

definition quantity_sum :: "u64 list \<Rightarrow> nat" where
  "quantity_sum qs = (\<Sum>q\<leftarrow>qs. unat q)"

abbreviation output_units :: "open_asset option list \<Rightarrow> asset_id list" where
  "output_units rs \<equiv> concat (map asset_units rs)"

definition has_quantity :: "bytes \<Rightarrow> open_asset option \<Rightarrow> u64 \<Rightarrow> bool" where
  "has_quantity metadata r q \<longleftrightarrow>
     (if q = 0 then r = None
      else \<exists>a. r = Some \<lparr>oa_asset_id = a, oa_asset_quantity = q, oa_metadata = metadata\<rparr>)"

lemma has_quantity_units: "has_quantity md r q \<Longrightarrow> length (asset_units r) = unat q"
  by (auto simp: has_quantity_def split: if_splits)

lemma transfer_outputs_sound:
  assumes "transfer_outputs md ins n cur qs = Some (Inr rs)" "fill_ok n cur"
  shows "list_all2 (has_quantity md) rs qs \<and> prefix (output_units rs) (current_units n cur @ input_units ins)"
  using assms
proof (induction qs arbitrary: ins n cur rs)
  case Nil
  then show ?case by simp
next
  case (Cons q qs)
  obtain ins' n' cur' aid' where fill: "fill_output ins n cur q None = Some (Inr (ins', n', cur', aid'))"
    using Cons.prems(1) by (auto split: option.splits sum.splits)
  define r where "r = (case aid' of
      Some a \<Rightarrow> if 0 < q then Some \<lparr>oa_asset_id = a, oa_asset_quantity = q, oa_metadata = md\<rparr> else None
    | None \<Rightarrow> None)"
  obtain rs' where rs': "transfer_outputs md ins' n' cur' qs = Some (Inr rs')" "rs = r # rs'"
    using Cons.prems(1) fill by (auto simp: r_def Let_def)
  have res: "fill_result ins n cur q None (Inr (ins', n', cur', aid'))"
    using fill_output_result [OF fill] Cons.prems(2) by blast
  then have ok: "fill_ok n' cur'" by simp
  have ih: "list_all2 (has_quantity md) rs' qs" "prefix (output_units rs') (current_units n' cur' @ input_units ins')"
    using Cons.IH [OF rs'(1) ok] by auto
  have "has_quantity md r q \<and> asset_units r @ current_units n' cur' @ input_units ins' =
      current_units n cur @ input_units ins"
    using res by (auto simp: r_def has_quantity_def word_gt_0 split: if_splits)
  with ih rs'(2) show ?case
    by (simp add: prefix_def) (metis append.assoc)
qed

lemma transfer_outputs_returns:
  assumes "fill_ok n cur" "quantity_sum qs \<le> length (current_units n cur @ input_units ins)"
  shows "\<exists>r. transfer_outputs md ins n cur qs = Some r"
  using assms
proof (induction qs arbitrary: ins n cur)
  case Nil
  then show ?case by simp
next
  case (Cons q qs)
  have "unat q \<le> length (current_units n cur @ input_units ins)"
    using Cons.prems(2) by (simp add: quantity_sum_def)
  then obtain f where fill: "fill_output ins n cur q None = Some f"
    using fill_output_returns [OF Cons.prems(1)] by blast
  show ?case
  proof (cases f)
    case (Inl e)
    with fill show ?thesis by simp
  next
    case (Inr t)
    then obtain ins' n' cur' aid' where t: "f = Inr (ins', n', cur', aid')" by (cases t) auto
    have res: "fill_result ins n cur q None (Inr (ins', n', cur', aid'))"
      using fill_output_result [OF fill] Cons.prems(1) t by blast
    then have "length (current_units n cur @ input_units ins) =
        unat q + length (current_units n' cur' @ input_units ins')"
      by (auto split: if_splits dest: arg_cong [where f = length])
    then have "quantity_sum qs \<le> length (current_units n' cur' @ input_units ins')"
      using Cons.prems(2) by (simp add: quantity_sum_def)
    moreover have "fill_ok n' cur'" using res by simp
    ultimately obtain r where "transfer_outputs md ins' n' cur' qs = Some r"
      using Cons.IH by blast
    with fill t show ?thesis by (simp add: Let_def)
  qed
qed

subsection \<open>The transfers, unit by unit\<close>

text \<open>
  What the transfers should be: each output takes the next units of the inputs, which have to be of one asset.
  An input whose asset has no units would be taken for one of another asset; the inputs have none, as no output
  is given an asset with no units.
\<close>

fun unit_transfers :: "bytes \<Rightarrow> asset_id list \<Rightarrow> u64 list \<Rightarrow> open_asset option list res" where
  "unit_transfers metadata units [] = Inr []"
| "unit_transfers metadata units (q # qs) =
     (if \<exists>u \<in> set (take (unat q) units). u \<noteq> hd units then panic ''invalid asset''
      else and_then (unit_transfers metadata (drop (unat q) units) qs) (\<lambda>rest.
        Inr ((if q = 0 then None
          else Some \<lparr>oa_asset_id = hd units, oa_asset_quantity = q, oa_metadata = metadata\<rparr>) # rest)))"

definition inputs_positive :: "prev_out list \<Rightarrow> bool" where
  "inputs_positive ins \<longleftrightarrow> (\<forall>(t, a) \<in> set ins. \<forall>c. a = Some c \<longrightarrow> oa_asset_quantity c \<noteq> 0)"

lemma fetch_positive:
  assumes "fetch_input ins n cur = (ins1, n1, cur1)" "inputs_positive ins"
  shows "inputs_positive ins1" "n \<noteq> 0 \<or> cur1 \<noteq> cur \<Longrightarrow> cur1 = Some (Some c) \<Longrightarrow> n1 \<noteq> 0"
  using assms by (auto simp: fetch_input.simps inputs_positive_def split: if_splits list.splits option.splits)

text \<open>A run that returns ends well when the units it takes are of one asset, and with this panic otherwise.\<close>

lemma fill_output_outcome:
  assumes "fill_output ins n cur k aid = Some r"
  shows "fill_ok n cur \<and> inputs_positive ins \<longrightarrow>
    (case r of
       Inr (ins', n', cur', aid') \<Rightarrow> inputs_positive ins'
     | Inl e \<Rightarrow> e = Panic ''invalid asset'' \<and>
         \<not> (\<exists>a. (aid = None \<or> aid = Some a) \<and> set (take (unat k) (current_units n cur @ input_units ins)) \<subseteq> {a}))"
proof (rule fill_output.raw_induct [OF _ assms], goal_cases)
  case (1 fill ins n cur k aid r)
  show ?case
  proof (intro impI)
    assume ok: "fill_ok n cur \<and> inputs_positive ins"
    obtain ins1 n1 cur1 where f: "fetch_input ins n cur = (ins1, n1, cur1)" by (metis prod_cases3)
    note units = fetch_units [OF f conjunct1 [OF ok]] and pos = fetch_positive [OF f conjunct2 [OF ok]]
    note body = "1"(2) [unfolded f prod.case]
    let ?units = "current_units n cur @ input_units ins"
    consider "k = 0" | "k \<noteq> 0" "\<nexists>a. cur1 = Some (Some a)"
      | a where "k \<noteq> 0" "cur1 = Some (Some a)" by blast
    then show "case r of
       Inr (ins', n', cur', aid') \<Rightarrow> inputs_positive ins'
     | Inl e \<Rightarrow> e = Panic ''invalid asset'' \<and> \<not> (\<exists>a. (aid = None \<or> aid = Some a) \<and> set (take (unat k) ?units) \<subseteq> {a})"
    proof cases
      case 1
      then show ?thesis using body ok by auto
    next
      case 2
      then have "fill ins1 n1 cur1 k aid = Some r" using body by (auto split: option.splits)
      from "1"(1) [OF this] units(2) pos(1) show ?thesis unfolding units(1) by simp
    next
      case (3 a)
      define p where "p = (if n1 < k then n1 else k)"
      note pu = progress_units [where n = n1 and k = k, folded p_def]
      have n1: "n1 \<noteq> 0"
        using f ok 3 by (auto simp: fetch_input.simps inputs_positive_def split: if_splits list.splits option.splits)
      have first: "?units = replicate (unat p) (oa_asset_id a) @ current_units (n1 - p) cur1 @ input_units ins1"
        using units(1) pu(1) [of "oa_asset_id a"] by (simp add: 3)
      have p: "p \<noteq> 0" using n1 3(1) by (simp add: p_def)
      then have "0 < unat p" by (simp add: unat_gt_0)
      then have head: "oa_asset_id a \<in> set (take (unat k) ?units)"
        unfolding first pu(2) by (cases "unat p") simp_all
      have tail: "set (take (unat (k - p)) (current_units (n1 - p) cur1 @ input_units ins1)) \<subseteq> set (take (unat k) ?units)"
        unfolding first pu(2) by auto
      show ?thesis
      proof (cases "aid = None \<or> aid = Some (oa_asset_id a)")
        case False
        then have "r = panic ''invalid asset''" using body 3 by (auto simp: Let_def split: if_split_asm)
        with False head show ?thesis by (auto simp: panic_def)
      next
        case True
        then have run: "fill ins1 (n1 - p) cur1 (k - p) (Some (oa_asset_id a)) = Some r"
          using body 3 by (auto simp: p_def Let_def)
        have "fill_ok (n1 - p) cur1" by (simp add: 3 fill_ok_def)
        then have ih: "case r of
            Inr (ins', n', cur', aid') \<Rightarrow> inputs_positive ins'
          | Inl e \<Rightarrow> e = Panic ''invalid asset'' \<and>
              \<not> set (take (unat (k - p)) (current_units (n1 - p) cur1 @ input_units ins1)) \<subseteq> {oa_asset_id a}"
          using "1"(1) [OF run] pos(1) by (cases r) simp_all
        have mixed: "\<not> set (take (unat k) ?units) \<subseteq> {b}"
          if "\<not> set (take (unat (k - p)) (current_units (n1 - p) cur1 @ input_units ins1)) \<subseteq> {oa_asset_id a}" for b
          using that head tail by blast
        from ih show ?thesis using mixed by (cases r) (simp only: sum.case, blast, simp only: sum.case)
      qed
    qed
  qed
qed

lemma transfer_outputs_units:
  assumes "fill_ok n cur" "inputs_positive ins" "quantity_sum qs \<le> length (current_units n cur @ input_units ins)"
  shows "transfer_outputs md ins n cur qs = Some (unit_transfers md (current_units n cur @ input_units ins) qs)"
  using assms
proof (induction qs arbitrary: ins n cur)
  case Nil
  then show ?case by simp
next
  case (Cons q qs)
  let ?units = "current_units n cur @ input_units ins"
  have enough: "unat q \<le> length ?units" using Cons.prems(3) by (simp add: quantity_sum_def)
  then obtain f where fill: "fill_output ins n cur q None = Some f"
    using fill_output_returns [OF Cons.prems(1)] by blast
  note outcome = fill_output_outcome [OF fill] and result = fill_output_result [OF fill]
  show ?case
  proof (cases f)
    case (Inl e)
    with outcome Cons.prems(1,2) have e: "f = Inl (Panic ''invalid asset'')"
      and mixed: "\<not> set (take (unat q) ?units) \<subseteq> {hd ?units}" by auto
    then have "\<exists>u \<in> set (take (unat q) ?units). u \<noteq> hd ?units" by blast
    with fill e show ?thesis by (simp add: panic_def)
  next
    case (Inr t)
    then obtain ins' n' cur' aid' where t: "f = Inr (ins', n', cur', aid')" by (cases t) auto
    have res: "fill_result ins n cur q None (Inr (ins', n', cur', aid'))" using result Cons.prems(1) t by blast
    have pos: "inputs_positive ins'" using outcome Cons.prems(1,2) t by simp
    have drop: "current_units n' cur' @ input_units ins' = drop (unat q) ?units" and ok: "fill_ok n' cur'"
      using res by (auto split: if_splits simp del: drop_append) simp
    have ih: "transfer_outputs md ins' n' cur' qs = Some (unit_transfers md (drop (unat q) ?units) qs)"
      unfolding drop [symmetric] using Cons.prems(3) drop enough
      by (intro Cons.IH [OF ok pos]) (simp add: quantity_sum_def flip: drop_append)
    show ?thesis
    proof (cases "q = 0")
      case True
      then have "aid' = None" using res by simp
      with fill t ih True show ?thesis by (simp add: Let_def)
    next
      case False
      then obtain a where a: "aid' = Some a" "?units = replicate (unat q) a @ current_units n' cur' @ input_units ins'"
        using res by auto
      have "0 < unat q" using False by (simp add: unat_gt_0)
      then have "hd ?units = a" "\<forall>u \<in> set (take (unat q) ?units). u = a"
        unfolding a(2) by (cases "unat q"; simp)+
      with fill t ih a(1) False show ?thesis by (simp add: Let_def word_gt_0)
    qed
  qed
qed

lemma transfer_outputs_one_asset:
  assumes "transfer_outputs md ins n cur qs = Some r" "one_asset a cur ins"
  shows "\<exists>rs. r = Inr rs"
  using assms
proof (induction qs arbitrary: ins n cur r)
  case Nil
  then show ?case by auto
next
  case (Cons q qs)
  obtain f where fill: "fill_output ins n cur q None = Some f"
    using Cons.prems(1) by (auto split: option.splits)
  obtain ins' n' cur' aid' where f: "f = Inr (ins', n', cur', aid')" "one_asset a cur' ins'"
    using fill_output_one_asset [OF fill] Cons.prems(2) by blast
  obtain r' where r': "transfer_outputs md ins' n' cur' qs = Some r'"
    using Cons.prems(1) fill f by (auto simp: Let_def)
  then have "\<exists>rs. r' = Inr rs"
    using Cons.IH [OF r' f(2)] by blast
  then show ?case using Cons.prems(1) fill f r' by (auto simp: Let_def)
qed

lemma compute_assets_Some:
  assumes "compute_assets A ins m txn qs nw md = Some (Inr res)"
  obtains ts where "transfer_outputs md ins 0 None (drop m qs) = Some (Inr ts)"
    "res = map (issuance_output (A (txo_script_pubkey (fst (hd ins))) nw) md qs) [0..<m] @ [None] @ ts @
      replicate (length (tx_output txn) - (length qs + 1)) None"
    "tx_output txn = [] \<or> length qs \<le> length (tx_output txn) - 1"
  using assms by (auto simp: compute_assets_def Let_def panic_def split: if_splits)

lemma fill_ok_start [simp]: "fill_ok 0 None"
  by (simp add: fill_ok_def)

text \<open>
  C4: order-based colouring. When the marker's quantities reach the marker position, a run of compute_assets
  that returns gives every output its asset: before the marker the issuance, at the marker nothing, after it
  outputs with the stated quantities whose units, in order, are the first units of the inputs, in order (so
  no asset is created or reordered by a transfer), and nothing on the outputs past the quantities.
\<close>

theorem compute_assets_order_based:
  assumes "compute_assets A ins m txn qs nw md = Some (Inr res)" "m \<le> length qs" "tx_output txn \<noteq> []"
  shows "\<exists>ts. res = map (issuance_output (A (txo_script_pubkey (fst (hd ins))) nw) md qs) [0..<m] @ [None] @ ts @
        replicate (length (tx_output txn) - (length qs + 1)) None \<and>
      length res = length (tx_output txn) \<and>
      list_all2 (has_quantity md) ts (drop m qs) \<and> prefix (output_units ts) (input_units ins)"
proof -
  obtain ts where ts: "transfer_outputs md ins 0 None (drop m qs) = Some (Inr ts)"
    "res = map (issuance_output (A (txo_script_pubkey (fst (hd ins))) nw) md qs) [0..<m] @ [None] @ ts @
      replicate (length (tx_output txn) - (length qs + 1)) None"
    "length qs \<le> length (tx_output txn) - 1"
    using compute_assets_Some [OF assms(1)] assms(3) by metis
  have sound: "list_all2 (has_quantity md) ts (drop m qs)" "prefix (output_units ts) (input_units ins)"
    using transfer_outputs_sound [OF ts(1)] by simp_all
  have "length ts = length qs - m" using list_all2_lengthD [OF sound(1)] by simp
  moreover have "Suc (length qs) \<le> length (tx_output txn)"
    using assms(3) ts(3) by (cases "tx_output txn") auto
  ultimately have "length res = length (tx_output txn)"
    using ts(2) assms(2) by simp
  with sound ts(2) show ?thesis by blast
qed

definition ex_asset :: "u8 \<Rightarrow> u64 \<Rightarrow> open_asset" where
  "ex_asset a q = \<lparr>oa_asset_id = [a], oa_asset_quantity = q, oa_metadata = []\<rparr>"

definition ex_out :: txout where
  "ex_out = \<lparr>txo_value = 600, txo_script_pubkey = []\<rparr>"

definition ex_inputs :: "prev_out list" where
  "ex_inputs = [(ex_out, Some (ex_asset 1 2)), (ex_out, None), (ex_out, Some (ex_asset 1 3))]"

definition ex_asset_tx :: transaction where
  "ex_asset_tx = \<lparr>tx_version = 1, tx_lock_time = 0, tx_input = [], tx_output = replicate 4 ex_out\<rparr>"

lemma ex_compute_assets:
  "compute_assets (\<lambda>_ _. [9]) ex_inputs 1 ex_asset_tx [7, 4] BProd [5] =
     Some (Inr [Some \<lparr>oa_asset_id = [9], oa_asset_quantity = 7, oa_metadata = [5]\<rparr>, None,
       Some \<lparr>oa_asset_id = [1], oa_asset_quantity = 4, oa_metadata = [5]\<rparr>, None])"
  by code_simp

lemma compute_assets_order_based_witness:
  "\<exists>ts. prefix (output_units ts) (input_units ex_inputs) \<and> list_all2 (has_quantity [5]) ts [4]"
proof -
  have "tx_output ex_asset_tx \<noteq> []" "drop 1 [7, 4] = [4::u64]" by (simp_all add: ex_asset_tx_def)
  then show ?thesis using compute_assets_order_based [OF ex_compute_assets] by auto
qed

text \<open>
  C20: when it returns, and what. When the inputs hold as many units as the marker transfers (each asset with some),
  compute_assets returns: after the issuance and the marker, each output takes the next units of the inputs in
  order and gets their asset, nothing if its quantity is 0; it panics exactly when the units of one output are
  of different assets.
\<close>

theorem compute_assets_returns:
  assumes "ins \<noteq> []" "length qs \<le> length (tx_output txn) - 1" "inputs_positive ins"
    "quantity_sum (drop m qs) \<le> length (input_units ins)"
  shows "compute_assets A ins m txn qs nw md =
    Some (and_then (unit_transfers md (input_units ins) (drop m qs)) (\<lambda>ts.
      Inr (map (issuance_output (A (txo_script_pubkey (fst (hd ins))) nw) md qs) [0..<m] @ [None] @ ts @
        replicate (length (tx_output txn) - (length qs + 1)) None)))"
  using transfer_outputs_units [of 0 None ins "drop m qs" md] assms
  by (simp add: compute_assets_def Let_def)

definition ex_mixed_inputs :: "prev_out list" where
  "ex_mixed_inputs = [(ex_out, Some (ex_asset 1 2)), (ex_out, None), (ex_out, Some (ex_asset 2 3))]"

lemma compute_assets_returns_witness:
  "compute_assets (\<lambda>_ _. [9]) ex_inputs 1 ex_asset_tx [7, 4] BProd [5] =
     Some (Inr [Some \<lparr>oa_asset_id = [9], oa_asset_quantity = 7, oa_metadata = [5]\<rparr>, None,
       Some \<lparr>oa_asset_id = [1], oa_asset_quantity = 4, oa_metadata = [5]\<rparr>, None]) \<and>
   compute_assets (\<lambda>_ _. [9]) ex_mixed_inputs 1 ex_asset_tx [7, 4] BProd [5] = Some (panic ''invalid asset'')"
proof -
  have tx: "length (tx_output ex_asset_tx) = 4" by (simp add: ex_asset_tx_def)
  have pos: "inputs_positive ex_inputs" "inputs_positive ex_mixed_inputs"
    by (simp_all add: inputs_positive_def ex_inputs_def ex_mixed_inputs_def ex_asset_def)
  have units: "input_units ex_inputs = [[1], [1], [1], [1], [1]]" "input_units ex_mixed_inputs = [[1], [1], [2], [2], [2]]"
    by code_simp+
  have sum: "quantity_sum [4] = 4" by (simp add: quantity_sum_def)
  have u: "unit_transfers [5] [[1], [1], [1], [1], [1]] (drop 1 [7, 4]) =
      Inr [Some \<lparr>oa_asset_id = [1], oa_asset_quantity = 4, oa_metadata = [5]\<rparr>]"
    "unit_transfers [5] [[1], [1], [2], [2], [2]] (drop 1 [7, 4]) = panic ''invalid asset''"
    by code_simp+
  show ?thesis
    using compute_assets_returns [of ex_inputs "[7, 4]" ex_asset_tx 1 "\<lambda>_ _. [9]" BProd "[5]"]
      compute_assets_returns [of ex_mixed_inputs "[7, 4]" ex_asset_tx 1 "\<lambda>_ _. [9]" BProd "[5]"]
    by (simp add: tx pos units u sum) (simp add: ex_inputs_def ex_mixed_inputs_def issuance_output_def panic_def)
qed

text \<open>
  C19: the loop that never ends. When all coloured inputs carry one asset and hold fewer units than the marker
  transfers, compute_assets does not return: the input iterator is exhausted and the output is never filled.
\<close>

theorem compute_assets_diverges:
  assumes "ins \<noteq> []" "length qs \<le> length (tx_output txn) - 1" "one_asset a None ins"
    "length (input_units ins) < quantity_sum (drop m qs)"
  shows "compute_assets A ins m txn qs nw md = None"
proof -
  have "transfer_outputs md ins 0 None (drop m qs) \<noteq> Some r" for r
  proof
    assume run: "transfer_outputs md ins 0 None (drop m qs) = Some r"
    then obtain rs where "r = Inr rs" using transfer_outputs_one_asset assms(3) by blast
    with run have "transfer_outputs md ins 0 None (drop m qs) = Some (Inr rs)" by simp
    from transfer_outputs_sound [OF this]
    have "list_all2 (has_quantity md) rs (drop m qs)" "length (output_units rs) \<le> length (input_units ins)"
      by (auto dest: prefix_length_le)
    moreover have "length (output_units rs) = quantity_sum (drop m qs)"
      using calculation(1) by (induction rule: list_all2_induct) (auto simp: quantity_sum_def has_quantity_units)
    ultimately show False using assms(4) by simp
  qed
  then have "transfer_outputs md ins 0 None (drop m qs) = None" by (metis not_None_eq)
  with assms(1,2) show ?thesis by (simp add: compute_assets_def Let_def)
qed

lemma compute_assets_diverges_witness:
  "compute_assets (\<lambda>_ _. [9]) ex_inputs 1 ex_asset_tx [7, 6] BProd [5] = None"
  by (rule compute_assets_diverges [where a = "[1]"])
    (simp_all add: quantity_sum_def ex_inputs_def ex_asset_def ex_asset_tx_def)

text \<open>
  C21: fewer quantities than outputs before the marker. The loops over the outputs overlap then, and the result
  is longer than the list of outputs by the difference.
\<close>

theorem compute_assets_excess_length:
  assumes "compute_assets A ins m txn qs nw md = Some (Inr res)" "length qs < m" "tx_output txn \<noteq> []"
  shows "length res = length (tx_output txn) + (m - length qs)"
proof -
  obtain ts where ts: "transfer_outputs md ins 0 None (drop m qs) = Some (Inr ts)"
    "res = map (issuance_output (A (txo_script_pubkey (fst (hd ins))) nw) md qs) [0..<m] @ [None] @ ts @
      replicate (length (tx_output txn) - (length qs + 1)) None"
    "length qs \<le> length (tx_output txn) - 1"
    using compute_assets_Some [OF assms(1)] assms(3) by metis
  have "ts = []" using ts(1) assms(2) by simp
  moreover have "Suc (length qs) \<le> length (tx_output txn)"
    using assms(3) ts(3) by (cases "tx_output txn") auto
  ultimately show ?thesis using ts(2) assms(2) by simp
qed

lemma compute_assets_excess_length_witness:
  "\<exists>res. compute_assets (\<lambda>_ _. [9]) ex_inputs 3 ex_asset_tx [7] BProd [5] = Some (Inr res) \<and> length res = 6"
proof -
  have "compute_assets (\<lambda>_ _. [9]) ex_inputs 3 ex_asset_tx [7] BProd [5] =
      Some (Inr [Some \<lparr>oa_asset_id = [9], oa_asset_quantity = 7, oa_metadata = [5]\<rparr>, None, None, None, None, None])"
    by code_simp
  from compute_assets_excess_length [OF this] this show ?thesis by (simp add: ex_asset_tx_def)
qed

end
