(* ===== verification/Json.thy ===== *)
theory Json
  imports Fees Open_Assets
begin

text \<open>
  JSON values as the program handles them (\<^verbatim>\<open>serde_json::Value\<close>): the accessors, indexing, the \<^verbatim>\<open>json!\<close>
  constructors, and reading structs from values. The text form of a value, hexadecimal strings and base64
  belong to libraries and are fields of the parameter \<open>lib\<close>.
\<close>

section \<open>Double-precision numbers\<close>

text \<open>Finite doubles are rationals rounded to a 53-bit significand; no value here leaves the normal range.\<close>

definition f64_round_pos :: "rat \<Rightarrow> rat" where
  "f64_round_pos q =
     (let (n, d) = quotient_of q;
          e = int (floorlog 2 (nat n)) - int (floorlog 2 (nat d)) - 53;
          e' = (if q / pow2 e < 2 ^ 53 then e else e + 1)
      in of_int (round_half_even (q / pow2 e')) * pow2 e')"

definition f64_round :: "rat \<Rightarrow> rat" where
  "f64_round q = (if q = 0 then 0 else if 0 < q then f64_round_pos q else - f64_round_pos (- q))"

definition f64_mul :: "rat \<Rightarrow> rat \<Rightarrow> rat" where
  "f64_mul a b = f64_round (a * b)"

text \<open>\<^verbatim>\<open>as u32\<close>: towards zero, saturating.\<close>

definition f64_as_u32 :: "rat \<Rightarrow> u32" where
  "f64_as_u32 q = (if q \<le> 0 then 0 else of_nat (min (nat \<lfloor>q\<rfloor>) (2 ^ 32 - 1)))"

section \<open>Values\<close>

text \<open>The three kinds of \<^verbatim>\<open>serde_json::Number\<close>; an object is a map with distinct keys.\<close>

datatype number = PosInt u64 | NegInt int | Float rat

datatype json =
    JNull
  | JBool bool
  | JNum number
  | JStr string
  | JArr "json list"
  | JObj "(string \<times> json) list"

abbreviation j_u64 :: "u64 \<Rightarrow> json" where
  "j_u64 n \<equiv> JNum (PosInt n)"

definition j_nat :: "nat \<Rightarrow> json" where
  "j_nat n = JNum (PosInt (of_nat n))"

fun as_str :: "json \<Rightarrow> string option" where
  "as_str (JStr s) = Some s"
| "as_str _ = None"

fun as_bool :: "json \<Rightarrow> bool option" where
  "as_bool (JBool b) = Some b"
| "as_bool _ = None"

fun as_array :: "json \<Rightarrow> json list option" where
  "as_array (JArr vs) = Some vs"
| "as_array _ = None"

fun as_object :: "json \<Rightarrow> (string \<times> json) list option" where
  "as_object (JObj kvs) = Some kvs"
| "as_object _ = None"

fun as_u64 :: "json \<Rightarrow> u64 option" where
  "as_u64 (JNum (PosInt n)) = Some n"
| "as_u64 _ = None"

fun as_i64 :: "json \<Rightarrow> int option" where
  "as_i64 (JNum (PosInt n)) = (if unat n < 2 ^ 63 then Some (int (unat n)) else None)"
| "as_i64 (JNum (NegInt i)) = Some i"
| "as_i64 _ = None"

fun as_f64 :: "json \<Rightarrow> rat option" where
  "as_f64 (JNum (PosInt n)) = Some (f64_round (of_nat (unat n)))"
| "as_f64 (JNum (NegInt i)) = Some (f64_round (of_int i))"
| "as_f64 (JNum (Float q)) = Some q"
| "as_f64 _ = None"

text \<open>\<^verbatim>\<open>Value::get(key)\<close> and the indexing \<^verbatim>\<open>value[key]\<close>, which is \<^verbatim>\<open>Null\<close> when there is no such field.\<close>

fun json_get :: "string \<Rightarrow> json \<Rightarrow> json option" where
  "json_get k (JObj kvs) = map_of kvs k"
| "json_get k _ = None"

definition json_index :: "json \<Rightarrow> string \<Rightarrow> json" where
  "json_index v k = (case json_get k v of Some x \<Rightarrow> x | None \<Rightarrow> JNull)"

text \<open>Indexing a mutable value inserts a missing field into an object or null, and panics on other values.\<close>

fun json_index_mut :: "json \<Rightarrow> string \<Rightarrow> json res" where
  "json_index_mut (JObj kvs) k = Inr (json_index (JObj kvs) k)"
| "json_index_mut JNull k = Inr JNull"
| "json_index_mut _ k = panic ''cannot access key in JSON''"

section \<open>Reading typed values\<close>

text \<open>
  \<^verbatim>\<open>serde_json::from_value\<close>: a struct is read from an object by field name (unknown fields are ignored) or
  from an array by position; an optional field may be missing from an object or null.
\<close>

definition js_field :: "json \<Rightarrow> nat \<Rightarrow> string list \<Rightarrow> json option" where
  "js_field v i names =
     (case v of
        JObj kvs \<Rightarrow>
          (case List.map_filter (map_of kvs) names of [x] \<Rightarrow> Some x | _ \<Rightarrow> None)
      | JArr vs \<Rightarrow> if i < length vs then Some (vs ! i) else None
      | _ \<Rightarrow> None)"

definition js_struct :: "json \<Rightarrow> nat \<Rightarrow> bool" where
  "js_struct v n = (case v of JObj kvs \<Rightarrow> True | JArr vs \<Rightarrow> length vs = n | _ \<Rightarrow> False)"

fun js_uint :: "nat \<Rightarrow> json \<Rightarrow> nat option" where
  "js_uint w (JNum (PosInt n)) = (if unat n < 2 ^ w then Some (unat n) else None)"
| "js_uint w _ = None"

definition js_u32 :: "json \<Rightarrow> u32 option" where
  "js_u32 v = map_option of_nat (js_uint 32 v)"

definition js_u64 :: "json \<Rightarrow> u64 option" where
  "js_u64 v = map_option of_nat (js_uint 64 v)"

definition js_opt :: "(json \<Rightarrow> 'a option) \<Rightarrow> json option \<Rightarrow> 'a option option" where
  "js_opt f v = (case v of None \<Rightarrow> Some None | Some JNull \<Rightarrow> Some None | Some x \<Rightarrow> map_option Some (f x))"

section \<open>Libraries\<close>

text \<open>
  The text form of JSON, hexadecimal strings of bytes, the (byte-reversed) hexadecimal form of hashes, base64,
  the block, variable-length integer and Merkle block encodings of the tapyrus library, and the marker
  payloads and asset ids of the open assets library.
\<close>

record lib =
  js_to_string :: "json \<Rightarrow> string"
  js_from_str :: "string \<Rightarrow> json option"
  hex_encode :: "bytes \<Rightarrow> string"
  hex_decode :: "string \<Rightarrow> bytes option"
  hash_to_hex :: "hash \<Rightarrow> string"
  hash_from_hex :: "string \<Rightarrow> hash option"
  base64_encode :: "bytes \<Rightarrow> string"
  serialize_block :: "block \<Rightarrow> bytes"
  deserialize_block :: "bytes \<Rightarrow> block option"
  block_get_size :: "block \<Rightarrow> nat"
  serialize_varint :: "nat \<Rightarrow> bytes"
  merkle_block :: "block_header \<Rightarrow> txid list \<Rightarrow> txid list \<Rightarrow> bytes"
  get_oa_payload :: "txout \<Rightarrow> (u64 list \<times> bytes) option"
  asset_id_new :: "script \<Rightarrow> bnetwork \<Rightarrow> asset_id"

locale lib_laws =
  fixes L :: lib
  assumes hex_decode_encode: "hex_decode L (hex_encode L bs) = Some bs"
    and hash_from_to_hex: "hash_from_hex L (hash_to_hex L h) = Some h"
    and deserialize_serialize_block: "deserialize_block L (serialize_block L b) = Some b"

text \<open>\<^verbatim>\<open>json!\<close> objects, and hash values in their hexadecimal form.\<close>

definition j_hash :: "lib \<Rightarrow> hash \<Rightarrow> json" where
  "j_hash L h = JStr (hash_to_hex L h)"

fun js_hash :: "lib \<Rightarrow> json \<Rightarrow> hash option" where
  "js_hash L (JStr s) = hash_from_hex L s"
| "js_hash L _ = None"

fun js_list :: "(json \<Rightarrow> 'a option) \<Rightarrow> json \<Rightarrow> 'a list option" where
  "js_list f (JArr vs) = sequence_option (map f vs)"
| "js_list f _ = None"

text \<open>A map from hashes, read from an object with hexadecimal keys.\<close>

fun js_hash_map :: "lib \<Rightarrow> (json \<Rightarrow> 'a option) \<Rightarrow> json \<Rightarrow> (hash, 'a) hashmap option" where
  "js_hash_map L f (JObj kvs) =
     map_option hm_collect (sequence_option (map (\<lambda>(k, v).
       case (hash_from_hex L k, f v) of (Some h, Some x) \<Rightarrow> Some (h, x) | _ \<Rightarrow> None) kvs))"
| "js_hash_map L f _ = None"

context lib_laws
begin

lemma js_hash_j_hash [simp]: "js_hash L (j_hash L h) = Some h"
  by (simp add: j_hash_def hash_from_to_hex)

end

subsection \<open>A reference instance\<close>

definition hex_digits :: string where
  "hex_digits = ''0123456789abcdef''"

fun ref_hex_encode :: "bytes \<Rightarrow> string" where
  "ref_hex_encode [] = []"
| "ref_hex_encode (b # bs) = hex_digits ! (unat b div 16) # hex_digits ! (unat b mod 16) # ref_hex_encode bs"

definition digit_of :: "char \<Rightarrow> nat option" where
  "digit_of c = map_of (zip hex_digits [0..<16]) c"

fun ref_hex_decode :: "string \<Rightarrow> bytes option" where
  "ref_hex_decode [] = Some []"
| "ref_hex_decode [c] = None"
| "ref_hex_decode (c # d # cs) =
     (case (digit_of c, digit_of d, ref_hex_decode cs) of
        (Some m, Some n, Some bs) \<Rightarrow> Some (of_nat (16 * m + n) # bs)
      | _ \<Rightarrow> None)"

definition ref_hash_to_hex :: "hash \<Rightarrow> string" where
  "ref_hash_to_hex h = ref_hex_encode (rev (hash_bytes h))"

definition ref_hash_from_hex :: "string \<Rightarrow> hash option" where
  "ref_hash_from_hex s =
     (case ref_hex_decode s of
        Some bs \<Rightarrow> if length bs = 32 then Some (bytes_hash (rev bs)) else None
      | None \<Rightarrow> None)"

definition enc_block :: "block \<Rightarrow> bytes" where
  "enc_block b = enc_header (blk_header b) @ enc_list enc_tx (blk_txdata b)"

definition d_block :: "block decoder" where
  "d_block = d_bind d_header (\<lambda>h. d_bind (d_list d_tx) (\<lambda>txs. d_ret \<lparr>blk_header = h, blk_txdata = txs\<rparr>))"

definition lib_ref :: lib where
  "lib_ref = \<lparr>js_to_string = (\<lambda>v. case v of JStr s \<Rightarrow> s | _ \<Rightarrow> ''null''), js_from_str = (\<lambda>s. Some (JStr s)),
     hex_encode = ref_hex_encode, hex_decode = ref_hex_decode, hash_to_hex = ref_hash_to_hex,
     hash_from_hex = ref_hash_from_hex, base64_encode = ref_hex_encode, serialize_block = enc_block,
     deserialize_block = d_all d_block, block_get_size = (\<lambda>b. length (enc_block b)),
     serialize_varint = varint_be, merkle_block = (\<lambda>h txids matches. enc_header h @ concat (map hash_bytes txids)),
     get_oa_payload = (\<lambda>txo. case txo_script_pubkey txo of [] \<Rightarrow> None | b # bs \<Rightarrow>
       if b = 0x6a then Some (map (\<lambda>x. of_nat (unat x)) bs, []) else None),
     asset_id_new = (\<lambda>s n. s)\<rparr>"

lemma digit_of_nth: "n < 16 \<Longrightarrow> digit_of (hex_digits ! n) = Some n"
proof -
  assume n: "n < 16"
  have "distinct hex_digits" "length hex_digits = 16" by (simp_all add: hex_digits_def)
  with n show ?thesis unfolding digit_of_def
    by (subst map_of_eq_Some_iff) (auto simp: set_zip intro!: exI [of _ n])
qed

lemma ref_hex_decode_encode: "ref_hex_decode (ref_hex_encode bs) = Some bs"
proof (induction bs)
  case Nil
  then show ?case by simp
next
  case (Cons b bs)
  have "unat b < 256" using unat_less_pow [of b] by simp
  then have "unat b div 16 < 16" by simp
  moreover have "of_nat (16 * (unat b div 16) + unat b mod 16) = b"
    using mult_div_mod_eq [of 16 "unat b"] by (simp only: of_nat_unat ucast_id)
  ultimately show ?case using Cons by (simp add: digit_of_nth)
qed

lemma length_ref_hex_encode: "length (ref_hex_encode bs) = 2 * length bs"
  by (induction bs) simp_all

lemma decodes_block: "decodes d_block (enc_block b) b"
  by (intro decodesI)
    (simp add: d_block_def enc_block_def d_bind_decodes [OF decodes_header] d_bind_decodes [OF decodes_list [OF decodes_tx]]
      decode_simps)

interpretation ref_lib: lib_laws lib_ref
proof unfold_locales
  show "hex_decode lib_ref (hex_encode lib_ref bs) = Some bs" for bs
    by (simp add: lib_ref_def ref_hex_decode_encode)
  show "hash_from_hex lib_ref (hash_to_hex lib_ref h) = Some h" for h
    by (simp add: lib_ref_def ref_hash_from_hex_def ref_hash_to_hex_def ref_hex_decode_encode)
  show "deserialize_block lib_ref (serialize_block lib_ref b) = Some b" for b
    by (simp add: lib_ref_def d_all_decodes [OF decodes_block])
qed

section \<open>Block metadata from the node\<close>

text \<open>\<^verbatim>\<open>BlockMeta::parse_getblock\<close>, and the derived reading of a \<^verbatim>\<open>BlockMeta\<close> (with the alias \<^verbatim>\<open>nTx\<close>).\<close>

definition parse_getblock_field :: "string \<Rightarrow> string \<Rightarrow> string \<Rightarrow> json \<Rightarrow> u32 res" where
  "parse_getblock_field k missing not_number v =
     and_then (ok_or missing (json_get k v)) (\<lambda>x.
     and_then (ok_or not_number (as_f64 x)) (\<lambda>q. Inr (f64_as_u32 q)))"

definition parse_getblock :: "json \<Rightarrow> block_meta res" where
  "parse_getblock v =
     and_then (parse_getblock_field ''nTx'' ''missing nTx'' ''nTx not a number'' v) (\<lambda>n.
     and_then (parse_getblock_field ''size'' ''missing size'' ''size not a number'' v) (\<lambda>s.
     and_then (parse_getblock_field ''weight'' ''missing weight'' ''weight not a number'' v) (\<lambda>w.
       Inr \<lparr>bm_tx_count = n, bm_size = s, bm_weight = w\<rparr>)))"

definition js_block_meta :: "json \<Rightarrow> block_meta option" where
  "js_block_meta v =
     (if js_struct v 3 then
        case (Option.bind (js_field v 0 [''tx_count'', ''nTx'']) js_u32,
              Option.bind (js_field v 1 [''size'']) js_u32,
              Option.bind (js_field v 2 [''weight'']) js_u32) of
          (Some n, Some s, Some w) \<Rightarrow> Some \<lparr>bm_tx_count = n, bm_size = s, bm_weight = w\<rparr>
        | _ \<Rightarrow> None
      else None)"

end
