(* ===== verification/Daemon.thy ===== *)
theory Daemon
  imports Json
begin

text \<open>
  The JSON-RPC client of the node (\<^verbatim>\<open>src/src/daemon.rs\<close>) and the signal waiter (\<^verbatim>\<open>src/src/signal.rs\<close>). The
  transport (connection, HTTP framing, reconnection and retries) threads the state of the outside world, a
  parameter; its loops may run forever and are partial functions. The RPC methods are functions of the
  answers to batches of requests, \<open>rpc\<close>.
\<close>

section \<open>The outside world\<close>

datatype recv_timeout = Signal int | Timeout | Disconnected

text \<open>
  Waiting for signals, connecting, the cookie, writing a request, and the lines of the reply that will arrive
  before the connection closes (an error is \<open>None\<close>), of which the reader consumes a number.
\<close>

record 'n node =
  nd_recv_timeout :: "'n \<Rightarrow> nat \<Rightarrow> 'n \<times> recv_timeout"
  nd_tcp_connect :: "'n \<Rightarrow> 'n \<times> bool"
  nd_cookie :: "'n \<Rightarrow> bytes res"
  nd_write_all :: "'n \<Rightarrow> string \<Rightarrow> 'n \<times> bool"
  nd_lines :: "'n \<Rightarrow> string option list"
  nd_consume :: "'n \<Rightarrow> nat \<Rightarrow> 'n"

section \<open>Signals\<close>

definition SIGUSR1 :: int where
  "SIGUSR1 = 10"

partial_function (option) waiter_wait :: "'n node \<Rightarrow> nat \<Rightarrow> bool \<Rightarrow> 'n \<Rightarrow> ('n \<times> unit res) option" where
  "waiter_wait N duration accept_sigusr n =
     (case nd_recv_timeout N n duration of (n', r) \<Rightarrow>
        (case r of
           Signal sig \<Rightarrow>
             if sig = SIGUSR1 then
               (if accept_sigusr then Some (n', Inr ()) else waiter_wait N duration accept_sigusr n')
             else Some (n', Inl (Interrupt sig))
         | Timeout \<Rightarrow> Some (n', Inr ())
         | Disconnected \<Rightarrow> Some (n', bail ''signal hook channel disconnected'')))"

section \<open>The connection\<close>

partial_function (option) tcp_connect :: "'n node \<Rightarrow> 'n \<Rightarrow> ('n \<times> unit res) option" where
  "tcp_connect N n =
     (case nd_tcp_connect N n of (n', ok) \<Rightarrow>
        if ok then Some (n', Inr ())
        else Option.bind (waiter_wait N 3 False n') (\<lambda>(n'', r).
          case r of Inl e \<Rightarrow> Some (n'', Inl e) | Inr _ \<Rightarrow> tcp_connect N n''))"

definition connection_new :: "'n node \<Rightarrow> 'n \<Rightarrow> ('n \<times> unit res) option" where
  "connection_new N n = tcp_connect N n"

definition connection_reconnect :: "'n node \<Rightarrow> 'n \<Rightarrow> ('n \<times> unit res) option" where
  "connection_reconnect N n = connection_new N n"

text \<open>Decimal numbers: \<^verbatim>\<open>Display\<close> and \<^verbatim>\<open>parse\<close> of the standard library.\<close>

fun dec_nat :: "nat \<Rightarrow> string" where
  "dec_nat n = (if n < 10 then [char_of (48 + n)] else dec_nat (n div 10) @ [char_of (48 + n mod 10)])"

declare dec_nat.simps [simp del]

definition dec_digit :: "char \<Rightarrow> nat option" where
  "dec_digit c = (let k = of_char c :: nat in if 48 \<le> k \<and> k \<le> 57 then Some (k - 48) else None)"

fun dec_value :: "nat \<Rightarrow> string \<Rightarrow> nat option" where
  "dec_value acc [] = Some acc"
| "dec_value acc (c # cs) =
     (case dec_digit c of None \<Rightarrow> None | Some d \<Rightarrow> dec_value (10 * acc + d) cs)"

definition parse_uint :: "nat \<Rightarrow> string \<Rightarrow> nat option" where
  "parse_uint w s =
     (let t = (if take 1 s = ''+'' then tl s else s) in
      if t = [] then None
      else case dec_value 0 t of
          Some n \<Rightarrow> if n < 2 ^ w then Some n else None
        | None \<Rightarrow> None)"

definition crlf_request :: "lib \<Rightarrow> bytes \<Rightarrow> string \<Rightarrow> string" where
  "crlf_request L cookie request =
     ''POST / HTTP/1.1'' @ [CHR 0x0A] @ ''Authorization: Basic '' @ base64_encode L cookie @ [CHR 0x0A] @
     ''Content-Length: '' @ dec_nat (length request) @ [CHR 0x0A, CHR 0x0A] @ request"

definition connection_send :: "lib \<Rightarrow> 'n node \<Rightarrow> string \<Rightarrow> 'n \<Rightarrow> 'n \<times> unit res" where
  "connection_send L N request n =
     (case nd_cookie N n of
        Inl e \<Rightarrow> (n, Inl e)
      | Inr cookie \<Rightarrow>
          (case nd_write_all N n (crlf_request L cookie request) of (n', ok) \<Rightarrow>
             (n', if ok then Inr () else Inl (Connection ''disconnected from daemon while sending''))))"

text \<open>\<^verbatim>\<open>splitn(2, ": ")\<close> with two parts.\<close>

fun split_header :: "string \<Rightarrow> (string \<times> string) option" where
  "split_header [] = None"
| "split_header (c # cs) =
     (if c = CHR '':'' \<and> take 1 cs = '' '' then Some ([], tl cs)
      else map_option (\<lambda>(k, v). (c # k, v)) (split_header cs))"

text \<open>The loop of \<^verbatim>\<open>recv\<close> over the lines after the status: how many it reads, the headers, the contents.\<close>

fun recv_lines :: "bool \<Rightarrow> (string, string) hashmap \<Rightarrow> string option list \<Rightarrow>
    nat \<times> ((string, string) hashmap \<times> string option) res" where
  "recv_lines in_header headers [] = (0, Inr (headers, None))"
| "recv_lines in_header headers (None # ls) = (1, Inl (Connection ''failed to read''))"
| "recv_lines in_header headers (Some line # ls) =
     (if line = [] then (case recv_lines False headers ls of (k, r) \<Rightarrow> (Suc k, r))
      else if in_header then
        (case recv_lines True
            (case split_header line of Some (k, v) \<Rightarrow> hm_insert k v headers | None \<Rightarrow> headers) ls of
           (k, r) \<Rightarrow> (Suc k, r))
      else (1, Inr (headers, Some line)))"

definition recv_contents :: "string \<Rightarrow> (string, string) hashmap \<Rightarrow> string option \<Rightarrow> string res" where
  "recv_contents status headers contents =
     (case contents of
        None \<Rightarrow> Inl (Connection ''no reply from daemon'')
      | Some contents \<Rightarrow>
          and_then (ok_or ''Content-Length is missing'' (hm_get headers ''Content-Length'')) (\<lambda>l.
          and_then (ok_or ''invalid Content-Length'' (parse_uint 64 l)) (\<lambda>contents_length.
            let expected_length = (contents_length + (2 ^ 64 - 1)) mod 2 ^ 64 in
            if expected_length \<noteq> length contents then Inl (Connection ''expected bytes'')
            else if status = ''HTTP/1.1 200 OK'' then Inr contents
            else if status = ''HTTP/1.1 500 Internal Server Error'' then Inr contents
            else bail ''request failed'')))"

definition connection_recv :: "'n node \<Rightarrow> 'n \<Rightarrow> 'n \<times> string res" where
  "connection_recv N n =
     (case nd_lines N n of
        [] \<Rightarrow> (n, Inl (Connection ''disconnected from daemon while receiving''))
      | None # ls \<Rightarrow> (nd_consume N n 1, bail ''failed to read status'')
      | Some status # ls \<Rightarrow>
          (case recv_lines True [] ls of (k, r) \<Rightarrow>
             (nd_consume N n (Suc k), and_then r (\<lambda>(headers, contents). recv_contents status headers contents))))"

section \<open>Requests\<close>

definition counter_next :: "u64 \<Rightarrow> u64 \<times> u64" where
  "counter_next value = (value + 1, value + 1)"

record 'n daemon =
  dm_conn :: 'n
  dm_message_id :: u64
  dm_network :: network

definition parse_error_code :: "json \<Rightarrow> int option" where
  "parse_error_code err = Option.bind (as_object err) (\<lambda>_. Option.bind (json_get ''code'' err) as_i64)"

definition parse_jsonrpc_reply :: "lib \<Rightarrow> json \<Rightarrow> string \<Rightarrow> u64 \<Rightarrow> json res" where
  "parse_jsonrpc_reply L reply method expected_id =
     (case as_object reply of
        None \<Rightarrow> bail ''non-object reply''
      | Some reply_obj \<Rightarrow>
          and_then
            (case map_of reply_obj ''error'' of
               None \<Rightarrow> Inr ()
             | Some err \<Rightarrow>
                 if err = JNull then Inr ()
                 else case parse_error_code err of
                     None \<Rightarrow> Inr ()
                   | Some code \<Rightarrow>
                       if code = -28 then Inl (Connection (js_to_string L err))
                       else bail (method @ '' RPC error: '' @ js_to_string L err))
            (\<lambda>_.
          and_then (ok_or ''no id in reply'' (map_of reply_obj ''id'')) (\<lambda>i.
            if as_u64 i \<noteq> Some expected_id then bail (''wrong '' @ method @ '' response id'')
            else case map_of reply_obj ''result'' of
                Some result \<Rightarrow> Inr result
              | None \<Rightarrow> bail ''no result in reply'')))"

definition call_jsonrpc :: "lib \<Rightarrow> 'n node \<Rightarrow> json \<Rightarrow> 'n \<Rightarrow> 'n \<times> json res" where
  "call_jsonrpc L N request n =
     (case connection_send L N (js_to_string L request) n of
        (n', Inl e) \<Rightarrow> (n', Inl e)
      | (n', Inr _) \<Rightarrow>
          (case connection_recv N n' of (n'', r) \<Rightarrow>
             (n'', and_then r (\<lambda>response. ok_or ''invalid JSON'' (js_from_str L response)))))"

definition jsonrpc_request :: "string \<Rightarrow> u64 \<Rightarrow> json \<Rightarrow> json" where
  "jsonrpc_request method i params =
     JObj [(''id'', j_u64 i), (''method'', JStr method), (''params'', params)]"

definition handle_request_batch ::
  "lib \<Rightarrow> 'n node \<Rightarrow> string \<Rightarrow> json list \<Rightarrow> 'n daemon \<Rightarrow> 'n daemon \<times> json list res" where
  "handle_request_batch L N method params_list d =
     (case counter_next (dm_message_id d) of (message_id, i) \<Rightarrow>
      case call_jsonrpc L N (JArr (map (jsonrpc_request method i) params_list)) (dm_conn d) of (n, replies) \<Rightarrow>
        (d\<lparr>dm_message_id := message_id, dm_conn := n\<rparr>,
         and_then replies (\<lambda>replies.
           case as_array replies of
             Some replies_vec \<Rightarrow> map_res (\<lambda>reply. parse_jsonrpc_reply L reply method i) replies_vec
           | None \<Rightarrow> bail ''non-array replies'')))"

partial_function (option) retry_request_batch ::
  "lib \<Rightarrow> 'n node \<Rightarrow> string \<Rightarrow> json list \<Rightarrow> 'n daemon \<Rightarrow> ('n daemon \<times> json list res) option" where
  "retry_request_batch L N method params_list d =
     (case handle_request_batch L N method params_list d of (d', result) \<Rightarrow>
        (case result of
           Inr vs \<Rightarrow> Some (d', Inr vs)
         | Inl e \<Rightarrow>
             (case e of
                Connection msg \<Rightarrow>
                  Option.bind (waiter_wait N 3 False (dm_conn d')) (\<lambda>(n, w).
                    case w of
                      Inl e' \<Rightarrow> Some (d'\<lparr>dm_conn := n\<rparr>, Inl e')
                    | Inr _ \<Rightarrow>
                        Option.bind (connection_reconnect N n) (\<lambda>(n', c).
                          case c of
                            Inl e' \<Rightarrow> Some (d'\<lparr>dm_conn := n'\<rparr>, Inl e')
                          | Inr _ \<Rightarrow> retry_request_batch L N method params_list (d'\<lparr>dm_conn := n'\<rparr>)))
              | _ \<Rightarrow> Some (d', Inl e))))"

section \<open>Replies\<close>

definition js_f64 :: "json \<Rightarrow> rat option" where
  "js_f64 v = as_f64 v"

definition js_f32 :: "json \<Rightarrow> rat option" where
  "js_f32 v = map_option (\<lambda>q. if 0 \<le> q then f32_round q else - f32_round (- q)) (as_f64 v)"

record blockchain_info =
  bi_chain :: string
  bi_blocks :: u32
  bi_headers :: u32
  bi_bestblockhash :: string
  bi_pruned :: bool
  bi_verificationprogress :: rat
  bi_initialblockdownload :: "bool option"

definition js_blockchain_info :: "json \<Rightarrow> blockchain_info option" where
  "js_blockchain_info v =
     (if js_struct v 7 then
        Option.bind (Option.bind (js_field v 0 [''chain'']) as_str) (\<lambda>ch.
        Option.bind (Option.bind (js_field v 1 [''blocks'']) js_u32) (\<lambda>bs.
        Option.bind (Option.bind (js_field v 2 [''headers'']) js_u32) (\<lambda>hs.
        Option.bind (Option.bind (js_field v 3 [''bestblockhash'']) as_str) (\<lambda>bb.
        Option.bind (Option.bind (js_field v 4 [''pruned'']) as_bool) (\<lambda>pr.
        Option.bind (Option.bind (js_field v 5 [''verificationprogress'']) js_f32) (\<lambda>vp.
        Option.bind (js_opt as_bool (js_field v 6 [''initialblockdownload''])) (\<lambda>ib.
          Some \<lparr>bi_chain = ch, bi_blocks = bs, bi_headers = hs, bi_bestblockhash = bb, bi_pruned = pr,
            bi_verificationprogress = vp, bi_initialblockdownload = ib\<rparr>)))))))
      else None)"

record network_info =
  ni_version :: u64
  ni_subversion :: string
  ni_relayfee :: rat

definition js_network_info :: "json \<Rightarrow> network_info option" where
  "js_network_info v =
     (if js_struct v 3 then
        Option.bind (Option.bind (js_field v 0 [''version'']) js_u64) (\<lambda>n.
        Option.bind (Option.bind (js_field v 1 [''subversion'']) as_str) (\<lambda>s.
        Option.bind (Option.bind (js_field v 2 [''relayfee'']) js_f64) (\<lambda>f.
          Some \<lparr>ni_version = n, ni_subversion = s, ni_relayfee = f\<rparr>)))
      else None)"

text \<open>\<^verbatim>\<open>MempoolTx\<close> of \<^verbatim>\<open>new_index/mempool.rs\<close>, as the node reports it.\<close>

record mempool_tx =
  mt_size :: u32
  mt_fee :: rat
  mt_modifiedfee :: rat
  mt_time :: u32
  mt_height :: u32
  mt_descendantcount :: u32
  mt_descendantsize :: u32
  mt_descendantfees :: u64
  mt_ancestorcount :: u32
  mt_ancestorsize :: u32
  mt_ancestorfees :: u64
  mt_txid :: txid

definition js_mempool_tx :: "lib \<Rightarrow> json \<Rightarrow> mempool_tx option" where
  "js_mempool_tx L v =
     (let field = (\<lambda>i k. js_field v i [k]); u32 = (\<lambda>i k. Option.bind (field i k) js_u32);
          u64 = (\<lambda>i k. Option.bind (field i k) js_u64) in
      if js_struct v 12 then
        Option.bind (u32 0 ''size'') (\<lambda>a. Option.bind (Option.bind (field 1 ''fee'') js_f32) (\<lambda>b.
        Option.bind (Option.bind (field 2 ''modifiedfee'') js_f32) (\<lambda>c.
        Option.bind (u32 3 ''time'') (\<lambda>d. Option.bind (u32 4 ''height'') (\<lambda>e.
        Option.bind (u32 5 ''descendantcount'') (\<lambda>f. Option.bind (u32 6 ''descendantsize'') (\<lambda>g.
        Option.bind (u64 7 ''descendantfees'') (\<lambda>h. Option.bind (u32 8 ''ancestorcount'') (\<lambda>i.
        Option.bind (u32 9 ''ancestorsize'') (\<lambda>j. Option.bind (u64 10 ''ancestorfees'') (\<lambda>k.
        Option.bind (Option.bind (field 11 ''txid'') (js_hash L)) (\<lambda>t.
          Some \<lparr>mt_size = a, mt_fee = b, mt_modifiedfee = c, mt_time = d, mt_height = e,
            mt_descendantcount = f, mt_descendantsize = g, mt_descendantfees = h, mt_ancestorcount = i,
            mt_ancestorsize = j, mt_ancestorfees = k, mt_txid = t\<rparr>))))))))))))
      else None)"

definition parse_hash_value :: "lib \<Rightarrow> json \<Rightarrow> hash res" where
  "parse_hash_value L v =
     and_then (ok_or ''non-string value'' (as_str v)) (\<lambda>s. ok_or ''non-hex value'' (hash_from_hex L s))"

definition header_from_value :: "lib \<Rightarrow> tapyrus \<Rightarrow> json \<Rightarrow> block_header res" where
  "header_from_value L T v =
     and_then (ok_or ''non-string header'' (as_str v)) (\<lambda>header_hex.
     and_then (ok_or ''non-hex header'' (hex_decode L header_hex)) (\<lambda>header_bytes.
       ok_or ''failed to parse header'' (deserialize_header T header_bytes)))"

definition block_from_value :: "lib \<Rightarrow> json \<Rightarrow> block res" where
  "block_from_value L v =
     and_then (ok_or ''non-string block'' (as_str v)) (\<lambda>block_hex.
     and_then (ok_or ''non-hex block'' (hex_decode L block_hex)) (\<lambda>block_bytes.
       ok_or ''failed to parse block'' (deserialize_block L block_bytes)))"

definition tx_from_value :: "lib \<Rightarrow> tapyrus \<Rightarrow> json \<Rightarrow> transaction res" where
  "tx_from_value L T v =
     and_then (ok_or ''non-string tx'' (as_str v)) (\<lambda>tx_hex.
     and_then (ok_or ''non-hex tx'' (hex_decode L tx_hex)) (\<lambda>tx_bytes.
       ok_or ''failed to parse tx'' (deserialize_tx T tx_bytes)))"

section \<open>The methods\<close>

text \<open>
  The answers to batches of requests (\<^verbatim>\<open>requests\<close>), as the node gives them while an operation runs.
\<close>

type_synonym rpc = "string \<Rightarrow> json list \<Rightarrow> json list res"

definition rpc_request :: "rpc \<Rightarrow> string \<Rightarrow> json \<Rightarrow> json res" where
  "rpc_request D method params =
     and_then (D method [params]) (\<lambda>values.
     and_then (assert_res (length values = 1) ''values.len() == 1'') (\<lambda>_. Inr (hd values)))"

definition getblockchaininfo :: "rpc \<Rightarrow> blockchain_info res" where
  "getblockchaininfo D =
     and_then (rpc_request D ''getblockchaininfo'' (JArr [])) (\<lambda>info.
       ok_or ''invalid blockchain info'' (js_blockchain_info info))"

definition getnetworkinfo :: "rpc \<Rightarrow> network_info res" where
  "getnetworkinfo D =
     and_then (rpc_request D ''getnetworkinfo'' (JArr [])) (\<lambda>info.
       ok_or ''invalid network info'' (js_network_info info))"

definition getbestblockhash :: "lib \<Rightarrow> rpc \<Rightarrow> blockhash res" where
  "getbestblockhash L D = and_then (rpc_request D ''getbestblockhash'' (JArr [])) (parse_hash_value L)"

definition getblockheader :: "lib \<Rightarrow> tapyrus \<Rightarrow> rpc \<Rightarrow> blockhash \<Rightarrow> block_header res" where
  "getblockheader L T D blockhash =
     and_then (rpc_request D ''getblockheader'' (JArr [j_hash L blockhash, JBool False])) (header_from_value L T)"

definition getblockheaders :: "lib \<Rightarrow> tapyrus \<Rightarrow> rpc \<Rightarrow> nat list \<Rightarrow> block_header list res" where
  "getblockheaders L T D heights =
     and_then (D ''getblockhash'' (map (\<lambda>height. JArr [j_nat height]) heights)) (\<lambda>hashes.
     and_then (D ''getblockheader'' (map (\<lambda>hash. JArr [hash, JBool False]) hashes)) (\<lambda>headers.
       map_res (header_from_value L T) headers))"

definition getblock :: "lib \<Rightarrow> tapyrus \<Rightarrow> rpc \<Rightarrow> blockhash \<Rightarrow> block res" where
  "getblock L T D blockhash =
     and_then (rpc_request D ''getblock'' (JArr [j_hash L blockhash, JBool False])) (\<lambda>v.
     and_then (block_from_value L v) (\<lambda>block.
     and_then (assert_res (block_hash T (blk_header block) = blockhash) ''block.block_hash() == *blockhash'')
       (\<lambda>_. Inr block)))"

definition getblock_raw :: "lib \<Rightarrow> rpc \<Rightarrow> blockhash \<Rightarrow> u32 \<Rightarrow> json res" where
  "getblock_raw L D blockhash verbose =
     rpc_request D ''getblock'' (JArr [j_hash L blockhash, j_nat (unat verbose)])"

definition getblocks :: "lib \<Rightarrow> rpc \<Rightarrow> blockhash list \<Rightarrow> block list res" where
  "getblocks L D blockhashes =
     and_then (D ''getblock'' (map (\<lambda>hash. JArr [j_hash L hash, JBool False]) blockhashes)) (\<lambda>values.
       map_res (block_from_value L) values)"

definition gettransactions :: "lib \<Rightarrow> tapyrus \<Rightarrow> rpc \<Rightarrow> txid list \<Rightarrow> transaction list res" where
  "gettransactions L T D txhashes =
     and_then (D ''getrawtransaction'' (map (\<lambda>txhash. JArr [j_hash L txhash, JBool False]) txhashes)) (\<lambda>values.
     and_then (map_res (tx_from_value L T) values) (\<lambda>txs.
     and_then (assert_res (length txhashes = length txs) ''txhashes.len() == txs.len()'') (\<lambda>_. Inr txs)))"

definition gettransaction_raw :: "lib \<Rightarrow> rpc \<Rightarrow> txid \<Rightarrow> blockhash \<Rightarrow> bool \<Rightarrow> json res" where
  "gettransaction_raw L D txid blockhash verbose =
     rpc_request D ''getrawtransaction'' (JArr [j_hash L txid, JBool verbose, j_hash L blockhash])"

definition getmempooltx :: "lib \<Rightarrow> rpc \<Rightarrow> txid \<Rightarrow> mempool_tx res" where
  "getmempooltx L D txhash =
     and_then (rpc_request D ''getmempoolentry'' (j_hash L txhash)) (\<lambda>res.
       ok_or ''invalid getmempoolentry reply'' (js_mempool_tx L res))"

definition getmempooltxids :: "lib \<Rightarrow> rpc \<Rightarrow> txid list res" where
  "getmempooltxids L D =
     and_then (rpc_request D ''getrawmempool'' (JArr [JBool False])) (\<lambda>res.
       ok_or ''invalid getrawmempool reply'' (map_option remdups (js_list (js_hash L) res)))"

definition getmempool :: "lib \<Rightarrow> rpc \<Rightarrow> (txid, mempool_tx) hashmap res" where
  "getmempool L D =
     and_then (rpc_request D ''getrawmempool'' (JArr [JBool True])) (\<lambda>res.
       ok_or ''invalid getrawmempool (verbose) reply'' (js_hash_map L (js_mempool_tx L) res))"

definition daemon_broadcast_raw :: "lib \<Rightarrow> rpc \<Rightarrow> string \<Rightarrow> txid res" where
  "daemon_broadcast_raw L D txhex =
     and_then (rpc_request D ''sendrawtransaction'' (JArr [JStr txhex])) (\<lambda>txid.
     and_then (ok_or ''non-string txid'' (as_str txid)) (\<lambda>s.
       ok_or ''failed to parse txid'' (hash_from_hex L s)))"

definition daemon_broadcast :: "lib \<Rightarrow> tapyrus \<Rightarrow> rpc \<Rightarrow> transaction \<Rightarrow> txid res" where
  "daemon_broadcast L T D tx = daemon_broadcast_raw L D (hex_encode L (serialize_tx T tx))"

text \<open>Fee estimates, from TPC per kB to units per byte; \<^verbatim>\<open>iter().zip()\<close> stops at the shorter list.\<close>

definition estimate_entry :: "json \<times> u16 \<Rightarrow> (u16 \<times> rat) option res" where
  "estimate_entry e =
     (case e of (reply, target) \<Rightarrow>
        if json_index reply ''errors'' \<noteq> JNull then Inr None
        else and_then (expect ''invalid estimatesmartfee response'' (as_f64 (json_index reply ''feerate''))) (\<lambda>feerate.
          if feerate = -1 then Inr None else Inr (Some (target, f64_mul feerate 100000))))"

definition estimatesmartfee_batch :: "rpc \<Rightarrow> u16 list \<Rightarrow> (u16, rat) hashmap res" where
  "estimatesmartfee_batch D conf_targets =
     and_then (D ''estimatesmartfee'' (map (\<lambda>t. JArr [j_nat (unat t)]) conf_targets)) (\<lambda>replies.
     and_then (map_res estimate_entry (zip replies conf_targets)) (\<lambda>es.
       Inr (hm_collect (List.map_filter id es))))"

definition daemon_get_relayfee :: "rpc \<Rightarrow> rat res" where
  "daemon_get_relayfee D = and_then (getnetworkinfo D) (\<lambda>i. Inr (f64_mul (ni_relayfee i) 100000))"

section \<open>Downloading headers\<close>

text \<open>\<^verbatim>\<open>slice::chunks(n)\<close> for positive \<open>n\<close>.\<close>

fun chunks :: "nat \<Rightarrow> 'a list \<Rightarrow> 'a list list" where
  "chunks n [] = []"
| "chunks n (x # xs) = (x # take (n - 1) xs) # chunks n (drop (n - 1) xs)"

fun assert_chain :: "tapyrus \<Rightarrow> blockhash \<Rightarrow> block_header list \<Rightarrow> blockhash res" where
  "assert_chain T blockhash [] = Inr blockhash"
| "assert_chain T blockhash (header # hs) =
     and_then (assert_res (bh_prev_blockhash header = blockhash) ''header.prev_blockhash == blockhash'')
       (\<lambda>_. assert_chain T (block_hash T header) hs)"

definition get_all_headers :: "lib \<Rightarrow> tapyrus \<Rightarrow> rpc \<Rightarrow> blockhash \<Rightarrow> block_header list res" where
  "get_all_headers L T D tip =
     and_then (rpc_request D ''getblockheader'' (JArr [j_hash L tip])) (\<lambda>info.
     and_then (expect ''missing height'' (json_get ''height'' info)) (\<lambda>height.
     and_then (expect ''non-numeric height'' (as_u64 height)) (\<lambda>tip_height.
     and_then (fold_res (\<lambda>result heights.
         and_then (getblockheaders L T D heights) (\<lambda>headers.
         and_then (assert_res (length headers = length heights) ''headers.len() == heights.len()'') (\<lambda>_.
           Inr (result @ headers)))) [] (chunks 100000 [0..<unat tip_height + 1])) (\<lambda>result.
     and_then (assert_chain T 0 result) (\<lambda>blockhash.
     and_then (assert_res (blockhash = tip) ''blockhash == *tip'') (\<lambda>_. Inr result))))))"

partial_function (option) new_headers_loop ::
  "lib \<Rightarrow> tapyrus \<Rightarrow> rpc \<Rightarrow> header_list \<Rightarrow> blockhash \<Rightarrow> block_header list \<Rightarrow> block_header list res option" where
  "new_headers_loop L T D indexed_headers blockhash new_headers =
     (if blockhash = 0 then Some (Inr new_headers)
      else if header_by_blockhash indexed_headers blockhash \<noteq> None then Some (Inr new_headers)
      else case chain_err ''failed to get header'' (getblockheader L T D blockhash) of
          Inl e \<Rightarrow> Some (Inl e)
        | Inr header \<Rightarrow>
            new_headers_loop L T D indexed_headers (bh_prev_blockhash header) (new_headers @ [header]))"

definition get_new_headers ::
  "lib \<Rightarrow> tapyrus \<Rightarrow> rpc \<Rightarrow> header_list \<Rightarrow> blockhash \<Rightarrow> block_header list res option" where
  "get_new_headers L T D indexed_headers bestblockhash =
     (if header_list_is_empty indexed_headers then Some (get_all_headers L T D bestblockhash)
      else map_option (\<lambda>r. and_then r (\<lambda>new_headers. Inr (rev new_headers)))
        (new_headers_loop L T D indexed_headers bestblockhash []))"

section \<open>Starting\<close>

definition daemon_request ::
  "lib \<Rightarrow> 'n node \<Rightarrow> string \<Rightarrow> json \<Rightarrow> 'n daemon \<Rightarrow> ('n daemon \<times> json res) option" where
  "daemon_request L N method params d =
     map_option (\<lambda>(d', r). (d', and_then r (\<lambda>values.
         and_then (assert_res (length values = 1) ''values.len() == 1'') (\<lambda>_. Inr (hd values)))))
       (retry_request_batch L N method [params] d)"

definition daemon_getblockchaininfo :: "lib \<Rightarrow> 'n node \<Rightarrow> 'n daemon \<Rightarrow> ('n daemon \<times> blockchain_info res) option" where
  "daemon_getblockchaininfo L N d =
     map_option (\<lambda>(d', r). (d', and_then r (\<lambda>info. ok_or ''invalid blockchain info'' (js_blockchain_info info))))
       (daemon_request L N ''getblockchaininfo'' (JArr []) d)"

definition daemon_getnetworkinfo :: "lib \<Rightarrow> 'n node \<Rightarrow> 'n daemon \<Rightarrow> ('n daemon \<times> network_info res) option" where
  "daemon_getnetworkinfo L N d =
     map_option (\<lambda>(d', r). (d', and_then r (\<lambda>info. ok_or ''invalid network info'' (js_network_info info))))
       (daemon_request L N ''getnetworkinfo'' (JArr []) d)"

definition node_synced :: "blockchain_info \<Rightarrow> bool" where
  "node_synced info \<longleftrightarrow>
     (case bi_initialblockdownload info of None \<Rightarrow> True | Some b \<Rightarrow> \<not> b) \<and> bi_blocks info = bi_headers info"

partial_function (option) daemon_sync :: "lib \<Rightarrow> 'n node \<Rightarrow> 'n daemon \<Rightarrow> ('n daemon \<times> unit res) option" where
  "daemon_sync L N d =
     Option.bind (daemon_getblockchaininfo L N d) (\<lambda>(d', r).
       case r of
         Inl e \<Rightarrow> Some (d', Inl e)
       | Inr info \<Rightarrow>
           if node_synced info then Some (d', Inr ())
           else Option.bind (waiter_wait N 5 False (dm_conn d')) (\<lambda>(n, w).
             case w of
               Inl e \<Rightarrow> Some (d'\<lparr>dm_conn := n\<rparr>, Inl e)
             | Inr _ \<Rightarrow> daemon_sync L N (d'\<lparr>dm_conn := n\<rparr>)))"

definition daemon_new :: "lib \<Rightarrow> 'n node \<Rightarrow> network \<Rightarrow> 'n \<Rightarrow> ('n \<times> 'n daemon res) option" where
  "daemon_new L N network n =
     Option.bind (connection_new N n) (\<lambda>(n', c).
       case c of
         Inl e \<Rightarrow> Some (n', Inl e)
       | Inr _ \<Rightarrow>
           Option.bind (daemon_getnetworkinfo L N \<lparr>dm_conn = n', dm_message_id = 0, dm_network = network\<rparr>) (\<lambda>(d, r).
             case r of
               Inl e \<Rightarrow> Some (dm_conn d, Inl e)
             | Inr _ \<Rightarrow>
                 Option.bind (daemon_getblockchaininfo L N d) (\<lambda>(d', r).
                   case r of
                     Inl e \<Rightarrow> Some (dm_conn d', Inl e)
                   | Inr info \<Rightarrow>
                       if bi_pruned info
                       then Some (dm_conn d', bail ''pruned node is not supported (use -prune=0 tapyrusd flag)'')
                       else map_option (\<lambda>(d'', s). (dm_conn d'', and_then s (\<lambda>_. Inr d''))) (daemon_sync L N d'))))"

definition daemon_reconnect :: "'n node \<Rightarrow> 'n daemon \<Rightarrow> ('n daemon \<times> 'n daemon res) option" where
  "daemon_reconnect N d =
     map_option (\<lambda>(n, r). (d\<lparr>dm_conn := n\<rparr>,
         and_then r (\<lambda>_. Inr \<lparr>dm_conn = n, dm_message_id = 0, dm_network = dm_network d\<rparr>)))
       (connection_reconnect N (dm_conn d))"

section \<open>Properties\<close>

text \<open>The errors of the waiter and of reconnection are neither panics nor connection errors.\<close>

fun interrupted :: "'a res \<Rightarrow> bool" where
  "interrupted (Inl (Interrupt s)) = True"
| "interrupted (Inl (Msg m)) = True"
| "interrupted (Inl e) = False"
| "interrupted (Inr x) = True"

lemma waiter_wait_interrupted:
  assumes "waiter_wait N t a n = Some y"
  shows "interrupted (snd y)"
proof (rule waiter_wait.raw_induct [OF _ assms], goal_cases)
  case (1 f N t a n y)
  then show ?case by (auto simp: bail_def split: prod.splits recv_timeout.splits if_splits)
qed

lemma tcp_connect_interrupted:
  assumes "tcp_connect N n = Some y"
  shows "interrupted (snd y)"
proof (rule tcp_connect.raw_induct [OF _ assms], goal_cases)
  case (1 f N n y)
  obtain n' ok where c: "nd_tcp_connect N n = (n', ok)" by fastforce
  show ?case
  proof (cases ok)
    case True
    with 1(2) c show ?thesis by auto
  next
    case False
    with 1(2) c obtain n'' r where w: "waiter_wait N 3 False n' = Some (n'', r)"
      and y: "(case r of Inl e \<Rightarrow> Some (n'', Inl e) | Inr _ \<Rightarrow> f N n'') = Some y"
      by (auto simp: Option.bind_eq_Some_conv)
    from waiter_wait_interrupted [OF w] y 1(1) show ?thesis by (cases r) auto
  qed
qed

lemma retry_step:
  "retry_request_batch L N method ps d =
     (case handle_request_batch L N method ps d of
        (d', Inl (Connection msg)) \<Rightarrow>
          Option.bind (waiter_wait N 3 False (dm_conn d')) (\<lambda>(n, w).
            case w of
              Inl e' \<Rightarrow> Some (d'\<lparr>dm_conn := n\<rparr>, Inl e')
            | Inr _ \<Rightarrow>
                Option.bind (connection_reconnect N n) (\<lambda>(n', c).
                  case c of
                    Inl e' \<Rightarrow> Some (d'\<lparr>dm_conn := n'\<rparr>, Inl e')
                  | Inr _ \<Rightarrow> retry_request_batch L N method ps (d'\<lparr>dm_conn := n'\<rparr>)))
      | (d', r) \<Rightarrow> Some (d', r))"
  by (subst retry_request_batch.simps) (simp split: prod.split sum.split error.split)

text \<open>
  A request never ends with a connection error: those are retried after a reconnection, so that it returns
  the replies, a request error, a panic, or the interruption of a wait.
\<close>

theorem retry_never_connection_error:
  "retry_request_batch L N method ps d \<noteq> Some (d', Inl (Connection msg))"
proof -
  have "\<forall>msg. snd y \<noteq> Inl (Connection msg)" if run: "retry_request_batch L N method ps d = Some y" for y
  proof (rule retry_request_batch.raw_induct [OF _ run], goal_cases)
    case (1 f L N m ps d y)
    obtain d' r where h: "handle_request_batch L N m ps d = (d', r)" by fastforce
    show ?case
    proof (cases "\<exists>msg. r = Inl (Connection msg)")
      case False
      then have "y = (d', r)" using 1(2) h by (auto split: sum.splits error.splits)
      then show ?thesis using False by simp
    next
      case True
      then obtain msg where r: "r = Inl (Connection msg)" by blast
      from 1(2) obtain n w where w: "waiter_wait N 3 False (dm_conn d') = Some (n, w)"
        and y: "(case w of Inl e' \<Rightarrow> Some (d'\<lparr>dm_conn := n\<rparr>, Inl e')
          | Inr _ \<Rightarrow> Option.bind (connection_reconnect N n) (\<lambda>(n', c). case c of
              Inl e' \<Rightarrow> Some (d'\<lparr>dm_conn := n'\<rparr>, Inl e')
            | Inr _ \<Rightarrow> f L N m ps (d'\<lparr>dm_conn := n'\<rparr>))) = Some y"
        by (auto simp: h r Option.bind_eq_Some_conv)
      show ?thesis
      proof (cases w)
        case (Inl e)
        with waiter_wait_interrupted [OF w] y show ?thesis by auto
      next
        case (Inr u)
        with y obtain n' c where c: "tcp_connect N n = Some (n', c)"
          and y': "(case c of Inl e' \<Rightarrow> Some (d'\<lparr>dm_conn := n'\<rparr>, Inl e')
            | Inr _ \<Rightarrow> f L N m ps (d'\<lparr>dm_conn := n'\<rparr>)) = Some y"
          by (auto simp: Option.bind_eq_Some_conv connection_reconnect_def connection_new_def)
        from tcp_connect_interrupted [OF c] y' 1(1) show ?thesis by (cases c) auto
      qed
    qed
  qed
  then show ?thesis by fastforce
qed

text \<open>
  C37: reconnection. When the first \<open>k\<close> attempts at a batch end with connection errors, each followed by a wait
  and a reconnection, and the next one does not, then the request returns the outcome of that one.
\<close>

theorem retry_returns:
  assumes "\<forall>i < k. \<exists>d' msg n n'. handle_request_batch L N method ps (ds i) = (d', Inl (Connection msg)) \<and>
      waiter_wait N 3 False (dm_conn d') = Some (n, Inr ()) \<and>
      connection_reconnect N n = Some (n', Inr ()) \<and> ds (Suc i) = d'\<lparr>dm_conn := n'\<rparr>"
    and "handle_request_batch L N method ps (ds k) = (d, r)" "\<forall>msg. r \<noteq> Inl (Connection msg)"
  shows "retry_request_batch L N method ps (ds 0) = Some (d, r)"
  using assms
proof (induction k arbitrary: ds)
  case 0
  then show ?case by (subst retry_step) (auto split: sum.split error.split)
next
  case (Suc k)
  have "retry_request_batch L N method ps (ds (Suc 0)) = Some (d, r)"
    by (rule Suc.IH [of "\<lambda>i. ds (Suc i)"]) (use Suc.prems in auto)
  moreover have "retry_request_batch L N method ps (ds 0) = retry_request_batch L N method ps (ds (Suc 0))"
    using Suc.prems(1) [rule_format, of 0] by (subst retry_step) auto
  ultimately show ?case by simp
qed

text \<open>A node that closes the first connection and answers on the second.\<close>

definition ex_reply :: "string option list" where
  "ex_reply = [Some ''HTTP/1.1 200 OK'', Some ''Content-Length: 3'', Some [], Some ''ok'']"

definition ex_node :: "nat node" where
  "ex_node = \<lparr>nd_recv_timeout = (\<lambda>n t. (n, Timeout)), nd_tcp_connect = (\<lambda>n. (Suc n, True)),
     nd_cookie = (\<lambda>n. Inr []), nd_write_all = (\<lambda>n s. (n, True)),
     nd_lines = (\<lambda>n. if n = 0 then [] else ex_reply), nd_consume = (\<lambda>n k. n)\<rparr>"

definition ex_lib :: lib where
  "ex_lib = lib_ref\<lparr>js_from_str := (\<lambda>s. Some (JArr [JObj [(''id'', j_u64 2), (''result'', JBool True)]]))\<rparr>"

definition ex_daemon :: "nat \<Rightarrow> u64 \<Rightarrow> nat daemon" where
  "ex_daemon n i = \<lparr>dm_conn = n, dm_message_id = i, dm_network = \<lparr>network_type = Dev, network_id = 1\<rparr>\<rparr>"

lemma ex_handle_fail:
  "handle_request_batch ex_lib ex_node ''ping'' [JNull] (ex_daemon 0 0) =
     (ex_daemon 0 1, Inl (Connection ''disconnected from daemon while receiving''))"
  by (simp add: handle_request_batch_def counter_next_def call_jsonrpc_def connection_send_def connection_recv_def
      ex_node_def ex_daemon_def)

lemma ex_recv_lines: "recv_lines True [] (tl ex_reply) = (3, Inr ([(''Content-Length'', ''3'')], Some ''ok''))"
  by (simp add: ex_reply_def)

lemma ex_parse: "parse_uint 64 ''3'' = Some 3"
  by (simp add: parse_uint_def dec_digit_def of_char_def)

lemma ex_handle_ok:
  "handle_request_batch ex_lib ex_node ''ping'' [JNull] (ex_daemon 1 1) = (ex_daemon 1 2, Inr [JBool True])"
proof -
  have recv: "connection_recv ex_node 1 = (1, Inr ''ok'')"
    using ex_recv_lines
    by (simp add: connection_recv_def ex_node_def recv_contents_def ex_parse ok_or_def ex_reply_def)
  have parse: "parse_jsonrpc_reply ex_lib (JObj [(''id'', j_u64 2), (''result'', JBool True)]) ''ping'' 2 = Inr (JBool True)"
    by (simp add: parse_jsonrpc_reply_def ok_or_def)
  have send: "connection_send ex_lib ex_node s 1 = (1, Inr ())" for s
    by (simp add: connection_send_def ex_node_def)
  have call: "call_jsonrpc ex_lib ex_node r 1 = (1, Inr (JArr [JObj [(''id'', j_u64 2), (''result'', JBool True)]]))" for r
    unfolding call_jsonrpc_def send by (simp add: recv [simplified] ok_or_def) (simp add: ex_lib_def)
  show ?thesis
    using call [simplified] parse by (simp add: handle_request_batch_def counter_next_def ex_daemon_def)
qed

lemma retry_returns_witness:
  "retry_request_batch ex_lib ex_node ''ping'' [JNull] (ex_daemon 0 0) = Some (ex_daemon 1 2, Inr [JBool True])"
proof -
  define ds where "ds i = (if i = 0 then ex_daemon 0 0 else ex_daemon 1 1)" for i :: nat
  have w: "waiter_wait ex_node 3 False 0 = Some (0, Inr ())"
    by (subst waiter_wait.simps) (simp add: ex_node_def)
  have c: "connection_reconnect ex_node 0 = Some (1, Inr ())"
    unfolding connection_reconnect_def connection_new_def by (subst tcp_connect.simps) (simp add: ex_node_def)
  have "retry_request_batch ex_lib ex_node ''ping'' [JNull] (ds 0) = Some (ex_daemon 1 2, Inr [JBool True])"
  proof (rule retry_returns [where k = 1])
    show "\<forall>i < 1. \<exists>d' msg n n'. handle_request_batch ex_lib ex_node ''ping'' [JNull] (ds i) = (d', Inl (Connection msg)) \<and>
        waiter_wait ex_node 3 False (dm_conn d') = Some (n, Inr ()) \<and>
        connection_reconnect ex_node n = Some (n', Inr ()) \<and> ds (Suc i) = d'\<lparr>dm_conn := n'\<rparr>"
      using ex_handle_fail w c by (auto simp: ds_def) (auto simp: ex_daemon_def)
    show "handle_request_batch ex_lib ex_node ''ping'' [JNull] (ds 1) = (ex_daemon 1 2, Inr [JBool True])"
      using ex_handle_ok by (simp add: ds_def)
  qed simp
  then show ?thesis by (simp add: ds_def)
qed

text \<open>
  C38: replies. A reply yields a result exactly when it is an object whose error field, if any, carries no
  integer code, with the expected id and a result; it yields a connection error, to be retried, exactly
  when that code is -28 (the node is warming up).
\<close>

definition reply_error_code :: "(string \<times> json) list \<Rightarrow> int option" where
  "reply_error_code obj = Option.bind (map_of obj ''error'') parse_error_code"

theorem parse_jsonrpc_reply_outcomes:
  "(\<forall>v. parse_jsonrpc_reply L reply method i = Inr v \<longleftrightarrow>
      (\<exists>obj. reply = JObj obj \<and> reply_error_code obj = None \<and> map_of obj ''id'' = Some (j_u64 i) \<and>
         map_of obj ''result'' = Some v)) \<and>
   (\<forall>msg. parse_jsonrpc_reply L reply method i = Inl (Connection msg) \<longleftrightarrow>
      (\<exists>obj err. reply = JObj obj \<and> map_of obj ''error'' = Some err \<and> parse_error_code err = Some (-28) \<and>
         msg = js_to_string L err))"
proof (cases reply)
  case (JObj obj)
  have u: "as_u64 v = Some i \<longleftrightarrow> v = j_u64 i" for v by (cases v rule: as_u64.cases) auto
  have n: "parse_error_code JNull = None" by (simp add: parse_error_code_def)
  show ?thesis
    by (auto simp: JObj parse_jsonrpc_reply_def reply_error_code_def and_then_eq_Inl res_simps u n
        split: option.splits if_splits)
qed (simp_all add: parse_jsonrpc_reply_def res_simps)

section \<open>Following the node\<close>

text \<open>A chain of headers on top of block \<open>p\<close>, and its tip.\<close>

fun header_chain :: "tapyrus \<Rightarrow> blockhash \<Rightarrow> block_header list \<Rightarrow> bool" where
  "header_chain T p [] \<longleftrightarrow> True"
| "header_chain T p (h # hs) \<longleftrightarrow> bh_prev_blockhash h = p \<and> header_chain T (block_hash T h) hs"

definition chain_tip :: "tapyrus \<Rightarrow> blockhash \<Rightarrow> block_header list \<Rightarrow> blockhash" where
  "chain_tip T p hs = (if hs = [] then p else block_hash T (last hs))"

lemma header_chain_snoc:
  "header_chain T p (hs @ [h]) \<longleftrightarrow> header_chain T p hs \<and> bh_prev_blockhash h = chain_tip T p hs"
  by (induction hs arbitrary: p) (auto simp: chain_tip_def)

lemma new_headers_loop_chain:
  assumes "header_chain T p hs" "p = 0 \<or> header_by_blockhash hl p \<noteq> None"
    "\<forall>h \<in> set hs. getblockheader L T D (block_hash T h) = Inr h \<and> block_hash T h \<noteq> 0 \<and>
       header_by_blockhash hl (block_hash T h) = None"
  shows "new_headers_loop L T D hl (chain_tip T p hs) acc = Some (Inr (acc @ rev hs))"
  using assms
proof (induction hs arbitrary: acc rule: rev_induct)
  case Nil
  then show ?case by (subst new_headers_loop.simps) (auto simp: chain_tip_def)
next
  case (snoc h hs)
  have "new_headers_loop L T D hl (chain_tip T p (hs @ [h])) acc =
      new_headers_loop L T D hl (bh_prev_blockhash h) (acc @ [h])"
    using snoc.prems(3) by (subst new_headers_loop.simps) (simp add: chain_tip_def chain_err_def)
  also have "\<dots> = new_headers_loop L T D hl (chain_tip T p hs) (acc @ [h])"
    using snoc.prems(1) by (simp add: header_chain_snoc)
  also have "\<dots> = Some (Inr ((acc @ [h]) @ rev hs))"
    using snoc.prems by (intro snoc.IH) (auto simp: header_chain_snoc)
  finally show ?case by simp
qed

lemma header_chain_linked:
  "header_chain T p hs \<Longrightarrow> linked p n (entries_from n (map (\<lambda>h. (block_hash T h, h)) hs))"
  by (induction hs arbitrary: p n) auto

lemma header_chain_assert_linked:
  "header_chain T p hs \<Longrightarrow> assert_linked (map (\<lambda>h. (block_hash T h, h)) hs) = Inr ()"
proof (induction hs arbitrary: p)
  case Nil
  then show ?case by simp
next
  case (Cons h hs)
  then show ?case by (cases hs) (auto simp: assert_res_def)
qed

lemma entries_from_hashes:
  "map he_hash (entries_from n (map (\<lambda>h. (block_hash T h, h)) hs)) = map (block_hash T) hs"
  by (induction hs arbitrary: n) auto

lemma length_entries_from [simp]: "length (entries_from n hs) = length hs"
  by (induction n hs rule: entries_from.induct) auto

text \<open>The number of headers of the index below the first new one.\<close>

definition fork_height :: "header_list \<Rightarrow> blockhash \<Rightarrow> nat" where
  "fork_height hl p = (if p = 0 then 0 else case header_by_blockhash hl p of Some e \<Rightarrow> he_height e + 1 | None \<Rightarrow> 0)"

lemma fork_height_ok:
  assumes "hl_ok hl" "p = 0 \<or> header_by_blockhash hl p \<noteq> None"
  shows "fork_height hl p \<le> length (hl_headers hl)" "last_hash (take (fork_height hl p) (hl_headers hl)) = p"
proof -
  have "fork_height hl p \<le> length (hl_headers hl) \<and> last_hash (take (fork_height hl p) (hl_headers hl)) = p" if np: "p \<noteq> 0"
  proof -
    obtain e where e: "header_by_blockhash hl p = Some e" using assms(2) np by auto
    then have "e \<in> set (hl_headers hl)" "he_hash e = p"
      using header_by_blockhash_ok [OF assms(1)] by blast+
    then obtain i where i: "i < length (hl_headers hl)" "hl_headers hl ! i = e" by (auto simp: in_set_conv_nth)
    then have "he_height e = i" using assms(1) linked_heights [of 0 0 "hl_headers hl" i] by (simp add: hl_ok_def)
    then have "fork_height hl p = Suc i" using e np by (simp add: fork_height_def)
    with i \<open>he_hash e = p\<close> show ?thesis by (simp add: last_hash_take)
  qed
  then show "fork_height hl p \<le> length (hl_headers hl)" "last_hash (take (fork_height hl p) (hl_headers hl)) = p"
    by (cases "p = 0"; simp add: fork_height_def last_hash_def)+
qed

lemma new_hashes_distinct:
  assumes "hl_ok hl" "\<forall>h \<in> set hs. header_by_blockhash hl (block_hash T h) = None" "distinct (map (block_hash T) hs)"
  shows "distinct (map he_hash (take n (hl_headers hl) @ entries_from m (map (\<lambda>h. (block_hash T h, h)) hs)))"
proof -
  have "block_hash T h \<noteq> he_hash e" if "h \<in> set hs" "e \<in> set (take n (hl_headers hl))" for h e
    using assms(2) that header_by_blockhash_ok [OF assms(1), of "he_hash e" e] in_set_takeD [OF that(2)] by fastforce
  then have "he_hash ` set (take n (hl_headers hl)) \<inter> block_hash T ` set hs = {}" by force
  moreover have "distinct (map he_hash (take n (hl_headers hl)))"
    using assms(1) heights_ok_distinct [of "hl_heights hl" "hl_headers hl"]
    by (simp add: hl_ok_def take_map [symmetric])
  ultimately show ?thesis using assms(3) by (simp add: entries_from_hashes)
qed

text \<open>
  C36: following the node. Suppose the node's best chain extends, by headers it serves and the index does not
  have, a block of the index, at whatever height, or starts anew. Then the download ends with exactly those
  headers, ordering and applying them succeeds, and the node's best block is the tip of the index.
\<close>

theorem get_new_headers_follows:
  assumes "hl_ok hl" "\<not> header_list_is_empty hl" "hs \<noteq> []" "header_chain T p hs"
    "if p = 0 then True else header_by_blockhash hl p \<noteq> None"
    "\<forall>h \<in> set hs. getblockheader L T D (block_hash T h) = Inr h \<and> block_hash T h \<noteq> 0 \<and>
       header_by_blockhash hl (block_hash T h) = None"
    "distinct (map (block_hash T) hs)"
  shows "get_new_headers L T D hl (chain_tip T p hs) = Some (Inr hs) \<and>
    (\<exists>es hl'. header_list_order T hl hs = Inr es \<and> header_list_apply hl es = Inr hl' \<and> hl_ok hl' \<and>
       header_list_tip hl' = Inr (chain_tip T p hs))"
proof
  have p: "p = 0 \<or> header_by_blockhash hl p \<noteq> None" using assms(5) by argo
  show "get_new_headers L T D hl (chain_tip T p hs) = Some (Inr hs)"
    using new_headers_loop_chain [OF assms(4) p assms(6), of "[]"] assms(2)
    by (simp add: get_new_headers_def)
  let ?n = "fork_height hl p"
  let ?es = "entries_from ?n (map (\<lambda>h. (block_hash T h, h)) hs)"
  obtain h hs' where hs: "hs = h # hs'" using assms(3) by (cases hs) auto
  have order: "header_list_order T hl hs = Inr ?es"
    using header_chain_assert_linked [OF assms(4)] p assms(4)
    by (auto simp: header_list_order_def Let_def hs fork_height_def split: option.split)
  have hd: "he_height (hd ?es) = ?n" "?es \<noteq> []" by (simp_all add: hs)
  have "anchored hl ?es"
    unfolding anchored_def Let_def hd(1) using fork_height_ok [OF assms(1) p] header_chain_linked [OF assms(4)] by simp
  moreover have "distinct (map he_hash (take ?n (hl_headers hl) @ ?es))"
    using assms(6) by (intro new_hashes_distinct [OF assms(1) _ assms(7)]) simp
  ultimately obtain hl' where hl': "header_list_apply hl ?es = Inr hl'" "hl_ok hl'"
    "hl_headers hl' = take ?n (hl_headers hl) @ ?es"
    using header_list_apply_ok [OF assms(1) _ hd(2)] hd(1) by auto
  have "last (map he_hash ?es) = last (map (block_hash T) hs)" by (simp only: entries_from_hashes)
  then have "he_hash (last ?es) = block_hash T (last hs)"
    using last_map [OF hd(2), of he_hash] last_map [OF assms(3), of "block_hash T"] by argo
  then have "header_list_tip hl' = Inr (chain_tip T p hs)"
    using header_list_tip_ok [OF hl'(2)] hd(2) assms(3) by (simp add: hl'(3) last_hash_def chain_tip_def)
  with order hl' show "\<exists>es hl'. header_list_order T hl hs = Inr es \<and> header_list_apply hl es = Inr hl' \<and> hl_ok hl' \<and>
       header_list_tip hl' = Inr (chain_tip T p hs)" by blast
qed

text \<open>The node replaces the last block of the example chain.\<close>

definition ex_rpc :: rpc where
  "ex_rpc method ps = Inr [JStr (hex_encode lib_ref (serialize_header tapyrus_ref (ex_header 11 30)))]"

lemma ex_rpc_header: "getblockheader lib_ref tapyrus_ref ex_rpc h = Inr (ex_header 11 30)"
  by (simp add: getblockheader_def rpc_request_def ex_rpc_def header_from_value_def ok_or_def assert_res_def
      ref_lib.hex_decode_encode ref_tap.deserialize_serialize_header)

lemma get_new_headers_follows_witness:
  "get_new_headers lib_ref tapyrus_ref ex_rpc ex_chain 30 = Some (Inr [ex_header 11 30])"
proof -
  have hash: "block_hash tapyrus_ref (ex_header 11 30) = 30" by (simp add: tapyrus_ref_def ex_header_def)
  have known: "header_by_blockhash ex_chain 11 \<noteq> None" "header_by_blockhash ex_chain 30 = None"
    by (simp_all add: header_by_blockhash_def ex_header_defs)
  have "chain_tip tapyrus_ref 11 [ex_header 11 30] = 30" by (simp add: chain_tip_def hash)
  moreover have "header_chain tapyrus_ref 11 [ex_header 11 30]" by (simp add: ex_header_def)
  ultimately show ?thesis
    using get_new_headers_follows [OF ex_chain_ok, of "[ex_header 11 30]" tapyrus_ref 11 lib_ref ex_rpc] known hash
    by (simp add: ex_rpc_header) (simp add: header_list_is_empty_def ex_chain_def)
qed

end
