(* ===== verification/Fetch.thy ===== *)
theory Fetch
  imports Daemon
begin

text \<open>
  Fetching blocks (\<^verbatim>\<open>src/src/new_index/fetch.rs\<close>): in batches from the node, or by scanning the node's
  \<^verbatim>\<open>blk*.dat\<close> files, whose contents are a parameter. A fetcher is the stream of the batches its thread sends;
  a panic of the thread ends the stream.
\<close>

datatype fetch_from = Tapyrusd | BlkFiles

text \<open>Steps that change a state and may fail: what was done before a failure is kept.\<close>

fun st_then :: "'s \<times> 'a res \<Rightarrow> ('a \<Rightarrow> 's \<Rightarrow> 's \<times> 'b res) \<Rightarrow> 's \<times> 'b res" where
  "st_then (s, Inl e) f = (s, Inl e)"
| "st_then (s, Inr x) f = f x s"

lemma st_then_eq_Inr: "st_then r f = (s', Inr y) \<longleftrightarrow> (\<exists>s x. r = (s, Inr x) \<and> f x s = (s', Inr y))"
  by (cases "(r, f)" rule: st_then.cases) auto

text \<open>\<^verbatim>\<open>Fetcher::map\<close>: the batches are processed in turn, with what was done before a panic kept in the state.\<close>

fun fetcher_map :: "('s \<Rightarrow> 'a \<Rightarrow> 's \<times> unit res) \<Rightarrow> 'a stream \<Rightarrow> 's \<Rightarrow> 's \<times> unit res" where
  "fetcher_map f [] st = (st, Inr ())"
| "fetcher_map f (Inl e # items) st = (st, panic ''fetcher thread panicked'')"
| "fetcher_map f (Inr x # items) st =
     st_then (f st x) (\<lambda>_ st'. fetcher_map f items st')"

section \<open>From the node\<close>

definition fetch_chunk :: "lib \<Rightarrow> rpc \<Rightarrow> header_entry list \<Rightarrow> block_entry list res" where
  "fetch_chunk L D entries =
     and_then (unwrap ''failed to get blocks from tapyrusd'' (getblocks L D (map he_hash entries))) (\<lambda>blocks.
     and_then (assert_res (length blocks = length entries) ''blocks.len() == entries.len()'') (\<lambda>_.
       Inr (map (\<lambda>(block, entry). \<lparr>be_block = block, be_entry = entry, be_size = of_nat (block_get_size L block)\<rparr>)
         (zip blocks entries))))"

definition tapyrusd_fetcher :: "lib \<Rightarrow> rpc \<Rightarrow> header_entry list \<Rightarrow> block_entry list stream" where
  "tapyrusd_fetcher L D new_headers = map (fetch_chunk L D) (chunks 100 new_headers)"

section \<open>From the block files\<close>

definition u32_le_at :: "bytes \<Rightarrow> nat \<Rightarrow> u32 option" where
  "u32_le_at blob pos = (if pos + 4 \<le> length blob then Some (of_nat (be_nat (rev (take 4 (drop pos blob))))) else None)"

text \<open>The scan of a file from position \<open>pos\<close>: the slices of its blocks with the sizes their frames give.\<close>

function parse_slices :: "u32 \<Rightarrow> bytes \<Rightarrow> nat \<Rightarrow> (bytes \<times> u32) list \<Rightarrow> (bytes \<times> u32) list res" where
  "parse_slices magic blob pos slices =
     (if pos < length blob then
        case u32_le_at blob pos of
          None \<Rightarrow> Inr slices
        | Some value \<Rightarrow>
            if magic \<noteq> value then parse_slices magic blob (pos + 1) slices
            else case u32_le_at blob (pos + 4) of
                None \<Rightarrow> bail ''no block size''
              | Some block_size \<Rightarrow>
                  let start = pos + 8; end_pos = start + unat block_size in
                  case u32_le_at blob start of
                    None \<Rightarrow> panic ''range end index out of range''
                  | Some value' \<Rightarrow>
                      if magic = value' then parse_slices magic blob start slices
                      else if length blob < end_pos then panic ''range end index out of range''
                      else parse_slices magic blob end_pos
                        (slices @ [(take (unat block_size) (drop start blob), block_size)])
      else Inr slices)"
  by pat_completeness auto

termination parse_slices
  by (relation "measure (\<lambda>(_, blob, pos, _). length blob - pos)") (auto simp: u32_le_at_def split: if_splits)

declare parse_slices.simps [simp del]

definition parse_blocks :: "lib \<Rightarrow> bytes \<Rightarrow> u32 \<Rightarrow> (block \<times> u32) list res" where
  "parse_blocks L blob magic =
     and_then (parse_slices magic blob 0 []) (\<lambda>slices.
       map_res (\<lambda>(slice, sz). and_then (expect ''failed to parse Block'' (deserialize_block L slice))
         (\<lambda>b. Inr (b, sz))) slices)"

definition blkfiles_parser :: "lib \<Rightarrow> u32 \<Rightarrow> bytes list \<Rightarrow> (block \<times> u32) list stream" where
  "blkfiles_parser L magic blobs = map (\<lambda>blob. unwrap ''failed to parse blk*.dat file'' (parse_blocks L blob magic)) blobs"

text \<open>Blocks whose header is wanted, the others skipped; every header is taken once.\<close>

fun take_entries :: "tapyrus \<Rightarrow> (blockhash, header_entry) hashmap \<Rightarrow> (block \<times> u32) list \<Rightarrow>
    (blockhash, header_entry) hashmap \<times> block_entry list" where
  "take_entries T entry_map [] = (entry_map, [])"
| "take_entries T entry_map ((block, sz) # bs) =
     (let blockhash = block_hash T (blk_header block) in
      case hm_get entry_map blockhash of
        None \<Rightarrow> take_entries T entry_map bs
      | Some entry \<Rightarrow>
          (case take_entries T (hm_remove blockhash entry_map) bs of
             (m, es) \<Rightarrow> (m, \<lparr>be_block = block, be_entry = entry, be_size = sz\<rparr> # es)))"

fun take_batches :: "tapyrus \<Rightarrow> (blockhash, header_entry) hashmap \<Rightarrow> (block \<times> u32) list stream \<Rightarrow>
    block_entry list stream" where
  "take_batches T entry_map [] =
     (if entry_map \<noteq> [] then [panic ''failed to index blocks from blk*.dat files''] else [])"
| "take_batches T entry_map (Inl e # bs) = [panic ''fetcher thread panicked'']"
| "take_batches T entry_map (Inr b # bs) =
     (case take_entries T entry_map b of (m, es) \<Rightarrow> Inr es # take_batches T m bs)"

definition blkfiles_fetcher ::
  "lib \<Rightarrow> tapyrus \<Rightarrow> network \<Rightarrow> bytes list \<Rightarrow> header_entry list \<Rightarrow> block_entry list stream" where
  "blkfiles_fetcher L T network blobs new_headers =
     take_batches T (hm_collect (map (\<lambda>h. (he_hash h, h)) new_headers))
       (blkfiles_parser L (network_magic T (network_id network)) blobs)"

text \<open>
  The outcomes of connecting to the node again and of reading the directory of block files, in name order,
  are parameters.
\<close>

definition start_fetcher :: "lib \<Rightarrow> tapyrus \<Rightarrow> rpc \<Rightarrow> unit res \<Rightarrow> bytes list res \<Rightarrow> network \<Rightarrow> fetch_from \<Rightarrow>
    header_entry list \<Rightarrow> block_entry list stream res" where
  "start_fetcher L T D dial blk_files network source new_headers =
     (case source of
        Tapyrusd \<Rightarrow> and_then dial (\<lambda>_. Inr (tapyrusd_fetcher L D new_headers))
      | BlkFiles \<Rightarrow> and_then blk_files (\<lambda>blobs. Inr (blkfiles_fetcher L T network blobs new_headers)))"

section \<open>What the scan finds\<close>

definition u32_le :: "u32 \<Rightarrow> bytes" where
  "u32_le w = rev (u32_to_be_bytes w)"

text \<open>A block as the node writes it: magic, size, block.\<close>

definition block_frame :: "lib \<Rightarrow> u32 \<Rightarrow> block \<Rightarrow> bytes" where
  "block_frame L magic b =
     u32_le magic @ u32_le (of_nat (length (serialize_block L b))) @ serialize_block L b"

lemma length_u32_le [simp]: "length (u32_le w) = 4"
  by (simp add: u32_le_def)

lemma u32_le_at_append [simp]: "u32_le_at (pre @ u32_le w @ rest) (length pre) = Some w"
  using u32_from_to_be_bytes [of w] by (simp add: u32_le_at_def u32_le_def u32_from_be_bytes_def)

lemma u32_le_at_shift: "u32_le_at (pre @ rest) (length pre + n) = u32_le_at rest n"
  by (simp add: u32_le_at_def)

lemma be_nat_zeros: "be_nat (replicate n 0) = 0"
  by (induction n) simp_all

lemma parse_slices_zeros:
  assumes "magic \<noteq> 0"
  shows "parse_slices magic (pre @ replicate k 0) (length pre) slices = Inr slices"
proof (induction k arbitrary: pre)
  case 0
  then show ?case by (subst parse_slices.simps) simp
next
  case (Suc k)
  have "u32_le_at (pre @ replicate (Suc k) 0) (length pre) = None \<or>
      u32_le_at (pre @ replicate (Suc k) 0) (length pre) = Some 0"
    by (simp add: u32_le_at_def be_nat_zeros del: replicate.simps)
  moreover have "parse_slices magic (pre @ replicate (Suc k) 0) (length pre + 1) slices = Inr slices"
    using Suc.IH [of "pre @ [0]"] by simp
  ultimately show ?case using assms by (subst parse_slices.simps) auto
qed

lemma parse_slices_frame:
  assumes "4 \<le> length body" "length body < 2 ^ 32" "u32_le_at body 0 \<noteq> Some magic"
  shows "parse_slices magic (pre @ (u32_le magic @ u32_le (of_nat (length body)) @ body) @ rest) (length pre) slices =
    parse_slices magic (pre @ (u32_le magic @ u32_le (of_nat (length body)) @ body) @ rest) (length pre + 8 + length body)
      (slices @ [(body, of_nat (length body))])"
proof -
  let ?n = "of_nat (length body) :: u32"
  let ?blob = "pre @ (u32_le magic @ u32_le ?n @ body) @ rest"
  have m: "u32_le_at ?blob (length pre) = Some magic" by simp
  have n: "u32_le_at ?blob (length pre + 4) = Some ?n"
    using u32_le_at_append [of "pre @ u32_le magic" ?n "body @ rest"] by simp
  have b: "u32_le_at ?blob (length pre + 8) = u32_le_at body 0"
    using u32_le_at_shift [of "pre @ u32_le magic @ u32_le ?n" "body @ rest" 0] assms(1)
    by (simp add: u32_le_at_def)
  have u: "unat ?n = length body" using assms(2) by (simp add: unat_of_nat_less)
  obtain v where v: "u32_le_at body 0 = Some v" "v \<noteq> magic"
    using assms(1,3) by (auto simp: u32_le_at_def)
  have lt: "length pre < length ?blob" "\<not> length ?blob < length pre + 8 + length body" by simp_all
  have t: "take (length body) (drop (length pre + 8) ?blob) = body" by simp
  have "parse_slices magic ?blob (length pre) slices =
      (if magic = v then parse_slices magic ?blob (length pre + 8) slices
       else if length ?blob < length pre + 8 + unat ?n then panic ''range end index out of range''
       else parse_slices magic ?blob (length pre + 8 + unat ?n)
         (slices @ [(take (unat ?n) (drop (length pre + 8) ?blob), ?n)]))"
    by (subst parse_slices.simps) (simp only: lt(1) m n b v(1) option.case if_True if_False Let_def not_not simp_thms)
  then show ?thesis using v(2) lt(2) t unfolding u by metis
qed

lemma length_block_frame: "length (block_frame L magic c) = 8 + length (serialize_block L c)"
  by (simp add: block_frame_def)

lemma parse_slices_block:
  assumes "4 \<le> length (serialize_block L c)" "length (serialize_block L c) < 2 ^ 32"
    "u32_le_at (serialize_block L c) 0 \<noteq> Some magic"
  shows "parse_slices magic (pre @ block_frame L magic c @ rest) (length pre) slices =
    parse_slices magic ((pre @ block_frame L magic c) @ rest) (length (pre @ block_frame L magic c))
      (slices @ [(serialize_block L c, of_nat (length (serialize_block L c)))])"
  using parse_slices_frame [OF assms, of pre rest slices]
  by (simp add: length_block_frame add.assoc block_frame_def [of L magic c])

lemma parse_blocks_frames:
  assumes "lib_laws L" "magic \<noteq> 0"
    "\<forall>b \<in> set bs. 4 \<le> length (serialize_block L b) \<and> length (serialize_block L b) < 2 ^ 32 \<and>
       u32_le_at (serialize_block L b) 0 \<noteq> Some magic"
  shows "parse_blocks L (concat (map (block_frame L magic) bs) @ replicate k 0) magic =
    Inr (map (\<lambda>b. (b, of_nat (length (serialize_block L b)))) bs)"
proof -
  let ?slice = "\<lambda>b. (serialize_block L b, of_nat (length (serialize_block L b)) :: u32)"
  have "parse_slices magic (pre @ concat (map (block_frame L magic) cs) @ replicate k 0) (length pre) slices =
      Inr (slices @ map ?slice cs)" if "set cs \<subseteq> set bs" for cs pre slices
    using that
  proof (induction cs arbitrary: pre slices)
    case Nil
    then show ?case by (simp add: parse_slices_zeros [OF assms(2)])
  next
    case (Cons c cs)
    let ?body = "serialize_block L c"
    have body: "4 \<le> length ?body" "length ?body < 2 ^ 32" "u32_le_at ?body 0 \<noteq> Some magic"
      using assms(3) Cons.prems by auto
    show ?case
      using parse_slices_block [OF body, of pre "concat (map (block_frame L magic) cs) @ replicate k 0" slices]
        Cons.IH [of "pre @ block_frame L magic c" "slices @ [?slice c]"] Cons.prems
      by simp
  qed
  from this [of bs "[]" "[]"] show ?thesis
    by (simp add: parse_blocks_def map_res_eq_Inr list_all2_conv_all_nth expect_def
        lib_laws.deserialize_serialize_block [OF assms(1)])
qed

text \<open>
  C39: scanning a block file finds exactly the blocks the node wrote, in their order and with their sizes,
  whatever zero bytes the preallocated file ends with.
\<close>

theorem parse_blocks_finds_all:
  assumes "lib_laws L" "magic \<noteq> 0"
    "\<forall>b \<in> set bs. 4 \<le> length (serialize_block L b) \<and> length (serialize_block L b) < 2 ^ 32 \<and>
       u32_le_at (serialize_block L b) 0 \<noteq> Some magic"
  shows "parse_blocks L (concat (map (block_frame L magic) bs) @ replicate k 0) magic =
    Inr (map (\<lambda>b. (b, of_nat (length (serialize_block L b)))) bs)"
  using assms by (rule parse_blocks_frames)

definition ex_blocks :: "block list" where
  "ex_blocks = [\<lparr>blk_header = ex_header 0 7, blk_txdata = []\<rparr>, \<lparr>blk_header = ex_header 7 8, blk_txdata = []\<rparr>]"

lemma ex_blocks_readable:
  "\<forall>b \<in> set ex_blocks. 4 \<le> length (serialize_block lib_ref b) \<and>
      length (serialize_block lib_ref b) < 2 ^ 32 \<and> u32_le_at (serialize_block lib_ref b) 0 \<noteq> Some 1"
proof -
  have "u32_to_be_bytes 1 = [0, 0, 0, 1]" by (simp add: u32_to_be_bytes_def nat_be_4)
  then show ?thesis
    by (simp add: ex_blocks_def lib_ref_def enc_block_def enc_header_def ex_header_def enc_list_def u32_le_at_def)
qed

lemma parse_blocks_finds_all_witness:
  "parse_blocks lib_ref (concat (map (block_frame lib_ref 1) ex_blocks) @ replicate 1000 0) 1 =
     Inr (map (\<lambda>b. (b, of_nat (length (serialize_block lib_ref b)))) ex_blocks)"
  by (rule parse_blocks_finds_all [OF ref_lib.lib_laws_axioms _ ex_blocks_readable]) simp

lemma take_entries_split:
  assumes "hm_ok m" "\<And>h e. hm_get m h = Some e \<Longrightarrow> he_hash e = h" "take_entries T m bs = (m', es)"
  shows "hm_ok m' \<and> (\<forall>h e. hm_get m' h = Some e \<longrightarrow> he_hash e = h) \<and>
    mset (map snd m) = mset (map snd m') + mset (map be_entry es) \<and>
    (\<forall>b \<in> set es. block_hash T (blk_header (be_block b)) = he_hash (be_entry b))"
  using assms
proof (induction T m bs arbitrary: m' es rule: take_entries.induct)
  case (1 T m)
  then show ?case by simp
next
  case (2 T m block sz bs)
  let ?h = "block_hash T (blk_header block)"
  show ?case
  proof (cases "hm_get m ?h")
    case None
    then show ?thesis using "2.IH"(1) [OF refl None] "2.prems" by simp
  next
    case (Some e)
    obtain fs where fs: "take_entries T (hm_remove ?h m) bs = (m', fs)"
      "es = \<lparr>be_block = block, be_entry = e, be_size = sz\<rparr> # fs"
      using "2.prems"(3) Some by (auto simp: Let_def split: prod.splits)
    have "mset (map snd m) = add_mset e (mset (map snd (hm_remove ?h m)))"
      using "2.prems"(1) Some
    proof (induction m)
      case Nil
      then show ?case by simp
    next
      case (Cons x m)
      show ?case
      proof (cases "fst x = ?h")
        case True
        then have "hm_remove ?h m = m"
          using Cons.prems(1) by (intro delete_id) (auto simp: hm_ok_def)
        with True Cons.prems(2) show ?thesis by (cases x) simp
      next
        case False
        then show ?thesis using Cons by (cases x) (simp add: hm_ok_def)
      qed
    qed
    moreover have ok: "hm_ok (hm_remove ?h m)" using "2.prems"(1) by simp
    have get: "he_hash e' = h'" if "hm_get (hm_remove ?h m) h' = Some e'" for h' e'
      using "2.prems"(2) [of h' e'] that by (simp split: if_splits)
    moreover have "he_hash e = ?h" by (rule "2.prems"(2) [OF Some])
    moreover note "2.IH"(2) [OF refl Some ok get fs(1)]
    ultimately show ?thesis unfolding fs(2) by auto
  qed
qed

lemma take_batches_complete:
  assumes "hm_ok m" "\<And>h e. hm_get m h = Some e \<Longrightarrow> he_hash e = h" "take_batches T m bs = map Inr batches"
  shows "mset (map be_entry (concat batches)) = mset (map snd m) \<and>
    (\<forall>b \<in> set (concat batches). block_hash T (blk_header (be_block b)) = he_hash (be_entry b))"
  using assms
proof (induction T m bs arbitrary: batches rule: take_batches.induct)
  case (1 T m)
  then show ?case by (cases batches) (simp_all add: panic_def split: if_splits)
next
  case (2 T m e bs)
  then show ?case by (cases batches) (simp_all add: panic_def)
next
  case (3 T m b bs)
  obtain m' es where b: "take_entries T m b = (m', es)" by fastforce
  with "3.prems"(3) obtain bt where bt: "batches = es # bt" "take_batches T m' bs = map Inr bt"
    by (cases batches) auto
  have split: "hm_ok m' \<and> (\<forall>h e. hm_get m' h = Some e \<longrightarrow> he_hash e = h) \<and>
      mset (map snd m) = mset (map snd m') + mset (map be_entry es) \<and>
      (\<forall>b \<in> set es. block_hash T (blk_header (be_block b)) = he_hash (be_entry b))"
    by (rule take_entries_split [OF "3.prems"(1) "3.prems"(2) b])
  have "mset (map be_entry (concat bt)) = mset (map snd m') \<and>
      (\<forall>b \<in> set (concat bt). block_hash T (blk_header (be_block b)) = he_hash (be_entry b))"
    using split by (intro "3.IH" [OF b [symmetric] _ _ bt(2)]) blast+
  with split show ?case unfolding bt(1) by auto
qed

text \<open>
  C40: completeness of the scan of the files. Unless the fetcher panics, it delivers for every wanted header
  exactly one block, with that header's hash.
\<close>

theorem blkfiles_fetcher_complete:
  assumes "blkfiles_fetcher L T network blobs new_headers = map Inr batches"
    "distinct (map he_hash new_headers)"
  shows "mset (map be_entry (concat batches)) = mset new_headers \<and>
    (\<forall>b \<in> set (concat batches). block_hash T (blk_header (be_block b)) = he_hash (be_entry b))"
proof -
  let ?kvs = "map (\<lambda>h. (he_hash h, h)) new_headers" and ?m = "hm_collect (map (\<lambda>h. (he_hash h, h)) new_headers)"
  have dist: "distinct (map fst ?kvs)" using assms(2) by (simp add: comp_def)
  have get: "hm_get ?m h = Some e \<longleftrightarrow> e \<in> set new_headers \<and> he_hash e = h" for h e
    using hm_get_collect_distinct [OF dist, of h e] by auto
  have "set ?m = set ?kvs"
    using hm_get_collect_distinct [OF dist] hm_get_Some_iff [of ?m] by auto
  moreover have "distinct ?m" "distinct ?kvs"
    using hm_ok_collect [of ?kvs, unfolded hm_ok_def] dist distinct_map by blast+
  ultimately have "mset ?m = mset ?kvs" using set_eq_iff_mset_eq_distinct by blast
  then have "mset (map snd ?m) = mset (map snd ?kvs)" by (simp only: mset_map)
  then have vals: "mset (map snd ?m) = mset new_headers" by (simp add: comp_def)
  have "mset (map be_entry (concat batches)) = mset (map snd ?m) \<and>
      (\<forall>b \<in> set (concat batches). block_hash T (blk_header (be_block b)) = he_hash (be_entry b))"
  proof (rule take_batches_complete)
    show "take_batches T ?m (blkfiles_parser L (network_magic T (network_id network)) blobs) = map Inr batches"
      using assms(1) by (simp add: blkfiles_fetcher_def)
  qed (simp_all add: get)
  with vals show ?thesis by simp
qed

text \<open>Both example blocks lie in one file, in the other order of the wanted headers.\<close>

definition ex_wanted :: "header_entry list" where
  "ex_wanted = [\<lparr>he_height = 1, he_hash = 8, he_header = ex_header 7 8\<rparr>,
     \<lparr>he_height = 0, he_hash = 7, he_header = ex_header 0 7\<rparr>]"

lemma blkfiles_fetcher_complete_witness:
  "\<exists>batches. blkfiles_fetcher lib_ref tapyrus_ref \<lparr>network_type = Dev, network_id = 1\<rparr>
       [concat (map (block_frame lib_ref 1) ex_blocks) @ replicate 9 0] ex_wanted = map Inr batches \<and>
     mset (map be_entry (concat batches)) = mset ex_wanted"
proof -
  let ?blob = "concat (map (block_frame lib_ref 1) ex_blocks) @ replicate 9 0"
  have parse: "parse_blocks lib_ref ?blob 1 =
      Inr (map (\<lambda>b. (b, of_nat (length (serialize_block lib_ref b)))) ex_blocks)"
    by (rule parse_blocks_frames [OF ref_lib.lib_laws_axioms _ ex_blocks_readable]) simp
  have magic: "network_magic tapyrus_ref 1 = 1" by (simp add: tapyrus_ref_def)
  have hash: "block_hash tapyrus_ref (ex_header p t) = ucast t" for p t
    by (simp add: tapyrus_ref_def ex_header_def)
  have "\<exists>batches. blkfiles_fetcher lib_ref tapyrus_ref \<lparr>network_type = Dev, network_id = 1\<rparr> [?blob] ex_wanted =
      map Inr batches"
    unfolding blkfiles_fetcher_def blkfiles_parser_def
    by (simp add: magic parse unwrap_def ex_wanted_def hm_collect_def)
      (simp add: ex_blocks_def hash Let_def, rule exI [of _ "[_]"], simp)
  then obtain batches where b: "blkfiles_fetcher lib_ref tapyrus_ref \<lparr>network_type = Dev, network_id = 1\<rparr>
      [?blob] ex_wanted = map Inr batches" by blast
  moreover have "distinct (map he_hash ex_wanted)" by (simp add: ex_wanted_def)
  ultimately show ?thesis using blkfiles_fetcher_complete [OF b] by blast
qed

end
