(* ===== verification/Rows.thy ===== *)
theory Rows
  imports Transactions Open_Assets
begin

text \<open>
  The rows of the three databases (\<^verbatim>\<open>src/src/new_index/schema.rs\<close> and \<^verbatim>\<open>color.rs\<close>): every row type with its
  construction, its key filters and its encoding to and from a \<^verbatim>\<open>DBRow\<close>, at byte level. \<open>B\<close> stands for
  the default bincode configuration, \<open>BE\<close> for the big-endian one, \<open>T\<close> for the tapyrus library.
\<close>

record db_row =
  row_key :: bytes
  row_value :: bytes

definition byte :: "char \<Rightarrow> u8" where
  "byte c = of_char c"

definition full_hash :: "hash \<Rightarrow> bytes" where
  "full_hash h = hash_bytes h"

section \<open>Address search and script hashes\<close>

definition string_bytes :: "string \<Rightarrow> bytes" where
  "string_bytes s = map byte s"

definition addr_search_row :: "tapyrus \<Rightarrow> script \<Rightarrow> network \<Rightarrow> db_row option" where
  "addr_search_row T spk network =
     map_option (\<lambda>address. \<lparr>row_key = byte CHR ''a'' # string_bytes address, row_value = []\<rparr>)
       (script_to_address T spk network)"

definition addr_search_filter :: "string \<Rightarrow> bytes" where
  "addr_search_filter pre = byte CHR ''a'' # string_bytes pre"

definition compute_script_hash :: "tapyrus \<Rightarrow> script \<Rightarrow> scripthash" where
  "compute_script_hash T script = sha256 T script"

definition parse_hash :: "scripthash \<Rightarrow> hash" where
  "parse_hash h = h"

section \<open>Transactions, confirmations and outputs (txstore)\<close>

record tx_row =
  txr_code :: u8
  txr_txid :: txid
  txr_value :: bytes

definition tx_row_new :: "tapyrus \<Rightarrow> transaction \<Rightarrow> tx_row" where
  "tx_row_new T txn = \<lparr>txr_code = byte CHR ''T'', txr_txid = malfix_txid T txn, txr_value = serialize_tx T txn\<rparr>"

definition tx_row_key :: "bytes \<Rightarrow> bytes" where
  "tx_row_key pre = byte CHR ''T'' # pre"

definition tx_row_into_row :: "tx_row \<Rightarrow> db_row" where
  "tx_row_into_row r = \<lparr>row_key = txr_code r # full_hash (txr_txid r), row_value = txr_value r\<rparr>"

record tx_conf_row =
  tcr_code :: u8
  tcr_txid :: txid
  tcr_blockhash :: blockhash

definition tx_conf_row_new :: "tapyrus \<Rightarrow> transaction \<Rightarrow> blockhash \<Rightarrow> tx_conf_row" where
  "tx_conf_row_new T txn blockhash =
     \<lparr>tcr_code = byte CHR ''C'', tcr_txid = malfix_txid T txn, tcr_blockhash = blockhash\<rparr>"

definition tx_conf_row_filter :: "bytes \<Rightarrow> bytes" where
  "tx_conf_row_filter pre = byte CHR ''C'' # pre"

definition tx_conf_row_into_row :: "tx_conf_row \<Rightarrow> db_row" where
  "tx_conf_row_into_row r =
     \<lparr>row_key = tcr_code r # full_hash (tcr_txid r) @ full_hash (tcr_blockhash r), row_value = []\<rparr>"

definition tx_conf_row_from_row :: "db_row \<Rightarrow> tx_conf_row res" where
  "tx_conf_row_from_row row =
     expect ''failed to parse TxConfKey'' (d_prefix
       (d_bind d_u8 (\<lambda>c. d_bind d_hash (\<lambda>t. d_bind d_hash (\<lambda>b. d_ret
         \<lparr>tcr_code = c, tcr_txid = t, tcr_blockhash = b\<rparr>)))) (row_key row))"

text \<open>The output index is truncated to 16 bits, both when a row is written and when it is looked up.\<close>

record tx_out_row =
  tor_code :: u8
  tor_txid :: txid
  tor_vout :: u16
  tor_value :: bytes

definition tx_out_row_new :: "tapyrus \<Rightarrow> txid \<Rightarrow> nat \<Rightarrow> txout \<Rightarrow> tx_out_row" where
  "tx_out_row_new T txid vout txo =
     \<lparr>tor_code = byte CHR ''O'', tor_txid = txid, tor_vout = of_nat vout, tor_value = serialize_txout T txo\<rparr>"

definition tx_out_key_bytes :: "bincode \<Rightarrow> u8 \<Rightarrow> txid \<Rightarrow> u16 \<Rightarrow> bytes" where
  "tx_out_key_bytes B code txid vout = code # full_hash txid @ bc_u16 B vout"

definition tx_out_row_key :: "bincode \<Rightarrow> outpoint \<Rightarrow> bytes" where
  "tx_out_row_key B outpoint =
     tx_out_key_bytes B (byte CHR ''O'') (op_txid outpoint) (ucast (op_vout outpoint))"

definition tx_out_row_into_row :: "bincode \<Rightarrow> tx_out_row \<Rightarrow> db_row" where
  "tx_out_row_into_row B r =
     \<lparr>row_key = tx_out_key_bytes B (tor_code r) (tor_txid r) (tor_vout r), row_value = tor_value r\<rparr>"

section \<open>Colours\<close>

text \<open>\<^verbatim>\<open>serialize(color_id)\<close> has 33 bytes, the type and the payload, so the slices do not panic.\<close>

definition serialize_color_id :: "tapyrus \<Rightarrow> color \<Rightarrow> u8 \<times> hash" where
  "serialize_color_id T color_id =
     (let bs = serialize_color T color_id in (hd bs, bytes_hash (take 32 (drop 1 bs))))"

definition color_id_bytes :: "tapyrus \<Rightarrow> color \<Rightarrow> bytes" where
  "color_id_bytes T color_id =
     (case serialize_color_id T color_id of (t, p) \<Rightarrow> t # full_hash p)"

definition deserialize_color_id :: "tapyrus \<Rightarrow> u8 \<Rightarrow> hash \<Rightarrow> color res" where
  "deserialize_color_id T t p = expect ''failed to deserialize color_id'' (color_from_slice T (t # full_hash p))"

record color_id_row =
  cir_block_height :: u32
  cir_color_id :: color

definition color_id_row_new :: "u32 \<Rightarrow> color \<Rightarrow> color_id_row" where
  "color_id_row_new block_height color_id = \<lparr>cir_block_height = block_height, cir_color_id = color_id\<rparr>"

definition color_id_row_prefix :: bytes where
  "color_id_row_prefix = [byte CHR ''B'']"

definition color_id_row_filter_end :: "tapyrus \<Rightarrow> u32 \<Rightarrow> color option \<Rightarrow> bytes" where
  "color_id_row_filter_end T block_height color_id =
     (case color_id of
        Some color_id \<Rightarrow>
          byte CHR ''B'' # u32_to_be_bytes block_height @ [byte CHR ''c''] @ color_id_bytes T color_id
      | None \<Rightarrow> byte CHR ''B'' # u32_to_be_bytes (block_height + 1) @ [byte CHR ''c''])"

definition color_id_row_into_row :: "tapyrus \<Rightarrow> color_id_row \<Rightarrow> db_row" where
  "color_id_row_into_row T r =
     \<lparr>row_key = byte CHR ''B'' # u32_to_be_bytes (cir_block_height r) @ [byte CHR ''c''] @
        color_id_bytes T (cir_color_id r),
      row_value = []\<rparr>"

definition color_id_row_from_row :: "tapyrus \<Rightarrow> db_row \<Rightarrow> color_id_row res" where
  "color_id_row_from_row T row =
     and_then (expect ''failed to deserialize ColorIdRow'' (d_prefix
       (d_bind d_u8 (\<lambda>_. d_bind (d_bytes 4) (\<lambda>h. d_bind d_u8 (\<lambda>_. d_bind d_u8 (\<lambda>t. d_bind d_hash (\<lambda>p.
         d_ret (h, t, p))))))) (row_key row))) (\<lambda>(h, t, p).
     and_then (deserialize_color_id T t p) (\<lambda>color_id.
       Inr \<lparr>cir_block_height = u32_from_be_bytes h, cir_color_id = color_id\<rparr>))"

section \<open>Blocks\<close>

record block_row =
  br_code :: u8
  br_hash :: blockhash
  br_value :: bytes

definition block_row_new_header :: "tapyrus \<Rightarrow> block_entry \<Rightarrow> block_row" where
  "block_row_new_header T b =
     \<lparr>br_code = byte CHR ''B'', br_hash = he_hash (be_entry b),
      br_value = serialize_header T (blk_header (be_block b))\<rparr>"

definition block_row_new_txids :: "bincode \<Rightarrow> blockhash \<Rightarrow> txid list \<Rightarrow> block_row" where
  "block_row_new_txids B hash txids =
     \<lparr>br_code = byte CHR ''X'', br_hash = hash, br_value = bc_seq B (bc_hash B) txids\<rparr>"

definition block_meta_bytes :: "bincode \<Rightarrow> block_meta \<Rightarrow> bytes" where
  "block_meta_bytes B m = bc_u32 B (bm_tx_count m) @ bc_u32 B (bm_size m) @ bc_u32 B (bm_weight m)"

definition d_block_meta :: "bincode \<Rightarrow> block_meta decoder" where
  "d_block_meta B = d_bind (bc_de_u32 B) (\<lambda>n. d_bind (bc_de_u32 B) (\<lambda>s. d_bind (bc_de_u32 B) (\<lambda>w. d_ret
     \<lparr>bm_tx_count = n, bm_size = s, bm_weight = w\<rparr>)))"

definition block_row_new_meta :: "bincode \<Rightarrow> blockhash \<Rightarrow> block_meta \<Rightarrow> block_row" where
  "block_row_new_meta B hash meta =
     \<lparr>br_code = byte CHR ''M'', br_hash = hash, br_value = block_meta_bytes B meta\<rparr>"

definition block_row_new_done :: "blockhash \<Rightarrow> block_row" where
  "block_row_new_done hash = \<lparr>br_code = byte CHR ''D'', br_hash = hash, br_value = []\<rparr>"

definition block_row_header_filter :: bytes where
  "block_row_header_filter = [byte CHR ''B'']"

definition block_row_txids_key :: "blockhash \<Rightarrow> bytes" where
  "block_row_txids_key hash = byte CHR ''X'' # full_hash hash"

definition block_row_meta_key :: "blockhash \<Rightarrow> bytes" where
  "block_row_meta_key hash = byte CHR ''M'' # full_hash hash"

definition block_row_done_filter :: bytes where
  "block_row_done_filter = [byte CHR ''D'']"

definition block_row_into_row :: "block_row \<Rightarrow> db_row" where
  "block_row_into_row r = \<lparr>row_key = br_code r # full_hash (br_hash r), row_value = br_value r\<rparr>"

definition block_row_from_row :: "db_row \<Rightarrow> block_row res" where
  "block_row_from_row row =
     and_then (expect ''unwrap'' (d_prefix (d_bind d_u8 (\<lambda>c. d_bind d_hash (\<lambda>h. d_ret (c, h)))) (row_key row)))
       (\<lambda>(c, h). Inr \<lparr>br_code = c, br_hash = h, br_value = row_value row\<rparr>)"

section \<open>Script histories\<close>

text \<open>\<^verbatim>\<open>open_asset\<close> is not serialised (\<^verbatim>\<open>#[serde(skip)]\<close>): it is absent from a row that is read back.\<close>

record funding_info =
  fi_txid :: txid
  fi_vout :: u16
  fi_color_id :: color
  fi_value :: u64
  fi_open_asset :: "open_asset option"

record spending_info =
  si_txid :: txid
  si_vin :: u16
  si_prev_txid :: txid
  si_prev_vout :: u16
  si_color_id :: color
  si_value :: u64

datatype tx_history_info = Funding funding_info | Spending spending_info

text \<open>\<^verbatim>\<open>impl OpenAssetOutput for FundingInfo\<close>.\<close>

definition open_assets_colored :: "funding_info \<Rightarrow> funding_info option" where
  "open_assets_colored f = (if fi_open_asset f \<noteq> None then Some f else None)"

definition open_assets_uncolored :: "funding_info \<Rightarrow> funding_info option" where
  "open_assets_uncolored f = (if fi_open_asset f = None then Some f else None)"

fun thi_get_txid :: "tx_history_info \<Rightarrow> txid" where
  "thi_get_txid (Funding info) = fi_txid info"
| "thi_get_txid (Spending info) = si_txid info"

fun thi_get_funded_outpoint :: "tx_history_info \<Rightarrow> outpoint" where
  "thi_get_funded_outpoint (Funding info) = \<lparr>op_txid = fi_txid info, op_vout = ucast (fi_vout info)\<rparr>"
| "thi_get_funded_outpoint (Spending info) =
     \<lparr>op_txid = si_prev_txid info, op_vout = ucast (si_prev_vout info)\<rparr>"

fun thi_color_id :: "tx_history_info \<Rightarrow> color" where
  "thi_color_id (Funding info) = fi_color_id info"
| "thi_color_id (Spending info) = si_color_id info"

fun tx_history_info_bytes :: "bincode \<Rightarrow> tx_history_info \<Rightarrow> bytes" where
  "tx_history_info_bytes B (Funding i) =
     bc_u32 B 0 @ full_hash (fi_txid i) @ bc_u16 B (fi_vout i) @ bc_color B (fi_color_id i) @ bc_u64 B (fi_value i)"
| "tx_history_info_bytes B (Spending i) =
     bc_u32 B 1 @ full_hash (si_txid i) @ bc_u16 B (si_vin i) @ full_hash (si_prev_txid i) @
       bc_u16 B (si_prev_vout i) @ bc_color B (si_color_id i) @ bc_u64 B (si_value i)"

definition d_fail :: "'a decoder" where
  "d_fail = (\<lambda>_. None)"

definition d_tx_history_info :: "bincode \<Rightarrow> tx_history_info decoder" where
  "d_tx_history_info B = d_bind (bc_de_u32 B) (\<lambda>variant.
     if variant = 0 then
       d_bind d_hash (\<lambda>t. d_bind (bc_de_u16 B) (\<lambda>n. d_bind (bc_de_color B) (\<lambda>c. d_bind (bc_de_u64 B) (\<lambda>v. d_ret
         (Funding \<lparr>fi_txid = t, fi_vout = n, fi_color_id = c, fi_value = v, fi_open_asset = None\<rparr>)))))
     else if variant = 1 then
       d_bind d_hash (\<lambda>t. d_bind (bc_de_u16 B) (\<lambda>n. d_bind d_hash (\<lambda>pt. d_bind (bc_de_u16 B) (\<lambda>pn.
         d_bind (bc_de_color B) (\<lambda>c. d_bind (bc_de_u64 B) (\<lambda>v. d_ret
         (Spending \<lparr>si_txid = t, si_vin = n, si_prev_txid = pt, si_prev_vout = pn, si_color_id = c, si_value = v\<rparr>)))))))
     else d_fail)"

record tx_history_key =
  thk_code :: u8
  thk_hash :: hash
  thk_confirmed_height :: u32
  thk_txinfo :: tx_history_info

text \<open>A \<^verbatim>\<open>TxHistoryRow\<close> is its key.\<close>

definition tx_history_row_new :: "tapyrus \<Rightarrow> script \<Rightarrow> u32 \<Rightarrow> tx_history_info \<Rightarrow> tx_history_key" where
  "tx_history_row_new T script confirmed_height txinfo =
     \<lparr>thk_code = byte CHR ''H'', thk_hash = compute_script_hash T script,
      thk_confirmed_height = confirmed_height, thk_txinfo = txinfo\<rparr>"

definition tx_history_row_filter :: "u8 \<Rightarrow> hash \<Rightarrow> bytes" where
  "tx_history_row_filter code hash = code # full_hash hash"

definition tx_history_row_prefix_end :: "bincode \<Rightarrow> u8 \<Rightarrow> hash \<Rightarrow> bytes" where
  "tx_history_row_prefix_end B code hash = code # full_hash hash @ bc_u32 B 0xFFFFFFFF"

definition tx_history_row_prefix_height :: "bincode \<Rightarrow> u8 \<Rightarrow> hash \<Rightarrow> u32 \<Rightarrow> bytes" where
  "tx_history_row_prefix_height BE code hash height = code # full_hash hash @ bc_u32 BE height"

definition tx_history_row_into_row :: "bincode \<Rightarrow> tx_history_key \<Rightarrow> db_row" where
  "tx_history_row_into_row BE k =
     \<lparr>row_key = thk_code k # full_hash (thk_hash k) @ bc_u32 BE (thk_confirmed_height k) @
        tx_history_info_bytes BE (thk_txinfo k),
      row_value = []\<rparr>"

definition tx_history_row_from_row :: "bincode \<Rightarrow> db_row \<Rightarrow> tx_history_key res" where
  "tx_history_row_from_row BE row =
     expect ''failed to deserialize TxHistoryKey'' (d_all
       (d_bind d_u8 (\<lambda>c. d_bind d_hash (\<lambda>h. d_bind (bc_de_u32 BE) (\<lambda>n. d_bind (d_tx_history_info BE) (\<lambda>i. d_ret
         \<lparr>thk_code = c, thk_hash = h, thk_confirmed_height = n, thk_txinfo = i\<rparr>))))) (row_key row))"

section \<open>Spends\<close>

record tx_edge_row =
  ter_code :: u8
  ter_funding_txid :: txid
  ter_funding_vout :: u16
  ter_spending_txid :: txid
  ter_spending_vin :: u16

definition tx_edge_row_new :: "txid \<Rightarrow> u16 \<Rightarrow> txid \<Rightarrow> u16 \<Rightarrow> tx_edge_row" where
  "tx_edge_row_new funding_txid funding_vout spending_txid spending_vin =
     \<lparr>ter_code = byte CHR ''S'', ter_funding_txid = funding_txid, ter_funding_vout = funding_vout,
      ter_spending_txid = spending_txid, ter_spending_vin = spending_vin\<rparr>"

definition tx_edge_row_filter :: "bincode \<Rightarrow> outpoint \<Rightarrow> bytes" where
  "tx_edge_row_filter B outpoint =
     byte CHR ''S'' # full_hash (op_txid outpoint) @ bc_u16 B (ucast (op_vout outpoint))"

definition tx_edge_row_into_row :: "bincode \<Rightarrow> tx_edge_row \<Rightarrow> db_row" where
  "tx_edge_row_into_row B r =
     \<lparr>row_key = ter_code r # full_hash (ter_funding_txid r) @ bc_u16 B (ter_funding_vout r) @
        full_hash (ter_spending_txid r) @ bc_u16 B (ter_spending_vin r),
      row_value = []\<rparr>"

definition tx_edge_row_from_row :: "bincode \<Rightarrow> db_row \<Rightarrow> tx_edge_row res" where
  "tx_edge_row_from_row B row =
     expect ''failed to deserialize TxEdgeKey'' (d_prefix
       (d_bind d_u8 (\<lambda>c. d_bind d_hash (\<lambda>ft. d_bind (bc_de_u16 B) (\<lambda>fv. d_bind d_hash (\<lambda>st.
          d_bind (bc_de_u16 B) (\<lambda>sv. d_ret
         \<lparr>ter_code = c, ter_funding_txid = ft, ter_funding_vout = fv, ter_spending_txid = st,
          ter_spending_vin = sv\<rparr>)))))) (row_key row))"

section \<open>Caches of statistics and unspent outputs\<close>

record script_stats =
  ss_tx_count :: nat
  ss_funded_txo_count :: nat
  ss_spent_txo_count :: nat
  ss_funded_txo_sum :: u64
  ss_spent_txo_sum :: u64

definition script_stats_default :: script_stats where
  "script_stats_default = \<lparr>ss_tx_count = 0, ss_funded_txo_count = 0, ss_spent_txo_count = 0,
     ss_funded_txo_sum = 0, ss_spent_txo_sum = 0\<rparr>"

type_synonym stats_map = "(color, script_stats) hashmap"

definition script_stats_bytes :: "bincode \<Rightarrow> script_stats \<Rightarrow> bytes" where
  "script_stats_bytes B s = bc_usize B (ss_tx_count s) @ bc_usize B (ss_funded_txo_count s) @
     bc_usize B (ss_spent_txo_count s) @ bc_u64 B (ss_funded_txo_sum s) @ bc_u64 B (ss_spent_txo_sum s)"

definition d_script_stats :: "bincode \<Rightarrow> script_stats decoder" where
  "d_script_stats B = d_bind (bc_de_usize B) (\<lambda>a. d_bind (bc_de_usize B) (\<lambda>b. d_bind (bc_de_usize B) (\<lambda>c.
     d_bind (bc_de_u64 B) (\<lambda>d. d_bind (bc_de_u64 B) (\<lambda>e. d_ret
       \<lparr>ss_tx_count = a, ss_funded_txo_count = b, ss_spent_txo_count = c, ss_funded_txo_sum = d,
        ss_spent_txo_sum = e\<rparr>)))))"

record stats_cache_row =
  scr_code :: u8
  scr_scripthash :: scripthash
  scr_color_id :: color
  scr_value :: bytes

definition stats_cache_row_new ::
  "bincode \<Rightarrow> scripthash \<Rightarrow> color \<Rightarrow> script_stats \<Rightarrow> blockhash \<Rightarrow> stats_cache_row" where
  "stats_cache_row_new B scripthash color_id stats blockhash =
     \<lparr>scr_code = byte CHR ''A'', scr_scripthash = scripthash, scr_color_id = color_id,
      scr_value = script_stats_bytes B stats @ bc_hash B blockhash\<rparr>"

definition stats_cache_row_key :: "scripthash \<Rightarrow> bytes" where
  "stats_cache_row_key scripthash = byte CHR ''A'' # full_hash scripthash"

text \<open>
  The start key of a scan: \<^verbatim>\<open>b"A"\<close> is an array and the script hash a slice, so that the slice is preceded by
  its length, unlike in the rows themselves, where it is an array.
\<close>

definition stats_cache_row_prefix_color_id :: "bincode \<Rightarrow> scripthash \<Rightarrow> color \<Rightarrow> bytes" where
  "stats_cache_row_prefix_color_id BE scripthash color_id =
     byte CHR ''A'' # bc_usize BE 32 @ full_hash scripthash @ bc_color BE color_id"

definition stats_cache_row_into_row :: "bincode \<Rightarrow> stats_cache_row \<Rightarrow> db_row" where
  "stats_cache_row_into_row B r =
     \<lparr>row_key = scr_code r # full_hash (scr_scripthash r) @ bc_color B (scr_color_id r), row_value = scr_value r\<rparr>"

definition stats_cache_row_from_row :: "bincode \<Rightarrow> db_row \<Rightarrow> stats_cache_row res" where
  "stats_cache_row_from_row B row =
     and_then (expect ''failed to deserialize StatsCacheKey'' (d_prefix
       (d_bind d_u8 (\<lambda>c. d_bind d_hash (\<lambda>h. d_bind (bc_de_color B) (\<lambda>k. d_ret (c, h, k))))) (row_key row)))
       (\<lambda>(c, h, k). Inr \<lparr>scr_code = c, scr_scripthash = h, scr_color_id = k, scr_value = row_value row\<rparr>)"

type_synonym utxo_map = "(outpoint, block_id \<times> color \<times> u64) hashmap"

type_synonym cached_utxo_map = "(txid \<times> u32, u32 \<times> color \<times> u64) hashmap"

definition make_utxo_cache :: "utxo_map \<Rightarrow> cached_utxo_map" where
  "make_utxo_cache utxos =
     map (\<lambda>(outpoint, blockid, color_id, value).
       ((op_txid outpoint, op_vout outpoint), (of_nat (bid_height blockid), color_id, value))) utxos"

definition cached_utxo_bytes :: "bincode \<Rightarrow> (txid \<times> u32) \<times> u32 \<times> color \<times> u64 \<Rightarrow> bytes" where
  "cached_utxo_bytes B e =
     (case e of ((txid, vout), (height, color_id, value)) \<Rightarrow>
        bc_hash B txid @ bc_u32 B vout @ bc_u32 B height @ bc_color B color_id @ bc_u64 B value)"

definition d_cached_utxo :: "bincode \<Rightarrow> ((txid \<times> u32) \<times> u32 \<times> color \<times> u64) decoder" where
  "d_cached_utxo B = d_bind (bc_de_hash B) (\<lambda>t. d_bind (bc_de_u32 B) (\<lambda>v. d_bind (bc_de_u32 B) (\<lambda>h.
     d_bind (bc_de_color B) (\<lambda>c. d_bind (bc_de_u64 B) (\<lambda>a. d_ret ((t, v), (h, c, a)))))))"

record utxo_cache_row =
  ucr_code :: u8
  ucr_scripthash :: scripthash
  ucr_value :: bytes

definition utxo_cache_row_new :: "bincode \<Rightarrow> scripthash \<Rightarrow> utxo_map \<Rightarrow> blockhash \<Rightarrow> utxo_cache_row" where
  "utxo_cache_row_new B scripthash utxos blockhash =
     \<lparr>ucr_code = byte CHR ''U'', ucr_scripthash = scripthash,
      ucr_value = bc_seq B (cached_utxo_bytes B) (make_utxo_cache utxos) @ bc_hash B blockhash\<rparr>"

definition utxo_cache_row_key :: "scripthash \<Rightarrow> bytes" where
  "utxo_cache_row_key scripthash = byte CHR ''U'' # full_hash scripthash"

definition utxo_cache_row_into_row :: "utxo_cache_row \<Rightarrow> db_row" where
  "utxo_cache_row_into_row r = \<lparr>row_key = ucr_code r # full_hash (ucr_scripthash r), row_value = ucr_value r\<rparr>"

section \<open>Coloured histories\<close>

record colored_amount =
  ca_txid :: txid
  ca_value :: u64

datatype colored_tx_history_info =
  Issuing colored_amount | Transferring colored_amount | Burning colored_amount

fun cthi_amount :: "colored_tx_history_info \<Rightarrow> colored_amount" where
  "cthi_amount (Issuing i) = i"
| "cthi_amount (Transferring i) = i"
| "cthi_amount (Burning i) = i"

definition cthi_get_txid :: "colored_tx_history_info \<Rightarrow> txid" where
  "cthi_get_txid i = ca_txid (cthi_amount i)"

fun cthi_variant :: "colored_tx_history_info \<Rightarrow> u32" where
  "cthi_variant (Issuing i) = 0"
| "cthi_variant (Transferring i) = 1"
| "cthi_variant (Burning i) = 2"

definition cthi_bytes :: "bincode \<Rightarrow> colored_tx_history_info \<Rightarrow> bytes" where
  "cthi_bytes B i = bc_u32 B (cthi_variant i) @ full_hash (ca_txid (cthi_amount i)) @ bc_u64 B (ca_value (cthi_amount i))"

definition d_cthi :: "bincode \<Rightarrow> colored_tx_history_info decoder" where
  "d_cthi B = d_bind (bc_de_u32 B) (\<lambda>variant. d_bind d_hash (\<lambda>t. d_bind (bc_de_u64 B) (\<lambda>v.
     let a = \<lparr>ca_txid = t, ca_value = v\<rparr> in
     if variant = 0 then d_ret (Issuing a) else if variant = 1 then d_ret (Transferring a)
     else if variant = 2 then d_ret (Burning a) else d_fail)))"

record colored_tx_history_key =
  ck_color_id :: color
  ck_confirmed_height :: u32
  ck_txinfo :: colored_tx_history_info

definition colored_row_filter :: "tapyrus \<Rightarrow> color \<Rightarrow> bytes" where
  "colored_row_filter T color_id = byte CHR ''C'' # color_id_bytes T color_id"

definition colored_row_prefix_height :: "tapyrus \<Rightarrow> color \<Rightarrow> u32 \<Rightarrow> bytes" where
  "colored_row_prefix_height T color_id height =
     byte CHR ''C'' # color_id_bytes T color_id @ u32_to_be_bytes height"

definition colored_row_prefix_end :: "tapyrus \<Rightarrow> color \<Rightarrow> bytes" where
  "colored_row_prefix_end T color_id =
     byte CHR ''C'' # color_id_bytes T color_id @ u32_to_be_bytes 0xFFFFFFFF"

definition colored_row_get_txid :: "colored_tx_history_key \<Rightarrow> txid" where
  "colored_row_get_txid k = cthi_get_txid (ck_txinfo k)"

definition colored_row_into_row :: "tapyrus \<Rightarrow> bincode \<Rightarrow> colored_tx_history_key \<Rightarrow> db_row" where
  "colored_row_into_row T B k =
     \<lparr>row_key = byte CHR ''C'' # color_id_bytes T (ck_color_id k) @ u32_to_be_bytes (ck_confirmed_height k) @
        cthi_bytes B (ck_txinfo k),
      row_value = []\<rparr>"

definition colored_row_from_row :: "tapyrus \<Rightarrow> bincode \<Rightarrow> db_row \<Rightarrow> colored_tx_history_key res" where
  "colored_row_from_row T B row =
     and_then (expect ''unwrap'' (d_prefix
       (d_bind d_u8 (\<lambda>_. d_bind d_u8 (\<lambda>t. d_bind d_hash (\<lambda>p. d_bind (d_bytes 4) (\<lambda>h. d_bind (d_cthi B) (\<lambda>i.
         d_ret (t, p, h, i))))))) (row_key row))) (\<lambda>(t, p, h, i).
     and_then (deserialize_color_id T t p) (\<lambda>color_id.
       Inr \<lparr>ck_color_id = color_id, ck_confirmed_height = u32_from_be_bytes h, ck_txinfo = i\<rparr>))"

record colored_stats =
  cs_color_id :: color
  cs_tx_count :: nat
  cs_issued_tx_count :: nat
  cs_transferred_tx_count :: nat
  cs_burned_tx_count :: nat
  cs_issued_sum :: u64
  cs_transferred_sum :: u64
  cs_burned_sum :: u64

definition colored_stats_new :: "color \<Rightarrow> colored_stats" where
  "colored_stats_new color_id = \<lparr>cs_color_id = color_id, cs_tx_count = 0, cs_issued_tx_count = 0,
     cs_transferred_tx_count = 0, cs_burned_tx_count = 0, cs_issued_sum = 0, cs_transferred_sum = 0,
     cs_burned_sum = 0\<rparr>"

definition colored_stats_bytes :: "bincode \<Rightarrow> colored_stats \<Rightarrow> bytes" where
  "colored_stats_bytes B s = bc_color B (cs_color_id s) @ bc_usize B (cs_tx_count s) @
     bc_usize B (cs_issued_tx_count s) @ bc_usize B (cs_transferred_tx_count s) @
     bc_usize B (cs_burned_tx_count s) @ bc_u64 B (cs_issued_sum s) @ bc_u64 B (cs_transferred_sum s) @
     bc_u64 B (cs_burned_sum s)"

definition d_colored_stats :: "bincode \<Rightarrow> colored_stats decoder" where
  "d_colored_stats B = d_bind (bc_de_color B) (\<lambda>k. d_bind (bc_de_usize B) (\<lambda>a. d_bind (bc_de_usize B) (\<lambda>b.
     d_bind (bc_de_usize B) (\<lambda>c. d_bind (bc_de_usize B) (\<lambda>d. d_bind (bc_de_u64 B) (\<lambda>e. d_bind (bc_de_u64 B) (\<lambda>f.
     d_bind (bc_de_u64 B) (\<lambda>g. d_ret
       \<lparr>cs_color_id = k, cs_tx_count = a, cs_issued_tx_count = b, cs_transferred_tx_count = c,
        cs_burned_tx_count = d, cs_issued_sum = e, cs_transferred_sum = f, cs_burned_sum = g\<rparr>))))))))"

record colored_stats_cache_row =
  csr_color_id :: color
  csr_value :: bytes

definition colored_stats_cache_row_new :: "bincode \<Rightarrow> color \<Rightarrow> colored_stats \<Rightarrow> blockhash \<Rightarrow> colored_stats_cache_row" where
  "colored_stats_cache_row_new B color_id stats blockhash =
     \<lparr>csr_color_id = color_id, csr_value = colored_stats_bytes B stats @ bc_hash B blockhash\<rparr>"

definition colored_stats_cache_row_key :: "tapyrus \<Rightarrow> color \<Rightarrow> bytes" where
  "colored_stats_cache_row_key T color_id = byte CHR ''z'' # color_id_bytes T color_id"

definition colored_stats_cache_row_into_row :: "tapyrus \<Rightarrow> colored_stats_cache_row \<Rightarrow> db_row" where
  "colored_stats_cache_row_into_row T r =
     \<lparr>row_key = byte CHR ''z'' # color_id_bytes T (csr_color_id r), row_value = csr_value r\<rparr>"

definition colored_stats_cache_row_from_row :: "tapyrus \<Rightarrow> db_row \<Rightarrow> colored_stats_cache_row res" where
  "colored_stats_cache_row_from_row T row =
     and_then (expect ''failed to deserialize ColoredStatsCacheKey'' (d_prefix
       (d_bind d_u8 (\<lambda>_. d_bind d_u8 (\<lambda>t. d_bind d_hash (\<lambda>p. d_ret (t, p))))) (row_key row))) (\<lambda>(t, p).
     and_then (deserialize_color_id T t p) (\<lambda>color_id.
       Inr \<lparr>csr_color_id = color_id, csr_value = row_value row\<rparr>))"

section \<open>Rows read back\<close>

context bincode_laws
begin

lemma decodes_tx_history_info:
  "(\<And>f. i = Funding f \<Longrightarrow> fi_open_asset f = None) \<Longrightarrow>
   decodes (d_tx_history_info B) (tx_history_info_bytes B i) i"
  by (intro decodesI, cases i)
    (simp_all add: d_tx_history_info_def full_hash_def bc_decode_simps decode_simps)

lemma decodes_cthi: "decodes (d_cthi B) (cthi_bytes B i) i"
  by (intro decodesI, cases i)
    (simp_all add: d_cthi_def cthi_bytes_def full_hash_def bc_decode_simps decode_simps)

lemma decodes_script_stats:
  "ss_tx_count s < 2 ^ 64 \<Longrightarrow> ss_funded_txo_count s < 2 ^ 64 \<Longrightarrow> ss_spent_txo_count s < 2 ^ 64 \<Longrightarrow>
   decodes (d_script_stats B) (script_stats_bytes B s) s"
  by (intro decodesI) (simp add: d_script_stats_def script_stats_bytes_def bc_decode_simps decode_simps)

lemma decodes_cached_utxo: "decodes (d_cached_utxo B) (cached_utxo_bytes B e) e"
  by (intro decodesI)
    (simp add: d_cached_utxo_def cached_utxo_bytes_def bc_decode_simps decode_simps split: prod.split)

lemma decodes_block_meta: "decodes (d_block_meta B) (block_meta_bytes B m) m"
  by (intro decodesI) (simp add: d_block_meta_def block_meta_bytes_def bc_decode_simps decode_simps)

lemma edge_filter_iff:
  "prefix (tx_edge_row_filter B o') (row_key (tx_edge_row_into_row B r)) \<longleftrightarrow>
   ter_code r = byte CHR ''S'' \<and> ter_funding_txid r = op_txid o' \<and> ter_funding_vout r = ucast (op_vout o')"
proof -
  have split: "prefix (full_hash g @ bc_u16 B x) (full_hash h @ bc_u16 B y @ rest) \<longleftrightarrow> g = h \<and> x = y"
    for g h x y and rest :: bytes
  proof -
    have "(\<exists>zs. hash_bytes h @ bc_u16 B y @ rest = hash_bytes g @ bc_u16 B x @ zs) \<longleftrightarrow> g = h \<and> x = y"
      by (subst decodes_inject [of d_hash hash_bytes, OF decodes_hash]) (auto simp: u16_inject)
    then show ?thesis by (simp add: prefix_def full_hash_def)
  qed
  show ?thesis
    unfolding tx_edge_row_filter_def tx_edge_row_into_row_def by (auto simp: split)
qed

end

lemma tx_conf_row_roundtrip: "tx_conf_row_from_row (tx_conf_row_into_row r) = Inr r"
proof -
  have "decodes (d_bind d_u8 (\<lambda>c. d_bind d_hash (\<lambda>t. d_bind d_hash (\<lambda>b. d_ret
       \<lparr>tcr_code = c, tcr_txid = t, tcr_blockhash = b\<rparr>)))) (row_key (tx_conf_row_into_row r)) r"
    by (intro decodesI) (simp add: tx_conf_row_into_row_def full_hash_def decode_simps)
  from d_prefix_decodes [OF this, of "[]"] show ?thesis by (simp add: tx_conf_row_from_row_def expect_def)
qed

lemma block_row_roundtrip: "block_row_from_row (block_row_into_row r) = Inr r"
proof -
  have "decodes (d_bind d_u8 (\<lambda>c. d_bind d_hash (\<lambda>h. d_ret (c, h)))) (row_key (block_row_into_row r)) (br_code r, br_hash r)"
    by (intro decodesI) (simp add: block_row_into_row_def full_hash_def decode_simps)
  from d_prefix_decodes [OF this, of "[]"] show ?thesis
    by (simp add: block_row_from_row_def expect_def) (simp add: block_row_into_row_def)
qed

lemma tx_edge_row_roundtrip:
  assumes "bincode_laws B"
  shows "tx_edge_row_from_row B (tx_edge_row_into_row B r) = Inr r"
proof -
  note simps = bincode_laws.bc_decode_simps [OF assms]
  have "decodes (d_bind d_u8 (\<lambda>c. d_bind d_hash (\<lambda>ft. d_bind (bc_de_u16 B) (\<lambda>fv. d_bind d_hash (\<lambda>st.
          d_bind (bc_de_u16 B) (\<lambda>sv. d_ret
         \<lparr>ter_code = c, ter_funding_txid = ft, ter_funding_vout = fv, ter_spending_txid = st,
          ter_spending_vin = sv\<rparr>)))))) (row_key (tx_edge_row_into_row B r)) r"
    by (intro decodesI) (simp add: tx_edge_row_into_row_def full_hash_def decode_simps simps)
  from d_prefix_decodes [OF this, of "[]"] show ?thesis by (simp add: tx_edge_row_from_row_def expect_def)
qed

lemma history_row_roundtrip:
  assumes "bincode_laws BE" "\<forall>f. thk_txinfo k = Funding f \<longrightarrow> fi_open_asset f = None"
  shows "tx_history_row_from_row BE (tx_history_row_into_row BE k) = Inr k"
proof -
  note simps = bincode_laws.bc_decode_simps [OF assms(1)]
  have info: "decodes (d_tx_history_info BE) (tx_history_info_bytes BE (thk_txinfo k)) (thk_txinfo k)"
    using assms by (intro bincode_laws.decodes_tx_history_info) auto
  have "decodes (d_bind d_u8 (\<lambda>c. d_bind d_hash (\<lambda>h. d_bind (bc_de_u32 BE) (\<lambda>n. d_bind (d_tx_history_info BE) (\<lambda>i. d_ret
         \<lparr>thk_code = c, thk_hash = h, thk_confirmed_height = n, thk_txinfo = i\<rparr>)))))
      (row_key (tx_history_row_into_row BE k)) k"
    by (intro decodesI)
      (simp add: tx_history_row_into_row_def full_hash_def decode_simps simps d_bind_decodes [OF info])
  from d_all_decodes [OF this] show ?thesis by (simp add: tx_history_row_from_row_def expect_def)
qed

section \<open>Rows in the order of heights\<close>

text \<open>
  Among the rows of one script, exactly those confirmed at \<open>start\<close> or later are at or after the key a scan from
  \<open>start\<close> seeks to, and all of them are before the key a reverse scan seeks to.
\<close>

lemma history_row_scan_order:
  assumes "bincode_ordered BE" "thk_code k = code" "thk_hash k = hash"
  shows "(tx_history_row_prefix_height BE code hash start \<le> row_key (tx_history_row_into_row BE k) \<longleftrightarrow>
      start \<le> thk_confirmed_height k) \<and>
    prefix (tx_history_row_filter code hash) (row_key (tx_history_row_into_row BE k)) \<and>
    row_key (tx_history_row_into_row BE k) < tx_history_row_prefix_end bincode_le code hash"
proof -
  let ?h = "thk_confirmed_height k" and ?i = "tx_history_info_bytes BE (thk_txinfo k)"
  have "bc_u32 BE start \<le> bc_u32 BE ?h @ ?i \<longleftrightarrow> start \<le> ?h"
  proof (cases "start = ?h")
    case True
    then show ?thesis by (simp add: prefix_le)
  next
    case False
    have iff: "bc_u32 BE start @ [] < bc_u32 BE ?h @ ?i \<longleftrightarrow> start < ?h"
      by (rule bincode_ordered.u32_order_iff [OF assms(1) False])
    have "bc_u32 BE ?h @ ?i < bc_u32 BE start @ [] \<longleftrightarrow> ?h < start"
      by (rule bincode_ordered.u32_order_iff [OF assms(1) False [symmetric]])
    with iff False show ?thesis by (metis append_Nil2 leD leI order_le_less)
  qed
  moreover have "bc_u32 BE ?h @ ?i < bc_u32 bincode_le 0xFFFFFFFF"
  proof -
    have "unat ?h < 256 ^ 4" using unat_less_pow [of ?h] by simp
    then obtain b bs where "bc_u32 BE ?h = b # bs" "b < 255"
      using bincode_ordered.int_marker [OF assms(1), of 4 "unat ?h"] by (auto simp: bc_u32_def)
    moreover have "bc_u32 bincode_le 0xFFFFFFFF = [255, 255, 255, 255]"
      by (simp add: bc_u32_def bincode_le_def nat_be_4)
    ultimately show ?thesis by simp
  qed
  ultimately show ?thesis
    using assms(2,3)
    by (simp add: tx_history_row_prefix_height_def tx_history_row_into_row_def tx_history_row_filter_def
        tx_history_row_prefix_end_def)
qed

section \<open>Colours\<close>

context tapyrus_laws
begin

lemma color_id_bytes: "color_id_bytes T c = token_type c # hash_bytes (payload c)"
proof -
  have "take 32 (hash_bytes (payload c)) = hash_bytes (payload c)" by simp
  then show ?thesis
    by (simp add: color_id_bytes_def serialize_color_id_def serialize_color Let_def full_hash_def)
qed

lemma deserialize_color_id: "split_color T s = Some (c, s') \<Longrightarrow> deserialize_color_id T (token_type c) (payload c) = Inr c"
  by (simp add: deserialize_color_id_def full_hash_def color_from_slice expect_def)

lemma color_id_bytes_inject: "color_id_bytes T c = color_id_bytes T d \<longleftrightarrow> c = d"
  by (cases c; cases d) (simp add: color_id_bytes)

lemma length_color_id_bytes: "length (color_id_bytes T c) = 33"
  by (simp add: color_id_bytes)

end

text \<open>
  A coloured history row of a colour that occurs in a script is read back as it was written, rows of the
  colour are the rows with its prefix, they are ordered by height, and the end key of the reverse scan is
  not before any row below the maximal height.
\<close>

theorem colored_row_roundtrip_order:
  assumes "tapyrus_laws T" "bincode_laws B" "split_color T s = Some (ck_color_id k, s')"
  shows "colored_row_from_row T B (colored_row_into_row T B k) = Inr k \<and>
    (prefix (colored_row_filter T c) (row_key (colored_row_into_row T B k)) \<longleftrightarrow> c = ck_color_id k) \<and>
    (colored_row_prefix_height T (ck_color_id k) start \<le> row_key (colored_row_into_row T B k) \<longleftrightarrow>
       start \<le> ck_confirmed_height k) \<and>
    (ck_confirmed_height k < 0xFFFFFFFF \<longrightarrow>
       row_key (colored_row_into_row T B k) < colored_row_prefix_end T (ck_color_id k))"
proof (intro conjI impI)
  note cb = tapyrus_laws.color_id_bytes [OF assms(1)]
  let ?h = "ck_confirmed_height k" and ?i = "cthi_bytes B (ck_txinfo k)"
  note info = bincode_laws.decodes_cthi [OF assms(2), of "ck_txinfo k"]
  have "decodes (d_bind d_u8 (\<lambda>_. d_bind d_u8 (\<lambda>t. d_bind d_hash (\<lambda>p. d_bind (d_bytes 4) (\<lambda>h. d_bind (d_cthi B) (\<lambda>i.
         d_ret (t, p, h, i))))))) (row_key (colored_row_into_row T B k))
      (token_type (ck_color_id k), payload (ck_color_id k), u32_to_be_bytes ?h, ck_txinfo k)"
    by (intro decodesI) (simp add: colored_row_into_row_def cb decode_simps d_bind_decodes [OF info])
  from d_prefix_decodes [OF this, of "[]"]
  show "colored_row_from_row T B (colored_row_into_row T B k) = Inr k"
    by (simp add: colored_row_from_row_def expect_def tapyrus_laws.deserialize_color_id [OF assms(1,3)])
  have "prefix (color_id_bytes T c) (color_id_bytes T (ck_color_id k) @ x) \<longleftrightarrow>
      color_id_bytes T c = color_id_bytes T (ck_color_id k)" for x
    using tapyrus_laws.length_color_id_bytes [OF assms(1)]
    by (metis append_eq_append_conv prefix_def)
  then show "prefix (colored_row_filter T c) (row_key (colored_row_into_row T B k)) \<longleftrightarrow> c = ck_color_id k"
    by (simp add: colored_row_filter_def colored_row_into_row_def
        tapyrus_laws.color_id_bytes_inject [OF assms(1)])
  have "u32_to_be_bytes start \<le> u32_to_be_bytes ?h @ ?i \<longleftrightarrow> start \<le> ?h"
  proof (cases "start = ?h")
    case True
    then show ?thesis by (simp add: prefix_le)
  next
    case False
    have "u32_to_be_bytes ?h @ ?i < u32_to_be_bytes start @ []" if "?h < start"
      using that by (intro append_less_same_length) simp_all
    moreover have "u32_to_be_bytes start @ [] < u32_to_be_bytes ?h @ ?i" if "start < ?h"
      using that by (intro append_less_same_length) simp_all
    ultimately show ?thesis using False by (metis append_Nil2 leD leI order_le_less)
  qed
  then show "colored_row_prefix_height T (ck_color_id k) start \<le> row_key (colored_row_into_row T B k) \<longleftrightarrow>
       start \<le> ?h"
    by (simp add: colored_row_prefix_height_def colored_row_into_row_def)
  assume "?h < 0xFFFFFFFF"
  then have "u32_to_be_bytes ?h @ ?i < u32_to_be_bytes 0xFFFFFFFF @ []"
    by (intro append_less_same_length) simp_all
  then show "row_key (colored_row_into_row T B k) < colored_row_prefix_end T (ck_color_id k)"
    by (simp add: colored_row_prefix_end_def colored_row_into_row_def)
qed

definition ex_color_script :: script where
  "ex_color_script = [0x21, 0xc1] @ hash_bytes 99 @ [0xbc, 0x76]"

definition ex_colored_key :: colored_tx_history_key where
  "ex_colored_key = \<lparr>ck_color_id = ColorId 0xc1 99, ck_confirmed_height = 5, ck_txinfo = Issuing \<lparr>ca_txid = 8, ca_value = 10\<rparr>\<rparr>"

lemma ex_split_color: "split_color tapyrus_ref ex_color_script = Some (ColorId 0xc1 99, [0x76])"
  by (simp add: tapyrus_ref_def ref_split_color_def ex_color_script_def color_types_def nth_append nth_Cons')

lemma colored_row_roundtrip_order_witness:
  "colored_row_from_row tapyrus_ref bincode_le (colored_row_into_row tapyrus_ref bincode_le ex_colored_key) =
     Inr ex_colored_key"
  using colored_row_roundtrip_order [OF ref_tap.tapyrus_laws_axioms le.bincode_laws_axioms, of ex_color_script ex_colored_key]
    ex_split_color
  by (simp add: ex_colored_key_def)

section \<open>Keys that clash\<close>

text \<open>
  C31: the rows of two outputs have the same key exactly when they belong to one transaction and their indices
  agree modulo 65536; the lookup key has the same truncation.
\<close>

theorem tx_out_row_key_clash:
  assumes "bincode_laws B"
  shows "(row_key (tx_out_row_into_row B (tx_out_row_new T txid i txo)) =
       row_key (tx_out_row_into_row B (tx_out_row_new T txid' j txo')) \<longleftrightarrow>
       txid = txid' \<and> i mod 65536 = j mod 65536) \<and>
    tx_out_row_key B \<lparr>op_txid = txid, op_vout = of_nat i\<rparr> =
      row_key (tx_out_row_into_row B (tx_out_row_new T txid i txo))"
proof
  have word: "(of_nat i :: u16) = of_nat j \<longleftrightarrow> i mod 65536 = j mod 65536"
    by (simp add: word_of_nat_eq_iff take_bit_eq_mod)
  have "full_hash txid @ bc_u16 B x = full_hash txid' @ bc_u16 B y \<longleftrightarrow> txid = txid' \<and> x = y" for x y
    unfolding full_hash_def using bincode_laws.u16_inject [OF assms, of x "[]" y "[]"]
    by (subst decodes_inject [of d_hash hash_bytes, OF decodes_hash]) simp
  then show "row_key (tx_out_row_into_row B (tx_out_row_new T txid i txo)) =
      row_key (tx_out_row_into_row B (tx_out_row_new T txid' j txo')) \<longleftrightarrow>
      txid = txid' \<and> i mod 65536 = j mod 65536"
    by (simp add: tx_out_row_into_row_def tx_out_row_new_def tx_out_key_bytes_def word)
  have "(ucast (of_nat i :: u32) :: u16) = of_nat i"
    by (simp add: unsigned_of_nat word_of_nat_eq_iff take_bit_take_bit)
  then show "tx_out_row_key B \<lparr>op_txid = txid, op_vout = of_nat i\<rparr> =
      row_key (tx_out_row_into_row B (tx_out_row_new T txid i txo))"
    by (simp add: tx_out_row_key_def tx_out_row_into_row_def tx_out_row_new_def tx_out_key_bytes_def)
qed

lemma tx_out_row_key_clash_witness:
  "row_key (tx_out_row_into_row bincode_le (tx_out_row_new tapyrus_ref 9 65537 ex_out)) =
   row_key (tx_out_row_into_row bincode_le (tx_out_row_new tapyrus_ref 9 1 ex_out))"
  using tx_out_row_key_clash [OF le.bincode_laws_axioms, of tapyrus_ref 9 65537 ex_out 9 1 ex_out] by simp

text \<open>
  The cache of statistics is scanned from the wrong key. With bincode's one-byte length 32 in front of the
  script hash, every cached row of a script whose hash starts below 32 lies before the key from which the
  scan starts, and every cached row of one that starts above 32 lies after it only together with the rows
  of other scripts.
\<close>

lemma stats_cache_seek_mismatch:
  assumes "bc_usize BE 32 = [32]" "hash_bytes h = b # bs"
  shows "(b < 32 \<longrightarrow> row_key (stats_cache_row_into_row B (stats_cache_row_new B h c s bh)) <
       stats_cache_row_prefix_color_id BE h d) \<and>
    (32 < b \<longrightarrow> stats_cache_row_prefix_color_id BE h d <
       row_key (stats_cache_row_into_row B (stats_cache_row_new B h c s bh)) \<and>
       \<not> prefix (stats_cache_row_prefix_color_id BE h d)
          (row_key (stats_cache_row_into_row B (stats_cache_row_new B h c s bh))))"
  using assms
  by (auto simp: stats_cache_row_prefix_color_id_def stats_cache_row_into_row_def stats_cache_row_new_def
      full_hash_def)

lemma ex_stats_cache_seek:
  "row_key (stats_cache_row_into_row bincode_le (stats_cache_row_new bincode_le 5 default_color script_stats_default 1)) <
     stats_cache_row_prefix_color_id bincode_be 5 default_color"
proof -
  have len: "bc_usize bincode_be 32 = [32]" by (simp add: bc_usize_def bincode_be_def varint_be_def)
  have "(32::nat) = Suc 31" by simp
  then have "hash_bytes 5 = of_nat (5 div 256 ^ 31) # nat_be 31 5"
    unfolding hash_bytes_def by (simp only: nat_be.simps) simp
  moreover have "(of_nat (5 div 256 ^ 31) :: u8) = 0" by simp
  ultimately have "hash_bytes 5 = 0 # nat_be 31 5" by simp
  from stats_cache_seek_mismatch [OF len this] show ?thesis by simp
qed

end
