(* ===== verification/Db.thy ===== *)
theory Db
  imports Rows
begin

text \<open>
  The database wrapper (\<^verbatim>\<open>src/src/new_index/db.rs\<close>): prefix scans in both directions, batched writes, lookups
  and the version check, over the RocksDB operations \<open>R\<close>. The contract its clients use is the locale
  \<open>kv_store\<close>, which holds of the wrapper whenever RocksDB's laws do.
\<close>

section \<open>Scans\<close>

text \<open>\<^verbatim>\<open>ScanIterator\<close>: the items until the first error or the first key without the prefix.\<close>

fun scan_iterator :: "bytes \<Rightarrow> kv option list \<Rightarrow> db_row list" where
  "scan_iterator p [] = []"
| "scan_iterator p (None # es) = []"
| "scan_iterator p (Some (k, v) # es) =
     (if prefix p k then \<lparr>row_key = k, row_value = v\<rparr> # scan_iterator p es else [])"

text \<open>\<^verbatim>\<open>ReverseScanIterator\<close>, from where the raw iterator stands, backwards.\<close>

fun reverse_scan_iterator :: "bytes \<Rightarrow> kv list \<Rightarrow> db_row list" where
  "reverse_scan_iterator p [] = []"
| "reverse_scan_iterator p ((k, v) # es) =
     (if prefix p k then \<lparr>row_key = k, row_value = v\<rparr> # reverse_scan_iterator p es else [])"

definition db_iter_scan :: "'d rocksdb \<Rightarrow> 'd \<Rightarrow> bytes \<Rightarrow> db_row list" where
  "db_iter_scan R d p = scan_iterator p (rdb_prefix_iter R d p)"

definition db_iter_scan_from :: "'d rocksdb \<Rightarrow> 'd \<Rightarrow> bytes \<Rightarrow> bytes \<Rightarrow> db_row list" where
  "db_iter_scan_from R d p start_at = scan_iterator p (rdb_iter_from R d start_at)"

definition db_iter_scan_reverse :: "'d rocksdb \<Rightarrow> 'd \<Rightarrow> bytes \<Rightarrow> bytes \<Rightarrow> db_row list" where
  "db_iter_scan_reverse R d p prefix_max = reverse_scan_iterator p (rdb_rev_from R d prefix_max)"

section \<open>Writes and lookups\<close>

datatype db_flush = Disable | Enable

text \<open>
  The rows are sorted by key and put in one batch; the flush mode only selects write options. (The sort is
  unstable: the winner among rows with one key and different values is not specified.)
\<close>

definition db_write :: "'d rocksdb \<Rightarrow> 'd \<Rightarrow> db_row list \<Rightarrow> db_flush \<Rightarrow> 'd" where
  "db_write R d rows flush =
     rdb_write R d (map (\<lambda>r. (row_key r, row_value r)) (sort_key row_key rows))"

definition db_put :: "'d rocksdb \<Rightarrow> 'd \<Rightarrow> bytes \<Rightarrow> bytes \<Rightarrow> 'd" where
  "db_put R d k v = rdb_put R d k v"

definition db_put_sync :: "'d rocksdb \<Rightarrow> 'd \<Rightarrow> bytes \<Rightarrow> bytes \<Rightarrow> 'd" where
  "db_put_sync R d k v = rdb_put R d k v"

definition db_get :: "'d rocksdb \<Rightarrow> 'd \<Rightarrow> bytes \<Rightarrow> bytes option" where
  "db_get R d k = rdb_get R d k"

definition DB_VERSION :: u32 where
  "DB_VERSION = 1"

definition compatibility_bytes :: "bincode \<Rightarrow> bool \<Rightarrow> bytes" where
  "compatibility_bytes B light_mode = bc_u32 B DB_VERSION @ (if light_mode then [1] else [])"

definition db_verify_compatibility :: "'d rocksdb \<Rightarrow> bincode \<Rightarrow> bool \<Rightarrow> 'd \<Rightarrow> 'd res" where
  "db_verify_compatibility R B light_mode d =
     (case db_get R d [byte CHR ''V''] of
        None \<Rightarrow> Inr (db_put R d [byte CHR ''V''] (compatibility_bytes B light_mode))
      | Some x \<Rightarrow>
          if x \<noteq> compatibility_bytes B light_mode
          then panic ''Incompatible database found. Please reindex.'' else Inr d)"

text \<open>Opening, for a RocksDB that opens the path with state \<open>d\<close>: all options concern performance.\<close>

definition db_open :: "'d rocksdb \<Rightarrow> bincode \<Rightarrow> bool \<Rightarrow> 'd \<Rightarrow> 'd res" where
  "db_open R B light_mode d = db_verify_compatibility R B light_mode d"

section \<open>The contract of a key-value store\<close>

definition consistent :: "db_row list \<Rightarrow> bool" where
  "consistent rows \<longleftrightarrow> (\<forall>r \<in> set rows. \<forall>s \<in> set rows. row_key r = row_key s \<longrightarrow> row_value r = row_value s)"

definition has_row :: "(bytes \<Rightarrow> bytes option) \<Rightarrow> db_row \<Rightarrow> bool" where
  "has_row m r \<longleftrightarrow> m (row_key r) = Some (row_value r)"

locale kv_store =
  fixes kget :: "'d \<Rightarrow> bytes \<Rightarrow> bytes option"
    and kput :: "'d \<Rightarrow> bytes \<Rightarrow> bytes \<Rightarrow> 'd"
    and kwrite :: "'d \<Rightarrow> db_row list \<Rightarrow> db_flush \<Rightarrow> 'd"
    and scan :: "'d \<Rightarrow> bytes \<Rightarrow> db_row list"
    and scan_from :: "'d \<Rightarrow> bytes \<Rightarrow> bytes \<Rightarrow> db_row list"
    and scan_reverse :: "'d \<Rightarrow> bytes \<Rightarrow> bytes \<Rightarrow> db_row list"
  assumes get_put: "kget (kput d k v) = (kget d)(k \<mapsto> v)"
    and get_write_in: "consistent rows \<Longrightarrow> r \<in> set rows \<Longrightarrow> kget (kwrite d rows f) (row_key r) = Some (row_value r)"
    and get_write_out: "k \<notin> row_key ` set rows \<Longrightarrow> kget (kwrite d rows f) k = kget d k"
    and scan_sorted: "sorted_wrt (\<lambda>r s. row_key r < row_key s) (scan d p)"
    and set_scan: "r \<in> set (scan d p) \<longleftrightarrow> prefix p (row_key r) \<and> has_row (kget d) r"
    and scan_from_sorted: "sorted_wrt (\<lambda>r s. row_key r < row_key s) (scan_from d p k)"
    and set_scan_from: "prefix p k \<Longrightarrow> r \<in> set (scan_from d p k) \<longleftrightarrow>
      prefix p (row_key r) \<and> k \<le> row_key r \<and> has_row (kget d) r"
    and scan_reverse_sorted: "sorted_wrt (\<lambda>r s. row_key s < row_key r) (scan_reverse d p k)"
    and set_scan_reverse: "prefix p k \<Longrightarrow> r \<in> set (scan_reverse d p k) \<longleftrightarrow>
      prefix p (row_key r) \<and> row_key r \<le> k \<and> has_row (kget d) r"
begin

lemma distinct_scan: "distinct (scan d p)"
proof -
  have "sorted_wrt (\<noteq>) (scan d p)"
    by (rule sorted_wrt_mono_rel [OF _ scan_sorted [of d p]]) auto
  then show ?thesis by (simp add: distinct_conv_nth sorted_wrt_iff_nth_less) (metis nat_neq_iff)
qed

text \<open>A write adds its rows to a scan and leaves the others.\<close>

lemma set_scan_write:
  assumes "consistent rows" "\<forall>r \<in> set rows. kget d (row_key r) = None \<or> kget d (row_key r) = Some (row_value r)"
  shows "set (scan (kwrite d rows f) p) = {r \<in> set rows. prefix p (row_key r)} \<union> set (scan d p)"
proof -
  have "has_row (kget (kwrite d rows f)) r \<longleftrightarrow> r \<in> set rows \<or> has_row (kget d) r" for r :: db_row
  proof (cases "row_key r \<in> row_key ` set rows")
    case True
    then obtain s where s: "s \<in> set rows" "row_key s = row_key r" by (metis imageE)
    then have get: "kget (kwrite d rows f) (row_key r) = Some (row_value s)"
      using get_write_in [OF assms(1) s(1)] by metis
    have "r \<in> set rows" if "row_value s = row_value r"
    proof -
      have "s = r" using s(2) that by (cases r; cases s) simp
      with s(1) show ?thesis by simp
    qed
    moreover have "row_value s = row_value r" if "r \<in> set rows"
      using assms(1) s that unfolding consistent_def by metis
    moreover have "row_value s = row_value r" if "has_row (kget d) r"
      using assms(2) s that unfolding has_row_def by (metis option.distinct(1) option.inject)
    ultimately show ?thesis using get by (auto simp: has_row_def)
  next
    case False
    then show ?thesis by (auto simp: has_row_def get_write_out)
  qed
  then show ?thesis by (auto simp: set_scan)
qed

text \<open>A scan for prefix \<open>p\<close> does not see writes elsewhere.\<close>

lemma scan_write_other:
  assumes "\<forall>r \<in> set rows. \<not> prefix p (row_key r)"
  shows "set (scan (kwrite d rows f) p) = set (scan d p)"
proof -
  have "kget (kwrite d rows f) (row_key r) = kget d (row_key r)" if "prefix p (row_key r)" for r :: db_row
    using assms that by (intro get_write_out) auto
  then show ?thesis by (auto simp: set_scan has_row_def)
qed

end

lemma map_of_Some_ex: "k \<in> fst ` set xs \<Longrightarrow> \<exists>v. map_of xs k = Some v"
  by (metis map_of_eq_None_iff not_None_eq)

lemma find_ex: "x \<in> set xs \<Longrightarrow> P x \<Longrightarrow> \<exists>y \<in> set xs. P y \<and> find P xs = Some y"
  by (induction xs) auto

lemma set_scan_iterator:
  assumes "sorted_wrt (\<lambda>x y. fst x < fst y) es" "\<And>e. e \<in> set es \<Longrightarrow> p \<le> fst e"
  shows "scan_iterator p (map Some es) =
    map (\<lambda>(k, v). \<lparr>row_key = k, row_value = v\<rparr>) (filter (\<lambda>e. prefix p (fst e)) es)"
proof -
  have "scan_iterator p (map Some es) =
      map (\<lambda>(k, v). \<lparr>row_key = k, row_value = v\<rparr>) (takeWhile (\<lambda>e. prefix p (fst e)) es)"
    by (induction es) auto
  then show ?thesis using sorted_prefix_split [OF assms] by simp
qed

lemma reverse_scan_iterator_takeWhile:
  "reverse_scan_iterator p es =
     map (\<lambda>(k, v). \<lparr>row_key = k, row_value = v\<rparr>) (takeWhile (\<lambda>e. prefix p (fst e)) es)"
  by (induction p es rule: reverse_scan_iterator.induct) auto

lemma prefix_convex: "prefix p a \<Longrightarrow> prefix p b \<Longrightarrow> a \<le> k \<Longrightarrow> k \<le> b \<Longrightarrow> prefix p (k :: bytes)"
  using prefix_less_beyond [of p b k] prefix_le [of p a] by (meson leD order_trans)

lemma reverse_prefix_split:
  assumes "sorted_wrt (\<lambda>x y. fst y < fst x) es" "\<And>e. e \<in> set es \<Longrightarrow> fst e \<le> m" "prefix p (m :: bytes)"
  shows "takeWhile (\<lambda>e. prefix p (fst e)) es = filter (\<lambda>e. prefix p (fst e)) es"
  using assms
proof (induction es)
  case Nil
  then show ?case by simp
next
  case (Cons e es)
  have "\<not> prefix p (fst e')" if "\<not> prefix p (fst e)" "e' \<in> set es" for e'
    using that Cons.prems prefix_convex [of p "fst e'" m "fst e"] by (auto dest: less_imp_le)
  then have "filter (\<lambda>e. prefix p (fst e)) es = []" if "\<not> prefix p (fst e)"
    using that by (simp add: filter_empty_conv)
  with Cons show ?case by auto
qed

lemma row_in_map: "r \<in> set (map (\<lambda>(k, v). \<lparr>row_key = k, row_value = v\<rparr>) es) \<longleftrightarrow> (row_key r, row_value r) \<in> set es"
  by (cases r) force

lemma sorted_rows: "sorted_wrt (\<lambda>r s. row_key r < row_key s) (map (\<lambda>(k, v). \<lparr>row_key = k, row_value = v\<rparr>) es) \<longleftrightarrow>
    sorted_wrt (\<lambda>x y. fst x < fst y) es"
  by (simp add: sorted_wrt_map split_def)

context rocksdb
begin

lemma db_scan_rows:
  obtains es where "db_iter_scan R d p = map (\<lambda>(k, v). \<lparr>row_key = k, row_value = v\<rparr>) es"
    "sorted_wrt (\<lambda>x y. fst x < fst y) es" "\<And>k v. (k, v) \<in> set es \<longleftrightarrow> prefix p k \<and> rdb_get R d k = Some v"
proof -
  obtain xs ys where xy: "rdb_prefix_iter R d p = map Some (xs @ ys)" "sorted_wrt (\<lambda>x y. fst x < fst y) xs"
    "\<forall>k' v. (k', v) \<in> set xs \<longleftrightarrow> prefix p k' \<and> rdb_get R d k' = Some v"
    "ys \<noteq> [] \<longrightarrow> \<not> prefix p (fst (hd ys))"
    using prefix_iter [of d p] by blast
  have ys: "scan_iterator p (map Some ys) = []" using xy(4) by (cases ys) auto
  have "scan_iterator p (map Some xs @ map Some ys) = map (\<lambda>(k, v). \<lparr>row_key = k, row_value = v\<rparr>) xs"
    if "\<forall>e \<in> set xs. prefix p (fst e)" for xs
    using that by (induction xs) (auto simp: ys)
  moreover have "\<forall>e \<in> set xs. prefix p (fst e)" using xy(3) by auto
  ultimately have "db_iter_scan R d p = map (\<lambda>(k, v). \<lparr>row_key = k, row_value = v\<rparr>) xs"
    by (simp add: db_iter_scan_def xy(1))
  with xy(2,3) that show ?thesis by blast
qed

lemma db_scan_from_rows:
  assumes "prefix p k"
  obtains es where "db_iter_scan_from R d p k = map (\<lambda>(k, v). \<lparr>row_key = k, row_value = v\<rparr>) es"
    "\<And>k' v. (k', v) \<in> set es \<longleftrightarrow> prefix p k' \<and> k \<le> k' \<and> rdb_get R d k' = Some v"
proof -
  obtain xs where xs: "rdb_iter_from R d k = map Some xs" "sorted_wrt (\<lambda>x y. fst x < fst y) xs"
    "\<forall>k' v. (k', v) \<in> set xs \<longleftrightarrow> k \<le> k' \<and> rdb_get R d k' = Some v"
    using iter_from [of d k] by blast
  have "p \<le> fst e" if "e \<in> set xs" for e
  proof -
    have "k \<le> fst e" using that xs(3) by (metis prod.collapse)
    with prefix_le [OF assms] show ?thesis by (rule order_trans)
  qed
  then have "db_iter_scan_from R d p k =
      map (\<lambda>(k, v). \<lparr>row_key = k, row_value = v\<rparr>) (filter (\<lambda>e. prefix p (fst e)) xs)"
    by (simp add: db_iter_scan_from_def xs(1) set_scan_iterator [OF xs(2)])
  then show ?thesis by (rule that) (use xs(3) in auto)
qed

lemma db_scan_from_sorted: "sorted_wrt (\<lambda>r s. row_key r < row_key s) (db_iter_scan_from R d p k)"
proof -
  obtain xs where xs: "rdb_iter_from R d k = map Some xs" "sorted_wrt (\<lambda>x y. fst x < fst y) xs"
    using iter_from [of d k] by blast
  have "scan_iterator p (map Some xs) =
      map (\<lambda>(k, v). \<lparr>row_key = k, row_value = v\<rparr>) (takeWhile (\<lambda>e. prefix p (fst e)) xs)"
    by (induction xs) auto
  with xs show ?thesis by (simp add: db_iter_scan_from_def sorted_rows sorted_wrt_takeWhile)
qed

lemma db_scan_reverse_rows:
  "db_iter_scan_reverse R d p k = map (\<lambda>(k, v). \<lparr>row_key = k, row_value = v\<rparr>)
     (takeWhile (\<lambda>e. prefix p (fst e)) (rdb_rev_from R d k))"
  by (simp add: db_iter_scan_reverse_def reverse_scan_iterator_takeWhile)

lemma db_get_write:
  assumes "consistent rows"
  shows "rdb_get R (db_write R d rows f) k =
    (case find (\<lambda>r. row_key r = k) rows of Some r \<Rightarrow> Some (row_value r) | None \<Rightarrow> rdb_get R d k)"
proof -
  let ?kvs = "map (\<lambda>r. (row_key r, row_value r)) (sort_key row_key rows)"
  have get: "rdb_get R (db_write R d rows f) = rdb_get R d ++ map_of (rev ?kvs)"
    by (simp add: db_write_def get_write)
  show ?thesis
  proof (cases "find (\<lambda>r. row_key r = k) rows")
    case None
    then have "k \<notin> fst ` set (rev ?kvs)" by (auto simp: find_None_iff)
    then have "map_of (rev ?kvs) k = None" by (simp add: map_of_eq_None_iff)
    then show ?thesis using None by (simp add: get map_add_def)
  next
    case (Some r)
    then have r: "r \<in> set rows" "row_key r = k" by (auto simp: find_Some_iff)
    then have "k \<in> fst ` set (rev ?kvs)" by force
    then have "\<exists>v. map_of (rev ?kvs) k = Some v" by (rule map_of_Some_ex)
    then obtain v where v: "map_of (rev ?kvs) k = Some v" by (rule exE)
    then have "(k, v) \<in> set (rev ?kvs)" by (rule map_of_SomeD)
    then obtain r' where r': "r' \<in> set rows" "row_key r' = k" "row_value r' = v" by auto
    then have "row_key r' = row_key r" using r(2) by simp
    then have "row_value r' = row_value r" using assms r(1) r'(1) unfolding consistent_def by blast
    then have "v = row_value r" using r'(3) by simp
    then show ?thesis using Some v by (simp add: get map_add_def)
  qed
qed

lemma kv_laws:
  "kv_store (db_get R) (db_put R) (db_write R) (db_iter_scan R) (db_iter_scan_from R) (db_iter_scan_reverse R)"
proof unfold_locales
  fix d :: 'd and p k :: bytes and r :: db_row and rows :: "db_row list" and f v
  show "db_get R (db_put R d k v) = (db_get R d)(k \<mapsto> v)"
    by (simp add: db_get_def [abs_def] db_put_def get_put)
  show "db_get R (db_write R d rows f) (row_key r) = Some (row_value r)" if "consistent rows" "r \<in> set rows"
  proof -
    have "\<exists>s \<in> set rows. row_key s = row_key r \<and> find (\<lambda>s. row_key s = row_key r) rows = Some s"
      using that(2) by (intro find_ex [of r]) simp_all
    then obtain s where s: "s \<in> set rows" "row_key s = row_key r" "find (\<lambda>s. row_key s = row_key r) rows = Some s"
      by blast
    with that have "row_value s = row_value r" unfolding consistent_def by metis
    with s show ?thesis by (simp add: db_get_def db_get_write [OF that(1)])
  qed
  show "db_get R (db_write R d rows f) k = db_get R d k" if "k \<notin> row_key ` set rows"
  proof -
    have "k \<notin> fst ` set (rev (map (\<lambda>r. (row_key r, row_value r)) (sort_key row_key rows)))"
      using that by auto
    then have "map_of (rev (map (\<lambda>r. (row_key r, row_value r)) (sort_key row_key rows))) k = None"
      by (simp only: map_of_eq_None_iff not_False_eq_True)
    then show ?thesis by (simp add: db_get_def db_write_def get_write map_add_def)
  qed
  obtain es where es: "db_iter_scan R d p = map (\<lambda>(k, v). \<lparr>row_key = k, row_value = v\<rparr>) es"
    "sorted_wrt (\<lambda>x y. fst x < fst y) es" "\<And>k v. (k, v) \<in> set es \<longleftrightarrow> prefix p k \<and> rdb_get R d k = Some v"
    using db_scan_rows [of d p] by metis
  show "sorted_wrt (\<lambda>r s. row_key r < row_key s) (db_iter_scan R d p)"
    unfolding es(1) sorted_rows by (rule es(2))
  show "r \<in> set (db_iter_scan R d p) \<longleftrightarrow> prefix p (row_key r) \<and> has_row (db_get R d) r"
    unfolding es(1) row_in_map es(3) has_row_def db_get_def ..
  show "sorted_wrt (\<lambda>r s. row_key r < row_key s) (db_iter_scan_from R d p k)"
    by (rule db_scan_from_sorted)
  show "r \<in> set (db_iter_scan_from R d p k) \<longleftrightarrow>
      prefix p (row_key r) \<and> k \<le> row_key r \<and> has_row (db_get R d) r" if pk: "prefix p k"
  proof -
    obtain fs where "db_iter_scan_from R d p k = map (\<lambda>(k, v). \<lparr>row_key = k, row_value = v\<rparr>) fs"
      "\<And>k' v. (k', v) \<in> set fs \<longleftrightarrow> prefix p k' \<and> k \<le> k' \<and> rdb_get R d k' = Some v"
      using db_scan_from_rows [OF pk] by metis
    then show ?thesis by (simp only: row_in_map has_row_def db_get_def)
  qed
  show "sorted_wrt (\<lambda>r s. row_key s < row_key r) (db_iter_scan_reverse R d p k)"
    using rev_from [of d k]
    by (simp add: db_scan_reverse_rows sorted_wrt_map split_def sorted_wrt_takeWhile)
  show "r \<in> set (db_iter_scan_reverse R d p k) \<longleftrightarrow>
      prefix p (row_key r) \<and> row_key r \<le> k \<and> has_row (db_get R d) r" if pk: "prefix p k"
  proof -
    have rev: "sorted_wrt (\<lambda>x y. fst y < fst x) (rdb_rev_from R d k)"
      "(k', v) \<in> set (rdb_rev_from R d k) \<longleftrightarrow> k' \<le> k \<and> rdb_get R d k' = Some v" for k' v
      using rev_from [of d k] by blast+
    have "fst e \<le> k" if "e \<in> set (rdb_rev_from R d k)" for e
      using that rev(2) by (metis prod.collapse)
    then have "takeWhile (\<lambda>e. prefix p (fst e)) (rdb_rev_from R d k) = filter (\<lambda>e. prefix p (fst e)) (rdb_rev_from R d k)"
      by (rule reverse_prefix_split [OF rev(1) _ pk])
    then show ?thesis
      by (simp only: db_scan_reverse_rows row_in_map set_filter mem_Collect_eq fst_conv rev(2) has_row_def db_get_def)
        blast
  qed
qed

end

sublocale rocksdb \<subseteq> kv: kv_store "db_get R" "db_put R" "db_write R" "db_iter_scan R" "db_iter_scan_from R"
    "db_iter_scan_reverse R"
  by (rule kv_laws)

section \<open>Properties\<close>

text \<open>
  C30: scans. Over a RocksDB that keeps its contract, a prefix scan returns exactly the stored rows with the
  prefix, in strictly increasing key order; a scan from a key with the prefix those at or after the key, and
  a reverse scan those at or before it, in strictly decreasing order.
\<close>

theorem db_scans_exact:
  assumes "rocksdb R" "prefix p k"
  shows "set (db_iter_scan R d p) = {r. prefix p (row_key r) \<and> has_row (db_get R d) r} \<and>
    sorted_wrt (\<lambda>r s. row_key r < row_key s) (db_iter_scan R d p) \<and>
    set (db_iter_scan_from R d p k) = {r. prefix p (row_key r) \<and> k \<le> row_key r \<and> has_row (db_get R d) r} \<and>
    sorted_wrt (\<lambda>r s. row_key r < row_key s) (db_iter_scan_from R d p k) \<and>
    set (db_iter_scan_reverse R d p k) = {r. prefix p (row_key r) \<and> row_key r \<le> k \<and> has_row (db_get R d) r} \<and>
    sorted_wrt (\<lambda>r s. row_key s < row_key r) (db_iter_scan_reverse R d p k)"
proof -
  have kv: "kv_store (db_get R) (db_put R) (db_write R) (db_iter_scan R) (db_iter_scan_from R) (db_iter_scan_reverse R)"
    using assms(1) by (rule rocksdb.kv_laws)
  show ?thesis
    using kv_store.set_scan [OF kv] kv_store.set_scan_from [OF kv assms(2)] kv_store.set_scan_reverse [OF kv assms(2)]
      kv_store.scan_sorted [OF kv] kv_store.scan_from_sorted [OF kv] kv_store.scan_reverse_sorted [OF kv]
    by blast
qed

definition ex_db :: "kv list" where
  "ex_db = db_write rocksdb_ref [] [\<lparr>row_key = [1, 2], row_value = [7]\<rparr>, \<lparr>row_key = [1], row_value = []\<rparr>,
     \<lparr>row_key = [2], row_value = []\<rparr>] Enable"

lemma db_scans_exact_witness:
  "set (db_iter_scan rocksdb_ref ex_db [1]) = {r. prefix [1] (row_key r) \<and> has_row (db_get rocksdb_ref ex_db) r}"
  using db_scans_exact [OF ref_db.rocksdb_axioms, of "[1]" "[1]"] by simp

text \<open>
  A consistent batch is stored: every row is found under its key, every other key keeps its value, and the
  scan of a prefix that no row has is unchanged.
\<close>

theorem db_write_get:
  assumes "rocksdb R" "consistent rows"
  shows "(\<forall>r \<in> set rows. db_get R (db_write R d rows f) (row_key r) = Some (row_value r)) \<and>
    (\<forall>k. k \<notin> row_key ` set rows \<longrightarrow> db_get R (db_write R d rows f) k = db_get R d k) \<and>
    (\<forall>p. (\<forall>r \<in> set rows. \<not> prefix p (row_key r)) \<longrightarrow>
       set (db_iter_scan R (db_write R d rows f) p) = set (db_iter_scan R d p))"
proof -
  note kv = rocksdb.kv_laws [OF assms(1)]
  show ?thesis
    using kv_store.get_write_in [OF kv assms(2)] kv_store.get_write_out [OF kv]
      kv_store.scan_write_other [OF kv] by simp
qed

lemma db_write_get_witness:
  "db_get rocksdb_ref ex_db [1, 2] = Some [7] \<and> db_get rocksdb_ref ex_db [3] = None"
proof -
  have "consistent [\<lparr>row_key = [1, 2], row_value = [7]\<rparr>, \<lparr>row_key = [1], row_value = []\<rparr>,
      \<lparr>row_key = [2], row_value = []\<rparr>]" by (simp add: consistent_def)
  from db_write_get [OF ref_db.rocksdb_axioms this, of "[]" Enable]
  show ?thesis unfolding ex_db_def by (auto simp: db_get_def rocksdb_ref_def)
qed

text \<open>
  Reopening. A database opened in one mode can be opened again in that mode, unchanged, and opening it in
  the other mode panics.
\<close>

theorem db_open_reopen:
  assumes "rocksdb R" "db_open R B light d = Inr d'"
  shows "db_open R B light d' = Inr d' \<and> (\<exists>m. db_open R B (\<not> light) d' = panic m)"
proof -
  have ne: "compatibility_bytes B light \<noteq> compatibility_bytes B (\<not> light)"
    by (simp add: compatibility_bytes_def)
  have "db_get R d' [byte CHR ''V''] = Some (compatibility_bytes B light)"
    using assms(2) kv_store.get_put [OF rocksdb.kv_laws [OF assms(1)]]
    by (auto simp: db_open_def db_verify_compatibility_def panic_def split: option.splits if_splits)
  with ne show ?thesis by (auto simp: db_open_def db_verify_compatibility_def)
qed

lemma db_open_reopen_witness:
  "\<exists>d m. db_open rocksdb_ref bincode_le True [] = Inr d \<and> db_open rocksdb_ref bincode_le False d = panic m"
proof -
  obtain d where d: "db_open rocksdb_ref bincode_le True [] = Inr d"
    by (auto simp: db_open_def db_verify_compatibility_def db_get_def rocksdb_ref_def)
  from db_open_reopen [OF ref_db.rocksdb_axioms d] d show ?thesis by auto
qed

end
