(* ===== verification/Color.thy ===== *)
theory Color
  imports Rows
begin

text \<open>
  The history of coloured coins (\<^verbatim>\<open>src/src/new_index/color.rs\<close>): amounts per colour, the classification of
  a transaction's effect on a colour as issuing, transferring and burning, and the rows that record
  it. Hash maps are iterated in list order; the properties are proved of every other order as well.
\<close>

section \<open>Amounts per colour\<close>

definition get_amounts :: "tapyrus \<Rightarrow> txout list \<Rightarrow> (color, u64) hashmap" where
  "get_amounts T outs =
     foldl (\<lambda>amounts txo.
       case split_color T (txo_script_pubkey txo) of
         None \<Rightarrow> amounts
       | Some (color_id, _) \<Rightarrow>
           let amount = (case hm_get amounts color_id of Some amount \<Rightarrow> amount | None \<Rightarrow> 0)
           in hm_insert color_id (amount + txo_value txo) amounts) [] outs"

section \<open>The history of a transaction\<close>

definition create_history_info :: "txid \<Rightarrow> u64 \<Rightarrow> u64 \<Rightarrow> colored_tx_history_info list" where
  "create_history_info txid prev_amount amount =
     (if prev_amount < amount then
        Issuing \<lparr>ca_txid = txid, ca_value = amount - prev_amount\<rparr> #
        (if 0 < prev_amount then [Transferring \<lparr>ca_txid = txid, ca_value = prev_amount\<rparr>] else [])
      else if amount = prev_amount then
        [Transferring \<lparr>ca_txid = txid, ca_value = amount\<rparr>]
      else
        Burning \<lparr>ca_txid = txid, ca_value = prev_amount - amount\<rparr> #
        (if 0 < amount then [Transferring \<lparr>ca_txid = txid, ca_value = amount\<rparr>] else []))"

definition previous_txos :: "transaction \<Rightarrow> (outpoint, txout) hashmap \<Rightarrow> txout list" where
  "previous_txos tx previous_txos_map =
     List.map_filter (\<lambda>input. hm_get previous_txos_map (txi_previous_output input)) (tx_input tx)"

definition colored_amounts ::
  "(color, u64) hashmap \<Rightarrow> (color, u64) hashmap \<Rightarrow> (color, u64 \<times> u64) hashmap" where
  "colored_amounts colored_prevouts colored_outs =
     foldl (\<lambda>colored_map (color_id, amount).
         hm_insert color_id
           (case hm_get colored_map color_id of
              Some (prev_amount, _) \<Rightarrow> (prev_amount, amount)
            | None \<Rightarrow> (0, amount)) colored_map)
       (foldl (\<lambda>colored_map (color_id, prev_amount). hm_insert color_id (prev_amount, 0) colored_map)
         [] colored_prevouts)
       colored_outs"

definition amounts_history ::
  "txid \<Rightarrow> (color, u64 \<times> u64) hashmap \<Rightarrow> (color \<times> colored_tx_history_info) list" where
  "amounts_history txid colored_map =
     concat (map (\<lambda>(color_id, prev_amount, amount).
       map (Pair color_id) (create_history_info txid prev_amount amount)) colored_map)"

definition colored_tx_history ::
  "tapyrus \<Rightarrow> transaction \<Rightarrow> (outpoint, txout) hashmap \<Rightarrow> (color \<times> colored_tx_history_info) list" where
  "colored_tx_history T tx previous_txos_map =
     (let colored_prevouts = get_amounts T (previous_txos tx previous_txos_map);
          colored_outs = get_amounts T (tx_output tx);
          txid = malfix_txid T tx
      in amounts_history txid (colored_amounts colored_prevouts colored_outs))"

text \<open>
  What the function may return when each of its three hash maps is iterated in an order of its own: those of the
  amounts before and after the transaction, and the one that pairs them.
\<close>

definition colored_tx_histories ::
  "tapyrus \<Rightarrow> transaction \<Rightarrow> (outpoint, txout) hashmap \<Rightarrow> (color \<times> colored_tx_history_info) list set" where
  "colored_tx_histories T tx previous_txos_map =
     {amounts_history (malfix_txid T tx) colored_map | prevouts outs colored_map.
        mset prevouts = mset (get_amounts T (previous_txos tx previous_txos_map)) \<and>
        mset outs = mset (get_amounts T (tx_output tx)) \<and>
        mset colored_map = mset (colored_amounts prevouts outs)}"

definition colored_history_row :: "color \<Rightarrow> u32 \<Rightarrow> colored_tx_history_info \<Rightarrow> colored_tx_history_key" where
  "colored_history_row color_id confirmed_height txinfo =
     \<lparr>ck_color_id = color_id, ck_confirmed_height = confirmed_height, ck_txinfo = txinfo\<rparr>"

text \<open>The rows the function pushes.\<close>

definition index_confirmed_colored_tx ::
  "tapyrus \<Rightarrow> bincode \<Rightarrow> transaction \<Rightarrow> u32 \<Rightarrow> (outpoint, txout) hashmap \<Rightarrow> db_row list" where
  "index_confirmed_colored_tx T B tx confirmed_height previous_txos_map =
     concat (map (\<lambda>(color_id, info).
         [colored_row_into_row T B (colored_history_row color_id confirmed_height info),
          color_id_row_into_row T (color_id_row_new confirmed_height color_id)])
       (colored_tx_history T tx previous_txos_map))"

section \<open>Lemmas\<close>

definition color_of :: "tapyrus \<Rightarrow> txout \<Rightarrow> color option" where
  "color_of T txo = map_option fst (split_color T (txo_script_pubkey txo))"

definition amount_of :: "tapyrus \<Rightarrow> color \<Rightarrow> txout list \<Rightarrow> u64" where
  "amount_of T c outs = (\<Sum>txo\<leftarrow>filter (\<lambda>txo. color_of T txo = Some c) outs. txo_value txo)"

lemma get_amounts_get:
  "hm_get (get_amounts T outs) c =
     (if Some c \<in> color_of T ` set outs then Some (amount_of T c outs) else None)"
proof (induction outs rule: rev_induct)
  case Nil
  then show ?case by (simp add: get_amounts_def)
next
  case (snoc txo outs)
  have step: "get_amounts T (outs @ [txo]) =
      (case split_color T (txo_script_pubkey txo) of
         None \<Rightarrow> get_amounts T outs
       | Some (color_id, _) \<Rightarrow>
           hm_insert color_id ((case hm_get (get_amounts T outs) color_id of Some amount \<Rightarrow> amount | None \<Rightarrow> 0) +
             txo_value txo) (get_amounts T outs))"
    by (simp add: get_amounts_def Let_def split: option.split prod.split)
  have none: "amount_of T d outs = 0" if "Some d \<notin> color_of T ` set outs" for d
  proof -
    have "\<forall>txo \<in> set outs. color_of T txo \<noteq> Some d" using that by (metis imageI)
    then show ?thesis by (simp add: amount_of_def filter_False)
  qed
  show ?case
    using snoc none
    by (auto simp: step color_of_def amount_of_def split: option.splits)
qed

lemma get_amounts_ok: "hm_ok (get_amounts T outs)"
  unfolding get_amounts_def
  by (rule foldl_invariant) (auto simp: Let_def split: option.split prod.split)

lemma foldl_hm_insert_get:
  assumes "hm_ok kvs" "\<And>m k v. f m (k, v) = hm_insert k (g m k v) m" "\<And>m m' k v. hm_get m k = hm_get m' k \<Longrightarrow> g m k v = g m' k v"
  shows "hm_get (foldl f m kvs) k = (case hm_get kvs k of Some v \<Rightarrow> Some (g m k v) | None \<Rightarrow> hm_get m k)"
  using assms(1)
proof (induction kvs arbitrary: m)
  case Nil
  then show ?case by simp
next
  case (Cons kv kvs)
  obtain k' v where kv: "kv = (k', v)" by (cases kv)
  have ok: "hm_ok kvs" "k' \<notin> fst ` set kvs" using Cons.prems by (auto simp: hm_ok_def kv)
  have ih: "hm_get (foldl f (hm_insert k' (g m k' v) m) kvs) k =
      (case hm_get kvs k of Some w \<Rightarrow> Some (g (hm_insert k' (g m k' v) m) k w)
       | None \<Rightarrow> hm_get (hm_insert k' (g m k' v) m) k)"
    using Cons.IH [OF ok(1), of "hm_insert k' (g m k' v) m"] .
  show ?case
  proof (cases "k = k'")
    case True
    then have "hm_get kvs k = None" using ok(2) by (simp add: map_of_eq_None_iff)
    with ih True show ?thesis by (simp add: kv assms(2))
  next
    case False
    then have "g (hm_insert k' (g m k' v) m) k w = g m k w" for w
      by (intro assms(3)) simp
    with ih False show ?thesis by (simp add: kv assms(2) split: option.split)
  qed
qed

lemma foldl_hm_insert_ok:
  "hm_ok m \<Longrightarrow> (\<And>m k v. f m (k, v) = hm_insert k (g m k v) m) \<Longrightarrow> hm_ok (foldl f m kvs)"
  by (induction kvs arbitrary: m) auto

text \<open>The pair of amounts of a colour before and after a transaction.\<close>

lemma colored_amounts_get:
  assumes "hm_ok p" "hm_ok q"
  shows "hm_get (colored_amounts p q) c =
    (case (hm_get p c, hm_get q c) of
       (None, None) \<Rightarrow> None
     | (a, b) \<Rightarrow> Some (case a of Some x \<Rightarrow> x | None \<Rightarrow> 0, case b of Some y \<Rightarrow> y | None \<Rightarrow> 0))"
    "hm_ok (colored_amounts p q)"
proof -
  let ?m = "foldl (\<lambda>colored_map (color_id, prev_amount). hm_insert color_id (prev_amount, 0 :: u64) colored_map) [] p"
  have inner: "hm_get ?m c = map_option (\<lambda>x. (x, 0)) (hm_get p c)"
    by (subst foldl_hm_insert_get [OF assms(1), where g = "\<lambda>_ _ x. (x, 0)"]) (simp_all split: option.split)
  have "hm_get (colored_amounts p q) c =
      (case hm_get q c of Some v \<Rightarrow> Some (case hm_get ?m c of Some (a, _) \<Rightarrow> (a, v) | None \<Rightarrow> (0, v))
       | None \<Rightarrow> hm_get ?m c)"
    unfolding colored_amounts_def
    by (rule foldl_hm_insert_get [OF assms(2)]) auto
  then show "hm_get (colored_amounts p q) c =
    (case (hm_get p c, hm_get q c) of
       (None, None) \<Rightarrow> None
     | (a, b) \<Rightarrow> Some (case a of Some x \<Rightarrow> x | None \<Rightarrow> 0, case b of Some y \<Rightarrow> y | None \<Rightarrow> 0))"
    unfolding inner by (simp split: option.split)
  have "hm_ok ?m" by (rule foldl_hm_insert_ok) auto
  then show "hm_ok (colored_amounts p q)"
    unfolding colored_amounts_def by (rule foldl_hm_insert_ok) auto
qed

section \<open>What the history says\<close>

fun issuing :: "colored_tx_history_info \<Rightarrow> nat" where
  "issuing (Issuing a) = unat (ca_value a)"
| "issuing _ = 0"

fun transferring :: "colored_tx_history_info \<Rightarrow> nat" where
  "transferring (Transferring a) = unat (ca_value a)"
| "transferring _ = 0"

fun burning :: "colored_tx_history_info \<Rightarrow> nat" where
  "burning (Burning a) = unat (ca_value a)"
| "burning _ = 0"

definition history_sum ::
  "(colored_tx_history_info \<Rightarrow> nat) \<Rightarrow> color \<Rightarrow> (color \<times> colored_tx_history_info) list \<Rightarrow> nat" where
  "history_sum f c hist = (\<Sum>(d, i)\<leftarrow>hist. if d = c then f i else 0)"

lemma sum_hm_entry:
  "hm_ok m \<Longrightarrow> (\<Sum>(k, v)\<leftarrow>m. if k = c then f v else (0::nat)) = (case hm_get m c of Some v \<Rightarrow> f v | None \<Rightarrow> 0)"
proof (induction m)
  case Nil
  then show ?case by simp
next
  case (Cons kv m)
  obtain k v where kv: "kv = (k, v)" by (cases kv)
  have "hm_ok m" "k \<notin> fst ` set m" using Cons.prems by (auto simp: hm_ok_def kv)
  moreover from this have "hm_get m k = None" by (simp add: map_of_eq_None_iff)
  ultimately show ?case using Cons.IH by (simp add: kv)
qed

lemma sum_create_history_info:
  "(\<Sum>i\<leftarrow>create_history_info t p q. issuing i) = unat q - unat p"
  "(\<Sum>i\<leftarrow>create_history_info t p q. transferring i) = min (unat p) (unat q)"
  "(\<Sum>i\<leftarrow>create_history_info t p q. burning i) = unat p - unat q"
  by (auto simp: create_history_info_def unat_sub word_less_nat_alt word_le_nat_alt min_def unat_eq_0)

lemma history_sum_colored:
  assumes "hm_ok m"
  shows "history_sum f c (amounts_history t m) =
    (case hm_get m c of Some (p, q) \<Rightarrow> (\<Sum>i\<leftarrow>create_history_info t p q. f i) | None \<Rightarrow> 0)"
proof -
  have inner: "history_sum f c (map (Pair d) is) = (if d = c then (\<Sum>i\<leftarrow>is. f i) else 0)" for d "is"
    by (simp add: history_sum_def comp_def)
  have append: "history_sum f c (xs @ ys) = history_sum f c xs + history_sum f c ys" for xs ys
    by (simp add: history_sum_def)
  have nil: "history_sum f c [] = 0" by (simp add: history_sum_def)
  have "history_sum f c (concat (map (\<lambda>(color_id, p, q). map (Pair color_id) (create_history_info t p q)) m)) =
      (\<Sum>(d, v)\<leftarrow>m. if d = c then (\<Sum>i\<leftarrow>create_history_info t (fst v) (snd v). f i) else 0)"
    by (induction m) (auto simp: inner append nil)
  also have "\<dots> = (case hm_get m c of Some v \<Rightarrow> (\<Sum>i\<leftarrow>create_history_info t (fst v) (snd v). f i) | None \<Rightarrow> 0)"
    by (rule sum_hm_entry [OF assms])
  finally show ?thesis by (auto simp: amounts_history_def split: option.split)
qed

text \<open>The order of the entries of a map does not matter to a lookup.\<close>

lemma hm_any_order:
  assumes "mset m' = mset m" "hm_ok m"
  shows "hm_ok m'" "hm_get m' = hm_get m"
proof -
  have d: "distinct (map fst m)" using assms(2) by (simp add: hm_ok_def)
  moreover have "mset (map fst m') = mset (map fst m)" using assms(1) by simp
  ultimately have d': "distinct (map fst m')" using mset_eq_imp_distinct_iff by blast
  then show "hm_ok m'" by (simp add: hm_ok_def)
  show "hm_get m' = hm_get m" using map_of_inject_set [OF d' d] mset_eq_setD [OF assms(1)] by simp
qed

text \<open>
  C27: whatever the order in which its hash maps are iterated, the coloured history of a transaction accounts
  for every colour exactly: what is issued is the excess of the outputs over the inputs, what is burned the
  excess of the inputs, and what is transferred the smaller of the two; so inputs plus issued equals outputs
  plus burned. The history that the other definitions use is one of those.
\<close>

theorem colored_tx_history_exact:
  fixes T tx txos c
  defines "p \<equiv> unat (amount_of T c (previous_txos tx txos))" and "q \<equiv> unat (amount_of T c (tx_output tx))"
  shows "colored_tx_history T tx txos \<in> colored_tx_histories T tx txos \<and>
    (\<forall>hist \<in> colored_tx_histories T tx txos.
       history_sum issuing c hist = q - p \<and> history_sum burning c hist = p - q \<and>
       history_sum transferring c hist = min p q \<and>
       p + history_sum issuing c hist = q + history_sum burning c hist)"
proof (intro conjI ballI)
  show "colored_tx_history T tx txos \<in> colored_tx_histories T tx txos"
    unfolding colored_tx_histories_def colored_tx_history_def Let_def by blast
next
  fix hist assume "hist \<in> colored_tx_histories T tx txos"
  then obtain pm qm m where pm: "mset pm = mset (get_amounts T (previous_txos tx txos))"
    and qm: "mset qm = mset (get_amounts T (tx_output tx))" and m: "mset m = mset (colored_amounts pm qm)"
    and hist: "hist = amounts_history (malfix_txid T tx) m"
    by (auto simp: colored_tx_histories_def)
  note pm' = hm_any_order [OF pm get_amounts_ok] and qm' = hm_any_order [OF qm get_amounts_ok]
  note m' = hm_any_order [OF m colored_amounts_get(2) [OF pm'(1) qm'(1)]]
  have sum: "history_sum f c hist =
      (case hm_get (colored_amounts pm qm) c of
         Some (p, q) \<Rightarrow> (\<Sum>i\<leftarrow>create_history_info (malfix_txid T tx) p q. f i) | None \<Rightarrow> 0)" for f
    unfolding hist m'(2) [symmetric] by (rule history_sum_colored [OF m'(1)])
  have absent: "unat (amount_of T c outs) = 0" if "Some c \<notin> color_of T ` set outs" for outs
  proof -
    have "\<forall>txo \<in> set outs. color_of T txo \<noteq> Some c" using that by (metis imageI)
    then show ?thesis by (simp add: amount_of_def filter_False)
  qed
  note amounts = sum [unfolded colored_amounts_get(1) [OF pm'(1) qm'(1)] pm'(2) qm'(2) get_amounts_get]
    absent [of "previous_txos tx txos"] absent [of "tx_output tx"]
  show "history_sum issuing c hist = q - p" "history_sum burning c hist = p - q"
    "history_sum transferring c hist = min p q" "p + history_sum issuing c hist = q + history_sum burning c hist"
    using amounts by (auto simp: sum_create_history_info p_def q_def)
qed

text \<open>Two colours, issued without inputs, and the histories in both orders.\<close>

definition ex_colored_out :: "hash \<Rightarrow> u64 \<Rightarrow> txout" where
  "ex_colored_out h v = \<lparr>txo_value = v, txo_script_pubkey = [0x21, 0xc1] @ hash_bytes h @ [0xbc, 0x76]\<rparr>"

definition ex_issuing_tx :: transaction where
  "ex_issuing_tx = \<lparr>tx_version = 1, tx_lock_time = 8, tx_input = [], tx_output = [ex_colored_out 98 5, ex_colored_out 99 7]\<rparr>"

lemma ex_colored_split: "split_color tapyrus_ref (txo_script_pubkey (ex_colored_out h v)) = Some (ColorId 0xc1 h, [0x76])"
  by (simp add: tapyrus_ref_def ref_split_color_def ex_colored_out_def color_types_def nth_append nth_Cons')

lemma colored_tx_history_exact_witness:
  "[(ColorId 0xc1 99, Issuing \<lparr>ca_txid = 8, ca_value = 7\<rparr>), (ColorId 0xc1 98, Issuing \<lparr>ca_txid = 8, ca_value = 5\<rparr>)]
     \<in> colored_tx_histories tapyrus_ref ex_issuing_tx [] \<and>
   history_sum issuing (ColorId 0xc1 98)
     [(ColorId 0xc1 99, Issuing \<lparr>ca_txid = 8, ca_value = 7\<rparr>), (ColorId 0xc1 98, Issuing \<lparr>ca_txid = 8, ca_value = 5\<rparr>)] = 5"
    (is "?hist \<in> _ \<and> _")
proof -
  have none: "previous_txos ex_issuing_tx [] = []" by (simp add: previous_txos_def ex_issuing_tx_def List.map_filter_def)
  have id: "malfix_txid tapyrus_ref ex_issuing_tx = 8" by (simp add: tapyrus_ref_def ex_issuing_tx_def)
  have outs: "get_amounts tapyrus_ref (tx_output ex_issuing_tx) = [(ColorId 0xc1 98, 5), (ColorId 0xc1 99, 7)]"
    by (simp add: get_amounts_def ex_issuing_tx_def ex_colored_split) (simp add: ex_colored_out_def)
  have empty: "get_amounts tapyrus_ref [] = []" by (simp add: get_amounts_def)
  have hist: "?hist \<in> colored_tx_histories tapyrus_ref ex_issuing_tx []"
    unfolding colored_tx_histories_def none id outs empty
    by (intro CollectI exI [of _ "[]"] exI [of _ "[(ColorId 0xc1 98, 5), (ColorId 0xc1 99, 7)]"]
        exI [of _ "[(ColorId 0xc1 99, 0, 7), (ColorId 0xc1 98, 0, 5)]"])
      (simp add: amounts_history_def create_history_info_def colored_amounts_def add_mset_commute)
  have "color_of tapyrus_ref (ex_colored_out h v) = Some (ColorId 0xc1 h)" for h v
    by (simp add: color_of_def ex_colored_split)
  then have "amount_of tapyrus_ref (ColorId 0xc1 98) (tx_output ex_issuing_tx) = 5"
    "amount_of tapyrus_ref (ColorId 0xc1 98) [] = 0"
    by (simp_all add: amount_of_def ex_issuing_tx_def) (simp add: ex_colored_out_def)
  with colored_tx_history_exact [of tapyrus_ref ex_issuing_tx "[]" "ColorId 0xc1 98"] hist show ?thesis
    by (auto simp: none)
qed

lemma colored_tx_history_txid: "(c, i) \<in> set (colored_tx_history T tx txos) \<Longrightarrow> cthi_get_txid i = malfix_txid T tx"
  by (auto simp: colored_tx_history_def amounts_history_def Let_def create_history_info_def cthi_get_txid_def split: if_splits)

text \<open>
  The rows of a transaction: for every entry of its coloured history, and nothing else, a row under the
  colour's prefix that is read back with that entry, height and transaction, and a row that lists the colour
  at that height.
\<close>

lemma index_confirmed_colored_tx_rows:
  "set (index_confirmed_colored_tx T B tx h txos) =
    (\<Union>(c, i) \<in> set (colored_tx_history T tx txos).
       {colored_row_into_row T B \<lparr>ck_color_id = c, ck_confirmed_height = h, ck_txinfo = i\<rparr>,
        color_id_row_into_row T \<lparr>cir_block_height = h, cir_color_id = c\<rparr>}) \<and>
   (\<forall>c i. (c, i) \<in> set (colored_tx_history T tx txos) \<longrightarrow> cthi_get_txid i = malfix_txid T tx)"
  using colored_tx_history_txid
  by (force simp: index_confirmed_colored_tx_def colored_history_row_def color_id_row_new_def)

end
