(* ===== verification/Indexer.thy ===== *)
theory Indexer
  imports Fetch Db Color
begin

text \<open>
  The store and the indexer (\<^verbatim>\<open>src/src/new_index/schema.rs\<close>, \<^verbatim>\<open>Store\<close> and \<^verbatim>\<open>Indexer\<close>): the three databases
  with the sets of added and indexed blocks and the chain of headers, the rows that adding and indexing blocks
  write, and the update that follows the node.
\<close>

section \<open>The store\<close>

record 'd store =
  sto_txstore :: 'd
  sto_history :: 'd
  sto_cache :: 'd
  sto_added :: "blockhash set"
  sto_indexed :: "blockhash set"
  sto_headers :: header_list

definition load_blockhashes :: "'d rocksdb \<Rightarrow> 'd \<Rightarrow> bytes \<Rightarrow> blockhash set res" where
  "load_blockhashes R d pre =
     and_then (map_res block_row_from_row (db_iter_scan R d pre)) (\<lambda>rows. Inr (set (map br_hash rows)))"

definition load_blockheaders :: "tapyrus \<Rightarrow> 'd rocksdb \<Rightarrow> 'd \<Rightarrow> (blockhash, block_header) hashmap res" where
  "load_blockheaders T R d =
     and_then (map_res (\<lambda>row.
         and_then (block_row_from_row row) (\<lambda>r.
         and_then (expect ''failed to parse BlockHeader'' (deserialize_header T (br_value r))) (\<lambda>h.
           Inr (br_hash r, h))))
       (db_iter_scan R d block_row_header_filter)) (\<lambda>kvs. Inr (hm_collect kvs))"

definition tip_key :: bytes where
  "tip_key = [byte CHR ''t'']"

text \<open>Reading the stored tip: a hash is its 32 bytes.\<close>

definition deserialize_hash :: "bytes \<Rightarrow> hash option" where
  "deserialize_hash bs = (if length bs = 32 then Some (bytes_hash bs) else None)"

definition store_open :: "'d ext \<Rightarrow> bool \<Rightarrow> 'd \<Rightarrow> 'd \<Rightarrow> 'd \<Rightarrow> 'd store res" where
  "store_open E light_mode txstore history cache =
     and_then (db_open (rdb E) (bc E) light_mode txstore) (\<lambda>txstore_db.
     and_then (load_blockhashes (rdb E) txstore_db block_row_done_filter) (\<lambda>added.
     and_then (db_open (rdb E) (bc E) light_mode history) (\<lambda>history_db.
     and_then (load_blockhashes (rdb E) history_db block_row_done_filter) (\<lambda>indexed.
     and_then (db_open (rdb E) (bc E) light_mode cache) (\<lambda>cache_db.
     and_then
       (case db_get (rdb E) txstore_db tip_key of
          Some t \<Rightarrow>
            and_then (expect ''invalid chain tip in `t`'' (deserialize_hash t)) (\<lambda>tip_hash.
            and_then (load_blockheaders (tap E) (rdb E) txstore_db) (\<lambda>headers_map.
              header_list_new (tap E) headers_map tip_hash))
        | None \<Rightarrow> Inr header_list_empty) (\<lambda>headers.
       Inr \<lparr>sto_txstore = txstore_db, sto_history = history_db, sto_cache = cache_db, sto_added = added,
         sto_indexed = indexed, sto_headers = headers\<rparr>))))))"

definition done_initial_sync :: "'d ext \<Rightarrow> 'd store \<Rightarrow> bool" where
  "done_initial_sync E st \<longleftrightarrow> db_get (rdb E) (sto_txstore st) tip_key \<noteq> None"

section \<open>Adding blocks\<close>

record indexer_config =
  ic_light_mode :: bool
  ic_address_search :: bool
  ic_index_unspendables :: bool
  ic_network :: network

definition add_transaction :: "'d ext \<Rightarrow> indexer_config \<Rightarrow> transaction \<Rightarrow> blockhash \<Rightarrow> db_row list" where
  "add_transaction E cfg tx blockhash =
     (let T = tap E; txid = full_hash (malfix_txid T tx) in
      [tx_conf_row_into_row (tx_conf_row_new T tx blockhash)] @
      (if ic_light_mode cfg then [] else [tx_row_into_row (tx_row_new T tx)]) @
      map (\<lambda>(txo_index, txo). tx_out_row_into_row (bc E) (tx_out_row_new T (malfix_txid T tx) txo_index txo))
        (filter (\<lambda>(_, txo). is_spendable T txo) (enumerate 0 (tx_output tx))))"

definition add_block :: "'d ext \<Rightarrow> indexer_config \<Rightarrow> block_entry \<Rightarrow> db_row list" where
  "add_block E cfg b =
     (let T = tap E; blockhash = he_hash (be_entry b); txids = map (malfix_txid T) (blk_txdata (be_block b)) in
      concat (map (\<lambda>tx. add_transaction E cfg tx blockhash) (blk_txdata (be_block b))) @
      (if ic_light_mode cfg then []
       else [block_row_into_row (block_row_new_txids (bc E) blockhash txids),
             block_row_into_row (block_row_new_meta (bc E) blockhash (block_meta_from T b))]) @
      [block_row_into_row (block_row_new_header T b), block_row_into_row (block_row_new_done blockhash)])"

definition add_blocks :: "'d ext \<Rightarrow> indexer_config \<Rightarrow> block_entry list \<Rightarrow> db_row list" where
  "add_blocks E cfg block_entries = concat (map (add_block E cfg) block_entries)"

section \<open>Previous outputs\<close>

text \<open>A \<^verbatim>\<open>BTreeSet\<close> of outpoints is a list without repetitions; what is looked up does not depend on its order.\<close>

definition tx_prevouts :: "transaction \<Rightarrow> outpoint list" where
  "tx_prevouts tx = map txi_previous_output (filter has_prevout (tx_input tx))"

definition get_previous_txos :: "block_entry list \<Rightarrow> outpoint list" where
  "get_previous_txos block_entries =
     remdups (concat (map (\<lambda>b. concat (map tx_prevouts (blk_txdata (be_block b)))) block_entries))"

definition lookup_txo :: "'d ext \<Rightarrow> 'd \<Rightarrow> outpoint \<Rightarrow> txout option res" where
  "lookup_txo E txstore_db outpoint =
     (case db_get (rdb E) txstore_db (tx_out_row_key (bc E) outpoint) of
        None \<Rightarrow> Inr None
      | Some val \<Rightarrow> and_then (expect ''failed to parse TxOut'' (deserialize_txout (tap E) val)) (\<lambda>txo. Inr (Some txo)))"

definition lookup_txos :: "'d ext \<Rightarrow> 'd \<Rightarrow> outpoint list \<Rightarrow> bool \<Rightarrow> (outpoint, txout) hashmap res" where
  "lookup_txos E txstore_db outpoints allow_missing =
     and_then (map_res (\<lambda>outpoint.
         and_then (lookup_txo E txstore_db outpoint) (\<lambda>r.
           case r of
             Some txo \<Rightarrow> Inr (Some (outpoint, txo))
           | None \<Rightarrow> if allow_missing then Inr None else panic ''missing txo'')) outpoints)
       (\<lambda>r. Inr (hm_collect (List.map_filter id r)))"

section \<open>Indexing blocks\<close>

text \<open>The scripts a coloured output is indexed under: its own and the one below the colour.\<close>

definition funding_rows :: "'d ext \<Rightarrow> indexer_config \<Rightarrow> txid \<Rightarrow> u32 \<Rightarrow> nat \<times> txout \<Rightarrow> db_row list" where
  "funding_rows E cfg txid confirmed_height e =
     (case e of (txo_index, txo) \<Rightarrow>
        let T = tap E; spk = txo_script_pubkey txo;
            history = (\<lambda>script color_id. tx_history_row_into_row (bo E) (tx_history_row_new T script confirmed_height
              (Funding \<lparr>fi_txid = txid, fi_vout = of_nat txo_index, fi_color_id = color_id, fi_value = txo_value txo,
                 fi_open_asset = None\<rparr>)))
        in
          if is_spendable T txo \<or> ic_index_unspendables cfg then
            (case split_color T spk of
               Some (color_id, script) \<Rightarrow> [history spk color_id, history script color_id]
             | None \<Rightarrow> [history spk default_color]) @
            (if ic_address_search cfg
             then case addr_search_row T spk (ic_network cfg) of Some row \<Rightarrow> [row] | None \<Rightarrow> [] else [])
          else [])"

definition spending_rows :: "'d ext \<Rightarrow> (outpoint, txout) hashmap \<Rightarrow> txid \<Rightarrow> u32 \<Rightarrow> nat \<times> txin \<Rightarrow> db_row list res" where
  "spending_rows E previous_txos_map txid confirmed_height e =
     (case e of (txi_index, txi) \<Rightarrow>
        let T = tap E; prev = txi_previous_output txi in
          if \<not> has_prevout txi then Inr []
          else
            and_then (expect ''missing previous txo'' (hm_get previous_txos_map prev)) (\<lambda>prev_txo.
              let spk = txo_script_pubkey prev_txo;
                  history = (\<lambda>script color_id. tx_history_row_into_row (bo E) (tx_history_row_new T script confirmed_height
                    (Spending \<lparr>si_txid = txid, si_vin = of_nat txi_index, si_prev_txid = op_txid prev,
                       si_prev_vout = ucast (op_vout prev), si_color_id = color_id, si_value = txo_value prev_txo\<rparr>)));
                  edge = tx_edge_row_new (op_txid prev) (ucast (op_vout prev)) txid (of_nat txi_index)
              in Inr
                ((case split_color T spk of
                    Some (color_id, script) \<Rightarrow> [history spk color_id, history script color_id]
                  | None \<Rightarrow> [history spk default_color]) @
                 [tx_edge_row_into_row (bc E) edge])))"

definition index_transaction ::
  "'d ext \<Rightarrow> indexer_config \<Rightarrow> transaction \<Rightarrow> u32 \<Rightarrow> (outpoint, txout) hashmap \<Rightarrow> db_row list res" where
  "index_transaction E cfg tx confirmed_height previous_txos_map =
     (let T = tap E; txid = malfix_txid T tx in
      and_then (map_res (spending_rows E previous_txos_map txid confirmed_height) (enumerate 0 (tx_input tx)))
        (\<lambda>spending.
          Inr (concat (map (funding_rows E cfg txid confirmed_height) (enumerate 0 (tx_output tx))) @
            concat spending @ index_confirmed_colored_tx T (bc E) tx confirmed_height previous_txos_map)))"

definition index_block :: "'d ext \<Rightarrow> indexer_config \<Rightarrow> (outpoint, txout) hashmap \<Rightarrow> block_entry \<Rightarrow> db_row list res" where
  "index_block E cfg previous_txos_map b =
     and_then (map_res (\<lambda>tx. index_transaction E cfg tx (of_nat (he_height (be_entry b))) previous_txos_map)
         (blk_txdata (be_block b)))
       (\<lambda>rows. Inr (concat rows @ [block_row_into_row (block_row_new_done (he_hash (be_entry b)))]))"

definition index_blocks ::
  "'d ext \<Rightarrow> indexer_config \<Rightarrow> block_entry list \<Rightarrow> (outpoint, txout) hashmap \<Rightarrow> db_row list res" where
  "index_blocks E cfg block_entries previous_txos_map =
     and_then (map_res (index_block E cfg previous_txos_map) block_entries) (\<lambda>rows. Inr (concat rows))"

section \<open>The indexer\<close>

record 'd indexer =
  ix_store :: "'d store"
  ix_flush :: db_flush
  ix_from :: fetch_from
  ix_config :: indexer_config

definition indexer_open :: "'d store \<Rightarrow> fetch_from \<Rightarrow> indexer_config \<Rightarrow> 'd indexer" where
  "indexer_open st source cfg = \<lparr>ix_store = st, ix_flush = Disable, ix_from = source, ix_config = cfg\<rparr>"

definition headers_to_add :: "'d store \<Rightarrow> header_entry list \<Rightarrow> header_entry list" where
  "headers_to_add st new_headers = filter (\<lambda>e. he_hash e \<notin> sto_added st) new_headers"

definition headers_to_index :: "'d store \<Rightarrow> header_entry list \<Rightarrow> header_entry list" where
  "headers_to_index st new_headers = filter (\<lambda>e. he_hash e \<notin> sto_indexed st) new_headers"

text \<open>Only the marker key of the compaction is part of the contents.\<close>

definition start_auto_compactions :: "'d ext \<Rightarrow> 'd \<Rightarrow> 'd res" where
  "start_auto_compactions E d =
     (if db_get (rdb E) d [byte CHR ''F''] = None then
        let d' = db_put_sync (rdb E) d [byte CHR ''F''] [] in
        and_then (assert_res (db_get (rdb E) d' [byte CHR ''F''] \<noteq> None) ''db.get(&key).is_some()'') (\<lambda>_. Inr d')
      else Inr d)"

definition get_new_headers_ordered ::
  "lib \<Rightarrow> tapyrus \<Rightarrow> rpc \<Rightarrow> 'd store \<Rightarrow> blockhash \<Rightarrow> header_entry list res option" where
  "get_new_headers_ordered L T D st tip =
     map_option (\<lambda>r. and_then r (header_list_order T (sto_headers st))) (get_new_headers L T D (sto_headers st) tip)"

definition indexer_add :: "'d ext \<Rightarrow> 'd indexer \<Rightarrow> block_entry list \<Rightarrow> 'd indexer \<times> unit res" where
  "indexer_add E ix blocks =
     (let st = ix_store ix; rows = add_blocks E (ix_config ix) blocks in
      (ix\<lparr>ix_store := st\<lparr>
           sto_txstore := db_write (rdb E) (sto_txstore st) rows (ix_flush ix),
           sto_added := sto_added st \<union> set (map (\<lambda>b. he_hash (be_entry b)) blocks)\<rparr>\<rparr>, Inr ()))"

definition assert_added :: "'d store \<Rightarrow> block_entry list \<Rightarrow> unit res" where
  "assert_added st blocks =
     assert_res (list_all (\<lambda>b. he_hash (be_entry b) \<in> sto_added st) blocks) ''cannot index block (missing from store)''"

definition indexer_index :: "'d ext \<Rightarrow> 'd indexer \<Rightarrow> block_entry list \<Rightarrow> 'd indexer \<times> unit res" where
  "indexer_index E ix blocks =
     (let st = ix_store ix in
      case and_then (lookup_txos E (sto_txstore st) (get_previous_txos blocks) False) (\<lambda>previous_txos_map.
           and_then (assert_added st blocks) (\<lambda>_. index_blocks E (ix_config ix) blocks previous_txos_map)) of
        Inl e \<Rightarrow> (ix, Inl e)
      | Inr rows \<Rightarrow>
          (ix\<lparr>ix_store := st\<lparr>sto_history := db_write (rdb E) (sto_history st) rows (ix_flush ix)\<rparr>\<rparr>, Inr ()))"

definition compact_txstore :: "'d ext \<Rightarrow> 'd indexer \<Rightarrow> 'd indexer \<times> unit res" where
  "compact_txstore E ix =
     (case start_auto_compactions E (sto_txstore (ix_store ix)) of
        Inl e \<Rightarrow> (ix, Inl e)
      | Inr d \<Rightarrow> (ix\<lparr>ix_store := (ix_store ix)\<lparr>sto_txstore := d\<rparr>\<rparr>, Inr ()))"

definition compact_history :: "'d ext \<Rightarrow> 'd indexer \<Rightarrow> 'd indexer \<times> unit res" where
  "compact_history E ix =
     (case start_auto_compactions E (sto_history (ix_store ix)) of
        Inl e \<Rightarrow> (ix, Inl e)
      | Inr d \<Rightarrow> (ix\<lparr>ix_store := (ix_store ix)\<lparr>sto_history := d\<rparr>\<rparr>, Inr ()))"

text \<open>Fetching blocks and processing the batches; a failure to start the fetcher is an error of the update.\<close>

definition fetch_and :: "('d indexer \<Rightarrow> block_entry list \<Rightarrow> 'd indexer \<times> unit res) \<Rightarrow>
    block_entry list stream res \<Rightarrow> 'd indexer \<Rightarrow> 'd indexer \<times> unit res" where
  "fetch_and f items ix = (case items of Inl e \<Rightarrow> (ix, Inl e) | Inr items \<Rightarrow> fetcher_map f items ix)"

text \<open>The end of an update: the tip is stored after the data, then the headers are applied.\<close>

definition finish_update :: "'d ext \<Rightarrow> blockhash \<Rightarrow> header_entry list \<Rightarrow> 'd indexer \<Rightarrow> 'd indexer \<times> blockhash res" where
  "finish_update E tip new_headers ix =
     (let st = ix_store ix;
          st' = st\<lparr>sto_txstore := db_put_sync (rdb E) (sto_txstore st) tip_key (hash_bytes tip)\<rparr>;
          ix' = ix\<lparr>ix_store := st', ix_flush := Enable\<rparr>
      in case header_list_apply (sto_headers st') new_headers of
          Inl e \<Rightarrow> (ix', Inl e)
        | Inr headers \<Rightarrow>
            let ix'' = ix'\<lparr>ix_store := st'\<lparr>sto_headers := headers\<rparr>\<rparr> in
            (case and_then (header_list_tip headers) (\<lambda>t. assert_res (tip = t) ''tip == *headers.tip()'') of
               Inl e \<Rightarrow> (ix'', Inl e)
             | Inr _ \<Rightarrow>
                 (ix''\<lparr>ix_from := (case ix_from ix of BlkFiles \<Rightarrow> Tapyrusd | s \<Rightarrow> s)\<rparr>, Inr tip)))"

definition update_to :: "'d ext \<Rightarrow> lib \<Rightarrow> rpc \<Rightarrow> unit res \<Rightarrow> bytes list res \<Rightarrow> blockhash \<Rightarrow> header_entry list \<Rightarrow>
    'd indexer \<Rightarrow> 'd indexer \<times> blockhash res" where
  "update_to E L D dial blk_files tip new_headers ix =
     (let fetch = start_fetcher L (tap E) D dial blk_files (ic_network (ix_config ix)) (ix_from ix) in
      st_then (fetch_and (indexer_add E) (fetch (headers_to_add (ix_store ix) new_headers)) ix) (\<lambda>_ ix.
      st_then (compact_txstore E ix) (\<lambda>_ ix.
      st_then (fetch_and (indexer_index E) (fetch (headers_to_index (ix_store ix) new_headers)) ix) (\<lambda>_ ix.
      st_then (compact_history E ix) (\<lambda>_ ix.
        finish_update E tip new_headers ix)))))"

definition indexer_update :: "'d ext \<Rightarrow> lib \<Rightarrow> rpc \<Rightarrow> unit res \<Rightarrow> bytes list res \<Rightarrow>
    'd indexer \<Rightarrow> ('d indexer \<times> blockhash res) option" where
  "indexer_update E L D dial blk_files ix =
     (case and_then dial (\<lambda>_. getbestblockhash L D) of
        Inl e \<Rightarrow> Some (ix, Inl e)
      | Inr tip \<Rightarrow>
          map_option (\<lambda>r. case r of
              Inl e \<Rightarrow> (ix, Inl e)
            | Inr new_headers \<Rightarrow> update_to E L D dial blk_files tip new_headers ix)
          (get_new_headers_ordered L (tap E) D (ix_store ix) tip))"

section \<open>What indexing a transaction writes\<close>

text \<open>
  The history entries of a transaction: every output (that can be spent) under its script hashes, every input
  with a previous output under those of the output it spends. A coloured script counts under its own hash and
  under that of the script below the colour.
\<close>

definition script_entries :: "tapyrus \<Rightarrow> script \<Rightarrow> (scripthash \<times> color) list" where
  "script_entries T spk =
     (case split_color T spk of
        Some (color_id, script) \<Rightarrow> [(compute_script_hash T spk, color_id), (compute_script_hash T script, color_id)]
      | None \<Rightarrow> [(compute_script_hash T spk, default_color)])"

definition output_entries :: "tapyrus \<Rightarrow> bool \<Rightarrow> txid \<Rightarrow> nat \<times> txout \<Rightarrow> (scripthash \<times> tx_history_info) list" where
  "output_entries T unspendables txid e =
     (if is_spendable T (snd e) \<or> unspendables then
        map (\<lambda>(h, c). (h, Funding \<lparr>fi_txid = txid, fi_vout = of_nat (fst e), fi_color_id = c,
          fi_value = txo_value (snd e), fi_open_asset = None\<rparr>)) (script_entries T (txo_script_pubkey (snd e)))
      else [])"

definition input_entries ::
  "tapyrus \<Rightarrow> (outpoint, txout) hashmap \<Rightarrow> txid \<Rightarrow> nat \<times> txin \<Rightarrow> (scripthash \<times> tx_history_info) list" where
  "input_entries T txos txid e =
     (let prev = txi_previous_output (snd e) in
      if has_prevout (snd e) then
        case hm_get txos prev of
          Some txo \<Rightarrow>
            map (\<lambda>(h, c). (h, Spending \<lparr>si_txid = txid, si_vin = of_nat (fst e), si_prev_txid = op_txid prev,
              si_prev_vout = ucast (op_vout prev), si_color_id = c, si_value = txo_value txo\<rparr>))
              (script_entries T (txo_script_pubkey txo))
        | None \<Rightarrow> []
      else [])"

definition history_entries ::
  "tapyrus \<Rightarrow> bool \<Rightarrow> transaction \<Rightarrow> (outpoint, txout) hashmap \<Rightarrow> (scripthash \<times> tx_history_info) list" where
  "history_entries T unspendables tx txos =
     concat (map (output_entries T unspendables (malfix_txid T tx)) (enumerate 0 (tx_output tx))) @
     concat (map (input_entries T txos (malfix_txid T tx)) (enumerate 0 (tx_input tx)))"

definition history_key :: "u32 \<Rightarrow> scripthash \<times> tx_history_info \<Rightarrow> tx_history_key" where
  "history_key height e = \<lparr>thk_code = byte CHR ''H'', thk_hash = fst e, thk_confirmed_height = height, thk_txinfo = snd e\<rparr>"

definition row_code :: "db_row \<Rightarrow> u8" where
  "row_code r = hd (row_key r)"

lemma byte_eq [simp]: "byte c = byte d \<longleftrightarrow> c = d"
proof
  assume "byte c = byte d"
  moreover have "unat (byte x) = of_char x" for x
  proof -
    have "unat (of_nat (of_char x) :: u8) = of_char x mod 2 ^ 8" by (simp add: unat_of_nat)
    then show ?thesis by (simp add: byte_def of_nat_of_char)
  qed
  ultimately show "c = d" by (metis of_char_eq_iff)
qed simp

lemma row_code_rows:
  "row_code (tx_history_row_into_row B k) = thk_code k"
  "row_code (tx_edge_row_into_row B e) = ter_code e"
  "row_code (block_row_into_row b) = br_code b"
  "row_code (tx_row_into_row t) = txr_code t"
  "row_code (tx_conf_row_into_row f) = tcr_code f"
  "row_code (tx_out_row_into_row B r) = tor_code r"
  "row_code (colored_row_into_row T B ck) = byte CHR ''C''"
  "row_code (color_id_row_into_row T c) = byte CHR ''B''"
  by (auto simp: row_code_def tx_history_row_into_row_def tx_edge_row_into_row_def block_row_into_row_def
      tx_row_into_row_def tx_conf_row_into_row_def tx_out_row_into_row_def tx_out_key_bytes_def
      colored_row_into_row_def color_id_row_into_row_def)

lemma row_code_addr: "addr_search_row T spk n = Some a \<Longrightarrow> row_code a = byte CHR ''a''"
  by (auto simp: row_code_def addr_search_row_def)

lemma history_rows_coded:
  "filter (\<lambda>r. row_code r = byte CHR ''H'') (index_confirmed_colored_tx T B tx h txos) = []"
  by (auto simp: filter_empty_conv index_confirmed_colored_tx_def row_code_rows)

lemmas entry_defs = funding_rows_def output_entries_def script_entries_def Let_def prod.case option.case
  fst_conv snd_conv

lemma funding_rows_coded:
  "filter (\<lambda>r. row_code r = byte CHR ''H'') (funding_rows E cfg txid h (n, txo)) =
     map (\<lambda>x. tx_history_row_into_row (bo E) (history_key h x))
       (output_entries (tap E) (ic_index_unspendables cfg) txid (n, txo))"
  "filter (\<lambda>r. row_code r = byte CHR ''S'') (funding_rows E cfg txid h (n, txo)) = []"
  by (cases "split_color (tap E) (txo_script_pubkey txo)";
      cases "addr_search_row (tap E) (txo_script_pubkey txo) (ic_network cfg)"; simp only: entry_defs;
      simp add: row_code_rows row_code_addr tx_history_row_new_def history_key_def split: prod.split)+

lemma funding_rows_history:
  "filter (\<lambda>r. row_code r = byte CHR ''H'') (funding_rows E cfg txid h e) =
     map (\<lambda>x. tx_history_row_into_row (bo E) (history_key h x))
       (output_entries (tap E) (ic_index_unspendables cfg) txid e)"
  "filter (\<lambda>r. row_code r = byte CHR ''S'') (funding_rows E cfg txid h e) = []"
  using funding_rows_coded by (cases e; blast)+

lemma spending_rows_history:
  assumes "spending_rows E txos txid h e = Inr rows"
  shows "filter (\<lambda>r. row_code r = byte CHR ''H'') rows =
      map (\<lambda>x. tx_history_row_into_row (bo E) (history_key h x)) (input_entries (tap E) txos txid e) \<and>
    filter (\<lambda>r. row_code r = byte CHR ''S'') rows =
      (if has_prevout (snd e) then
         [tx_edge_row_into_row (bc E) (tx_edge_row_new (op_txid (txi_previous_output (snd e)))
            (ucast (op_vout (txi_previous_output (snd e)))) txid (of_nat (fst e)))]
       else [])"
  using assms
  by (cases e)
    (auto simp: spending_rows_def input_entries_def script_entries_def row_code_rows tx_history_row_new_def
      tx_edge_row_new_def history_key_def Let_def split: option.splits if_splits)

lemma list_all2_concat_filter:
  "list_all2 (\<lambda>x ys. filter P ys = g x) xs yss \<Longrightarrow> filter P (concat yss) = concat (map g xs)"
  by (induction rule: list_all2_induct) auto

lemma filter_concat_map: "(\<And>x. filter P (f x) = g x) \<Longrightarrow> filter P (concat (map f xs)) = concat (map g xs)"
  by (induction xs) auto

lemma map_res_fails: "(\<exists>ys. map_res f xs = Inr ys) \<longleftrightarrow> (\<forall>x \<in> set xs. \<exists>y. f x = Inr y)"
  by (induction xs) auto

lemma map_res_error: "map_res f xs = Inl e \<Longrightarrow> \<exists>x \<in> set xs. f x = Inl e"
  by (induction xs) (auto simp: and_then_eq_Inl)

definition previous_known :: "transaction \<Rightarrow> (outpoint, txout) hashmap \<Rightarrow> bool" where
  "previous_known tx txos \<longleftrightarrow> list_all (\<lambda>o'. hm_get txos o' \<noteq> None) (tx_prevouts tx)"

definition tx_edges :: "tapyrus \<Rightarrow> bincode \<Rightarrow> transaction \<Rightarrow> db_row list" where
  "tx_edges T B tx =
     map (\<lambda>(i, txi). tx_edge_row_into_row B (tx_edge_row_new (op_txid (txi_previous_output txi))
         (ucast (op_vout (txi_previous_output txi))) (malfix_txid T tx) (of_nat i)))
       (filter (\<lambda>(i, txi). has_prevout txi) (enumerate 0 (tx_input tx)))"

lemma spending_rows_iff:
  "(\<exists>rows. spending_rows E txos txid h e = Inr rows) \<longleftrightarrow>
     (has_prevout (snd e) \<longrightarrow> hm_get txos (txi_previous_output (snd e)) \<noteq> None)"
  by (cases e) (auto simp: spending_rows_def Let_def)

lemma previous_known_iff:
  "previous_known tx txos \<longleftrightarrow> (\<forall>e \<in> set (enumerate 0 (tx_input tx)). has_prevout (snd e) \<longrightarrow>
     hm_get txos (txi_previous_output (snd e)) \<noteq> None)"
proof -
  have "(\<forall>e \<in> set (enumerate 0 (tx_input tx)). has_prevout (snd e) \<longrightarrow> hm_get txos (txi_previous_output (snd e)) \<noteq> None) \<longleftrightarrow>
      (\<forall>txi \<in> snd ` set (enumerate 0 (tx_input tx)). has_prevout txi \<longrightarrow> hm_get txos (txi_previous_output txi) \<noteq> None)"
    by blast
  also have "snd ` set (enumerate 0 (tx_input tx)) = set (tx_input tx)"
    by (metis list.set_map map_snd_enumerate)
  finally show ?thesis by (auto simp: previous_known_def tx_prevouts_def list_all_iff)
qed

lemma index_transaction_rows:
  assumes "index_transaction E cfg tx h txos = Inr rows"
  shows "filter (\<lambda>r. row_code r = byte CHR ''H'') rows =
      map (\<lambda>x. tx_history_row_into_row (bo E) (history_key h x))
        (history_entries (tap E) (ic_index_unspendables cfg) tx txos) \<and>
    filter (\<lambda>r. row_code r = byte CHR ''S'') rows = tx_edges (tap E) (bc E) tx"
proof -
  let ?txid = "malfix_txid (tap E) tx" and ?ins = "enumerate 0 (tx_input tx)" and ?outs = "enumerate 0 (tx_output tx)"
  obtain spending where sp: "list_all2 (\<lambda>e r. spending_rows E txos ?txid h e = Inr r) ?ins spending"
    and rows: "rows = concat (map (funding_rows E cfg ?txid h) ?outs) @ concat spending @
      index_confirmed_colored_tx (tap E) (bc E) tx h txos"
    using assms by (auto simp: index_transaction_def Let_def map_res_eq_Inr)
  have hist: "filter (\<lambda>r. row_code r = byte CHR ''H'') (concat spending) =
      concat (map (\<lambda>e. map (\<lambda>x. tx_history_row_into_row (bo E) (history_key h x)) (input_entries (tap E) txos ?txid e)) ?ins)"
    by (rule list_all2_concat_filter, rule list_all2_mono [OF sp]) (simp add: spending_rows_history)
  have edges: "filter (\<lambda>r. row_code r = byte CHR ''S'') (concat spending) =
      concat (map (\<lambda>e. if has_prevout (snd e) then
         [tx_edge_row_into_row (bc E) (tx_edge_row_new (op_txid (txi_previous_output (snd e)))
            (ucast (op_vout (txi_previous_output (snd e)))) ?txid (of_nat (fst e)))]
       else []) ?ins)"
    by (rule list_all2_concat_filter, rule list_all2_mono [OF sp]) (rule conjunct2 [OF spending_rows_history])
  have fund: "filter (\<lambda>r. row_code r = byte CHR ''H'') (concat (map (funding_rows E cfg ?txid h) ?outs)) =
      concat (map (\<lambda>e. map (\<lambda>x. tx_history_row_into_row (bo E) (history_key h x))
        (output_entries (tap E) (ic_index_unspendables cfg) ?txid e)) ?outs)"
    by (rule filter_concat_map) (rule funding_rows_history(1))
  have "filter (\<lambda>r. row_code r = byte CHR ''S'') (concat (map (funding_rows E cfg ?txid h) ?outs)) =
      concat (map (\<lambda>_. []) ?outs)"
    by (rule filter_concat_map) (rule funding_rows_history(2))
  then have nofund: "filter (\<lambda>r. row_code r = byte CHR ''S'') (concat (map (funding_rows E cfg ?txid h) ?outs)) = []"
    by simp
  have nocol: "filter (\<lambda>r. row_code r = byte CHR ''S'') (index_confirmed_colored_tx (tap E) (bc E) tx h txos) = []"
    by (auto simp: filter_empty_conv index_confirmed_colored_tx_def row_code_rows)
  have "concat (map (\<lambda>e. if has_prevout (snd e) then [f e] else []) es) = map f (filter (\<lambda>e. has_prevout (snd e)) es)"
    for f :: "nat \<times> txin \<Rightarrow> db_row" and es
    by (induction es) auto
  then have "filter (\<lambda>r. row_code r = byte CHR ''S'') rows = tx_edges (tap E) (bc E) tx"
    by (simp add: rows nofund edges nocol tx_edges_def split_def)
  moreover have "filter (\<lambda>r. row_code r = byte CHR ''H'') rows =
      map (\<lambda>x. tx_history_row_into_row (bo E) (history_key h x))
        (history_entries (tap E) (ic_index_unspendables cfg) tx txos)"
    by (simp add: rows fund hist history_rows_coded history_entries_def map_concat comp_def)
  ultimately show ?thesis by blast
qed

text \<open>
  C32: indexing a transaction fails, by a panic, exactly when the output spent by some input is not known.
  Otherwise the history rows it writes are those of the transaction's history entries, in order, at the
  given height, and the edge rows are one for every input with a previous output.
\<close>

theorem index_transaction_writes:
  "case index_transaction E cfg tx h txos of
     Inl e \<Rightarrow> is_panic e \<and> \<not> previous_known tx txos
   | Inr rows \<Rightarrow> previous_known tx txos \<and>
       filter (\<lambda>r. row_code r = byte CHR ''H'') rows =
         map (\<lambda>x. tx_history_row_into_row (bo E) (history_key h x))
           (history_entries (tap E) (ic_index_unspendables cfg) tx txos) \<and>
       filter (\<lambda>r. row_code r = byte CHR ''S'') rows = tx_edges (tap E) (bc E) tx"
proof -
  let ?f = "spending_rows E txos (malfix_txid (tap E) tx) h"
  have known: "(\<exists>ys. map_res ?f (enumerate 0 (tx_input tx)) = Inr ys) \<longleftrightarrow> previous_known tx txos"
    unfolding map_res_fails spending_rows_iff previous_known_iff ..
  show ?thesis
  proof (cases "index_transaction E cfg tx h txos")
    case (Inl e)
    then have err: "map_res ?f (enumerate 0 (tx_input tx)) = Inl e"
      by (auto simp: index_transaction_def Let_def and_then_eq_Inl)
    then obtain x where "?f x = Inl e" by (metis map_res_error)
    then have "is_panic e"
      by (cases x) (auto simp: spending_rows_def Let_def and_then_eq_Inl res_simps split: if_splits option.splits)
    moreover have "\<not> previous_known tx txos" using known err by auto
    ultimately show ?thesis using Inl by simp
  next
    case (Inr rows)
    then have "previous_known tx txos" using known by (auto simp: index_transaction_def Let_def)
    with Inr index_transaction_rows [OF Inr] show ?thesis by simp
  qed
qed

section \<open>What adding a block makes available\<close>

lemma add_blocks_rows:
  assumes "b \<in> set blocks" "tx \<in> set (blk_txdata (be_block b))"
  shows "\<not> ic_light_mode cfg \<Longrightarrow> tx_row_into_row (tx_row_new (tap E) tx) \<in> set (add_blocks E cfg blocks)"
    and "tx_conf_row_into_row (tx_conf_row_new (tap E) tx (he_hash (be_entry b))) \<in> set (add_blocks E cfg blocks)"
    and "i < length (tx_output tx) \<Longrightarrow> is_spendable (tap E) (tx_output tx ! i) \<Longrightarrow>
      tx_out_row_into_row (bc E) (tx_out_row_new (tap E) (malfix_txid (tap E) tx) i (tx_output tx ! i))
        \<in> set (add_blocks E cfg blocks)"
proof -
  have sub: "set (add_transaction E cfg tx (he_hash (be_entry b))) \<subseteq> set (add_blocks E cfg blocks)"
    using assms by (auto simp: add_blocks_def add_block_def Let_def)
  show "\<not> ic_light_mode cfg \<Longrightarrow> tx_row_into_row (tx_row_new (tap E) tx) \<in> set (add_blocks E cfg blocks)"
    using sub by (auto simp: add_transaction_def Let_def)
  show "tx_conf_row_into_row (tx_conf_row_new (tap E) tx (he_hash (be_entry b))) \<in> set (add_blocks E cfg blocks)"
    using sub by (auto simp: add_transaction_def Let_def)
  assume i: "i < length (tx_output tx)" "is_spendable (tap E) (tx_output tx ! i)"
  then have "(i, tx_output tx ! i) \<in> set (enumerate 0 (tx_output tx))"
    by (simp add: in_set_enumerate_eq)
  with i(2) have "tx_out_row_into_row (bc E) (tx_out_row_new (tap E) (malfix_txid (tap E) tx) i (tx_output tx ! i))
      \<in> set (add_transaction E cfg tx (he_hash (be_entry b)))"
    by (force simp: add_transaction_def Let_def)
  with sub show "tx_out_row_into_row (bc E) (tx_out_row_new (tap E) (malfix_txid (tap E) tx) i (tx_output tx ! i))
        \<in> set (add_blocks E cfg blocks)" by blast
qed

lemma tx_out_row_key_new:
  "tx_out_row_key B \<lparr>op_txid = txid, op_vout = of_nat i\<rparr> = row_key (tx_out_row_into_row B (tx_out_row_new T txid i txo))"
proof -
  have "(ucast (of_nat i :: u32) :: u16) = of_nat i"
    by (simp add: unsigned_of_nat word_of_nat_eq_iff take_bit_take_bit)
  then show ?thesis
    by (simp add: tx_out_row_key_def tx_out_row_into_row_def tx_out_row_new_def tx_out_key_bytes_def)
qed

text \<open>The prefixes under which a batch is written: those of the transactions and the block lists only in full mode.\<close>

lemma add_blocks_codes:
  assumes "r \<in> set (add_blocks E cfg blocks)"
  shows "row_code r \<in> {byte CHR ''C'', byte CHR ''O'', byte CHR ''B'', byte CHR ''D''} \<union>
    (if ic_light_mode cfg then {} else {byte CHR ''T'', byte CHR ''X'', byte CHR ''M''})"
  using assms
  by (auto simp: add_blocks_def add_block_def add_transaction_def Let_def row_code_rows tx_conf_row_new_def tx_row_new_def
      tx_out_row_new_def block_row_new_txids_def block_row_new_meta_def block_row_new_header_def
      block_row_new_done_def split: if_splits)

text \<open>
  C33: provided the rows of a batch of blocks do not contradict each other, once the batch has been added the blocks
  count as added, each spendable output of their transactions is found by outpoint, and the transactions are
  stored under their ids, unless the server runs in light mode, in which they are not stored at all.
\<close>

theorem added_blocks_available:
  assumes "rocksdb (rdb E)" "tapyrus_laws (tap E)" "consistent (add_blocks E (ix_config ix) blocks)"
    "b \<in> set blocks" "tx \<in> set (blk_txdata (be_block b))" "indexer_add E ix blocks = (ix', r)"
  shows "r = Inr () \<and> he_hash (be_entry b) \<in> sto_added (ix_store ix') \<and>
    db_get (rdb E) (sto_txstore (ix_store ix')) (tx_row_key (full_hash (malfix_txid (tap E) tx))) =
      (if ic_light_mode (ix_config ix)
       then db_get (rdb E) (sto_txstore (ix_store ix)) (tx_row_key (full_hash (malfix_txid (tap E) tx)))
       else Some (serialize_tx (tap E) tx)) \<and>
    (\<forall>i < length (tx_output tx). is_spendable (tap E) (tx_output tx ! i) \<longrightarrow>
       lookup_txo E (sto_txstore (ix_store ix')) \<lparr>op_txid = malfix_txid (tap E) tx, op_vout = of_nat i\<rparr> =
         Inr (Some (tx_output tx ! i)))"
proof (intro conjI allI impI)
  let ?d = "db_write (rdb E) (sto_txstore (ix_store ix)) (add_blocks E (ix_config ix) blocks) (ix_flush ix)"
  have ix': "r = Inr ()" "sto_txstore (ix_store ix') = ?d"
    "sto_added (ix_store ix') = sto_added (ix_store ix) \<union> set (map (\<lambda>b. he_hash (be_entry b)) blocks)"
    using assms(6) by (auto simp: indexer_add_def Let_def)
  have get: "db_get (rdb E) ?d (row_key r) = Some (row_value r)"
    if "r \<in> set (add_blocks E (ix_config ix) blocks)" for r :: db_row
    using kv_store.get_write_in [OF rocksdb.kv_laws [OF assms(1)] assms(3) that] .
  show "r = Inr ()" by (rule ix'(1))
  show "he_hash (be_entry b) \<in> sto_added (ix_store ix')" using assms(4) by (auto simp: ix'(3))
  let ?k = "tx_row_key (full_hash (malfix_txid (tap E) tx))"
  show "db_get (rdb E) (sto_txstore (ix_store ix')) ?k =
      (if ic_light_mode (ix_config ix) then db_get (rdb E) (sto_txstore (ix_store ix)) ?k
       else Some (serialize_tx (tap E) tx))"
  proof (cases "ic_light_mode (ix_config ix)")
    case True
    have "row_code r \<noteq> byte CHR ''T''" if "r \<in> set (add_blocks E (ix_config ix) blocks)" for r
      using add_blocks_codes [OF that] True by auto
    then have "?k \<notin> row_key ` set (add_blocks E (ix_config ix) blocks)" by (metis imageE list.sel(1) row_code_def tx_row_key_def)
    with True kv_store.get_write_out [OF rocksdb.kv_laws [OF assms(1)]] show ?thesis by (simp add: ix'(2))
  next
    case False
    with get [OF add_blocks_rows(1) [OF assms(4,5) False]] show ?thesis
      by (simp add: ix'(2) tx_row_into_row_def tx_row_new_def tx_row_key_def)
  qed
  fix i
  assume i: "i < length (tx_output tx)" "is_spendable (tap E) (tx_output tx ! i)"
  show "lookup_txo E (sto_txstore (ix_store ix')) \<lparr>op_txid = malfix_txid (tap E) tx, op_vout = of_nat i\<rparr> =
      Inr (Some (tx_output tx ! i))"
    using get [OF add_blocks_rows(3) [OF assms(4,5) i]]
    by (simp add: ix'(2) lookup_txo_def tx_out_row_key_new [of "bc E" _ i "tap E" "tx_output tx ! i"])
      (simp add: tx_out_row_into_row_def tx_out_row_new_def expect_def
        tapyrus_laws.deserialize_serialize_txout [OF assms(2)])
qed

text \<open>One block with one transaction.\<close>

lemma consistent_distinct_codes: "distinct (map row_code rows) \<Longrightarrow> consistent rows"
  unfolding consistent_def distinct_map inj_on_def by (metis row_code_def)

definition ex_tx :: transaction where
  "ex_tx = \<lparr>tx_version = 1, tx_lock_time = 40, tx_input =
       [\<lparr>txi_previous_output = \<lparr>op_txid = 9, op_vout = 0\<rparr>, txi_script_sig = [], txi_sequence = 0, txi_witness = []\<rparr>],
     tx_output = [\<lparr>txo_value = 70, txo_script_pubkey = [0x51]\<rparr>]\<rparr>"

definition ex_block_entry :: block_entry where
  "ex_block_entry = \<lparr>be_block = \<lparr>blk_header = ex_header 0 7, blk_txdata = [ex_tx]\<rparr>,
     be_entry = \<lparr>he_height = 0, he_hash = 7, he_header = ex_header 0 7\<rparr>, be_size = 100\<rparr>"

definition ex_config :: indexer_config where
  "ex_config = \<lparr>ic_light_mode = False, ic_address_search = False, ic_index_unspendables = False,
     ic_network = \<lparr>network_type = Dev, network_id = 1\<rparr>\<rparr>"

definition ex_indexer :: "kv list indexer" where
  "ex_indexer = indexer_open \<lparr>sto_txstore = [], sto_history = [], sto_cache = [], sto_added = {}, sto_indexed = {},
     sto_headers = header_list_empty\<rparr> Tapyrusd ex_config"

lemma ex_tx_id: "malfix_txid tapyrus_ref ex_tx = 40"
  by (simp add: tapyrus_ref_def ex_tx_def)

lemma ex_spendable: "is_spendable tapyrus_ref (tx_output ex_tx ! 0)"
  by (simp add: is_spendable_def tapyrus_ref_def ex_tx_def)

lemma ex_add_consistent: "consistent (add_blocks ext_ref ex_config [ex_block_entry])"
proof (rule consistent_distinct_codes)
  have sp: "is_spendable tapyrus_ref \<lparr>txo_value = 70, txo_script_pubkey = [0x51]\<rparr>"
    using ex_spendable by (simp add: ex_tx_def)
  show "distinct (map row_code (add_blocks ext_ref ex_config [ex_block_entry]))"
    by (simp add: add_blocks_def add_block_def ex_block_entry_def ext_ref_def ex_config_def Let_def
        add_transaction_def ex_tx_def sp row_code_rows tx_conf_row_new_def tx_row_new_def tx_out_row_new_def
        block_row_new_txids_def block_row_new_meta_def block_row_new_header_def block_row_new_done_def)
qed

lemma added_blocks_available_witness:
  "lookup_txo ext_ref (sto_txstore (ix_store (fst (indexer_add ext_ref ex_indexer [ex_block_entry]))))
     \<lparr>op_txid = 40, op_vout = 0\<rparr> = Inr (Some \<lparr>txo_value = 70, txo_script_pubkey = [0x51]\<rparr>)"
proof -
  have R: "rocksdb (rdb ext_ref)" "tapyrus_laws (tap ext_ref)"
    by (simp_all add: ext_ref_def ref_db.rocksdb_axioms ref_tap.tapyrus_laws_axioms)
  have cfg: "ix_config ex_indexer = ex_config" by (simp add: ex_indexer_def indexer_open_def)
  have light: "\<not> ic_light_mode ex_config" by (simp add: ex_config_def)
  have sp: "is_spendable tapyrus_ref \<lparr>txo_value = 70, txo_script_pubkey = [0x51]\<rparr>"
    using ex_spendable by (simp add: ex_tx_def)
  obtain ix' r where run: "indexer_add ext_ref ex_indexer [ex_block_entry] = (ix', r)" by fastforce
  have tx: "ex_tx \<in> set (blk_txdata (be_block ex_block_entry))" by (simp add: ex_block_entry_def)
  show ?thesis
    using added_blocks_available [OF R ex_add_consistent [folded cfg] _ tx run] ex_tx_id sp light
    by (simp add: run) (simp add: ext_ref_def ex_tx_def)
qed

section \<open>The tip is the last thing an update writes\<close>

definition same_tip :: "'d ext \<Rightarrow> 'd indexer \<Rightarrow> 'd indexer \<Rightarrow> bool" where
  "same_tip E ix ix' \<longleftrightarrow> sto_headers (ix_store ix') = sto_headers (ix_store ix) \<and>
     db_get (rdb E) (sto_txstore (ix_store ix')) tip_key = db_get (rdb E) (sto_txstore (ix_store ix)) tip_key"

lemma same_tip_refl [simp]: "same_tip E ix ix"
  by (simp add: same_tip_def)

lemma same_tip_trans: "same_tip E a b \<Longrightarrow> same_tip E b c \<Longrightarrow> same_tip E a c"
  by (simp add: same_tip_def)

lemma add_blocks_not_tip:
  assumes "r \<in> set (add_blocks E cfg blocks)"
  shows "row_key r \<noteq> tip_key"
proof -
  have "row_code r \<noteq> byte CHR ''t''" using add_blocks_codes [OF assms] by (auto split: if_splits)
  then show ?thesis by (auto simp: row_code_def tip_key_def)
qed

lemma indexer_add_same_tip:
  assumes "rocksdb (rdb E)" "indexer_add E ix blocks = (ix', r)"
  shows "same_tip E ix ix'"
proof -
  have "tip_key \<notin> row_key ` set (add_blocks E (ix_config ix) blocks)"
    using add_blocks_not_tip by fastforce
  then show ?thesis
    using assms(2) kv_store.get_write_out [OF rocksdb.kv_laws [OF assms(1)]]
    by (auto simp: indexer_add_def same_tip_def Let_def)
qed

lemma indexer_index_same_tip: "indexer_index E ix blocks = (ix', r) \<Longrightarrow> same_tip E ix ix'"
  by (auto simp: indexer_index_def same_tip_def Let_def split: sum.splits)

lemma compact_same_tip:
  assumes "rocksdb (rdb E)"
  shows "compact_txstore E ix = (ix', r) \<Longrightarrow> same_tip E ix ix'"
    and "compact_history E ix = (ix', r) \<Longrightarrow> same_tip E ix ix'"
proof -
  have "db_get (rdb E) d' tip_key = db_get (rdb E) d tip_key" if "start_auto_compactions E d = Inr d'" for d d'
    using that rocksdb.get_put [OF assms]
    by (auto simp: start_auto_compactions_def Let_def tip_key_def db_put_sync_def db_get_def split: if_splits)
  then show "compact_txstore E ix = (ix', r) \<Longrightarrow> same_tip E ix ix'"
    by (auto simp: compact_txstore_def same_tip_def split: sum.splits)
  show "compact_history E ix = (ix', r) \<Longrightarrow> same_tip E ix ix'"
    by (auto simp: compact_history_def same_tip_def split: sum.splits)
qed

lemma fetcher_map_invariant:
  assumes inv: "\<And>st x st' r. P st \<Longrightarrow> f st x = (st', r) \<Longrightarrow> P st'"
  shows "P st \<Longrightarrow> fetcher_map f items st = (st', r) \<Longrightarrow> P st'"
proof (induction items arbitrary: st)
  case Nil
  then show ?case by simp
next
  case (Cons y items)
  show ?case
  proof (cases y)
    case (Inl e)
    then show ?thesis using Cons.prems by simp
  next
    case (Inr x)
    obtain s q where q: "f st x = (s, q)" by fastforce
    have "P s" by (rule inv [OF Cons.prems(1) q])
    then show ?thesis using Cons.prems(2) Cons.IH [of s] Inr q by (cases q) auto
  qed
qed

lemma fetch_and_same_tip:
  assumes "\<And>ix x ix' r. f ix x = (ix', r) \<Longrightarrow> same_tip E ix ix'" "fetch_and f items ix = (ix', r)"
  shows "same_tip E ix ix'"
proof (cases items)
  case (Inl e)
  then show ?thesis using assms(2) by (simp add: fetch_and_def)
next
  case (Inr xs)
  then have run: "fetcher_map f xs ix = (ix', r)" using assms(2) by (simp add: fetch_and_def)
  show ?thesis
    by (rule fetcher_map_invariant [OF _ _ run, of "same_tip E ix"]) (auto intro: same_tip_trans assms(1))
qed

lemma fold_res_error: "fold_res f s xs = Inl e \<Longrightarrow> \<exists>s x. f s x = Inl e"
  by (induction xs arbitrary: s) (auto simp: and_then_eq_Inl)

lemma header_list_errors:
  "header_list_apply hl new = Inl e \<Longrightarrow> is_panic e" "header_list_tip hl = Inl e \<Longrightarrow> is_panic e"
proof -
  have consecutive: "assert_consecutive es = Inl e \<Longrightarrow> is_panic e" for es
    by (induction es rule: assert_consecutive.induct) (auto simp: and_then_eq_Inl res_simps split: if_splits)
  have push: "push_header s x = Inl e \<Longrightarrow> is_panic e" for s x
    by (auto simp: push_header_def and_then_eq_Inl res_simps split: if_splits)
  show "header_list_apply hl new = Inl e \<Longrightarrow> is_panic e"
    by (auto simp: header_list_apply_def and_then_eq_Inl res_simps Let_def split: if_splits list.splits
        dest: consecutive fold_res_error push)
  show "header_list_tip hl = Inl e \<Longrightarrow> is_panic e"
    by (auto simp: header_list_tip_def and_then_eq_Inl res_simps split: if_splits)
qed

lemma finish_update_outcome:
  assumes "rocksdb (rdb E)" "finish_update E tip new_headers ix = (ix', r)"
  shows "case r of
      Inr t \<Rightarrow> t = tip \<and> header_list_tip (sto_headers (ix_store ix')) = Inr tip \<and>
        db_get (rdb E) (sto_txstore (ix_store ix')) tip_key = Some (hash_bytes tip)
    | Inl e \<Rightarrow> is_panic e"
proof -
  have put: "db_get (rdb E) (db_put_sync (rdb E) d tip_key v) tip_key = Some v" for d v
    using rocksdb.get_put [OF assms(1)] by (simp add: db_get_def db_put_sync_def)
  show ?thesis
    using assms(2)
    by (auto simp: finish_update_def Let_def put and_then_eq_Inl res_simps header_list_errors
        split: sum.splits if_splits dest: header_list_errors)
qed

lemma update_to_outcome:
  assumes "rocksdb (rdb E)" "update_to E L D dial blk_files tip hs ix = (ix', r)"
  shows "case r of
      Inr t \<Rightarrow> t = tip \<and> header_list_tip (sto_headers (ix_store ix')) = Inr tip \<and>
        db_get (rdb E) (sto_txstore (ix_store ix')) tip_key = Some (hash_bytes tip)
    | Inl e \<Rightarrow> is_panic e \<or> same_tip E ix ix'"
proof -
  have add: "\<And>ix x ix' r. indexer_add E ix x = (ix', r) \<Longrightarrow> same_tip E ix ix'"
    by (rule indexer_add_same_tip [OF assms(1)])
  have index: "\<And>ix x ix' r. indexer_index E ix x = (ix', r) \<Longrightarrow> same_tip E ix ix'"
    by (rule indexer_index_same_tip)
  let ?fetch = "start_fetcher L (tap E) D dial blk_files (ic_network (ix_config ix)) (ix_from ix)"
  obtain a ra where a: "fetch_and (indexer_add E) (?fetch (headers_to_add (ix_store ix) hs)) ix = (a, ra)" by fastforce
  obtain b rb where b: "compact_txstore E a = (b, rb)" by fastforce
  obtain c rc where c: "fetch_and (indexer_index E) (?fetch (headers_to_index (ix_store b) hs)) b = (c, rc)" by fastforce
  obtain d rd where d: "compact_history E c = (d, rd)" by fastforce
  have sa: "same_tip E ix a" by (rule fetch_and_same_tip [OF add a])
  have sb: "same_tip E ix b" using sa compact_same_tip(1) [OF assms(1) b] by (rule same_tip_trans)
  have sc: "same_tip E ix c" using sb fetch_and_same_tip [OF index c] by (rule same_tip_trans)
  have sd: "same_tip E ix d" using sc compact_same_tip(2) [OF assms(1) d] by (rule same_tip_trans)
  show ?thesis
    using assms(2) sa sb sc sd finish_update_outcome [OF assms(1), of tip hs d ix' r]
    by (cases ra; cases rb; cases rc; cases rd) (auto simp: update_to_def Let_def a b c d split: sum.splits)
qed

lemma indexer_update_outcome:
  assumes "rocksdb (rdb E)" "indexer_update E L D dial blk_files ix = Some (ix', r)"
  shows "case r of
      Inr tip \<Rightarrow> getbestblockhash L D = Inr tip \<and> header_list_tip (sto_headers (ix_store ix')) = Inr tip \<and>
        db_get (rdb E) (sto_txstore (ix_store ix')) tip_key = Some (hash_bytes tip)
    | Inl e \<Rightarrow> is_panic e \<or> same_tip E ix ix'"
proof (cases "and_then dial (\<lambda>_. getbestblockhash L D)")
  case (Inl e)
  then have "ix' = ix" "r = Inl e" using assms(2) by (auto simp: indexer_update_def split: sum.splits)
  then show ?thesis by simp
next
  case (Inr tip)
  then obtain h where h: "(case h of Inl e \<Rightarrow> (ix, Inl e) | Inr hs \<Rightarrow> update_to E L D dial blk_files tip hs ix) = (ix', r)"
    using assms(2) by (auto simp: indexer_update_def)
  have best: "getbestblockhash L D = Inr tip" using Inr by auto
  show ?thesis
  proof (cases h)
    case (Inl e)
    with h show ?thesis by auto
  next
    case (Inr hs)
    with h have "update_to E L D dial blk_files tip hs ix = (ix', r)" by simp
    from update_to_outcome [OF assms(1) this] best show ?thesis by (cases r) auto
  qed
qed

text \<open>
  C35: an update that returns has stored the node's best block as the tip, in the database and as the tip of
  the chain of headers. One that ends with an error other than a panic leaves both as they were, whatever
  blocks it had already added or indexed.
\<close>

theorem indexer_update_tip:
  assumes "rocksdb (rdb E)" "indexer_update E L D dial blk_files ix = Some (ix', r)"
  shows "case r of
      Inr tip \<Rightarrow> getbestblockhash L D = Inr tip \<and> header_list_tip (sto_headers (ix_store ix')) = Inr tip \<and>
        db_get (rdb E) (sto_txstore (ix_store ix')) tip_key = Some (hash_bytes tip)
    | Inl e \<Rightarrow> is_panic e \<or> same_tip E ix ix'"
  using assms by (rule indexer_update_outcome)

lemma indexer_update_Inr:
  assumes "rocksdb (rdb E)" "indexer_update E L D dial blk_files ix = Some (ix', Inr tip)"
  shows "getbestblockhash L D = Inr tip" "header_list_tip (sto_headers (ix_store ix')) = Inr tip"
    "db_get (rdb E) (sto_txstore (ix_store ix')) tip_key = Some (hash_bytes tip)"
  using assms(2) update_to_outcome [OF assms(1)]
  by (fastforce simp: indexer_update_def and_then_eq_Inl split: sum.splits)+

definition ex_tip_rpc :: rpc where
  "ex_tip_rpc method ps = Inr [j_hash lib_ref 12]"

definition ex_synced :: "kv list indexer" where
  "ex_synced = ex_indexer\<lparr>ix_store := (ix_store ex_indexer)\<lparr>sto_headers := ex_chain\<rparr>\<rparr>"

lemma indexer_update_tip_witness:
  "\<exists>ix'. indexer_update ext_ref lib_ref ex_tip_rpc (Inr ()) (Inr []) ex_synced = Some (ix', Inr 12) \<and>
     header_list_tip (sto_headers (ix_store ix')) = Inr 12"
proof -
  have best: "getbestblockhash lib_ref ex_tip_rpc = Inr 12"
    by (simp add: getbestblockhash_def rpc_request_def ex_tip_rpc_def parse_hash_value_def j_hash_def ok_or_def
        assert_res_def ref_lib.hash_from_to_hex)
  have "header_by_blockhash ex_chain 12 \<noteq> None" "\<not> header_list_is_empty ex_chain"
    by (simp_all add: header_by_blockhash_def header_list_is_empty_def ex_header_defs)
  then have "get_new_headers lib_ref tapyrus_ref ex_tip_rpc ex_chain 12 = Some (Inr [])"
    by (simp add: get_new_headers_def new_headers_loop.simps)
  then have ordered: "get_new_headers_ordered lib_ref tapyrus_ref ex_tip_rpc (ix_store ex_synced) 12 = Some (Inr [])"
    by (simp add: get_new_headers_ordered_def header_list_order_def ex_synced_def)
  have compact: "start_auto_compactions ext_ref [] = Inr [([byte CHR ''F''], [])]"
    by (simp add: start_auto_compactions_def ext_ref_def rocksdb_ref_def db_get_def db_put_sync_def assert_res_def)
  have tip: "header_list_tip ex_chain = Inr 12"
    by (simp add: header_list_tip_def last_hash_def ex_header_defs assert_res_def)
  have ref: "tap ext_ref = tapyrus_ref" by (simp add: ext_ref_def)
  have "\<exists>ix'. update_to ext_ref lib_ref ex_tip_rpc (Inr ()) (Inr []) 12 [] ex_synced = (ix', Inr 12)"
    by (simp add: update_to_def Let_def start_fetcher_def ex_synced_def ex_indexer_def indexer_open_def fetch_and_def
        headers_to_add_def headers_to_index_def tapyrusd_fetcher_def compact_txstore_def compact_history_def compact
        finish_update_def header_list_apply_def tip assert_res_def)
  then obtain ix' where "indexer_update ext_ref lib_ref ex_tip_rpc (Inr ()) (Inr []) ex_synced = Some (ix', Inr 12)"
    by (auto simp: indexer_update_def best ref ordered)
  moreover have "rocksdb (rdb ext_ref)" by (simp add: ext_ref_def ref_db.rocksdb_axioms)
  ultimately show ?thesis using indexer_update_tip [of ext_ref] by fastforce
qed

end
