(* ===== verification/Stats.thy ===== *)
theory Stats
  imports Rows
begin

text \<open>
  The statistics of a script and of a colour (\<^verbatim>\<open>update_stats\<close>, \<^verbatim>\<open>_update_stats\<close> and \<^verbatim>\<open>update_colored_stats\<close> of
  \<^verbatim>\<open>src/src/new_index/schema.rs\<close>): a pass over history entries with their blocks that counts
  transactions once per block although they have several entries.
\<close>

section \<open>Script statistics\<close>

type_synonym script_history = "(tx_history_info \<times> block_id option) list"

definition update_stats_entry ::
  "script_stats \<Rightarrow> txid list \<Rightarrow> tx_history_info \<Rightarrow> script_stats \<times> txid list" where
  "update_stats_entry stat seen_txids entry =
     (let (stat, seen_txids) =
            (if thi_get_txid entry \<in> set seen_txids then (stat, seen_txids)
             else (stat\<lparr>ss_tx_count := ss_tx_count stat + 1\<rparr>, thi_get_txid entry # seen_txids))
      in case entry of
           Funding info \<Rightarrow>
             (stat\<lparr>ss_funded_txo_count := ss_funded_txo_count stat + 1,
                   ss_funded_txo_sum := ss_funded_txo_sum stat + fi_value info\<rparr>, seen_txids)
         | Spending info \<Rightarrow>
             (stat\<lparr>ss_spent_txo_count := ss_spent_txo_count stat + 1,
                   ss_spent_txo_sum := ss_spent_txo_sum stat + si_value info\<rparr>, seen_txids))"

text \<open>The loop state: the statistics, the transactions seen per colour, the last block.\<close>

type_synonym stats_state = "stats_map \<times> (color, txid list) hashmap \<times> blockhash option"

definition update_stats_step :: "stats_state \<Rightarrow> tx_history_info \<times> block_id option \<Rightarrow> stats_state" where
  "update_stats_step st h =
     (case (st, h) of ((stats, seen_txids_map, lastblock), (history, blockid_opt)) \<Rightarrow>
        let color_id = thi_color_id history;
            seen_txids = (case hm_get seen_txids_map color_id of Some s \<Rightarrow> s | None \<Rightarrow> []);
            seen_txids = (if lastblock \<noteq> map_option bid_hash blockid_opt then [] else seen_txids);
            (s, seen_txids) =
              update_stats_entry
                (case hm_get stats color_id of Some s \<Rightarrow> s | None \<Rightarrow> script_stats_default) seen_txids history
        in (hm_insert color_id s stats, hm_insert color_id seen_txids seen_txids_map,
            map_option bid_hash blockid_opt))"

definition update_stats :: "stats_map \<Rightarrow> script_history \<Rightarrow> stats_map \<times> blockhash option" where
  "update_stats init_stats histories =
     (case foldl update_stats_step (init_stats, [], None) histories of
        (stats, _, lastblock) \<Rightarrow> (stats, lastblock))"

section \<open>Colour statistics\<close>

type_synonym colored_history = "(colored_tx_history_info \<times> block_id option) list"

type_synonym colored_stats_state = "colored_stats \<times> txid list \<times> blockhash option"

definition update_colored_stats_step ::
  "colored_stats_state \<Rightarrow> colored_tx_history_info \<times> block_id option \<Rightarrow> colored_stats_state" where
  "update_colored_stats_step st h =
     (case (st, h) of ((cache, seen_txids, lastblock), (history, blockid_opt)) \<Rightarrow>
        let seen_txids = (if lastblock \<noteq> map_option bid_hash blockid_opt then [] else seen_txids);
            (cache, seen_txids) =
              (if cthi_get_txid history \<in> set seen_txids then (cache, seen_txids)
               else (cache\<lparr>cs_tx_count := cs_tx_count cache + 1\<rparr>, cthi_get_txid history # seen_txids));
            cache = (case history of
                Issuing info \<Rightarrow> cache\<lparr>cs_issued_tx_count := cs_issued_tx_count cache + 1,
                                      cs_issued_sum := cs_issued_sum cache + ca_value info\<rparr>
              | Transferring info \<Rightarrow> cache\<lparr>cs_transferred_tx_count := cs_transferred_tx_count cache + 1,
                                      cs_transferred_sum := cs_transferred_sum cache + ca_value info\<rparr>
              | Burning info \<Rightarrow> cache\<lparr>cs_burned_tx_count := cs_burned_tx_count cache + 1,
                                      cs_burned_sum := cs_burned_sum cache + ca_value info\<rparr>)
        in (cache, seen_txids, map_option bid_hash blockid_opt))"

definition update_colored_stats ::
  "colored_stats \<Rightarrow> colored_history \<Rightarrow> (colored_stats \<times> blockhash option) res" where
  "update_colored_stats init_cache histories =
     (case foldl update_colored_stats_step (init_cache, [], None) histories of
        (cache, _, lastblock) \<Rightarrow> Inr (cache, lastblock))"

section \<open>Entries grouped by block\<close>

definition block_of :: "'a \<times> block_id option \<Rightarrow> blockhash option" where
  "block_of h = map_option bid_hash (snd h)"

text \<open>
  The entries of a block are contiguous and a transaction is in one block: what a scan of the index by
  height delivers.
\<close>

definition grouped :: "('a \<Rightarrow> txid) \<Rightarrow> ('a \<times> block_id option) list \<Rightarrow> bool" where
  "grouped t hs \<longleftrightarrow> distinct (remdups_adj (map block_of hs)) \<and>
     (\<forall>x \<in> set hs. \<forall>y \<in> set hs. t (fst x) = t (fst y) \<longrightarrow> block_of x = block_of y)"

lemma remdups_adj_snoc:
  "remdups_adj (xs @ [x]) = (if xs \<noteq> [] \<and> last xs = x then remdups_adj xs else remdups_adj xs @ [x])"
  by (induction xs rule: remdups_adj.induct) simp_all

lemma grouped_snoc:
  assumes "grouped t (hs @ [h])"
  shows "grouped t hs"
    and "hs \<noteq> [] \<Longrightarrow> block_of (last hs) \<noteq> block_of h \<Longrightarrow> x \<in> set hs \<Longrightarrow> block_of x \<noteq> block_of h"
    and "x \<in> set hs \<Longrightarrow> t (fst x) = t (fst h) \<Longrightarrow> block_of x = block_of h"
proof -
  let ?bs = "map block_of hs"
  have d: "distinct (remdups_adj (?bs @ [block_of h]))" using assms by (simp add: grouped_def)
  have adj: "distinct (remdups_adj ?bs) \<and> (?bs \<noteq> [] \<and> last ?bs = block_of h \<or> block_of h \<notin> set ?bs)"
  proof (cases "?bs \<noteq> [] \<and> last ?bs = block_of h")
    case True
    then have "remdups_adj (?bs @ [block_of h]) = remdups_adj ?bs"
      unfolding remdups_adj_snoc by (rule if_P)
    with d have "distinct (remdups_adj ?bs)" by (simp only:)
    with True show ?thesis by blast
  next
    case False
    then have "remdups_adj (?bs @ [block_of h]) = remdups_adj ?bs @ [block_of h]"
      unfolding remdups_adj_snoc by (rule if_not_P)
    with d have "distinct (remdups_adj ?bs @ [block_of h])" by (simp only:)
    then show ?thesis by (simp only: distinct_append remdups_adj_set) auto
  qed
  have pair: "\<forall>x \<in> set (hs @ [h]). \<forall>y \<in> set (hs @ [h]). t (fst x) = t (fst y) \<longrightarrow> block_of x = block_of y"
    using assms unfolding grouped_def by (rule conjunct2)
  have sub: "set hs \<subseteq> set (hs @ [h])" "h \<in> set (hs @ [h])" by auto
  show "grouped t hs" unfolding grouped_def using adj pair sub(1) by blast
  show "block_of x \<noteq> block_of h" if "hs \<noteq> []" "block_of (last hs) \<noteq> block_of h" "x \<in> set hs"
  proof -
    have "last ?bs \<noteq> block_of h" using that(1,2) by (simp add: last_map)
    then have "block_of h \<notin> set ?bs" using adj by blast
    moreover have "block_of x \<in> set ?bs" using that(3) by (simp only: set_map) (rule imageI)
    ultimately show ?thesis by metis
  qed
  show "block_of x = block_of h" if "x \<in> set hs" "t (fst x) = t (fst h)"
    using pair sub that by blast
qed

section \<open>What is counted\<close>

definition stats_of :: "stats_map \<Rightarrow> color \<Rightarrow> script_stats" where
  "stats_of m c = (case hm_get m c of Some s \<Rightarrow> s | None \<Rightarrow> script_stats_default)"

definition entries_of :: "color \<Rightarrow> script_history \<Rightarrow> tx_history_info list" where
  "entries_of c hs = filter (\<lambda>i. thi_color_id i = c) (map fst hs)"

fun funded :: "tx_history_info \<Rightarrow> funding_info option" where
  "funded (Funding i) = Some i"
| "funded (Spending i) = None"

fun spent :: "tx_history_info \<Rightarrow> spending_info option" where
  "spent (Funding i) = None"
| "spent (Spending i) = Some i"

text \<open>The statistics that add the entries \<open>es\<close> to \<open>s\<close>: transactions without, outputs with repetition.\<close>

definition add_entries :: "script_stats \<Rightarrow> tx_history_info list \<Rightarrow> script_stats" where
  "add_entries s es = \<lparr>
     ss_tx_count = ss_tx_count s + card (thi_get_txid ` set es),
     ss_funded_txo_count = ss_funded_txo_count s + length (List.map_filter funded es),
     ss_spent_txo_count = ss_spent_txo_count s + length (List.map_filter spent es),
     ss_funded_txo_sum = ss_funded_txo_sum s + (\<Sum>i\<leftarrow>List.map_filter funded es. fi_value i),
     ss_spent_txo_sum = ss_spent_txo_sum s + (\<Sum>i\<leftarrow>List.map_filter spent es. si_value i)\<rparr>"

lemma add_entries_Nil [simp]: "add_entries s [] = s"
  by (simp add: add_entries_def List.map_filter_simps)

lemma map_filter_append: "List.map_filter f (xs @ ys) = List.map_filter f xs @ List.map_filter f ys"
  by (simp add: List.map_filter_def)

lemma update_stats_entry_add:
  assumes "thi_get_txid i \<in> set seen \<longleftrightarrow> thi_get_txid i \<in> thi_get_txid ` set es"
  shows "fst (update_stats_entry (add_entries s es) seen i) = add_entries s (es @ [i])"
proof -
  have card: "card (insert (thi_get_txid i) (thi_get_txid ` set es)) =
      card (thi_get_txid ` set es) + (if thi_get_txid i \<in> set seen then 0 else 1)"
    using assms by (simp add: insert_absorb)
  then show ?thesis
    by (cases i)
      (simp_all add: update_stats_entry_def add_entries_def map_filter_append List.map_filter_simps)
qed

lemma update_stats_entry_seen:
  "set (snd (update_stats_entry s seen i)) = insert (thi_get_txid i) (set seen)"
  by (auto simp: update_stats_entry_def Let_def split: tx_history_info.split)

definition seen_of :: "(color, txid list) hashmap \<Rightarrow> color \<Rightarrow> txid set" where
  "seen_of m c = (case hm_get m c of Some s \<Rightarrow> set s | None \<Rightarrow> {})"

lemma stats_of_insert: "stats_of (hm_insert k s m) c = (if c = k then s else stats_of m c)"
  by (simp add: stats_of_def)

lemma seen_of_insert: "seen_of (hm_insert k s m) c = (if c = k then set s else seen_of m c)"
  by (simp add: seen_of_def)

definition stats_inv :: "stats_map \<Rightarrow> script_history \<Rightarrow> stats_state \<Rightarrow> bool" where
  "stats_inv init hs st \<longleftrightarrow>
     (case st of (stats, seen, lastblock) \<Rightarrow>
        lastblock = (if hs = [] then None else block_of (last hs)) \<and>
        (\<forall>c. stats_of stats c = add_entries (stats_of init c) (entries_of c hs) \<and>
          seen_of seen c \<subseteq> thi_get_txid ` set (entries_of c hs) \<and>
          (\<forall>h \<in> set hs. thi_color_id (fst h) = c \<longrightarrow> block_of h = lastblock \<longrightarrow> thi_get_txid (fst h) \<in> seen_of seen c)))"

lemma update_stats_step_inv:
  assumes g: "grouped thi_get_txid (hs @ [h])" and inv: "stats_inv init hs st"
  shows "stats_inv init (hs @ [h]) (update_stats_step st h)"
proof -
  obtain stats seen lb where st: "st = (stats, seen, lb)" by (cases st)
  obtain i b where h: "h = (i, b)" by (cases h)
  let ?c = "thi_color_id i"
  let ?old = "case hm_get seen ?c of Some s \<Rightarrow> s | None \<Rightarrow> []"
  let ?seen = "if lb \<noteq> map_option bid_hash b then [] else ?old"
  have old: "set ?old = seen_of seen ?c" by (simp add: seen_of_def split: option.split)
  have lb: "lb = (if hs = [] then None else block_of (last hs))"
    and stats: "stats_of stats c = add_entries (stats_of init c) (entries_of c hs)"
    and sub: "seen_of seen c \<subseteq> thi_get_txid ` set (entries_of c hs)"
    and sup: "x \<in> set hs \<Longrightarrow> thi_color_id (fst x) = c \<Longrightarrow> block_of x = lb \<Longrightarrow> thi_get_txid (fst x) \<in> seen_of seen c"
    for c x using inv by (auto simp: stats_inv_def st)
  have in_block: "block_of x \<noteq> map_option bid_hash b" if "x \<in> set hs" "lb \<noteq> map_option bid_hash b" for x
    using grouped_snoc(2) [OF g _ _ that(1)] that lb by (cases "hs = []") (auto simp: block_of_def h)
  have mem: "thi_get_txid i \<in> set ?seen \<longleftrightarrow> thi_get_txid i \<in> thi_get_txid ` set (entries_of ?c hs)"
  proof
    assume "thi_get_txid i \<in> set ?seen"
    then show "thi_get_txid i \<in> thi_get_txid ` set (entries_of ?c hs)"
      using sub old by (auto split: if_splits)
  next
    assume "thi_get_txid i \<in> thi_get_txid ` set (entries_of ?c hs)"
    then obtain x where x: "x \<in> set hs" "thi_color_id (fst x) = ?c" "thi_get_txid (fst x) = thi_get_txid i"
      by (auto simp: entries_of_def)
    then have "block_of x = map_option bid_hash b"
      using grouped_snoc(3) [OF g x(1)] by (simp add: h block_of_def)
    moreover from this have "lb = map_option bid_hash b" using in_block x(1) by blast
    ultimately show "thi_get_txid i \<in> set ?seen" using sup [OF x(1,2)] x(3) old by simp
  qed
  obtain s' seen' where e: "update_stats_entry (stats_of stats ?c) ?seen i = (s', seen')"
    by (cases "update_stats_entry (stats_of stats ?c) ?seen i")
  have s': "s' = add_entries (stats_of init ?c) (entries_of ?c (hs @ [h]))"
    using update_stats_entry_add [OF mem, of "stats_of init ?c"] e stats [of ?c]
    by (simp add: entries_of_def h)
  have seen': "set seen' = insert (thi_get_txid i) (set ?seen)"
    using update_stats_entry_seen [of "stats_of stats ?c" ?seen i] e by simp
  have run: "update_stats_step st h =
      (hm_insert ?c s' stats, hm_insert ?c seen' seen, map_option bid_hash b)"
    using e by (simp add: update_stats_step_def st h Let_def stats_of_def)
  have entries: "entries_of c (hs @ [h]) = entries_of c hs @ (if c = ?c then [i] else [])" for c
    by (simp add: entries_of_def h)
  have "thi_get_txid (fst x) \<in> (if c = ?c then set seen' else seen_of seen c)"
    if "x \<in> set (hs @ [h])" "thi_color_id (fst x) = c" "block_of x = map_option bid_hash b" for x c
  proof (cases "x = h")
    case True
    then show ?thesis using that(2) by (simp add: h seen')
  next
    case False
    then have x: "x \<in> set hs" using that(1) by simp
    then have "lb = map_option bid_hash b" using in_block that(3) by blast
    then show ?thesis using sup [OF x that(2)] that(3) old by (auto simp: seen')
  qed
  moreover have "(if c = ?c then set seen' else seen_of seen c) \<subseteq> thi_get_txid ` set (entries_of c (hs @ [h]))" for c
    using sub [of c] old by (auto simp: seen' entries)
  moreover have "stats_of (hm_insert ?c s' stats) c = add_entries (stats_of init c) (entries_of c (hs @ [h]))" for c
    by (cases "c = ?c") (simp_all add: stats_of_insert s' stats entries)
  moreover have "block_of h = map_option bid_hash b" by (simp add: h block_of_def)
  ultimately show ?thesis unfolding stats_inv_def run by (simp add: seen_of_insert)
qed

lemma update_stats_inv:
  assumes "grouped thi_get_txid hs"
  shows "stats_inv init hs (foldl update_stats_step (init, [], None) hs)"
  using assms
proof (induction hs rule: rev_induct)
  case Nil
  then show ?case by (simp add: stats_inv_def entries_of_def seen_of_def)
next
  case (snoc h hs)
  from update_stats_step_inv [OF snoc.prems snoc.IH [OF grouped_snoc(1) [OF snoc.prems]]]
  show ?case by simp
qed

text \<open>
  C28: the statistics of a script. For a history grouped by block, update_stats adds to every colour's entry the
  number of distinct transactions, the numbers of funding and spending entries, and the sums of their values
  (in 64-bit arithmetic); so the statistics of a history that is processed in batches of whole blocks are
  those of the history processed at once.
\<close>

theorem update_stats_counts:
  assumes "grouped thi_get_txid hs"
  shows "stats_of (fst (update_stats init hs)) c = add_entries (stats_of init c) (entries_of c hs) \<and>
    snd (update_stats init hs) = (if hs = [] then None else block_of (last hs))"
proof -
  obtain stats seen lb where st: "foldl update_stats_step (init, [], None) hs = (stats, seen, lb)"
    using prod_cases3 by blast
  from update_stats_inv [OF assms, of init] show ?thesis
    by (simp add: update_stats_def st stats_inv_def)
qed

definition ex_block :: "nat \<Rightarrow> block_id" where
  "ex_block n = \<lparr>bid_height = n, bid_hash = of_nat (n + 100), bid_time = 0\<rparr>"

definition ex_funding :: "txid \<Rightarrow> u64 \<Rightarrow> tx_history_info" where
  "ex_funding t v = Funding \<lparr>fi_txid = t, fi_vout = 0, fi_color_id = default_color, fi_value = v, fi_open_asset = None\<rparr>"

definition ex_history :: script_history where
  "ex_history = [(ex_funding 1 10, Some (ex_block 1)), (ex_funding 1 20, Some (ex_block 1)),
     (ex_funding 2 5, Some (ex_block 2))]"

lemma update_stats_counts_witness:
  "ss_tx_count (stats_of (fst (update_stats [] ex_history)) default_color) = 2 \<and>
   ss_funded_txo_sum (stats_of (fst (update_stats [] ex_history)) default_color) = 35"
proof -
  have "grouped thi_get_txid ex_history"
    by (simp add: grouped_def ex_history_def ex_funding_def ex_block_def block_of_def)
  from update_stats_counts [OF this, of "[]" default_color] show ?thesis
    by (simp add: ex_history_def ex_funding_def entries_of_def add_entries_def stats_of_def
        script_stats_default_def List.map_filter_simps)
qed

lemma add_entries_append:
  assumes "thi_get_txid ` set es \<inter> thi_get_txid ` set fs = {}"
  shows "add_entries (add_entries s es) fs = add_entries s (es @ fs)"
  using assms by (simp add: add_entries_def map_filter_append image_Un card_Un_disjoint add.assoc)

section \<open>What is counted of a colour\<close>

definition colored_add :: "colored_stats \<Rightarrow> colored_tx_history_info list \<Rightarrow> colored_stats" where
  "colored_add s es = s\<lparr>
     cs_tx_count := cs_tx_count s + card (cthi_get_txid ` set es),
     cs_issued_tx_count := cs_issued_tx_count s + length (filter (\<lambda>i. cthi_variant i = 0) es),
     cs_transferred_tx_count := cs_transferred_tx_count s + length (filter (\<lambda>i. cthi_variant i = 1) es),
     cs_burned_tx_count := cs_burned_tx_count s + length (filter (\<lambda>i. cthi_variant i = 2) es),
     cs_issued_sum := cs_issued_sum s + (\<Sum>i\<leftarrow>filter (\<lambda>i. cthi_variant i = 0) es. ca_value (cthi_amount i)),
     cs_transferred_sum := cs_transferred_sum s + (\<Sum>i\<leftarrow>filter (\<lambda>i. cthi_variant i = 1) es. ca_value (cthi_amount i)),
     cs_burned_sum := cs_burned_sum s + (\<Sum>i\<leftarrow>filter (\<lambda>i. cthi_variant i = 2) es. ca_value (cthi_amount i))\<rparr>"

definition colored_inv :: "colored_stats \<Rightarrow> colored_history \<Rightarrow> colored_stats_state \<Rightarrow> bool" where
  "colored_inv init hs st \<longleftrightarrow>
     (case st of (cache, seen, lastblock) \<Rightarrow>
        lastblock = (if hs = [] then None else block_of (last hs)) \<and>
        cache = colored_add init (map fst hs) \<and>
        set seen \<subseteq> (cthi_get_txid \<circ> fst) ` set hs \<and>
        (\<forall>h \<in> set hs. block_of h = lastblock \<longrightarrow> cthi_get_txid (fst h) \<in> set seen))"

lemma update_colored_stats_step_inv:
  assumes g: "grouped cthi_get_txid (hs @ [h])" and inv: "colored_inv init hs st"
  shows "colored_inv init (hs @ [h]) (update_colored_stats_step st h)"
proof -
  obtain cache seen lb where st: "st = (cache, seen, lb)" by (cases st)
  obtain i b where h: "h = (i, b)" by (cases h)
  define seen1 where "seen1 = (if lb \<noteq> map_option bid_hash b then [] else seen)"
  define seen2 where "seen2 = (if cthi_get_txid i \<in> set seen1 then seen1 else cthi_get_txid i # seen1)"
  note I = inv [unfolded st colored_inv_def prod.case]
  have in_block: "block_of x \<noteq> map_option bid_hash b" if "x \<in> set hs" "lb \<noteq> map_option bid_hash b" for x
    using grouped_snoc(2) [OF g _ _ that(1)] that I by (cases "hs = []") (auto simp: block_of_def h)
  have mem: "cthi_get_txid i \<in> set seen1 \<longleftrightarrow> cthi_get_txid i \<in> cthi_get_txid ` set (map fst hs)"
  proof
    assume "cthi_get_txid i \<in> set seen1"
    then show "cthi_get_txid i \<in> cthi_get_txid ` set (map fst hs)"
      using I by (auto simp: seen1_def image_comp split: if_splits)
  next
    assume "cthi_get_txid i \<in> cthi_get_txid ` set (map fst hs)"
    then obtain x where x: "x \<in> set hs" "cthi_get_txid (fst x) = cthi_get_txid i" by auto
    then have "block_of x = map_option bid_hash b"
      using grouped_snoc(3) [OF g x(1)] by (simp add: h block_of_def)
    moreover from this have "lb = map_option bid_hash b" using in_block x(1) by blast
    ultimately show "cthi_get_txid i \<in> set seen1" using I x by (auto simp: seen1_def)
  qed
  have card: "card (insert (cthi_get_txid i) (cthi_get_txid ` fst ` set hs)) =
      card (cthi_get_txid ` fst ` set hs) + (if cthi_get_txid i \<in> set seen1 then 0 else 1)"
    using mem by (simp add: insert_absorb image_comp)
  have run: "update_colored_stats_step st h = (colored_add init (map fst (hs @ [h])), seen2, map_option bid_hash b)"
    using I card by (cases i)
      (simp_all add: update_colored_stats_step_def st h seen1_def seen2_def Let_def colored_add_def add.assoc)
  have "set seen2 \<subseteq> (cthi_get_txid \<circ> fst) ` set (hs @ [h])"
    using I by (auto simp: seen1_def seen2_def h)
  moreover have "cthi_get_txid (fst x) \<in> set seen2" if "x \<in> set (hs @ [h])" "block_of x = map_option bid_hash b" for x
  proof (cases "x = h")
    case True
    then show ?thesis by (simp add: h seen2_def)
  next
    case False
    then have "x \<in> set hs" using that(1) by simp
    moreover from this have "lb = map_option bid_hash b" using in_block that(2) by blast
    ultimately show ?thesis using I that(2) by (auto simp: seen1_def seen2_def)
  qed
  moreover have "cthi_get_txid i \<in> set seen2" by (simp add: seen2_def)
  ultimately show ?thesis unfolding colored_inv_def run by (simp add: h block_of_def)
qed

text \<open>
  The statistics of a colour. For a history grouped by block, update_colored_stats adds the number of
  distinct transactions and the numbers and values of the issuing, transferring and burning entries.
\<close>

lemma update_colored_stats_counts:
  assumes "grouped cthi_get_txid hs"
  shows "update_colored_stats init hs =
    Inr (colored_add init (map fst hs), if hs = [] then None else block_of (last hs))"
proof -
  have "colored_inv init hs (foldl update_colored_stats_step (init, [], None) hs)"
    using assms
  proof (induction hs rule: rev_induct)
    case Nil
    then show ?case by (simp add: colored_inv_def colored_add_def)
  next
    case (snoc h hs)
    from update_colored_stats_step_inv [OF snoc.prems snoc.IH [OF grouped_snoc(1) [OF snoc.prems]]]
    show ?case by simp
  qed
  then show ?thesis
    by (auto simp: colored_inv_def update_colored_stats_def)
qed

lemma ex_colored_stats_counts:
  "\<exists>s. update_colored_stats (colored_stats_new default_color)
      [(Issuing \<lparr>ca_txid = 1, ca_value = 7\<rparr>, Some (ex_block 1)), (Transferring \<lparr>ca_txid = 1, ca_value = 2\<rparr>, Some (ex_block 1))] =
     Inr (s, Some 101) \<and> cs_tx_count s = 1 \<and> cs_issued_sum s = 7"
proof -
  let ?hs = "[(Issuing \<lparr>ca_txid = 1, ca_value = 7\<rparr>, Some (ex_block 1)), (Transferring \<lparr>ca_txid = 1, ca_value = 2\<rparr>, Some (ex_block 1))]"
  have "grouped cthi_get_txid ?hs"
    by (simp add: grouped_def ex_block_def block_of_def)
  from update_colored_stats_counts [OF this, of "colored_stats_new default_color"] show ?thesis
    by (simp add: colored_add_def colored_stats_new_def ex_block_def block_of_def cthi_get_txid_def)
qed

end
