(* ===== verification/Chain_Query.thy ===== *)
theory Chain_Query
  imports Indexer Stats
begin

text \<open>
  Queries of the confirmed chain (\<^verbatim>\<open>src/src/new_index/schema.rs\<close>, \<^verbatim>\<open>ChainQuery\<close>): blocks, transactions, spends,
  histories page by page, and unspent outputs and statistics through their caches. A query reads the store;
  the ones that update a cache return the store they leave. In light mode blocks and transactions come from
  the node, whose answers are the field \<open>cq_rpc\<close>.
\<close>

section \<open>Options that may panic\<close>

fun opt_then :: "'a option res \<Rightarrow> ('a \<Rightarrow> 'b option res) \<Rightarrow> 'b option res" where
  "opt_then (Inl e) f = Inl e"
| "opt_then (Inr None) f = Inr None"
| "opt_then (Inr (Some x)) f = f x"

lemma opt_then_eq_Some: "opt_then r f = Inr (Some y) \<longleftrightarrow> (\<exists>x. r = Inr (Some x) \<and> f x = Inr (Some y))"
  by (cases "(r, f)" rule: opt_then.cases) auto

text \<open>\<^verbatim>\<open>Result::ok\<close>, the first item of an iterator, and the first \<open>n\<close> of its items.\<close>

definition ok_res :: "'a res \<Rightarrow> 'a option res" where
  "ok_res r = (case r of Inl e \<Rightarrow> if is_panic e then Inl e else Inr None | Inr x \<Rightarrow> Inr (Some x))"

fun snext :: "'a stream \<Rightarrow> 'a option res" where
  "snext [] = Inr None"
| "snext (Inl e # s) = Inl e"
| "snext (Inr x # s) = Inr (Some x)"

record 'd chain_query =
  cq_ext :: "'d ext"
  cq_lib :: lib
  cq_rpc :: rpc
  cq_light_mode :: bool
  cq_network :: network

section \<open>The chain of headers\<close>

definition header_by_hash :: "'d store \<Rightarrow> blockhash \<Rightarrow> header_entry option" where
  "header_by_hash st hash = header_by_blockhash (sto_headers st) hash"

definition height_by_hash :: "'d store \<Rightarrow> blockhash \<Rightarrow> nat option" where
  "height_by_hash st hash = map_option he_height (header_by_blockhash (sto_headers st) hash)"

definition cq_header_by_height :: "'d store \<Rightarrow> nat \<Rightarrow> header_entry option res" where
  "cq_header_by_height st height = header_by_height (sto_headers st) height"

definition hash_by_height :: "'d store \<Rightarrow> nat \<Rightarrow> blockhash option res" where
  "hash_by_height st height = and_then (header_by_height (sto_headers st) height) (\<lambda>e. Inr (map_option he_hash e))"

definition blockid_by_height :: "'d store \<Rightarrow> nat \<Rightarrow> block_id option res" where
  "blockid_by_height st height = and_then (header_by_height (sto_headers st) height) (\<lambda>e. Inr (map_option block_id_from e))"

definition blockid_by_hash :: "'d store \<Rightarrow> blockhash \<Rightarrow> block_id option" where
  "blockid_by_hash st hash = map_option block_id_from (header_by_blockhash (sto_headers st) hash)"

text \<open>\<^verbatim>\<open>len() - 1\<close> of an unsigned length wraps around when there is no header.\<close>

definition best_height :: "'d store \<Rightarrow> nat" where
  "best_height st =
     (let n = header_list_len (sto_headers st) in if n = 0 then 2 ^ 64 - 1 else n - 1)"

definition best_hash :: "'d store \<Rightarrow> blockhash res" where
  "best_hash st = header_list_tip (sto_headers st)"

definition best_header :: "'d store \<Rightarrow> header_entry res" where
  "best_header st =
     and_then (header_list_tip (sto_headers st)) (\<lambda>tip.
       expect ''missing chain tip'' (header_by_blockhash (sto_headers st) tip))"

section \<open>Confirmations, spends and block status\<close>

definition tx_confirming_block :: "'d chain_query \<Rightarrow> 'd store \<Rightarrow> txid \<Rightarrow> block_id option res" where
  "tx_confirming_block Q st txid =
     and_then (snext (sfilter_map (\<lambda>row.
         and_then (tx_conf_row_from_row row) (\<lambda>conf.
           Inr (header_by_blockhash (sto_headers st) (tcr_blockhash conf))))
       (map Inr (db_iter_scan (rdb (cq_ext Q)) (sto_txstore st) (tx_conf_row_filter (full_hash txid))))))
       (\<lambda>r. Inr (map_option block_id_from r))"

record spending_input =
  sp_txid :: txid
  sp_vin :: u32
  sp_confirmed :: "block_id option"

definition chain_lookup_spend :: "'d chain_query \<Rightarrow> 'd store \<Rightarrow> outpoint \<Rightarrow> spending_input option res" where
  "chain_lookup_spend Q st outpoint =
     snext (sfilter_map (\<lambda>row.
         and_then (tx_edge_row_from_row (bc (cq_ext Q)) row) (\<lambda>edge.
         and_then (tx_confirming_block Q st (ter_spending_txid edge)) (\<lambda>b.
           Inr (map_option (\<lambda>b. \<lparr>sp_txid = ter_spending_txid edge, sp_vin = ucast (ter_spending_vin edge),
             sp_confirmed = Some b\<rparr>) b))))
       (map Inr (db_iter_scan (rdb (cq_ext Q)) (sto_history st) (tx_edge_row_filter (bc (cq_ext Q)) outpoint))))"

definition get_block_status :: "'d store \<Rightarrow> blockhash \<Rightarrow> block_status res" where
  "get_block_status st hash =
     (let headers = sto_headers st in
      case header_by_blockhash headers hash of
        None \<Rightarrow> Inr block_status_orphaned
      | Some header \<Rightarrow>
          and_then (header_by_height headers (he_height header + 1)) (\<lambda>next_header.
            Inr (block_status_confirmed (he_height header) (map_option he_hash next_header))))"

section \<open>Transactions\<close>

definition chain_lookup_raw_txn :: "'d chain_query \<Rightarrow> 'd store \<Rightarrow> txid \<Rightarrow> blockhash option \<Rightarrow> bytes option res" where
  "chain_lookup_raw_txn Q st txid blockhash =
     (if cq_light_mode Q then
        opt_then
          (case blockhash of
             Some h \<Rightarrow> Inr (Some h)
           | None \<Rightarrow> and_then (tx_confirming_block Q st txid) (\<lambda>b. Inr (map_option bid_hash b))) (\<lambda>blockhash.
        opt_then (ok_res (gettransaction_raw (cq_lib Q) (cq_rpc Q) txid blockhash False)) (\<lambda>txhex.
          and_then (expect ''unwrap'' (as_str txhex)) (\<lambda>s.
          and_then (expect ''unwrap'' (hex_decode (cq_lib Q) s)) (\<lambda>raw. Inr (Some raw)))))
      else Inr (db_get (rdb (cq_ext Q)) (sto_txstore st) (tx_row_key (full_hash txid))))"

definition chain_lookup_txn :: "'d chain_query \<Rightarrow> 'd store \<Rightarrow> txid \<Rightarrow> blockhash option \<Rightarrow> transaction option res" where
  "chain_lookup_txn Q st txid blockhash =
     opt_then (chain_lookup_raw_txn Q st txid blockhash) (\<lambda>rawtx.
       and_then (expect ''failed to parse Transaction'' (deserialize_tx (tap (cq_ext Q)) rawtx)) (\<lambda>txn.
       and_then (assert_res (txid = malfix_txid (tap (cq_ext Q)) txn) ''*txid == txn.malfix_txid()'') (\<lambda>_.
         Inr (Some txn))))"

definition chain_lookup_txns :: "'d chain_query \<Rightarrow> 'd store \<Rightarrow> (txid \<times> block_id) list \<Rightarrow> transaction list res" where
  "chain_lookup_txns Q st txids =
     map_res (\<lambda>(txid, blockid).
       and_then (chain_lookup_txn Q st txid (Some (bid_hash blockid))) (ok_or ''missing tx'')) txids"

definition chain_lookup_txo :: "'d chain_query \<Rightarrow> 'd store \<Rightarrow> outpoint \<Rightarrow> txout option res" where
  "chain_lookup_txo Q st outpoint = lookup_txo (cq_ext Q) (sto_txstore st) outpoint"

definition chain_lookup_txos :: "'d chain_query \<Rightarrow> 'd store \<Rightarrow> outpoint list \<Rightarrow> (outpoint, txout) hashmap res" where
  "chain_lookup_txos Q st outpoints = lookup_txos (cq_ext Q) (sto_txstore st) outpoints False"

definition lookup_avail_txos :: "'d chain_query \<Rightarrow> 'd store \<Rightarrow> outpoint list \<Rightarrow> (outpoint, txout) hashmap res" where
  "lookup_avail_txos Q st outpoints = lookup_txos (cq_ext Q) (sto_txstore st) outpoints True"

section \<open>Blocks\<close>

definition get_block_txids :: "'d chain_query \<Rightarrow> 'd store \<Rightarrow> blockhash \<Rightarrow> txid list option res" where
  "get_block_txids Q st hash =
     (if cq_light_mode Q then
        opt_then (ok_res (getblock_raw (cq_lib Q) (cq_rpc Q) hash 1)) (\<lambda>blockinfo.
        and_then (json_index_mut blockinfo ''tx'') (\<lambda>tx.
        and_then (expect ''unwrap'' (js_list (js_hash (cq_lib Q)) tx)) (\<lambda>txids. Inr (Some txids))))
      else
        case db_get (rdb (cq_ext Q)) (sto_txstore st) (block_row_txids_key hash) of
          None \<Rightarrow> Inr None
        | Some val \<Rightarrow>
            and_then (expect ''failed to parse block txids''
                (d_prefix (bc_de_seq (bc (cq_ext Q)) (bc_de_hash (bc (cq_ext Q)))) val)) (\<lambda>txids. Inr (Some txids)))"

definition get_block_meta :: "'d chain_query \<Rightarrow> 'd store \<Rightarrow> blockhash \<Rightarrow> block_meta option res" where
  "get_block_meta Q st hash =
     (if cq_light_mode Q then
        opt_then (ok_res (getblock_raw (cq_lib Q) (cq_rpc Q) hash 1)) (\<lambda>blockinfo.
        and_then (expect ''unwrap'' (js_block_meta blockinfo)) (\<lambda>meta. Inr (Some meta)))
      else
        case db_get (rdb (cq_ext Q)) (sto_txstore st) (block_row_meta_key hash) of
          None \<Rightarrow> Inr None
        | Some val \<Rightarrow>
            and_then (expect ''failed to parse BlockMeta'' (d_prefix (d_block_meta (bc (cq_ext Q))) val)) (\<lambda>meta.
              Inr (Some meta)))"

text \<open>The transactions of a block are appended until one is missing.\<close>

fun append_txns :: "'d chain_query \<Rightarrow> 'd store \<Rightarrow> txid list \<Rightarrow> bytes \<Rightarrow> bytes option res" where
  "append_txns Q st [] raw = Inr (Some raw)"
| "append_txns Q st (txid # txids) raw =
     opt_then (chain_lookup_raw_txn Q st txid None) (\<lambda>tx. append_txns Q st txids (raw @ tx))"

definition get_block_raw :: "'d chain_query \<Rightarrow> 'd store \<Rightarrow> blockhash \<Rightarrow> bytes option res" where
  "get_block_raw Q st hash =
     (if cq_light_mode Q then
        opt_then (ok_res (getblock_raw (cq_lib Q) (cq_rpc Q) hash 0)) (\<lambda>blockhex.
          and_then (expect ''unwrap'' (as_str blockhex)) (\<lambda>s.
          and_then (expect ''unwrap'' (hex_decode (cq_lib Q) s)) (\<lambda>raw. Inr (Some raw))))
      else
        opt_then (Inr (header_by_hash st hash)) (\<lambda>entry.
        opt_then (get_block_meta Q st hash) (\<lambda>meta.
        opt_then (get_block_txids Q st hash) (\<lambda>txids.
          append_txns Q st txids
            (serialize_header (tap (cq_ext Q)) (he_header entry) @ serialize_varint (cq_lib Q) (length txids))))))"

definition get_block_header :: "'d store \<Rightarrow> blockhash \<Rightarrow> block_header option" where
  "get_block_header st hash = map_option he_header (header_by_hash st hash)"

definition get_block_with_meta :: "'d chain_query \<Rightarrow> 'd store \<Rightarrow> blockhash \<Rightarrow> block_header_meta option res" where
  "get_block_with_meta Q st hash =
     opt_then (Inr (header_by_hash st hash)) (\<lambda>header_entry.
     opt_then (get_block_meta Q st hash) (\<lambda>meta.
       Inr (Some \<lparr>bhm_header_entry = header_entry, bhm_meta = meta\<rparr>)))"

definition get_merkleblock_proof :: "'d chain_query \<Rightarrow> 'd store \<Rightarrow> txid \<Rightarrow> bytes option res" where
  "get_merkleblock_proof Q st txid =
     opt_then (tx_confirming_block Q st txid) (\<lambda>blockid.
     opt_then (Inr (header_by_hash st (bid_hash blockid))) (\<lambda>headerentry.
     opt_then (get_block_txids Q st (bid_hash blockid)) (\<lambda>block_txids.
       Inr (Some (merkle_block (cq_lib Q) (he_header headerentry) block_txids [txid])))))"

section \<open>Histories\<close>

definition history_iter_scan :: "'d chain_query \<Rightarrow> 'd store \<Rightarrow> u8 \<Rightarrow> hash \<Rightarrow> nat \<Rightarrow> db_row list" where
  "history_iter_scan Q st code hash start_height =
     db_iter_scan_from (rdb (cq_ext Q)) (sto_history st) (tx_history_row_filter code hash)
       (tx_history_row_prefix_height (bo (cq_ext Q)) code hash (of_nat start_height))"

definition history_iter_scan_reverse :: "'d chain_query \<Rightarrow> 'd store \<Rightarrow> u8 \<Rightarrow> hash \<Rightarrow> db_row list" where
  "history_iter_scan_reverse Q st code hash =
     db_iter_scan_reverse (rdb (cq_ext Q)) (sto_history st) (tx_history_row_filter code hash)
       (tx_history_row_prefix_end (bc (cq_ext Q)) code hash)"

definition colored_history_iter_scan :: "'d chain_query \<Rightarrow> 'd store \<Rightarrow> color \<Rightarrow> nat \<Rightarrow> db_row list" where
  "colored_history_iter_scan Q st color_id start_height =
     db_iter_scan_from (rdb (cq_ext Q)) (sto_history st) (colored_row_filter (tap (cq_ext Q)) color_id)
       (colored_row_prefix_height (tap (cq_ext Q)) color_id (of_nat start_height))"

definition colored_history_iter_scan_reverse :: "'d chain_query \<Rightarrow> 'd store \<Rightarrow> color \<Rightarrow> db_row list" where
  "colored_history_iter_scan_reverse Q st color_id =
     db_iter_scan_reverse (rdb (cq_ext Q)) (sto_history st) (colored_row_filter (tap (cq_ext Q)) color_id)
       (colored_row_prefix_end (tap (cq_ext Q)) color_id)"

text \<open>The transactions of history rows, in order and without repetitions, from a page on, with their blocks.\<close>

definition history_row_txid :: "'d chain_query \<Rightarrow> db_row \<Rightarrow> txid res" where
  "history_row_txid Q row =
     and_then (tx_history_row_from_row (bo (cq_ext Q)) row) (\<lambda>k. Inr (thi_get_txid (thk_txinfo k)))"

definition colored_history_row_txid :: "'d chain_query \<Rightarrow> db_row \<Rightarrow> txid res" where
  "colored_history_row_txid Q row =
     and_then (colored_row_from_row (tap (cq_ext Q)) (bc (cq_ext Q)) row) (\<lambda>k. Inr (colored_row_get_txid k))"

definition after_last_seen :: "txid option \<Rightarrow> txid stream \<Rightarrow> txid stream" where
  "after_last_seen last_seen_txid txids =
     sskip (case last_seen_txid of Some _ \<Rightarrow> 1 | None \<Rightarrow> 0)
       (sskip_while (\<lambda>txid. case last_seen_txid of Some l \<Rightarrow> l \<noteq> txid | None \<Rightarrow> False) txids)"

definition confirmed_txids :: "'d chain_query \<Rightarrow> 'd store \<Rightarrow> txid stream \<Rightarrow> (txid \<times> block_id) stream" where
  "confirmed_txids Q st txids =
     sfilter_map (\<lambda>txid. and_then (tx_confirming_block Q st txid) (\<lambda>b. Inr (map_option (Pair txid) b))) txids"

definition history_by_code :: "'d chain_query \<Rightarrow> 'd store \<Rightarrow> u8 \<Rightarrow> hash \<Rightarrow> txid option \<Rightarrow> nat \<Rightarrow>
    (transaction \<times> block_id) list res" where
  "history_by_code Q st code hash last_seen_txid limit =
     and_then (collect (take limit (confirmed_txids Q st (after_last_seen last_seen_txid
         (sunique (map (history_row_txid Q) (history_iter_scan_reverse Q st code hash))))))) (\<lambda>txs_conf.
     and_then (unwrap ''failed looking up txs in history index'' (chain_lookup_txns Q st txs_conf)) (\<lambda>txs.
       Inr (zip txs (map snd txs_conf))))"

definition chain_history :: "'d chain_query \<Rightarrow> 'd store \<Rightarrow> scripthash \<Rightarrow> txid option \<Rightarrow> nat \<Rightarrow>
    (transaction \<times> block_id) list res" where
  "chain_history Q st scripthash last_seen_txid limit =
     history_by_code Q st (byte CHR ''H'') scripthash last_seen_txid limit"

definition history_txids_by_code ::
  "'d chain_query \<Rightarrow> 'd store \<Rightarrow> u8 \<Rightarrow> hash \<Rightarrow> nat \<Rightarrow> (txid \<times> block_id) list res" where
  "history_txids_by_code Q st code hash limit =
     collect (take limit (confirmed_txids Q st
       (sunique (map (history_row_txid Q) (history_iter_scan Q st code hash 0)))))"

definition chain_history_txids :: "'d chain_query \<Rightarrow> 'd store \<Rightarrow> scripthash \<Rightarrow> nat \<Rightarrow> (txid \<times> block_id) list res" where
  "chain_history_txids Q st scripthash limit = history_txids_by_code Q st (byte CHR ''H'') scripthash limit"

definition chain_get_colored_txs :: "'d chain_query \<Rightarrow> 'd store \<Rightarrow> color \<Rightarrow> txid option \<Rightarrow> nat \<Rightarrow>
    (transaction \<times> block_id option) list res" where
  "chain_get_colored_txs Q st color_id last_seen_txid limit =
     and_then (collect (take limit (confirmed_txids Q st (after_last_seen last_seen_txid
         (sunique (map (colored_history_row_txid Q) (colored_history_iter_scan_reverse Q st color_id))))))) (\<lambda>txids.
     and_then (unwrap ''failed looking up txs in color index'' (chain_lookup_txns Q st txids)) (\<lambda>txs.
       Inr (zip txs (map (\<lambda>(_, b). Some b) txids))))"

section \<open>Unspent outputs\<close>

record utxo =
  ut_txid :: txid
  ut_vout :: u32
  ut_confirmed :: "block_id option"
  ut_color_id :: color
  ut_value :: u64

definition utxo_outpoint :: "utxo \<Rightarrow> outpoint" where
  "utxo_outpoint u = \<lparr>op_txid = ut_txid u, op_vout = ut_vout u\<rparr>"

definition MIN_HISTORY_ITEMS_TO_CACHE :: nat where
  "MIN_HISTORY_ITEMS_TO_CACHE = 100"

definition from_utxo_cache :: "'d store \<Rightarrow> cached_utxo_map \<Rightarrow> utxo_map res" where
  "from_utxo_cache st utxos_cache =
     and_then (map_res (\<lambda>((txid, vout), (height, color_id, value)).
         and_then (blockid_by_height st (unat height)) (\<lambda>b.
         and_then (expect ''missing blockheader for valid utxo cache entry'' b) (\<lambda>blockid.
           Inr (\<lparr>op_txid = txid, op_vout = vout\<rparr>, (blockid, color_id, value))))) utxos_cache)
       (\<lambda>kvs. Inr (hm_collect kvs))"

text \<open>The history entries from a height on that are confirmed, with their blocks.\<close>

definition history_entries_from ::
  "'d chain_query \<Rightarrow> 'd store \<Rightarrow> scripthash \<Rightarrow> nat \<Rightarrow> (tx_history_info \<times> block_id) stream" where
  "history_entries_from Q st scripthash start_height =
     sfilter_map (\<lambda>k. and_then (tx_confirming_block Q st (thi_get_txid (thk_txinfo k))) (\<lambda>b.
         Inr (map_option (Pair (thk_txinfo k)) b)))
       (map (tx_history_row_from_row (bo (cq_ext Q)))
         (history_iter_scan Q st (byte CHR ''H'') scripthash start_height))"

definition utxo_step :: "nat \<Rightarrow> utxo_map \<times> blockhash option \<times> nat \<Rightarrow> (tx_history_info \<times> block_id) res \<Rightarrow>
    (utxo_map \<times> blockhash option \<times> nat) res" where
  "utxo_step limit st item =
     and_then item (\<lambda>(history, blockid).
       case st of (utxos, lastblock, processed_items) \<Rightarrow>
         let utxos = (case history of
               Funding info \<Rightarrow> hm_insert (thi_get_funded_outpoint history) (blockid, fi_color_id info, fi_value info) utxos
             | Spending info \<Rightarrow> hm_remove (thi_get_funded_outpoint history) utxos)
         in if limit < length utxos then Inl TooPopular
            else Inr (utxos, Some (bid_hash blockid), processed_items + 1))"

definition utxo_delta :: "'d chain_query \<Rightarrow> 'd store \<Rightarrow> scripthash \<Rightarrow> utxo_map \<Rightarrow> nat \<Rightarrow> nat \<Rightarrow>
    (utxo_map \<times> blockhash option \<times> nat) res" where
  "utxo_delta Q st scripthash init_utxos start_height limit =
     fold_res (utxo_step limit) (init_utxos, None, 0) (history_entries_from Q st scripthash start_height)"

definition cached_utxos :: "'d chain_query \<Rightarrow> 'd store \<Rightarrow> scripthash \<Rightarrow> (utxo_map \<times> nat) option res" where
  "cached_utxos Q st scripthash =
     (let B = bc (cq_ext Q) in
      case db_get (rdb (cq_ext Q)) (sto_cache st) (utxo_cache_row_key scripthash) of
        None \<Rightarrow> Inr None
      | Some c \<Rightarrow>
          and_then (expect ''unwrap'' (d_prefix (d_bind (bc_de_seq B (d_cached_utxo B)) (\<lambda>kvs.
              d_bind (bc_de_hash B) (\<lambda>h. d_ret (hm_collect kvs, h)))) c)) (\<lambda>(utxos_cache, blockhash).
            case height_by_hash st blockhash of
              None \<Rightarrow> Inr None
            | Some height \<Rightarrow> and_then (from_utxo_cache st utxos_cache) (\<lambda>m. Inr (Some (m, height)))))"

definition utxos_of_map :: "utxo_map \<Rightarrow> utxo list" where
  "utxos_of_map m =
     map (\<lambda>(outpoint, (blockid, color_id, value)).
       \<lparr>ut_txid = op_txid outpoint, ut_vout = op_vout outpoint, ut_confirmed = Some blockid,
        ut_color_id = color_id, ut_value = value\<rparr>) m"

definition chain_utxo :: "'d chain_query \<Rightarrow> 'd store \<Rightarrow> scripthash \<Rightarrow> nat \<Rightarrow> 'd store \<times> utxo list res" where
  "chain_utxo Q st scripthash limit =
     (case and_then (cached_utxos Q st scripthash) (\<lambda>cache.
           and_then
             (case cache of
                None \<Rightarrow> utxo_delta Q st scripthash [] 0 limit
              | Some (oldutxos, blockheight) \<Rightarrow> utxo_delta Q st scripthash oldutxos (blockheight + 1) limit)
             (\<lambda>r. Inr (cache \<noteq> None, r))) of
        Inl e \<Rightarrow> (st, Inl e)
      | Inr (had_cache, newutxos, lastblock, processed_items) \<Rightarrow>
          (case lastblock of
             None \<Rightarrow> st
           | Some lastblock \<Rightarrow>
               if had_cache \<or> MIN_HISTORY_ITEMS_TO_CACHE < processed_items
               then st\<lparr>sto_cache := db_write (rdb (cq_ext Q)) (sto_cache st)
                 [utxo_cache_row_into_row (utxo_cache_row_new (bc (cq_ext Q)) scripthash newutxos lastblock)] Enable\<rparr>
               else st,
           Inr (utxos_of_map newutxos)))"

section \<open>Statistics\<close>

definition stats_iter_scan :: "'d chain_query \<Rightarrow> 'd store \<Rightarrow> scripthash \<Rightarrow> color \<Rightarrow> db_row list" where
  "stats_iter_scan Q st scripthash start_color_id =
     db_iter_scan_from (rdb (cq_ext Q)) (sto_cache st) (stats_cache_row_key scripthash)
       (stats_cache_row_prefix_color_id (bo (cq_ext Q)) scripthash start_color_id)"

definition txo_count :: "stats_map \<Rightarrow> nat" where
  "txo_count stats = fold (\<lambda>x sum. sum + ss_funded_txo_count x + ss_spent_txo_count x) (map snd stats) 0"

definition stats_delta :: "'d chain_query \<Rightarrow> 'd store \<Rightarrow> scripthash \<Rightarrow> stats_map \<Rightarrow> nat \<Rightarrow>
    (stats_map \<times> blockhash option) res" where
  "stats_delta Q st scripthash init_stats start_height =
     and_then (collect (history_entries_from Q st scripthash start_height)) (\<lambda>histories.
       Inr (update_stats init_stats (map (\<lambda>(i, b). (i, Some b)) histories)))"

text \<open>
  The cached statistics per colour; the block height of the last row read is the one the update starts after,
  and \<open>None\<close> when that row's block is no longer in the best chain.
\<close>

definition cached_stats :: "'d chain_query \<Rightarrow> 'd store \<Rightarrow> scripthash \<Rightarrow> (stats_map \<times> nat option) res" where
  "cached_stats Q st scripthash =
     (let B = bc (cq_ext Q) in
      and_then (map_res (\<lambda>row.
          and_then (stats_cache_row_from_row B row) (\<lambda>s.
          and_then (expect ''unwrap'' (d_prefix (d_bind (d_script_stats B) (\<lambda>stat.
              d_bind (bc_de_hash B) (\<lambda>h. d_ret (stat, h)))) (scr_value s))) (\<lambda>(stat, blockhash).
            Inr ((scr_color_id s, stat), height_by_hash st blockhash))))
        (stats_iter_scan Q st scripthash default_color)) (\<lambda>rows.
          Inr (hm_collect (map fst rows), if rows = [] then None else snd (last rows))))"

definition chain_stats :: "'d chain_query \<Rightarrow> 'd store \<Rightarrow> scripthash \<Rightarrow> 'd store \<times> stats_map res" where
  "chain_stats Q st scripthash =
     (case and_then (cached_stats Q st scripthash) (\<lambda>(stats, blockheight).
           stats_delta Q st scripthash stats (case blockheight of Some height \<Rightarrow> height + 1 | None \<Rightarrow> 0)) of
        Inl e \<Rightarrow> (st, Inl e)
      | Inr (newstats, lastblock) \<Rightarrow>
          (case lastblock of
             None \<Rightarrow> st
           | Some lastblock \<Rightarrow>
               if MIN_HISTORY_ITEMS_TO_CACHE < txo_count newstats
               then fold (\<lambda>(key, stat) st. st\<lparr>sto_cache := db_write (rdb (cq_ext Q)) (sto_cache st)
                   [stats_cache_row_into_row (bc (cq_ext Q))
                      (stats_cache_row_new (bc (cq_ext Q)) scripthash key stat lastblock)] Enable\<rparr>) newstats st
               else st,
           Inr newstats))"

section \<open>Colours\<close>

definition get_height_by_color_id :: "'d chain_query \<Rightarrow> 'd store \<Rightarrow> color \<Rightarrow> u32 option res" where
  "get_height_by_color_id Q st color_id =
     snext (map (\<lambda>row. and_then (colored_row_from_row (tap (cq_ext Q)) (bc (cq_ext Q)) row) (\<lambda>k.
       Inr (ck_confirmed_height k))) (colored_history_iter_scan_reverse Q st color_id))"

definition chain_get_colors ::
  "'d chain_query \<Rightarrow> 'd store \<Rightarrow> u32 \<Rightarrow> color option \<Rightarrow> nat \<Rightarrow> (color \<times> u32) list res" where
  "chain_get_colors Q st block_height last_seen_color_id limit =
     collect (take limit (sskip (if last_seen_color_id \<noteq> None then 1 else 0)
       (sfilter_map (\<lambda>row.
           and_then (color_id_row_from_row (tap (cq_ext Q)) row) (\<lambda>r.
           and_then (get_height_by_color_id Q st (cir_color_id r)) (\<lambda>result.
             Inr (case result of
                 Some h \<Rightarrow> if h \<le> cir_block_height r then Some (cir_color_id r, cir_block_height r) else None
               | None \<Rightarrow> None))))
         (map Inr (db_iter_scan_reverse (rdb (cq_ext Q)) (sto_history st) color_id_row_prefix
           (color_id_row_filter_end (tap (cq_ext Q)) block_height last_seen_color_id))))))"

definition colored_stats_delta :: "'d chain_query \<Rightarrow> 'd store \<Rightarrow> color \<Rightarrow> colored_stats \<Rightarrow> nat \<Rightarrow>
    (colored_stats \<times> blockhash option) res" where
  "colored_stats_delta Q st color_id init_cache start_height =
     and_then (collect (sfilter_map (\<lambda>k.
         and_then (tx_confirming_block Q st (cthi_get_txid (ck_txinfo k))) (\<lambda>b.
           Inr (map_option (\<lambda>b. (ck_txinfo k, Some b)) b)))
       (map (colored_row_from_row (tap (cq_ext Q)) (bc (cq_ext Q)))
         (colored_history_iter_scan Q st color_id start_height)))) (\<lambda>histories.
       update_colored_stats init_cache histories)"

definition cached_colored_stats :: "'d chain_query \<Rightarrow> 'd store \<Rightarrow> color \<Rightarrow> (colored_stats \<times> nat) option res" where
  "cached_colored_stats Q st color_id =
     (let B = bc (cq_ext Q) in
      case db_get (rdb (cq_ext Q)) (sto_cache st) (colored_stats_cache_row_key (tap (cq_ext Q)) color_id) of
        None \<Rightarrow> Inr None
      | Some c \<Rightarrow>
          and_then (expect ''unwrap'' (d_prefix (d_bind (d_colored_stats B) (\<lambda>s.
              d_bind (bc_de_hash B) (\<lambda>h. d_ret (s, h)))) c)) (\<lambda>(colored_stats_cache, blockhash).
            Inr (map_option (Pair colored_stats_cache) (height_by_hash st blockhash))))"

definition chain_get_colored_stats :: "'d chain_query \<Rightarrow> 'd store \<Rightarrow> color \<Rightarrow> 'd store \<times> colored_stats res" where
  "chain_get_colored_stats Q st color_id =
     (case and_then (cached_colored_stats Q st color_id) (\<lambda>cache.
           case cache of
             None \<Rightarrow> colored_stats_delta Q st color_id (colored_stats_new color_id) 0
           | Some (oldcache, blockheight) \<Rightarrow> colored_stats_delta Q st color_id oldcache (blockheight + 1)) of
        Inl e \<Rightarrow> (st, Inl e)
      | Inr (newcache, lastblock) \<Rightarrow>
          (case lastblock of
             None \<Rightarrow> st
           | Some lastblock \<Rightarrow> st\<lparr>sto_cache := db_write (rdb (cq_ext Q)) (sto_cache st)
               [colored_stats_cache_row_into_row (tap (cq_ext Q))
                  (colored_stats_cache_row_new (bc (cq_ext Q)) color_id newcache lastblock)] Enable\<rparr>,
           Inr newcache))"

section \<open>Addresses\<close>

text \<open>The stored addresses are ASCII, so that their bytes are their characters.\<close>

definition address_search :: "'d chain_query \<Rightarrow> 'd store \<Rightarrow> string \<Rightarrow> nat \<Rightarrow> string list" where
  "address_search Q st pre limit =
     map (\<lambda>row. map (\<lambda>b. char_of (unat b)) (tl (row_key row)))
       (take limit (db_iter_scan (rdb (cq_ext Q)) (sto_history st) (addr_search_filter pre)))"

end
