(* ===== verification/Mempool.thy ===== *)
theory Mempool
  imports Chain_Query
begin

text \<open>
  The mempool (\<^verbatim>\<open>src/src/new_index/mempool.rs\<close>): unconfirmed transactions with their history entries, spend
  edges, colour histories, fees and overviews; adding and removing transactions, the update that follows
  the node, and the queries. A panic of an operation is its error value; nothing of the state survives it.
\<close>

section \<open>State\<close>

record tx_overview =
  tov_txid :: txid
  tov_fee :: u64
  tov_vsize :: u32
  tov_time :: u32
  tov_value :: u64

record backlog_stats =
  bls_count :: u32
  bls_vsize :: u32
  bls_total_fee :: u64
  bls_fee_histogram :: "(f32 \<times> u32) list"

definition backlog_stats_default :: backlog_stats where
  "backlog_stats_default = \<lparr>bls_count = 0, bls_vsize = 0, bls_total_fee = 0, bls_fee_histogram = [(Fin 0, 0)]\<rparr>"

definition backlog_stats_new :: "(txid, tx_fee_info) hashmap \<Rightarrow> backlog_stats res" where
  "backlog_stats_new feeinfo =
     (let (count, vsize, total_fee) = foldl (\<lambda>(count, vsize, fee) info.
            (count + 1, vsize + tfi_vsize info, fee + tfi_fee info)) (0, 0, 0) (map snd feeinfo)
      in and_then (make_fee_histogram (map snd feeinfo)) (\<lambda>h.
           Inr \<lparr>bls_count = count, bls_vsize = vsize, bls_total_fee = total_fee, bls_fee_histogram = h\<rparr>))"

text \<open>Times are in nanoseconds of the monotonic clock.\<close>

definition BACKLOG_STATS_TTL :: nat where
  "BACKLOG_STATS_TTL = 10 * 1000000000"

definition RECENT_TXS_SIZE :: nat where
  "RECENT_TXS_SIZE = 10"

record mempool =
  mp_txstore :: "(txid, transaction) hashmap"
  mp_feeinfo :: "(txid, tx_fee_info) hashmap"
  mp_history :: "(scripthash, tx_history_info list) hashmap"
  mp_colors :: "(color, colored_tx_history_info list) hashmap"
  mp_edges :: "(outpoint, txid \<times> u32) hashmap"
  mp_recent :: "tx_overview list"
  mp_overviews :: "(txid, tx_overview) hashmap"
  mp_backlog_stats :: "backlog_stats \<times> nat"

definition mempool_new :: "nat \<Rightarrow> mempool" where
  "mempool_new now = \<lparr>mp_txstore = [], mp_feeinfo = [], mp_history = [], mp_colors = [], mp_edges = [],
     mp_recent = [], mp_overviews = [], mp_backlog_stats = (backlog_stats_default, now - BACKLOG_STATS_TTL)\<rparr>"

section \<open>Queries\<close>

definition mp_lookup_txn :: "mempool \<Rightarrow> txid \<Rightarrow> transaction option" where
  "mp_lookup_txn mp txid = hm_get (mp_txstore mp) txid"

definition mp_lookup_raw_txn :: "tapyrus \<Rightarrow> mempool \<Rightarrow> txid \<Rightarrow> bytes option" where
  "mp_lookup_raw_txn T mp txid = map_option (serialize_tx T) (hm_get (mp_txstore mp) txid)"

definition mp_lookup_spend :: "mempool \<Rightarrow> outpoint \<Rightarrow> spending_input option" where
  "mp_lookup_spend mp outpoint =
     map_option (\<lambda>(txid, vin). \<lparr>sp_txid = txid, sp_vin = vin, sp_confirmed = None\<rparr>) (hm_get (mp_edges mp) outpoint)"

definition has_spend :: "mempool \<Rightarrow> outpoint \<Rightarrow> bool" where
  "has_spend mp outpoint \<longleftrightarrow> hm_get (mp_edges mp) outpoint \<noteq> None"

definition mp_get_tx_fee :: "mempool \<Rightarrow> txid \<Rightarrow> u64 option" where
  "mp_get_tx_fee mp txid = map_option tfi_fee (hm_get (mp_feeinfo mp) txid)"

definition mp_has_unconfirmed_parents :: "mempool \<Rightarrow> txid \<Rightarrow> bool" where
  "mp_has_unconfirmed_parents mp txid =
     (case hm_get (mp_txstore mp) txid of
        None \<Rightarrow> False
      | Some tx \<Rightarrow>
          list_ex (\<lambda>txin. hm_get (mp_txstore mp) (op_txid (txi_previous_output txin)) \<noteq> None) (tx_input tx))"

definition entries_of_script :: "mempool \<Rightarrow> scripthash \<Rightarrow> tx_history_info list" where
  "entries_of_script mp scripthash = (case hm_get (mp_history mp) scripthash of Some es \<Rightarrow> es | None \<Rightarrow> [])"

definition mp_history_txs :: "mempool \<Rightarrow> scripthash \<Rightarrow> nat \<Rightarrow> transaction list res" where
  "mp_history_txs mp scripthash limit =
     map_res (\<lambda>txid. expect ''missing mempool tx'' (hm_get (mp_txstore mp) txid))
       (take limit (unique (map thi_get_txid (entries_of_script mp scripthash))))"

definition mp_history_txids :: "mempool \<Rightarrow> scripthash \<Rightarrow> nat \<Rightarrow> txid list" where
  "mp_history_txids mp scripthash limit = take limit (unique (map thi_get_txid (entries_of_script mp scripthash)))"

fun mempool_utxo_of :: "tx_history_info \<Rightarrow> utxo option" where
  "mempool_utxo_of (Funding info) =
     Some \<lparr>ut_txid = fi_txid info, ut_vout = ucast (fi_vout info), ut_confirmed = None,
       ut_color_id = fi_color_id info, ut_value = fi_value info\<rparr>"
| "mempool_utxo_of (Spending info) = None"

definition mp_utxo :: "mempool \<Rightarrow> scripthash \<Rightarrow> utxo list" where
  "mp_utxo mp scripthash =
     filter (\<lambda>u. \<not> has_spend mp (utxo_outpoint u))
       (List.map_filter mempool_utxo_of (entries_of_script mp scripthash))"

definition mp_stats :: "mempool \<Rightarrow> scripthash \<Rightarrow> stats_map" where
  "mp_stats mp scripthash =
     fst (update_stats [] (map (\<lambda>e. (e, None)) (entries_of_script mp scripthash)))"

definition entries_of_color :: "mempool \<Rightarrow> color \<Rightarrow> colored_tx_history_info list" where
  "entries_of_color mp color_id = (case hm_get (mp_colors mp) color_id of Some es \<Rightarrow> es | None \<Rightarrow> [])"

definition mp_get_colored_stats :: "mempool \<Rightarrow> color \<Rightarrow> colored_stats res" where
  "mp_get_colored_stats mp color_id =
     and_then (update_colored_stats (colored_stats_new color_id) (map (\<lambda>e. (e, None)) (entries_of_color mp color_id)))
       (\<lambda>(stats, _). Inr stats)"

definition mp_get_colored_txs :: "mempool \<Rightarrow> color \<Rightarrow> (transaction \<times> block_id option) list res" where
  "mp_get_colored_txs mp color_id =
     map_res (\<lambda>info. and_then (expect ''missing mempool tx'' (hm_get (mp_txstore mp) (cthi_get_txid info)))
       (\<lambda>tx. Inr (tx, None))) (entries_of_color mp color_id)"

definition mp_txids :: "mempool \<Rightarrow> txid list" where
  "mp_txids mp = map fst (mp_txstore mp)"

definition recent_txs_overview :: "mempool \<Rightarrow> tx_overview list" where
  "recent_txs_overview mp = mp_recent mp"

text \<open>The stable sort by decreasing time: what it sorts by is the complement of the time.\<close>

definition txs_overview :: "mempool \<Rightarrow> tx_overview list" where
  "txs_overview mp = sort_key (\<lambda>t. - 1 - tov_time t) (map snd (mp_overviews mp))"

definition mp_backlog :: "mempool \<Rightarrow> backlog_stats" where
  "mp_backlog mp = fst (mp_backlog_stats mp)"

section \<open>Previous outputs\<close>

definition mp_lookup_txos :: "'d chain_query \<Rightarrow> 'd store \<Rightarrow> mempool \<Rightarrow> outpoint list \<Rightarrow> (outpoint, txout) hashmap res" where
  "mp_lookup_txos Q st mp outpoints =
     and_then (lookup_avail_txos Q st outpoints) (\<lambda>confirmed_txos.
     and_then (map_res (\<lambda>outpoint.
         and_then (ok_or ''missing outpoint'' (Option.bind (hm_get (mp_txstore mp) (op_txid outpoint)) (\<lambda>tx.
             if unat (op_vout outpoint) < length (tx_output tx) then Some (tx_output tx ! unat (op_vout outpoint))
             else None))) (\<lambda>txout. Inr (outpoint, txout)))
       (filter (\<lambda>o'. hm_get confirmed_txos o' = None) outpoints)) (\<lambda>mempool_txos.
       Inr (fold (\<lambda>(k, v). hm_insert k v) (hm_collect mempool_txos) confirmed_txos)))"

definition mp_lookup_txo :: "'d chain_query \<Rightarrow> 'd store \<Rightarrow> mempool \<Rightarrow> outpoint \<Rightarrow> txout res" where
  "mp_lookup_txo Q st mp outpoint =
     and_then (mp_lookup_txos Q st mp [outpoint]) (\<lambda>m. expect ''unwrap'' (hm_get m outpoint))"

definition mp_get_prevouts :: "mempool \<Rightarrow> txid list \<Rightarrow> outpoint list res" where
  "mp_get_prevouts mp txids =
     and_then (map_res (\<lambda>txid. expect ''missing mempool tx'' (hm_get (mp_txstore mp) txid)) txids) (\<lambda>txs.
       Inr (remdups (concat (map tx_prevouts txs))))"

section \<open>Adding transactions\<close>

text \<open>\<^verbatim>\<open>entry(k).or_insert_with(Vec::new).push(x)\<close>.\<close>

definition push_entry :: "'k \<Rightarrow> 'v \<Rightarrow> ('k, 'v list) hashmap \<Rightarrow> ('k, 'v list) hashmap" where
  "push_entry k x m = hm_insert k ((case hm_get m k of Some xs \<Rightarrow> xs | None \<Rightarrow> []) @ [x]) m"

definition push_entries :: "('k \<times> 'v) list \<Rightarrow> ('k, 'v list) hashmap \<Rightarrow> ('k, 'v list) hashmap" where
  "push_entries kvs m = fold (\<lambda>(k, x). push_entry k x) kvs m"

definition mp_spending_entry ::
  "tapyrus \<Rightarrow> transaction \<Rightarrow> u32 \<times> txout \<Rightarrow> (scripthash \<times> tx_history_info) list res" where
  "mp_spending_entry T tx e =
     (case e of (input_index, prevout) \<Rightarrow>
       and_then (expect ''unwrap''
           (if unat input_index < length (tx_input tx) then Some (tx_input tx ! unat input_index) else None)) (\<lambda>txi.
         let prev = txi_previous_output txi; spk = txo_script_pubkey prevout;
             entry = (\<lambda>script color_id. (compute_script_hash T script,
               Spending \<lparr>si_txid = malfix_txid T tx, si_vin = ucast input_index, si_prev_txid = op_txid prev,
                 si_prev_vout = ucast (op_vout prev), si_color_id = color_id, si_value = txo_value prevout\<rparr>))
         in Inr (case split_color T spk of
               Some (color_id, script) \<Rightarrow> [entry spk color_id, entry script color_id]
             | None \<Rightarrow> [entry spk default_color])))"

definition mp_spending_entries ::
  "tapyrus \<Rightarrow> transaction \<Rightarrow> (u32, txout) hashmap \<Rightarrow> (scripthash \<times> tx_history_info) list res" where
  "mp_spending_entries T tx prevouts =
     and_then (map_res (mp_spending_entry T tx) prevouts) (\<lambda>es. Inr (concat es))"

definition mp_funding_entries :: "tapyrus \<Rightarrow> bool \<Rightarrow> transaction \<Rightarrow> (scripthash \<times> tx_history_info) list" where
  "mp_funding_entries T index_unspendables tx =
     concat (map (\<lambda>(index, txo).
         let spk = txo_script_pubkey txo;
             entry = (\<lambda>script color_id. (compute_script_hash T script,
               Funding \<lparr>fi_txid = malfix_txid T tx, fi_vout = of_nat index, fi_color_id = color_id,
                 fi_value = txo_value txo, fi_open_asset = None\<rparr>))
         in case split_color T spk of
             Some (color_id, script) \<Rightarrow> [entry spk color_id, entry script color_id]
           | None \<Rightarrow> [entry spk default_color])
       (filter (\<lambda>(_, txo). is_spendable T txo \<or> index_unspendables) (enumerate 0 (tx_output tx))))"

definition add_tx :: "tapyrus \<Rightarrow> bool \<Rightarrow> (outpoint, txout) hashmap \<Rightarrow> mempool \<Rightarrow> u32 \<times> transaction \<Rightarrow> mempool res" where
  "add_tx T index_unspendables txos mp e =
     (case e of (time, tx) \<Rightarrow>
        let txid = malfix_txid T tx in
        and_then (expect ''missing mempool tx'' (hm_get (mp_txstore mp) txid)) (\<lambda>tx.
        and_then (extract_tx_prevouts tx txos False) (\<lambda>prevouts.
          let feeinfo = tx_fee_info_new T tx prevouts;
              overview = \<lparr>tov_txid = txid, tov_fee = tfi_fee feeinfo, tov_vsize = tfi_vsize feeinfo, tov_time = time,
                tov_value = sum_list (map txo_value (map snd prevouts))\<rparr>
          in and_then (mp_spending_entries T tx prevouts) (\<lambda>spending.
               Inr (mp\<lparr>
                 mp_recent := take RECENT_TXS_SIZE (overview # mp_recent mp),
                 mp_overviews := hm_insert txid overview (mp_overviews mp),
                 mp_feeinfo := hm_insert txid feeinfo (mp_feeinfo mp),
                 mp_history := push_entries (mp_funding_entries T index_unspendables tx @ spending) (mp_history mp),
                 mp_edges := fold (\<lambda>(i, txi). hm_insert (txi_previous_output txi) (txid, of_nat i))
                   (enumerate 0 (tx_input tx)) (mp_edges mp),
                 mp_colors := push_entries (colored_tx_history T tx txos) (mp_colors mp)\<rparr>)))))"

text \<open>
  Phase 1 stores the transactions; phase 2, which indexes them, is skipped when a previous output is unknown,
  with the transactions left stored.
\<close>

definition mp_store_txs :: "tapyrus \<Rightarrow> (u32 \<times> transaction) list \<Rightarrow> mempool \<Rightarrow> mempool" where
  "mp_store_txs T txs mp =
     mp\<lparr>mp_txstore := fold (\<lambda>(_, tx). hm_insert (malfix_txid T tx) tx) txs (mp_txstore mp)\<rparr>"

definition mempool_add :: "'d chain_query \<Rightarrow> 'd store \<Rightarrow> bool \<Rightarrow> (u32 \<times> transaction) list \<Rightarrow> mempool \<Rightarrow> mempool res" where
  "mempool_add Q st index_unspendables txs mp =
     (let T = tap (cq_ext Q); mp = mp_store_txs T txs mp in
      and_then (mp_get_prevouts mp (map (\<lambda>(_, tx). malfix_txid T tx) txs)) (\<lambda>prevouts.
        case mp_lookup_txos Q st mp prevouts of
          Inl e \<Rightarrow> if is_panic e then Inl e else Inr mp
        | Inr txos \<Rightarrow> fold_res (add_tx T index_unspendables txos) mp txs))"

section \<open>Removing transactions\<close>

definition remove_tx :: "mempool \<Rightarrow> txid \<Rightarrow> mempool res" where
  "remove_tx mp txid =
     and_then (expect ''missing mempool tx'' (hm_get (mp_txstore mp) txid)) (\<lambda>_.
       Inr (mp\<lparr>mp_txstore := hm_remove txid (mp_txstore mp),
               mp_overviews := hm_remove txid (mp_overviews mp),
               mp_feeinfo := hm_remove txid (mp_feeinfo mp)\<rparr>))"

text \<open>\<^verbatim>\<open>retain\<close> of a map of lists: entries filtered, empty lists dropped.\<close>

definition retain_entries :: "('v \<Rightarrow> bool) \<Rightarrow> ('k, 'v list) hashmap \<Rightarrow> ('k, 'v list) hashmap" where
  "retain_entries P m = filter (\<lambda>(_, es). es \<noteq> []) (map (\<lambda>(k, es). (k, filter P es)) m)"

definition mempool_remove :: "txid list \<Rightarrow> mempool \<Rightarrow> mempool res" where
  "mempool_remove to_remove mp =
     and_then (fold_res remove_tx mp to_remove) (\<lambda>mp.
       Inr (mp\<lparr>
         mp_history := retain_entries (\<lambda>entry. thi_get_txid entry \<notin> set to_remove) (mp_history mp),
         mp_edges := filter (\<lambda>(_, (txid, _)). txid \<notin> set to_remove) (mp_edges mp),
         mp_colors := retain_entries (\<lambda>entry. cthi_get_txid entry \<notin> set to_remove) (mp_colors mp)\<rparr>))"

section \<open>Following the node\<close>

definition update_backlog_stats :: "nat \<Rightarrow> mempool \<Rightarrow> mempool res" where
  "update_backlog_stats now mp =
     (if BACKLOG_STATS_TTL < now - snd (mp_backlog_stats mp)
      then and_then (backlog_stats_new (mp_feeinfo mp)) (\<lambda>s. Inr (mp\<lparr>mp_backlog_stats := (s, now)\<rparr>))
      else Inr mp)"

definition mempool_update :: "'d chain_query \<Rightarrow> 'd store \<Rightarrow> bool \<Rightarrow> nat \<Rightarrow> mempool \<Rightarrow> mempool res" where
  "mempool_update Q st index_unspendables now mp =
     (let L = cq_lib Q; T = tap (cq_ext Q); D = cq_rpc Q in
      and_then (chain_err ''failed to update mempool from daemon'' (getmempool L D)) (\<lambda>txs.
        let new_txids = map fst txs; old_txids = mp_txids mp;
            to_remove = filter (\<lambda>t. t \<notin> set new_txids) old_txids;
            txids = filter (\<lambda>t. t \<notin> set old_txids) new_txids
        in case gettransactions L T D txids of
             Inl e \<Rightarrow> if is_panic e then Inl e else Inr mp
           | Inr to_add_tx \<Rightarrow>
               and_then (map_res (\<lambda>tx.
                   and_then (expect ''failed to get mempool tx'' (hm_get txs (malfix_txid T tx))) (\<lambda>mempooltx.
                     Inr (mt_time mempooltx, tx))) to_add_tx) (\<lambda>to_add.
               and_then (mempool_add Q st index_unspendables to_add mp) (\<lambda>mp.
               and_then (mempool_remove to_remove mp) (\<lambda>mp.
                 update_backlog_stats now mp)))))"

definition add_by_txid :: "'d chain_query \<Rightarrow> 'd store \<Rightarrow> bool \<Rightarrow> txid \<Rightarrow> mempool \<Rightarrow> mempool res" where
  "add_by_txid Q st index_unspendables txid mp =
     (if hm_get (mp_txstore mp) txid \<noteq> None then Inr mp
      else case getmempooltx (cq_lib Q) (cq_rpc Q) txid of
          Inl e \<Rightarrow> if is_panic e then Inl e else Inr mp
        | Inr mempooltx \<Rightarrow>
            (case gettransactions (cq_lib Q) (tap (cq_ext Q)) (cq_rpc Q) [mt_txid mempooltx] of
               Inl e \<Rightarrow> if is_panic e then Inl e else Inr mp
             | Inr txs \<Rightarrow>
                 and_then (expect ''unwrap'' (if txs = [] then None else Some (hd txs))) (\<lambda>tx.
                   mempool_add Q st index_unspendables [(mt_time mempooltx, tx)] mp)))"

end
