(* ===== verification/Query.thy ===== *)
theory Query
  imports Mempool
begin

text \<open>
  Queries over the chain and the mempool together (\<^verbatim>\<open>src/src/new_index/query.rs\<close>), with the caches of fee
  estimates and of the relay fee, and the open-assets colouring of a transaction, which follows its
  inputs back through their transactions and need not return.
\<close>

section \<open>State\<close>

record query_config =
  qc_utxos_limit :: nat
  qc_network :: network
  qc_index_unspendables :: bool

record 'd query =
  qy_store :: "'d store"
  qy_mempool :: mempool
  qy_estimates :: "(u16, rat) hashmap \<times> nat option"
  qy_relayfee :: "rat option"

definition FEE_ESTIMATES_TTL :: nat where
  "FEE_ESTIMATES_TTL = 60 * 1000000000"

definition CONF_TARGETS :: "u16 list" where
  "CONF_TARGETS = [1, 2, 3, 4, 5, 6, 7, 8, 9, 10, 11, 12, 13, 14, 15, 16, 17, 18, 19, 20, 21, 22, 23, 24, 25,
     144, 504, 1008]"

definition query_new :: "'d store \<Rightarrow> mempool \<Rightarrow> 'd query" where
  "query_new st mp = \<lparr>qy_store = st, qy_mempool = mp, qy_estimates = ([], None), qy_relayfee = None\<rparr>"

section \<open>Transactions\<close>

definition query_broadcast_raw :: "'d chain_query \<Rightarrow> query_config \<Rightarrow> string \<Rightarrow> 'd query \<Rightarrow> 'd query \<times> txid res" where
  "query_broadcast_raw Q cfg txhex q =
     (case daemon_broadcast_raw (cq_lib Q) (cq_rpc Q) txhex of
        Inl e \<Rightarrow> (q, Inl e)
      | Inr txid \<Rightarrow>
          (case add_by_txid Q (qy_store q) (qc_index_unspendables cfg) txid (qy_mempool q) of
             Inl e \<Rightarrow> (q, Inl e)
           | Inr mp \<Rightarrow> (q\<lparr>qy_mempool := mp\<rparr>, Inr txid)))"

definition query_lookup_txn :: "'d chain_query \<Rightarrow> 'd query \<Rightarrow> txid \<Rightarrow> transaction option res" where
  "query_lookup_txn Q q txid =
     and_then (chain_lookup_txn Q (qy_store q) txid None) (\<lambda>r.
       Inr (case r of Some tx \<Rightarrow> Some tx | None \<Rightarrow> mp_lookup_txn (qy_mempool q) txid))"

definition query_lookup_raw_txn :: "'d chain_query \<Rightarrow> 'd query \<Rightarrow> txid \<Rightarrow> bytes option res" where
  "query_lookup_raw_txn Q q txid =
     and_then (chain_lookup_raw_txn Q (qy_store q) txid None) (\<lambda>r.
       Inr (case r of Some raw \<Rightarrow> Some raw | None \<Rightarrow> mp_lookup_raw_txn (tap (cq_ext Q)) (qy_mempool q) txid))"

definition query_lookup_txos :: "'d chain_query \<Rightarrow> 'd query \<Rightarrow> outpoint list \<Rightarrow> (outpoint, txout) hashmap res" where
  "query_lookup_txos Q q outpoints =
     unwrap ''failed loading txos'' (mp_lookup_txos Q (qy_store q) (qy_mempool q) outpoints)"

definition query_lookup_spend :: "'d chain_query \<Rightarrow> 'd query \<Rightarrow> outpoint \<Rightarrow> spending_input option res" where
  "query_lookup_spend Q q outpoint =
     and_then (chain_lookup_spend Q (qy_store q) outpoint) (\<lambda>r.
       Inr (case r of Some s \<Rightarrow> Some s | None \<Rightarrow> mp_lookup_spend (qy_mempool q) outpoint))"

definition lookup_tx_spends :: "'d chain_query \<Rightarrow> 'd query \<Rightarrow> transaction \<Rightarrow> spending_input option list res" where
  "lookup_tx_spends Q q tx =
     map_res (\<lambda>(vout, txout).
       if is_spendable (tap (cq_ext Q)) txout
       then query_lookup_spend Q q \<lparr>op_txid = malfix_txid (tap (cq_ext Q)) tx, op_vout = of_nat vout\<rparr>
       else Inr None) (enumerate 0 (tx_output tx))"

definition get_tx_status :: "'d chain_query \<Rightarrow> 'd query \<Rightarrow> txid \<Rightarrow> transaction_status res" where
  "get_tx_status Q q txid =
     and_then (tx_confirming_block Q (qy_store q) txid) (\<lambda>b. Inr (transaction_status_from b))"

definition get_mempool_tx_fee :: "'d query \<Rightarrow> txid \<Rightarrow> u64 option" where
  "get_mempool_tx_fee q txid = mp_get_tx_fee (qy_mempool q) txid"

definition query_has_unconfirmed_parents :: "'d query \<Rightarrow> txid \<Rightarrow> bool" where
  "query_has_unconfirmed_parents q txid = mp_has_unconfirmed_parents (qy_mempool q) txid"

section \<open>Scripts\<close>

definition query_utxo :: "'d chain_query \<Rightarrow> query_config \<Rightarrow> scripthash \<Rightarrow> 'd query \<Rightarrow> 'd query \<times> utxo list res" where
  "query_utxo Q cfg scripthash q =
     (case chain_utxo Q (qy_store q) scripthash (qc_utxos_limit cfg) of (st, r) \<Rightarrow>
        (q\<lparr>qy_store := st\<rparr>,
         and_then r (\<lambda>utxos.
           Inr (filter (\<lambda>u. \<not> has_spend (qy_mempool q) (utxo_outpoint u)) utxos @ mp_utxo (qy_mempool q) scripthash))))"

definition query_history_txids ::
  "'d chain_query \<Rightarrow> 'd query \<Rightarrow> scripthash \<Rightarrow> nat \<Rightarrow> (txid \<times> block_id option) list res" where
  "query_history_txids Q q scripthash limit =
     and_then (chain_history_txids Q (qy_store q) scripthash limit) (\<lambda>confirmed_txids.
       Inr (map (\<lambda>(tx, b). (tx, Some b)) confirmed_txids @
         map (\<lambda>tx. (tx, None)) (mp_history_txids (qy_mempool q) scripthash (limit - length confirmed_txids))))"

definition query_stats :: "'d chain_query \<Rightarrow> scripthash \<Rightarrow> 'd query \<Rightarrow> 'd query \<times> (stats_map \<times> stats_map) res" where
  "query_stats Q scripthash q =
     (case chain_stats Q (qy_store q) scripthash of (st, r) \<Rightarrow>
        (q\<lparr>qy_store := st\<rparr>, and_then r (\<lambda>s. Inr (s, mp_stats (qy_mempool q) scripthash))))"

section \<open>Open assets\<close>

text \<open>\<^verbatim>\<open>iter().map(f).collect()\<close> for a function that may not return.\<close>

fun traverse :: "('a \<Rightarrow> 'b res option) \<Rightarrow> 'a list \<Rightarrow> 'b list res option" where
  "traverse f [] = Some (Inr [])"
| "traverse f (x # xs) =
     Option.bind (f x) (\<lambda>r. case r of
         Inl e \<Rightarrow> Some (Inl e)
       | Inr y \<Rightarrow> Option.bind (traverse f xs) (\<lambda>rs. Some (and_then rs (\<lambda>ys. Inr (y # ys)))))"

lemma traverse_mono [partial_function_mono]:
  assumes "\<And>x. mono_option (\<lambda>f. F f x)"
  shows "mono_option (\<lambda>f. traverse (F f) xs)"
proof (induction xs)
  case Nil
  show ?case unfolding traverse.simps by (rule option.const_mono)
next
  case (Cons x xs)
  show ?case
    unfolding traverse.simps
  proof (rule bind_mono [OF assms])
    fix r
    show "mono_option (\<lambda>f. case r of Inl e \<Rightarrow> Some (Inl e)
        | Inr y \<Rightarrow> Option.bind (traverse (F f) xs) (\<lambda>rs. Some (and_then rs (\<lambda>ys. Inr (y # ys)))))"
    proof (cases r)
      case (Inl e)
      then show ?thesis by (simp add: option.const_mono)
    next
      case (Inr y)
      have "mono_option (\<lambda>f. Option.bind (traverse (F f) xs) (\<lambda>rs. Some (and_then rs (\<lambda>ys. Inr (y # ys)))))"
        by (rule bind_mono [OF Cons option.const_mono])
      then show ?thesis using Inr by simp
    qed
  qed
qed

text \<open>The first output that carries a marker payload.\<close>

fun find_marker :: "lib \<Rightarrow> (nat \<times> txout) list \<Rightarrow> (nat \<times> u64 list \<times> bytes) option" where
  "find_marker L [] = None"
| "find_marker L ((i, val) # outs) =
     (case get_oa_payload L val of
        Some (quantities, metadata) \<Rightarrow> Some (i, quantities, metadata)
      | None \<Rightarrow> find_marker L outs)"

definition uncolored_outputs :: "transaction \<Rightarrow> open_asset option list" where
  "uncolored_outputs txn = map (\<lambda>_. None) (tx_output txn)"

definition output_at :: "transaction \<Rightarrow> open_asset option list \<Rightarrow> nat \<Rightarrow> prev_out res" where
  "output_at txn colored_outputs index =
     and_then (expect ''index out of bounds'' (if index < length (tx_output txn) then Some (tx_output txn ! index) else None))
       (\<lambda>txo.
     and_then (expect ''index out of bounds'' (if index < length colored_outputs then Some (colored_outputs ! index) else None))
       (\<lambda>asset. Inr (txo, asset)))"

partial_function (option) get_open_assets_colored_outputs ::
  "'d chain_query \<Rightarrow> bnetwork \<Rightarrow> 'd query \<Rightarrow> transaction \<Rightarrow> open_asset option list res option" where
  "get_open_assets_colored_outputs Q net q txn =
     (if tx_is_coin_base (tap (cq_ext Q)) txn then Some (Inr (uncolored_outputs txn))
      else case find_marker (cq_lib Q) (enumerate 0 (tx_output txn)) of
          None \<Rightarrow> Some (Inr (uncolored_outputs txn))
        | Some (i, quantities, metadata) \<Rightarrow>
            Option.bind (traverse (\<lambda>input.
                case and_then (query_lookup_txn Q q (op_txid (txi_previous_output input))) (expect ''txn not found'') of
                  Inl e \<Rightarrow> Some (Inl e)
                | Inr prev \<Rightarrow>
                    Option.bind (get_open_assets_colored_outputs Q net q prev) (\<lambda>r.
                      Some (and_then r (\<lambda>colored_outputs.
                        output_at prev colored_outputs (unat (op_vout (txi_previous_output input)))))))
                (tx_input txn)) (\<lambda>r.
              case r of
                Inl e \<Rightarrow> Some (Inl e)
              | Inr prev_outs \<Rightarrow>
                  compute_assets (asset_id_new (cq_lib Q)) prev_outs i txn quantities net metadata))"

definition load_assets :: "'d chain_query \<Rightarrow> query_config \<Rightarrow> 'd query \<Rightarrow> transaction \<Rightarrow> open_asset option list res option" where
  "load_assets Q cfg q tx = get_open_assets_colored_outputs Q (bnetwork_from_network (qc_network cfg)) q tx"

definition get_output :: "'d chain_query \<Rightarrow> query_config \<Rightarrow> 'd query \<Rightarrow> txid \<Rightarrow> u32 \<Rightarrow> prev_out res option" where
  "get_output Q cfg q txid index =
     (case and_then (query_lookup_txn Q q txid) (expect ''txn not found'') of
        Inl e \<Rightarrow> Some (Inl e)
      | Inr txn \<Rightarrow>
          Option.bind (load_assets Q cfg q txn) (\<lambda>r.
            Some (and_then r (\<lambda>colored_outputs. output_at txn colored_outputs (unat index)))))"

text \<open>The assets of a list of unspent outputs.\<close>

fun open_assets_from :: "'d chain_query \<Rightarrow> query_config \<Rightarrow> 'd query \<Rightarrow> utxo list \<Rightarrow>
    (outpoint, open_asset) hashmap \<Rightarrow> (outpoint, open_asset) hashmap res option" where
  "open_assets_from Q cfg q [] m = Some (Inr m)"
| "open_assets_from Q cfg q (o' # utxos) m =
     (case query_lookup_txn Q q (ut_txid o') of
        Inl e \<Rightarrow> Some (Inl e)
      | Inr None \<Rightarrow> open_assets_from Q cfg q utxos m
      | Inr (Some tx) \<Rightarrow>
          Option.bind (load_assets Q cfg q tx) (\<lambda>r. case r of
              Inl e \<Rightarrow> Some (Inl e)
            | Inr outputs \<Rightarrow>
                open_assets_from Q cfg q utxos
                  (if unat (ut_vout o') < length outputs
                   then case outputs ! unat (ut_vout o') of
                       Some asset \<Rightarrow> hm_insert (utxo_outpoint o') asset m
                     | None \<Rightarrow> m
                   else m)))"

definition open_assets :: "'d chain_query \<Rightarrow> query_config \<Rightarrow> 'd query \<Rightarrow> utxo list \<Rightarrow>
    (outpoint, open_asset) hashmap res option" where
  "open_assets Q cfg q utxos = open_assets_from Q cfg q utxos []"

section \<open>Fees\<close>

definition update_fee_estimates :: "'d chain_query \<Rightarrow> nat \<Rightarrow> 'd query \<Rightarrow> 'd query res" where
  "update_fee_estimates Q now q =
     (case estimatesmartfee_batch (cq_rpc Q) CONF_TARGETS of
        Inl e \<Rightarrow> if is_panic e then Inl e else Inr q
      | Inr estimates \<Rightarrow> Inr (q\<lparr>qy_estimates := (estimates, Some now)\<rparr>))"

definition fresh_estimates :: "nat \<Rightarrow> 'd query \<Rightarrow> bool" where
  "fresh_estimates now q \<longleftrightarrow>
     (case snd (qy_estimates q) of Some t \<Rightarrow> now - t < FEE_ESTIMATES_TTL | None \<Rightarrow> False)"

definition query_get_relayfee :: "'d chain_query \<Rightarrow> 'd query \<Rightarrow> 'd query \<times> rat res" where
  "query_get_relayfee Q q =
     (case qy_relayfee q of
        Some cached \<Rightarrow> (q, Inr cached)
      | None \<Rightarrow>
          (case daemon_get_relayfee (cq_rpc Q) of
             Inl e \<Rightarrow> (q, Inl e)
           | Inr relayfee \<Rightarrow> (q\<lparr>qy_relayfee := Some relayfee\<rparr>, Inr relayfee)))"

definition estimate_fee_map :: "'d chain_query \<Rightarrow> nat \<Rightarrow> 'd query \<Rightarrow> 'd query \<times> (u16, rat) hashmap res" where
  "estimate_fee_map Q now q =
     (if fresh_estimates now q then (q, Inr (fst (qy_estimates q)))
      else case update_fee_estimates Q now q of
          Inl e \<Rightarrow> (q, Inl e)
        | Inr q' \<Rightarrow> (q', Inr (fst (qy_estimates q'))))"

definition query_estimate_fee :: "'d chain_query \<Rightarrow> query_config \<Rightarrow> nat \<Rightarrow> u16 \<Rightarrow> 'd query \<Rightarrow> 'd query \<times> rat option res" where
  "query_estimate_fee Q cfg now conf_target q =
     (if network_type (qc_network cfg) = Dev then
        (case query_get_relayfee Q q of (q', r) \<Rightarrow> (q', ok_res r))
      else case estimate_fee_map Q now q of (q', r) \<Rightarrow> (q', and_then r (\<lambda>m. Inr (hm_get m conf_target))))"

section \<open>Colours\<close>

definition query_get_colors :: "'d chain_query \<Rightarrow> 'd query \<Rightarrow> color option \<Rightarrow> nat \<Rightarrow> (color \<times> u32) list res" where
  "query_get_colors Q q last_seen_color_id limit =
     (let best = and_then (unwrap ''unwrap'' (getblockchaininfo (cq_rpc Q))) (\<lambda>info. Inr (bi_blocks info, None)) in
      and_then
        (case last_seen_color_id of
           Some color_id \<Rightarrow>
             and_then (get_height_by_color_id Q (qy_store q) color_id) (\<lambda>h.
               case h of Some height \<Rightarrow> Inr (height, Some color_id) | None \<Rightarrow> best)
         | None \<Rightarrow> best) (\<lambda>(block_height, color_id).
        unwrap ''failed to get colors'' (chain_get_colors Q (qy_store q) block_height color_id limit)))"

definition query_get_colored_stats ::
  "'d chain_query \<Rightarrow> color \<Rightarrow> 'd query \<Rightarrow> 'd query \<times> (colored_stats \<times> colored_stats) res" where
  "query_get_colored_stats Q color_id q =
     (case chain_get_colored_stats Q (qy_store q) color_id of (st, r) \<Rightarrow>
        (q\<lparr>qy_store := st\<rparr>,
         and_then (unwrap ''failed to get colored stats'' r) (\<lambda>chain_stats.
         and_then (unwrap ''failed to get colored stats'' (mp_get_colored_stats (qy_mempool q) color_id)) (\<lambda>mempool_stats.
           Inr (chain_stats, mempool_stats)))))"

definition query_get_colored_txs :: "'d chain_query \<Rightarrow> 'd query \<Rightarrow> color \<Rightarrow> txid option \<Rightarrow> nat \<Rightarrow>
    (transaction \<times> block_id option) list res" where
  "query_get_colored_txs Q q color_id last_seen_txid limit =
     and_then (chain_get_colored_txs Q (qy_store q) color_id last_seen_txid limit) (\<lambda>txs.
     and_then (mp_get_colored_txs (qy_mempool q) color_id) (\<lambda>mempool_txs. Inr (txs @ mempool_txs)))"

end
