(* ===== verification/Mempool_Invariant.thy ===== *)
theory Mempool_Invariant
  imports Mempool
begin

text \<open>
  What holds of every mempool that the operations of \<open>Mempool\<close> reach: its maps have one entry per key and
  mention only transactions it stores, so that its queries find what they look up; what removing transactions
  leaves; and the agreement of its history entries with those the indexer writes once a transaction is
  confirmed.
\<close>

section \<open>Maps of lists\<close>

definition known :: "(txid, 'a) hashmap \<Rightarrow> txid \<Rightarrow> bool" where
  "known store txid \<longleftrightarrow> hm_get store txid \<noteq> None"

definition entries_known :: "('v \<Rightarrow> txid) \<Rightarrow> (txid, 'a) hashmap \<Rightarrow> ('k, 'v list) hashmap \<Rightarrow> bool" where
  "entries_known t store m \<longleftrightarrow>
     hm_ok m \<and> (\<forall>k es. hm_get m k = Some es \<longrightarrow> es \<noteq> [] \<and> (\<forall>e \<in> set es. known store (t e)))"

lemma push_entry_get:
  "hm_get (push_entry k x m) k' =
     (if k' = k then Some ((case hm_get m k of Some xs \<Rightarrow> xs | None \<Rightarrow> []) @ [x]) else hm_get m k')"
  by (simp add: push_entry_def)

lemma push_entry_known:
  assumes "entries_known t store m" "known store (t x)"
  shows "entries_known t store (push_entry k x m)"
proof -
  have "hm_ok (push_entry k x m)" using assms(1) by (simp add: entries_known_def push_entry_def)
  moreover have "es \<noteq> [] \<and> (\<forall>e \<in> set es. known store (t e))" if "hm_get (push_entry k x m) k' = Some es" for k' es
    using that assms by (auto simp: push_entry_get entries_known_def split: if_splits option.splits)
  ultimately show ?thesis by (simp add: entries_known_def)
qed

lemma push_entries_known:
  assumes "entries_known t store m" "\<forall>(k, x) \<in> set kvs. known store (t x)"
  shows "entries_known t store (push_entries kvs m)"
  using assms
proof (induction kvs arbitrary: m)
  case Nil
  then show ?case by (simp add: push_entries_def)
next
  case (Cons kv kvs)
  then have "entries_known t store (push_entries kvs (push_entry (fst kv) (snd kv) m))"
    by (auto intro!: Cons.IH push_entry_known)
  then show ?case by (simp add: push_entries_def split_def)
qed

text \<open>The entries of a key, none when it is absent: what pushing and retaining do to them.\<close>

definition entries_at :: "('k, 'v list) hashmap \<Rightarrow> 'k \<Rightarrow> 'v list" where
  "entries_at m k = (case hm_get m k of Some es \<Rightarrow> es | None \<Rightarrow> [])"

lemma entries_at_push: "entries_at (push_entries kvs m) k = entries_at m k @ map snd (filter (\<lambda>kv. fst kv = k) kvs)"
proof (induction kvs arbitrary: m)
  case Nil
  then show ?case by (simp add: push_entries_def)
next
  case (Cons kv kvs)
  have "push_entries (kv # kvs) m = push_entries kvs (push_entry (fst kv) (snd kv) m)"
    by (simp add: push_entries_def split_def)
  then show ?case by (simp add: Cons.IH) (simp add: entries_at_def push_entry_get)
qed

lemma retain_entries_get:
  assumes "hm_ok m"
  shows "hm_get (retain_entries P m) k =
    (case hm_get m k of None \<Rightarrow> None | Some es \<Rightarrow> if filter P es = [] then None else Some (filter P es))"
  using assms
proof (induction m)
  case Nil
  then show ?case by (simp add: retain_entries_def)
next
  case (Cons kv m)
  obtain k' es where kv: "kv = (k', es)" by (cases kv)
  have ok: "hm_ok m" "hm_get m k' = None"
    using Cons.prems by (auto simp: kv hm_ok_def map_of_eq_None_iff)
  have step: "retain_entries P ((k', es) # m) = (if filter P es = [] then [] else [(k', filter P es)]) @ retain_entries P m"
    by (simp add: kv retain_entries_def)
  show ?case using Cons.IH [OF ok(1)] ok(2) unfolding kv step by auto
qed

lemma hm_ok_retain [simp]: "hm_ok m \<Longrightarrow> hm_ok (retain_entries P m)"
  unfolding retain_entries_def by (rule hm_ok_filter) (simp add: hm_ok_def comp_def split_def)

lemma entries_at_retain: "hm_ok m \<Longrightarrow> entries_at (retain_entries P m) k = filter P (entries_at m k)"
  by (simp add: entries_at_def retain_entries_get split: option.split)

lemma retain_entries_known:
  assumes "entries_known t store m" "\<And>txid. known store txid \<Longrightarrow> Q txid \<Longrightarrow> known store' txid"
  shows "entries_known t store' (retain_entries (\<lambda>e. Q (t e)) m)"
  using assms by (auto simp: entries_known_def retain_entries_get split: option.splits if_splits)

lemma entries_known_mono:
  "entries_known t store m \<Longrightarrow> (\<And>txid. known store txid \<Longrightarrow> known store' txid) \<Longrightarrow> entries_known t store' m"
  by (auto simp: entries_known_def)

section \<open>The invariant\<close>

definition mempool_ok :: "tapyrus \<Rightarrow> mempool \<Rightarrow> bool" where
  "mempool_ok T mp \<longleftrightarrow>
     hm_ok (mp_txstore mp) \<and> (\<forall>txid tx. hm_get (mp_txstore mp) txid = Some tx \<longrightarrow> malfix_txid T tx = txid) \<and>
     hm_ok (mp_feeinfo mp) \<and> (\<forall>txid. known (mp_feeinfo mp) txid \<longrightarrow> known (mp_txstore mp) txid) \<and>
     hm_ok (mp_overviews mp) \<and> (\<forall>txid. known (mp_overviews mp) txid \<longleftrightarrow> known (mp_feeinfo mp) txid) \<and>
     entries_known thi_get_txid (mp_txstore mp) (mp_history mp) \<and>
     entries_known cthi_get_txid (mp_txstore mp) (mp_colors mp) \<and>
     hm_ok (mp_edges mp) \<and> (\<forall>e txid vin. hm_get (mp_edges mp) e = Some (txid, vin) \<longrightarrow> known (mp_txstore mp) txid) \<and>
     length (mp_recent mp) \<le> RECENT_TXS_SIZE"

lemma known_insert [simp]: "known (hm_insert k v m) txid \<longleftrightarrow> txid = k \<or> known m txid"
  by (simp add: known_def)

lemma mempool_new_ok: "mempool_ok T (mempool_new now)"
  by (simp add: mempool_ok_def mempool_new_def entries_known_def known_def)

section \<open>Adding\<close>

lemma mp_store_txs_ok:
  assumes "mempool_ok T mp"
  shows "mempool_ok T (mp_store_txs T txs mp)"
proof -
  let ?kvs = "map (\<lambda>(_, tx). (malfix_txid T tx, tx)) txs"
  let ?store = "fold (\<lambda>(k, v). hm_insert k v) ?kvs (mp_txstore mp)"
  have store: "mp_txstore (mp_store_txs T txs mp) = ?store"
    by (simp add: mp_store_txs_def fold_map comp_def split_def)
  have get: "hm_get ?store = hm_get (mp_txstore mp) ++ map_of (rev ?kvs)" by (rule hm_get_fold_insert)
  have mono: "known ?store txid" if "known (mp_txstore mp) txid" for txid
    using that by (auto simp: known_def get map_add_def split: option.splits)
  have ids: "malfix_txid T tx = txid" if "hm_get ?store txid = Some tx" for txid tx
  proof (cases "map_of (rev ?kvs) txid")
    case None
    then have "hm_get (mp_txstore mp) txid = Some tx" using that unfolding get by (simp add: map_add_def)
    then show ?thesis using assms by (simp add: mempool_ok_def)
  next
    case (Some tx')
    then have "tx' = tx" using that unfolding get by (simp add: map_add_def)
    then show ?thesis using map_of_SomeD [OF Some] by auto
  qed
  have ok: "hm_ok ?store" using assms by (simp add: mempool_ok_def hm_ok_fold_insert)
  have hist: "entries_known thi_get_txid ?store (mp_history mp)"
    using assms by (intro entries_known_mono [OF _ mono]) (simp_all add: mempool_ok_def)
  have col: "entries_known cthi_get_txid ?store (mp_colors mp)"
    using assms by (intro entries_known_mono [OF _ mono]) (simp_all add: mempool_ok_def)
  have fees: "known ?store txid" if "known (mp_feeinfo mp) txid" for txid
    using that assms mono by (simp add: mempool_ok_def)
  have edges: "\<forall>e txid vin. hm_get (mp_edges mp) e = Some (txid, vin) \<longrightarrow> known ?store txid"
    using assms mono by (fastforce simp: mempool_ok_def)
  have rest: "mp_feeinfo (mp_store_txs T txs mp) = mp_feeinfo mp" "mp_overviews (mp_store_txs T txs mp) = mp_overviews mp"
    "mp_history (mp_store_txs T txs mp) = mp_history mp" "mp_colors (mp_store_txs T txs mp) = mp_colors mp"
    "mp_edges (mp_store_txs T txs mp) = mp_edges mp" "mp_recent (mp_store_txs T txs mp) = mp_recent mp"
    by (simp_all add: mp_store_txs_def)
  show ?thesis
    using assms ids ok hist col fees edges unfolding mempool_ok_def store rest by meson
qed

lemma mp_funding_entries_txid: "(h, i) \<in> set (mp_funding_entries T u tx) \<Longrightarrow> thi_get_txid i = malfix_txid T tx"
  by (auto simp: mp_funding_entries_def Let_def split: option.splits)

lemma mp_spending_entry_txid:
  "mp_spending_entry T tx e = Inr es \<Longrightarrow> (h, i) \<in> set es \<Longrightarrow> thi_get_txid i = malfix_txid T tx"
  by (cases e) (auto simp: mp_spending_entry_def Let_def split: option.splits)

lemma map_res_member: "map_res f xs = Inr ys \<Longrightarrow> y \<in> set ys \<Longrightarrow> \<exists>x \<in> set xs. f x = Inr y"
  by (induction xs arbitrary: ys) auto

lemma mp_spending_entries_txid:
  assumes "mp_spending_entries T tx prevouts = Inr es" "(h, i) \<in> set es"
  shows "thi_get_txid i = malfix_txid T tx"
proof -
  obtain ess es' where "map_res (mp_spending_entry T tx) prevouts = Inr ess" "es' \<in> set ess" "(h, i) \<in> set es'"
    using assms by (auto simp: mp_spending_entries_def)
  then show ?thesis using map_res_member mp_spending_entry_txid by metis
qed

lemma push_entries_ok:
  assumes "entries_known t store m" "known store txid" "\<And>k x. (k, x) \<in> set kvs \<Longrightarrow> t x = txid"
  shows "entries_known t store (push_entries kvs m)"
  using assms(1) by (rule push_entries_known) (use assms in auto)

lemma fold_edges:
  fixes es :: "(nat \<times> txin) list"
  assumes "hm_ok m" "\<forall>e t vin. hm_get m e = Some (t, vin) \<longrightarrow> P t" "P txid"
  shows "hm_ok (fold (\<lambda>(i, txi). hm_insert (txi_previous_output txi) (txid, of_nat i)) es m) \<and>
    (\<forall>e t vin. hm_get (fold (\<lambda>(i, txi). hm_insert (txi_previous_output txi) (txid, of_nat i)) es m) e = Some (t, vin) \<longrightarrow> P t)"
  using assms(1,2)
proof (induction es arbitrary: m)
  case Nil
  then show ?case by simp
next
  case (Cons e es)
  show ?case
    unfolding fold_simps comp_def
    by (rule Cons.IH) (use Cons.prems assms(3) in \<open>auto split: prod.split if_splits\<close>)
qed

lemma add_tx_result:
  assumes "add_tx T u txos mp (time, tx) = Inr mp'"
  obtains stored prevouts spending overview where
    "hm_get (mp_txstore mp) (malfix_txid T tx) = Some stored"
    "extract_tx_prevouts stored txos False = Inr prevouts"
    "mp_spending_entries T stored prevouts = Inr spending"
    "mp' = mp\<lparr>
      mp_recent := take RECENT_TXS_SIZE (overview # mp_recent mp),
      mp_overviews := hm_insert (malfix_txid T tx) overview (mp_overviews mp),
      mp_feeinfo := hm_insert (malfix_txid T tx) (tx_fee_info_new T stored prevouts) (mp_feeinfo mp),
      mp_history := push_entries (mp_funding_entries T u stored @ spending) (mp_history mp),
      mp_edges := fold (\<lambda>(i, txi). hm_insert (txi_previous_output txi) (malfix_txid T tx, of_nat i))
        (enumerate 0 (tx_input stored)) (mp_edges mp),
      mp_colors := push_entries (colored_tx_history T stored txos) (mp_colors mp)\<rparr>"
proof -
  from assms obtain stored where s: "hm_get (mp_txstore mp) (malfix_txid T tx) = Some stored"
    by (auto simp: add_tx_def Let_def expect_eq_Inr)
  from assms obtain prevouts where p: "extract_tx_prevouts stored txos False = Inr prevouts"
    by (auto simp: add_tx_def Let_def expect_eq_Inr s)
  from assms obtain spending where "mp_spending_entries T stored prevouts = Inr spending"
    by (auto simp: add_tx_def Let_def expect_eq_Inr s p)
  with s p assms show thesis
    by (intro that [of stored prevouts spending]) (auto simp: add_tx_def Let_def expect_eq_Inr)
qed

lemma add_tx_ok:
  assumes "add_tx T u txos mp (time, tx) = Inr mp'" "mempool_ok T mp"
  shows "mempool_ok T mp'"
proof -
  let ?id = "malfix_txid T tx"
  obtain stored prevouts spending overview where
    stored: "hm_get (mp_txstore mp) ?id = Some stored"
    and "extract_tx_prevouts stored txos False = Inr prevouts"
    and sp: "mp_spending_entries T stored prevouts = Inr spending"
    and mp': "mp' = mp\<lparr>
      mp_recent := take RECENT_TXS_SIZE (overview # mp_recent mp),
      mp_overviews := hm_insert ?id overview (mp_overviews mp),
      mp_feeinfo := hm_insert ?id (tx_fee_info_new T stored prevouts) (mp_feeinfo mp),
      mp_history := push_entries (mp_funding_entries T u stored @ spending) (mp_history mp),
      mp_edges := fold (\<lambda>(i, txi). hm_insert (txi_previous_output txi) (?id, of_nat i))
        (enumerate 0 (tx_input stored)) (mp_edges mp),
      mp_colors := push_entries (colored_tx_history T stored txos) (mp_colors mp)\<rparr>"
    by (rule add_tx_result [OF assms(1)])
  have id: "malfix_txid T stored = ?id" and known: "known (mp_txstore mp) ?id"
    using stored assms(2) by (auto simp: mempool_ok_def known_def)
  have f: "mp_history mp' = push_entries (mp_funding_entries T u stored @ spending) (mp_history mp)"
    "mp_colors mp' = push_entries (colored_tx_history T stored txos) (mp_colors mp)"
    "mp_edges mp' = fold (\<lambda>(i, txi). hm_insert (txi_previous_output txi) (?id, of_nat i))
      (enumerate 0 (tx_input stored)) (mp_edges mp)"
    by (simp_all add: mp')
  have hist: "entries_known thi_get_txid (mp_txstore mp) (mp_history mp')"
    unfolding f
    by (rule push_entries_ok [where txid = ?id])
      (use assms(2) known id mp_funding_entries_txid mp_spending_entries_txid [OF sp] in \<open>auto simp: mempool_ok_def\<close>)
  have col: "entries_known cthi_get_txid (mp_txstore mp) (mp_colors mp')"
    unfolding f
    by (rule push_entries_ok [where txid = ?id])
      (use assms(2) known id colored_tx_history_txid in \<open>auto simp: mempool_ok_def\<close>)
  have edges: "hm_ok (mp_edges mp') \<and>
      (\<forall>e t vin. hm_get (mp_edges mp') e = Some (t, vin) \<longrightarrow> known (mp_txstore mp) t)"
    unfolding f
    by (rule fold_edges) (use assms(2) known in \<open>auto simp: mempool_ok_def\<close>)
  show ?thesis
    using assms(2) known hist col edges by (auto simp: mempool_ok_def mp')
qed

lemma mempool_add_ok:
  assumes "mempool_add Q st u txs mp = Inr mp'" "mempool_ok (tap (cq_ext Q)) mp"
  shows "mempool_ok (tap (cq_ext Q)) mp'"
proof -
  let ?T = "tap (cq_ext Q)"
  have stored: "mempool_ok ?T (mp_store_txs ?T txs mp)" by (rule mp_store_txs_ok [OF assms(2)])
  have "mp' = mp_store_txs ?T txs mp \<or> (\<exists>txos. fold_res (add_tx ?T u txos) (mp_store_txs ?T txs mp) txs = Inr mp')"
    using assms(1)
    by (cases "mp_get_prevouts (mp_store_txs ?T txs mp) (map (\<lambda>(_, tx). malfix_txid ?T tx) txs)")
      (auto simp: mempool_add_def Let_def split: sum.splits if_splits)
  then show ?thesis
  proof
    assume "\<exists>txos. fold_res (add_tx ?T u txos) (mp_store_txs ?T txs mp) txs = Inr mp'"
    then obtain txos where "fold_res (add_tx ?T u txos) (mp_store_txs ?T txs mp) txs = Inr mp'" by blast
    then show ?thesis
      by (rule fold_res_invariant [where P = "mempool_ok ?T", OF _ stored]) (metis add_tx_ok surj_pair)
  qed (simp add: stored)
qed

section \<open>Removing\<close>

lemma remove_txs:
  assumes "fold_res remove_tx mp ids = Inr mp'" "hm_ok (mp_txstore mp)" "hm_ok (mp_overviews mp)" "hm_ok (mp_feeinfo mp)"
  shows "hm_ok (mp_txstore mp') \<and> hm_ok (mp_overviews mp') \<and> hm_ok (mp_feeinfo mp') \<and>
    (\<forall>t. hm_get (mp_txstore mp') t = (if t \<in> set ids then None else hm_get (mp_txstore mp) t) \<and>
         hm_get (mp_overviews mp') t = (if t \<in> set ids then None else hm_get (mp_overviews mp) t) \<and>
         hm_get (mp_feeinfo mp') t = (if t \<in> set ids then None else hm_get (mp_feeinfo mp) t)) \<and>
    mp_history mp' = mp_history mp \<and> mp_colors mp' = mp_colors mp \<and> mp_edges mp' = mp_edges mp \<and>
    mp_recent mp' = mp_recent mp"
  using assms
proof (induction ids arbitrary: mp)
  case Nil
  then show ?case by simp
next
  case (Cons i ids)
  let ?mp = "mp\<lparr>mp_txstore := hm_remove i (mp_txstore mp), mp_overviews := hm_remove i (mp_overviews mp),
    mp_feeinfo := hm_remove i (mp_feeinfo mp)\<rparr>"
  obtain r where r: "remove_tx mp i = Inr r" and "fold_res remove_tx r ids = Inr mp'"
    using Cons.prems(1) by auto
  moreover have "r = ?mp" using r by (auto simp: remove_tx_def)
  ultimately have run: "fold_res remove_tx ?mp ids = Inr mp'" by simp
  show ?case using Cons.IH [OF run] Cons.prems(2-4) by auto
qed

lemma remove_txs_succeeds:
  assumes "distinct ids" "\<forall>t \<in> set ids. known (mp_txstore mp) t"
  shows "\<exists>mp'. fold_res remove_tx mp ids = Inr mp'"
  using assms
proof (induction ids arbitrary: mp)
  case Nil
  then show ?case by simp
next
  case (Cons i ids)
  let ?mp = "mp\<lparr>mp_txstore := hm_remove i (mp_txstore mp), mp_overviews := hm_remove i (mp_overviews mp),
    mp_feeinfo := hm_remove i (mp_feeinfo mp)\<rparr>"
  have "remove_tx mp i = Inr ?mp" using Cons.prems(2) by (auto simp: remove_tx_def expect_def known_def)
  moreover have "\<exists>mp'. fold_res remove_tx ?mp ids = Inr mp'"
    by (rule Cons.IH) (use Cons.prems in \<open>auto simp: known_def\<close>)
  ultimately show ?case by simp
qed

lemma filter_get: "hm_ok m \<Longrightarrow> hm_get (filter (\<lambda>(k, v). P v) m) k =
    (case hm_get m k of None \<Rightarrow> None | Some v \<Rightarrow> if P v then Some v else None)"
  by (induction m) (auto simp: hm_ok_def map_of_eq_None_iff split: option.split)

text \<open>What is left after removing transactions: everything of the others, nothing of them.\<close>

lemma mempool_remove_entries:
  assumes "mempool_remove ids mp = Inr mp'" "mempool_ok T mp"
  shows "hm_get (mp_txstore mp') t = (if t \<in> set ids then None else hm_get (mp_txstore mp) t)"
    "hm_get (mp_overviews mp') t = (if t \<in> set ids then None else hm_get (mp_overviews mp) t)"
    "hm_get (mp_feeinfo mp') t = (if t \<in> set ids then None else hm_get (mp_feeinfo mp) t)"
    "entries_at (mp_history mp') h = filter (\<lambda>e. thi_get_txid e \<notin> set ids) (entries_at (mp_history mp) h)"
    "entries_at (mp_colors mp') c = filter (\<lambda>e. cthi_get_txid e \<notin> set ids) (entries_at (mp_colors mp) c)"
    "hm_get (mp_edges mp') out =
       (case hm_get (mp_edges mp) out of None \<Rightarrow> None | Some (t, i) \<Rightarrow> if t \<notin> set ids then Some (t, i) else None)"
    "mempool_ok T mp'"
proof -
  obtain r where r: "fold_res remove_tx mp ids = Inr r" and mp': "mp' = r\<lparr>
      mp_history := retain_entries (\<lambda>entry. thi_get_txid entry \<notin> set ids) (mp_history r),
      mp_edges := filter (\<lambda>(_, (txid, _)). txid \<notin> set ids) (mp_edges r),
      mp_colors := retain_entries (\<lambda>entry. cthi_get_txid entry \<notin> set ids) (mp_colors r)\<rparr>"
    using assms(1) by (auto simp: mempool_remove_def)
  note ok = assms(2) [unfolded mempool_ok_def]
  note rs = remove_txs [OF r]
  have hist: "hm_ok (mp_history mp)" "hm_ok (mp_colors mp)" "hm_ok (mp_edges mp)"
    using ok by (auto simp: entries_known_def)
  show st: "hm_get (mp_txstore mp') t = (if t \<in> set ids then None else hm_get (mp_txstore mp) t)"
    "hm_get (mp_overviews mp') t = (if t \<in> set ids then None else hm_get (mp_overviews mp) t)"
    "hm_get (mp_feeinfo mp') t = (if t \<in> set ids then None else hm_get (mp_feeinfo mp) t)" for t
    using rs ok by (simp_all add: mp')
  show "entries_at (mp_history mp') h = filter (\<lambda>e. thi_get_txid e \<notin> set ids) (entries_at (mp_history mp) h)"
    "entries_at (mp_colors mp') c = filter (\<lambda>e. cthi_get_txid e \<notin> set ids) (entries_at (mp_colors mp) c)"
    using rs ok hist by (simp_all add: mp' entries_at_retain)
  show ed: "hm_get (mp_edges mp') out =
       (case hm_get (mp_edges mp) out of None \<Rightarrow> None | Some (t, i) \<Rightarrow> if t \<notin> set ids then Some (t, i) else None)" for out
    using rs ok filter_get [OF hist(3), of "\<lambda>(txid, _). txid \<notin> set ids" out] by (simp add: mp' split: option.split)
  have k: "known (mp_txstore mp') t \<longleftrightarrow> known (mp_txstore mp) t \<and> t \<notin> set ids"
    "known (mp_feeinfo mp') t \<longleftrightarrow> known (mp_feeinfo mp) t \<and> t \<notin> set ids"
    "known (mp_overviews mp') t \<longleftrightarrow> known (mp_overviews mp) t \<and> t \<notin> set ids" for t
    by (auto simp: known_def st)
  have h: "entries_known thi_get_txid (mp_txstore mp') (mp_history mp')"
    using retain_entries_known [of thi_get_txid "mp_txstore mp" "mp_history mp" "\<lambda>t. t \<notin> set ids" "mp_txstore mp'"]
      rs ok k(1) by (simp add: mp')
  have c: "entries_known cthi_get_txid (mp_txstore mp') (mp_colors mp')"
    using retain_entries_known [of cthi_get_txid "mp_txstore mp" "mp_colors mp" "\<lambda>t. t \<notin> set ids" "mp_txstore mp'"]
      rs ok k(1) by (simp add: mp')
  have e: "\<forall>e txid vin. hm_get (mp_edges mp') e = Some (txid, vin) \<longrightarrow> known (mp_txstore mp') txid"
    using ok by (auto simp: ed k(1) split: option.splits if_splits prod.splits)
  have m: "hm_ok (mp_edges mp')" "hm_ok (mp_txstore mp')" "hm_ok (mp_overviews mp')" "hm_ok (mp_feeinfo mp')"
    "mp_recent mp' = mp_recent mp"
    using rs ok hist(3) by (simp_all add: mp')
  have i: "\<forall>txid tx. hm_get (mp_txstore mp') txid = Some tx \<longrightarrow> malfix_txid T tx = txid"
    using ok by (auto simp: st)
  have f: "\<forall>txid. known (mp_feeinfo mp') txid \<longrightarrow> known (mp_txstore mp') txid"
    "\<forall>txid. known (mp_overviews mp') txid \<longleftrightarrow> known (mp_feeinfo mp') txid"
    using ok by (auto simp: k)
  have l: "length (mp_recent mp') \<le> RECENT_TXS_SIZE" using ok m(5) by simp
  show "mempool_ok T mp'"
    unfolding mempool_ok_def by (intro conjI m(1-4) i f h c e l)
qed

section \<open>Following the node\<close>

lemma update_backlog_stats_ok:
  assumes "update_backlog_stats now mp = Inr mp'" "mempool_ok T mp"
  shows "mempool_ok T mp'"
proof -
  have "mp' = mp \<or> (\<exists>x. mp' = mp\<lparr>mp_backlog_stats := x\<rparr>)"
    using assms(1) by (auto simp: update_backlog_stats_def split: if_splits)
  then show ?thesis using assms(2) by (elim disjE exE) (simp_all add: mempool_ok_def)
qed

lemma mempool_update_steps:
  assumes "mempool_update Q st u now mp = Inr mp'"
  obtains "mp' = mp" "\<exists>txs e. getmempool (cq_lib Q) (cq_rpc Q) = Inr txs \<and>
      gettransactions (cq_lib Q) (tap (cq_ext Q)) (cq_rpc Q) (filter (\<lambda>t. t \<notin> set (mp_txids mp)) (map fst txs)) = Inl e"
  | txs to_add mp1 mp2 where "getmempool (cq_lib Q) (cq_rpc Q) = Inr txs"
    "gettransactions (cq_lib Q) (tap (cq_ext Q)) (cq_rpc Q) (filter (\<lambda>t. t \<notin> set (mp_txids mp)) (map fst txs)) =
      Inr (map snd to_add)"
    "mempool_add Q st u to_add mp = Inr mp1"
    "mempool_remove (filter (\<lambda>t. t \<notin> fst ` set txs) (mp_txids mp)) mp1 = Inr mp2"
    "update_backlog_stats now mp2 = Inr mp'"
proof -
  let ?txids = "\<lambda>txs. filter (\<lambda>t. t \<notin> set (mp_txids mp)) (map fst txs)"
  obtain txs where txs: "getmempool (cq_lib Q) (cq_rpc Q) = Inr txs"
    using assms by (auto simp: mempool_update_def Let_def)
  show thesis
  proof (cases "gettransactions (cq_lib Q) (tap (cq_ext Q)) (cq_rpc Q) (?txids txs)")
    case (Inl e)
    then show ?thesis using assms that(1) by (auto simp: mempool_update_def Let_def txs split: if_splits)
  next
    case (Inr new)
    have snds: "map snd to_add = ys" if "map_res (\<lambda>tx. and_then (g tx) (\<lambda>m. Inr (f m, tx))) ys = Inr to_add"
      for g :: "transaction \<Rightarrow> mempool_tx res" and f :: "mempool_tx \<Rightarrow> u32" and ys to_add
      using that by (induction ys arbitrary: to_add) auto
    show ?thesis using assms Inr by (auto simp: mempool_update_def Let_def txs intro: that(2) dest: snds)
  qed
qed

lemma mempool_update_ok:
  assumes "mempool_update Q st u now mp = Inr mp'" "mempool_ok (tap (cq_ext Q)) mp"
  shows "mempool_ok (tap (cq_ext Q)) mp'"
  using assms(1)
proof (cases rule: mempool_update_steps)
  case 1
  then show ?thesis using assms(2) by simp
next
  case (2 txs to_add mp1 mp2)
  have "mempool_ok (tap (cq_ext Q)) mp1" using 2(3) assms(2) by (rule mempool_add_ok)
  then have "mempool_ok (tap (cq_ext Q)) mp2" by (rule mempool_remove_entries(7) [OF 2(4)])
  with 2(5) show ?thesis by (rule update_backlog_stats_ok)
qed

lemma add_by_txid_ok:
  assumes "add_by_txid Q st u txid mp = Inr mp'" "mempool_ok (tap (cq_ext Q)) mp"
  shows "mempool_ok (tap (cq_ext Q)) mp'"
  using assms by (auto simp: add_by_txid_def intro: mempool_add_ok split: sum.splits if_splits)

text \<open>
  The states of a mempool: created empty, then updated from the node and given single transactions, in any
  order, each time with the answers the node gives and the contents the store has by then.
\<close>

inductive mempool_reach :: "'d ext \<Rightarrow> mempool \<Rightarrow> bool" for E where
  reach_new: "mempool_reach E (mempool_new now)"
| reach_update: "mempool_reach E mp \<Longrightarrow> cq_ext Q = E \<Longrightarrow> mempool_update Q st u now mp = Inr mp' \<Longrightarrow>
    mempool_reach E mp'"
| reach_add: "mempool_reach E mp \<Longrightarrow> cq_ext Q = E \<Longrightarrow> add_by_txid Q st u txid mp = Inr mp' \<Longrightarrow>
    mempool_reach E mp'"

lemma mempool_reach_ok: "mempool_reach E mp \<Longrightarrow> mempool_ok (tap E) mp"
proof (induction rule: mempool_reach.induct)
  case (reach_new now)
  show ?case by (rule mempool_new_ok)
next
  case (reach_update mp Q st u now mp')
  then show ?case using mempool_update_ok by blast
next
  case (reach_add mp Q st u txid mp')
  then show ?case using add_by_txid_ok by blast
qed

section \<open>The entries of an added transaction\<close>

lemma map_filter_enumerate:
  "concat (map f (filter P xs)) = concat (map (\<lambda>x. if P x then f x else []) xs)"
  by (induction xs) auto

lemma mp_funding_entries_eq:
  "mp_funding_entries T u tx = concat (map (output_entries T u (malfix_txid T tx)) (enumerate 0 (tx_output tx)))"
  unfolding mp_funding_entries_def map_filter_enumerate
  by (rule arg_cong [where f = concat], rule map_cong [OF refl])
    (auto simp: output_entries_def script_entries_def Let_def split: prod.split option.split)

lemma mp_spending_entry_eq:
  assumes "i < length (tx_input tx)" "i < 2 ^ 32" "has_prevout (tx_input tx ! i)"
    "hm_get txos (txi_previous_output (tx_input tx ! i)) = Some txo"
  shows "mp_spending_entry T tx (of_nat i, txo) = Inr (input_entries T txos (malfix_txid T tx) (i, tx_input tx ! i))"
proof -
  have u: "unat (of_nat i :: u32) = i" using assms(2) by (simp add: unat_of_nat_less)
  have v: "ucast (of_nat i :: u32) = (of_nat i :: u16)"
    by (metis of_nat_unat u)
  show ?thesis
    using assms(1,3,4)
    by (simp add: mp_spending_entry_def u v input_entries_def script_entries_def Let_def split: option.split prod.split)
qed

lemma spent_entries:
  assumes "extract_prevouts_from i txis txos False = Inr r" "txis = drop i (tx_input tx)" "length (tx_input tx) \<le> 2 ^ 32"
  shows "map_res (mp_spending_entry T tx) r =
      Inr (map (input_entries T txos (malfix_txid T tx)) (filter (\<lambda>e. has_prevout (snd e)) (enumerate i txis)))"
  using assms
proof (induction i txis txos False arbitrary: r rule: extract_prevouts_from.induct)
  case (1 i txos)
  then show ?case by simp
next
  case (2 i txi txis txos)
  have i: "i < length (tx_input tx)" "tx_input tx ! i = txi" "txis = drop (Suc i) (tx_input tx)"
    using "2.prems"(2) by (metis drop_eq_Nil leI list.distinct(1), metis nth_via_drop, metis drop_Suc list.sel(3) tl_drop)
  show ?case
  proof (cases "has_prevout txi")
    case False
    then have r: "extract_prevouts_from (Suc i) txis txos False = Inr r" using "2.prems"(1) by simp
    show ?thesis using "2.hyps"(3) [OF False r i(3) "2.prems"(3)] False by simp
  next
    case True
    then obtain txo r' where txo: "hm_get txos (txi_previous_output txi) = Some txo"
      and r': "extract_prevouts_from (Suc i) txis txos False = Inr r'" "r = (of_nat i, txo) # r'"
      using "2.prems"(1) by (auto simp: assert_res_def split: option.splits)
    have "mp_spending_entry T tx (of_nat i, txo) = Inr (input_entries T txos (malfix_txid T tx) (i, txi))"
      using mp_spending_entry_eq [of i tx txos txo T] i(1,2) True txo "2.prems"(3) by simp
    then show ?thesis using "2.hyps"(2) [OF True txo r'(1) i(3) "2.prems"(3)] True by (simp add: r'(2))
  qed
qed

lemma mset_hm_collect: "distinct (map fst kvs) \<Longrightarrow> mset (hm_collect kvs) = mset kvs"
proof (induction kvs rule: rev_induct)
  case Nil
  then show ?case by (simp add: hm_collect_def)
next
  case (snoc kv kvs)
  have absent: "k \<notin> fst ` set m \<Longrightarrow> hm_insert k v m = m @ [(k, v)]" for k v and m :: "('a, 'b) hashmap"
    by (induction m) auto
  have "hm_get (hm_collect kvs) (fst kv) = None"
    using snoc.prems by (simp add: hm_get_collect map_of_eq_None_iff)
  then have "fst kv \<notin> fst ` set (hm_collect kvs)" by (simp add: map_of_eq_None_iff)
  from absent [OF this, of "snd kv"] snoc show ?case by (simp add: hm_collect_def split_def)
qed

lemma map_res_total: "\<forall>x \<in> set xs. \<exists>y. f x = Inr y \<Longrightarrow> map_res f xs = Inr (map (\<lambda>x. projr (f x)) xs)"
  by (induction xs) auto

lemma map_res_mset:
  assumes "map_res f xs = Inr ys" "mset xs = mset xs'"
  shows "\<exists>ys'. map_res f xs' = Inr ys' \<and> mset ys' = mset ys"
proof -
  have total: "\<forall>x \<in> set xs. \<exists>y. f x = Inr y" by (rule iffD1 [OF map_res_fails]) (rule exI, rule assms(1))
  have "set xs' = set xs" using assms(2) by (metis set_mset_mset)
  then have "map_res f xs' = Inr (map (\<lambda>x. projr (f x)) xs')" by (intro map_res_total) (simp add: total)
  moreover have "ys = map (\<lambda>x. projr (f x)) xs" using map_res_total [OF total] assms(1) by simp
  ultimately show ?thesis using assms(2) by (simp add: mset_map)
qed

lemma mset_concat_cong: "mset xss = mset yss \<Longrightarrow> mset (concat xss) = mset (concat yss)"
proof -
  have "mset (concat zss) = sum_mset (image_mset mset (mset zss))" for zss :: "'a list list"
    by (induction zss) auto
  then show "mset xss = mset yss \<Longrightarrow> mset (concat xss) = mset (concat yss)" by metis
qed

lemma mp_spending_entries_eq:
  assumes "extract_tx_prevouts tx txos False = Inr prevouts" "mp_spending_entries T tx prevouts = Inr es"
    "length (tx_input tx) \<le> 2 ^ 32"
  shows "mset es = mset (concat (map (input_entries T txos (malfix_txid T tx)) (enumerate 0 (tx_input tx))))"
proof -
  let ?f = "input_entries T txos (malfix_txid T tx)"
  obtain r where r: "extract_prevouts_from 0 (tx_input tx) txos False = Inr r" "prevouts = hm_collect r"
    using assms(1) by (auto simp: extract_tx_prevouts_def)
  obtain ess where ess: "map_res (mp_spending_entry T tx) prevouts = Inr ess" "es = concat ess"
    using assms(2) by (auto simp: mp_spending_entries_def)
  have "distinct (map fst r)" using extract_prevouts_from_distinct [OF r(1)] assms(3) by simp
  then have "mset prevouts = mset r" by (simp add: r(2) mset_hm_collect)
  moreover have "map_res (mp_spending_entry T tx) r =
      Inr (map ?f (filter (\<lambda>e. has_prevout (snd e)) (enumerate 0 (tx_input tx))))"
    using spent_entries [OF r(1) _ assms(3)] by simp
  ultimately have "mset ess = mset (map ?f (filter (\<lambda>e. has_prevout (snd e)) (enumerate 0 (tx_input tx))))"
    using map_res_mset [OF ess(1)] by fastforce
  then have "mset es = mset (concat (map ?f (filter (\<lambda>e. has_prevout (snd e)) (enumerate 0 (tx_input tx)))))"
    unfolding ess(2) by (rule mset_concat_cong)
  also have "concat (map ?f (filter (\<lambda>e. has_prevout (snd e)) (enumerate 0 (tx_input tx)))) =
      concat (map ?f (enumerate 0 (tx_input tx)))"
    unfolding map_filter_enumerate by (rule arg_cong [where f = concat], rule map_cong) (auto simp: input_entries_def)
  finally show ?thesis .
qed

lemma add_tx_entries_at:
  assumes "add_tx T u txos mp (time, tx) = Inr mp'" "hm_get (mp_txstore mp) (malfix_txid T tx) = Some tx"
    "length (tx_input tx) \<le> 2 ^ 32"
  shows "mset (entries_at (mp_history mp') h) =
      mset (entries_at (mp_history mp) h) + mset (map snd (filter (\<lambda>e. fst e = h) (history_entries T u tx txos)))"
    "entries_at (mp_colors mp') c =
      entries_at (mp_colors mp) c @ map snd (filter (\<lambda>e. fst e = c) (colored_tx_history T tx txos))"
proof -
  obtain stored prevouts spending overview where st: "hm_get (mp_txstore mp) (malfix_txid T tx) = Some stored"
    and pre: "extract_tx_prevouts stored txos False = Inr prevouts"
    and sp: "mp_spending_entries T stored prevouts = Inr spending"
    and mp': "mp' = mp\<lparr>
      mp_recent := take RECENT_TXS_SIZE (overview # mp_recent mp),
      mp_overviews := hm_insert (malfix_txid T tx) overview (mp_overviews mp),
      mp_feeinfo := hm_insert (malfix_txid T tx) (tx_fee_info_new T stored prevouts) (mp_feeinfo mp),
      mp_history := push_entries (mp_funding_entries T u stored @ spending) (mp_history mp),
      mp_edges := fold (\<lambda>(i, txi). hm_insert (txi_previous_output txi) (malfix_txid T tx, of_nat i))
        (enumerate 0 (tx_input stored)) (mp_edges mp),
      mp_colors := push_entries (colored_tx_history T stored txos) (mp_colors mp)\<rparr>"
    by (rule add_tx_result [OF assms(1)])
  have tx: "stored = tx" using st assms(2) by simp
  have h: "mp_history mp' = push_entries (mp_funding_entries T u tx @ spending) (mp_history mp)"
    "mp_colors mp' = push_entries (colored_tx_history T tx txos) (mp_colors mp)" by (simp_all add: mp' tx)
  show "entries_at (mp_colors mp') c =
      entries_at (mp_colors mp) c @ map snd (filter (\<lambda>e. fst e = c) (colored_tx_history T tx txos))"
    unfolding h by (rule entries_at_push)
  have "mset (mp_funding_entries T u tx @ spending) = mset (history_entries T u tx txos)"
    using mp_spending_entries_eq [OF pre sp] assms(3)
    by (simp add: history_entries_def mp_funding_entries_eq tx)
  then have "mset (map snd (filter (\<lambda>e. fst e = h) (mp_funding_entries T u tx @ spending))) =
      mset (map snd (filter (\<lambda>e. fst e = h) (history_entries T u tx txos)))"
    by (simp only: mset_map mset_filter)
  then show "mset (entries_at (mp_history mp') h) =
      mset (entries_at (mp_history mp) h) + mset (map snd (filter (\<lambda>e. fst e = h) (history_entries T u tx txos)))"
    unfolding h entries_at_push by simp
qed

lemma entries_of_at: "entries_of_script mp h = entries_at (mp_history mp) h" "entries_of_color mp c = entries_at (mp_colors mp) c"
  by (simp_all add: entries_of_script_def entries_of_color_def entries_at_def)

text \<open>
  C12: a transaction has the same history unconfirmed as confirmed. Adding it to the mempool gives every script
  the entries that indexing its block will write for it, and every colour its coloured entries.
\<close>

theorem mempool_entries_as_indexed:
  assumes "add_tx T u txos mp (time, tx) = Inr mp'" "hm_get (mp_txstore mp) (malfix_txid T tx) = Some tx"
    "length (tx_input tx) \<le> 2 ^ 32"
  shows "mset (entries_of_script mp' h) =
      mset (entries_of_script mp h) + mset (map snd (filter (\<lambda>e. fst e = h) (history_entries T u tx txos))) \<and>
    entries_of_color mp' c =
      entries_of_color mp c @ map snd (filter (\<lambda>e. fst e = c) (colored_tx_history T tx txos))"
  using add_tx_entries_at [OF assms]
  by (simp add: entries_of_at)

section \<open>Reachable states\<close>

lemma entries_known_at:
  assumes "entries_known t store m" "e \<in> set (entries_at m k)"
  shows "known store (t e)"
proof (cases "hm_get m k")
  case None
  then show ?thesis using assms(2) by (simp add: entries_at_def)
next
  case (Some es)
  then have "e \<in> set es" using assms(2) by (simp add: entries_at_def)
  then show ?thesis using assms(1) Some by (simp add: entries_known_def)
qed

lemma mempool_ok_entries:
  assumes "mempool_ok T mp"
  shows "e \<in> set (entries_of_script mp h) \<Longrightarrow> known (mp_txstore mp) (thi_get_txid e)"
    "i \<in> set (entries_of_color mp c) \<Longrightarrow> known (mp_txstore mp) (cthi_get_txid i)"
proof -
  have k: "entries_known thi_get_txid (mp_txstore mp) (mp_history mp)"
    "entries_known cthi_get_txid (mp_txstore mp) (mp_colors mp)"
    using assms by (simp_all add: mempool_ok_def)
  show "e \<in> set (entries_of_script mp h) \<Longrightarrow> known (mp_txstore mp) (thi_get_txid e)"
    "i \<in> set (entries_of_color mp c) \<Longrightarrow> known (mp_txstore mp) (cthi_get_txid i)"
    unfolding entries_of_at by (rule entries_known_at [OF k(1)], assumption, rule entries_known_at [OF k(2)])
qed

text \<open>
  C11: the invariant of the mempool. In every state reached from the empty one by updates and additions, whatever
  the node answers, the maps mention only transactions that are stored, under their own ids, and so the
  queries of a history find every transaction they look up.
\<close>

theorem mempool_reachable:
  assumes "mempool_reach E mp"
  shows "mempool_ok (tap E) mp \<and> (\<exists>txs. mp_history_txs mp h n = Inr txs) \<and> (\<exists>txs. mp_get_colored_txs mp c = Inr txs)"
proof -
  have ok: "mempool_ok (tap E) mp" by (rule mempool_reach_ok [OF assms])
  have "\<exists>txs. mp_history_txs mp h n = Inr txs"
    unfolding mp_history_txs_def map_res_fails
  proof
    fix txid
    assume "txid \<in> set (take n (unique (map thi_get_txid (entries_of_script mp h))))"
    then have "txid \<in> thi_get_txid ` set (entries_of_script mp h)" by (auto dest: in_set_takeD)
    then have "known (mp_txstore mp) txid"
      using mempool_ok_entries(1) [OF ok] by blast
    then show "\<exists>tx. expect ''missing mempool tx'' (hm_get (mp_txstore mp) txid) = Inr tx"
      by (auto simp: known_def expect_def)
  qed
  moreover have "\<exists>txs. mp_get_colored_txs mp c = Inr txs"
    unfolding mp_get_colored_txs_def map_res_fails
  proof
    fix info
    assume "info \<in> set (entries_of_color mp c)"
    then have "known (mp_txstore mp) (cthi_get_txid info)"
      using mempool_ok_entries(2) [OF ok] by blast
    then show "\<exists>y. and_then (expect ''missing mempool tx'' (hm_get (mp_txstore mp) (cthi_get_txid info)))
        (\<lambda>tx. Inr (tx, None)) = Inr y"
      by (auto simp: known_def expect_def)
  qed
  ultimately show ?thesis using ok by blast
qed

section \<open>The transactions of the node\<close>

lemma add_tx_store: "add_tx T u txos mp (time, tx) = Inr mp' \<Longrightarrow> mp_txstore mp' = mp_txstore mp"
  by (erule add_tx_result) simp

lemma mp_store_txs_known:
  "known (mp_txstore (mp_store_txs T txs mp)) t \<longleftrightarrow> known (mp_txstore mp) t \<or> t \<in> malfix_txid T ` snd ` set txs"
proof -
  have "known (fold (\<lambda>(_, tx). hm_insert (malfix_txid T tx) tx) txs m) t \<longleftrightarrow> known m t \<or> t \<in> malfix_txid T ` snd ` set txs" for m
    by (induction txs arbitrary: m) (auto split: prod.split)
  then show ?thesis by (simp add: mp_store_txs_def)
qed

lemma mempool_add_store:
  assumes "mempool_add Q st u txs mp = Inr mp'"
  shows "mp_txstore mp' = mp_txstore (mp_store_txs (tap (cq_ext Q)) txs mp)"
proof -
  let ?T = "tap (cq_ext Q)"
  have "mp' = mp_store_txs ?T txs mp \<or> (\<exists>txos. fold_res (add_tx ?T u txos) (mp_store_txs ?T txs mp) txs = Inr mp')"
    using assms
    by (cases "mp_get_prevouts (mp_store_txs ?T txs mp) (map (\<lambda>(_, tx). malfix_txid ?T tx) txs)")
      (auto simp: mempool_add_def Let_def split: sum.splits if_splits)
  then show ?thesis
  proof
    assume "\<exists>txos. fold_res (add_tx ?T u txos) (mp_store_txs ?T txs mp) txs = Inr mp'"
    then obtain txos where "fold_res (add_tx ?T u txos) (mp_store_txs ?T txs mp) txs = Inr mp'" by blast
    then show ?thesis
      by (rule fold_res_invariant [where P = "\<lambda>m. mp_txstore m = mp_txstore (mp_store_txs ?T txs mp)"])
        (simp, metis add_tx_store surj_pair)
  qed simp
qed

lemma update_backlog_stats_store: "update_backlog_stats now mp = Inr mp' \<Longrightarrow> mp_txstore mp' = mp_txstore mp"
  by (auto simp: update_backlog_stats_def split: if_splits)

lemma mempool_update_known:
  assumes "mempool_ok (tap (cq_ext Q)) mp" "mempool_update Q st u now mp = Inr mp'"
    "getmempool (cq_lib Q) (cq_rpc Q) = Inr txs"
    "gettransactions (cq_lib Q) (tap (cq_ext Q)) (cq_rpc Q) (filter (\<lambda>t. t \<notin> set (mp_txids mp)) (map fst txs)) = Inr new"
    "map (malfix_txid (tap (cq_ext Q))) new = filter (\<lambda>t. t \<notin> set (mp_txids mp)) (map fst txs)"
  shows "set (mp_txids mp') = fst ` set txs \<and>
    (\<forall>h. \<forall>e \<in> set (entries_of_script mp' h). thi_get_txid e \<in> fst ` set txs) \<and>
    (\<forall>c. \<forall>i \<in> set (entries_of_color mp' c). cthi_get_txid i \<in> fst ` set txs) \<and>
    (\<forall>out s. mp_lookup_spend mp' out = Some s \<longrightarrow> sp_txid s \<in> fst ` set txs)"
proof -
  let ?T = "tap (cq_ext Q)"
  have ids: "t \<in> set (mp_txids m) \<longleftrightarrow> known (mp_txstore m) t" for t m
    by (simp add: mp_txids_def known_def map_of_eq_None_iff)
  have ok: "mempool_ok ?T mp'" using mempool_update_ok [OF assms(2,1)] .
  have known: "known (mp_txstore mp') t \<longleftrightarrow> t \<in> fst ` set txs" for t
    using assms(2)
  proof (cases rule: mempool_update_steps)
    case 1
    then show ?thesis using assms(3,4) by auto
  next
    case (2 txs' to_add mp1 mp2)
    have new: "map snd to_add = new" "txs' = txs" using 2(1,2) assms(3,4) by auto
    have "malfix_txid ?T ` snd ` set to_add = set (map (malfix_txid ?T) (map snd to_add))"
      by (simp add: image_image)
    then have added: "malfix_txid ?T ` snd ` set to_add = fst ` set txs - set (mp_txids mp)"
      unfolding new assms(5) by auto
    have ok1: "mempool_ok ?T mp1" by (rule mempool_add_ok [OF 2(3) assms(1)])
    have "known (mp_txstore mp') t \<longleftrightarrow> known (mp_txstore mp2) t"
      using update_backlog_stats_store [OF 2(5)] by simp
    also have "\<dots> \<longleftrightarrow> known (mp_txstore mp1) t \<and> \<not> (t \<notin> fst ` set txs \<and> t \<in> set (mp_txids mp))"
      using mempool_remove_entries(1) [OF 2(4) ok1, of t] by (auto simp: known_def new)
    also have "known (mp_txstore mp1) t \<longleftrightarrow> known (mp_txstore mp) t \<or> t \<in> fst ` set txs - set (mp_txids mp)"
      using mempool_add_store [OF 2(3)] mp_store_txs_known [of ?T to_add mp t] added by simp
    finally show ?thesis using ids [of t mp] by blast
  qed
  have "sp_txid s \<in> fst ` set txs" if "mp_lookup_spend mp' out = Some s" for out s
  proof -
    obtain t vin where "hm_get (mp_edges mp') out = Some (t, vin)" "sp_txid s = t"
      using \<open>mp_lookup_spend mp' out = Some s\<close> by (auto simp: mp_lookup_spend_def)
    moreover have "\<forall>e t vin. hm_get (mp_edges mp') e = Some (t, vin) \<longrightarrow> known (mp_txstore mp') t"
      using ok by (simp add: mempool_ok_def)
    ultimately show ?thesis using known by blast
  qed
  moreover have "set (mp_txids mp') = fst ` set txs" using known ids by blast
  ultimately show ?thesis using mempool_ok_entries [OF ok] known by blast
qed

text \<open>
  C13: following the node. An update that returns has found the list of the node's mempool. If the node then failed
  to return the new transactions, the mempool is as it was. If it returned those it was asked for, the mempool
  stores exactly the transactions of the list, and no entry of a history, no colour entry and no spend edge
  mentions any other; the list of recent transactions may.
\<close>

theorem mempool_update_follows_node:
  fixes Q mp txs
  defines "asked \<equiv> filter (\<lambda>t. t \<notin> set (mp_txids mp)) (map fst txs)"
  assumes "mempool_ok (tap (cq_ext Q)) mp" "mempool_update Q st u now mp = Inr mp'"
    "getmempool (cq_lib Q) (cq_rpc Q) = Inr txs"
  shows "case gettransactions (cq_lib Q) (tap (cq_ext Q)) (cq_rpc Q) asked of
      Inl e \<Rightarrow> mp' = mp
    | Inr new \<Rightarrow> map (malfix_txid (tap (cq_ext Q))) new = asked \<longrightarrow>
        set (mp_txids mp') = fst ` set txs \<and>
        (\<forall>h. \<forall>e \<in> set (entries_of_script mp' h). thi_get_txid e \<in> fst ` set txs) \<and>
        (\<forall>c. \<forall>i \<in> set (entries_of_color mp' c). cthi_get_txid i \<in> fst ` set txs) \<and>
        (\<forall>out s. mp_lookup_spend mp' out = Some s \<longrightarrow> sp_txid s \<in> fst ` set txs)"
proof (cases "gettransactions (cq_lib Q) (tap (cq_ext Q)) (cq_rpc Q) asked")
  case (Inl e)
  with assms(3,4) have "mp' = mp" by (auto simp: mempool_update_def asked_def Let_def chain_err_def split: if_splits)
  with Inl show ?thesis by simp
next
  case (Inr new)
  with mempool_update_known [OF assms(2-4)] show ?thesis unfolding asked_def by simp
qed

section \<open>Examples\<close>

text \<open>A node whose mempool holds one transaction, and an update from it.\<close>

definition ex_free_tx :: transaction where
  "ex_free_tx = ex_tx\<lparr>tx_input := []\<rparr>"

definition ex_mempool_json :: json where
  "ex_mempool_json = (let n = JNum (PosInt 1) in JArr [n, n, n, n, n, n, n, n, n, n, n, j_hash lib_ref 40])"

definition ex_mempool_rpc :: rpc where
  "ex_mempool_rpc method ps =
     (if method = ''getrawmempool'' then Inr [JObj [(hash_to_hex lib_ref 40, ex_mempool_json)]]
      else Inr (map (\<lambda>_. JStr (hex_encode lib_ref (serialize_tx tapyrus_ref ex_free_tx))) ps))"

definition ex_query :: "kv list chain_query" where
  "ex_query = \<lparr>cq_ext = ext_ref, cq_lib = lib_ref, cq_rpc = ex_mempool_rpc, cq_light_mode = False,
     cq_network = \<lparr>network_type = Dev, network_id = 1\<rparr>\<rparr>"

lemma ex_mempool_entry: "\<exists>m. js_mempool_tx lib_ref ex_mempool_json = Some m"
proof -
  have "js_hash lib_ref (j_hash lib_ref 40) = Some 40" by (rule ref_lib.js_hash_j_hash)
  then show ?thesis
    by (simp add: ex_mempool_json_def Let_def js_mempool_tx_def js_field_def js_struct_def js_u32_def js_u64_def js_f32_def)
qed

lemma ex_getmempool: "\<exists>m. getmempool lib_ref ex_mempool_rpc = Inr [(40, m)]"
proof -
  obtain m where "js_mempool_tx lib_ref ex_mempool_json = Some m" using ex_mempool_entry by blast
  then show ?thesis
    by (simp add: getmempool_def rpc_request_def ex_mempool_rpc_def ok_or_def assert_res_def
        ref_lib.hash_from_to_hex hm_collect_def)
qed

lemma ex_gettransactions: "gettransactions lib_ref tapyrus_ref ex_mempool_rpc [40] = Inr [ex_free_tx]"
  by (simp add: gettransactions_def ex_mempool_rpc_def tx_from_value_def ok_or_def assert_res_def
      ref_lib.hex_decode_encode ref_tap.deserialize_serialize_tx)

definition ex_store :: "kv list store" where
  "ex_store = ix_store ex_indexer"

lemma ex_free_tx_id: "malfix_txid tapyrus_ref ex_free_tx = 40"
  by (simp add: tapyrus_ref_def ex_free_tx_def ex_tx_def)

lemma ex_free_fields [simp]:
  "tx_input ex_free_tx = []" "tx_output ex_free_tx = [\<lparr>txo_value = 70, txo_script_pubkey = [0x51]\<rparr>]"
  by (simp_all add: ex_free_tx_def ex_tx_def)

lemma ex_add_free:
  "\<exists>mp'. mempool_add ex_query ex_store False [(t, ex_free_tx)] (mempool_new 0) = Inr mp' \<and> mp_txids mp' = [40] \<and>
     snd (mp_backlog_stats mp') = 0"
proof -
  let ?mp = "mp_store_txs tapyrus_ref [(t, ex_free_tx)] (mempool_new 0)"
  have store: "mp_txstore ?mp = [(40, ex_free_tx)]"
    by (simp add: mp_store_txs_def mempool_new_def ex_free_tx_id)
  have pre: "mp_get_prevouts ?mp [40] = Inr []"
    by (simp add: mp_get_prevouts_def store expect_def tx_prevouts_def)
  have txos: "mp_lookup_txos ex_query ex_store ?mp [] = Inr []"
    by (simp add: mp_lookup_txos_def lookup_avail_txos_def lookup_txos_def hm_collect_def map_filter_def)
  have "extract_tx_prevouts ex_free_tx [] False = Inr []"
    by (simp add: extract_tx_prevouts_def hm_collect_def)
  then have "\<exists>mp'. add_tx tapyrus_ref False [] ?mp (t, ex_free_tx) = Inr mp' \<and> mp_txids mp' = [40] \<and> snd (mp_backlog_stats mp') = 0"
    by (simp add: add_tx_def ex_free_tx_id store expect_def Let_def mp_spending_entries_def mp_txids_def)
      (simp add: mp_store_txs_def mempool_new_def)
  then show ?thesis
    by (simp add: mempool_add_def ex_query_def ext_ref_def)
      (use pre txos in \<open>simp add: ex_free_tx_id ex_query_def ext_ref_def\<close>)
qed

lemma ex_update:
  "\<exists>mp'. mempool_update ex_query ex_store False 0 (mempool_new 0) = Inr mp' \<and> mp_txids mp' = [40]"
proof -
  obtain m where m: "getmempool lib_ref ex_mempool_rpc = Inr [(40, m)]" using ex_getmempool by blast
  obtain mp' where mp': "mempool_add ex_query ex_store False [(mt_time m, ex_free_tx)] (mempool_new 0) = Inr mp'"
    "mp_txids mp' = [40]" "snd (mp_backlog_stats mp') = 0" using ex_add_free by blast
  have q: "cq_lib ex_query = lib_ref" "cq_rpc ex_query = ex_mempool_rpc" "tap (cq_ext ex_query) = tapyrus_ref"
    by (simp_all add: ex_query_def ext_ref_def)
  have none: "mp_txids (mempool_new 0) = []" by (simp add: mp_txids_def mempool_new_def)
  show ?thesis
    using mp'
    by (simp add: mempool_update_def Let_def q none m ex_gettransactions ex_free_tx_id expect_def mempool_remove_def
        update_backlog_stats_def) (simp add: mp_txids_def)
qed

lemma mempool_update_follows_node_witness:
  "\<exists>mp'. mempool_update ex_query ex_store False 0 (mempool_new 0) = Inr mp' \<and> set (mp_txids mp') = {40}"
proof -
  obtain mp' where mp': "mempool_update ex_query ex_store False 0 (mempool_new 0) = Inr mp'" using ex_update by blast
  obtain m where m: "getmempool lib_ref ex_mempool_rpc = Inr [(40, m)]" using ex_getmempool by blast
  have q: "cq_lib ex_query = lib_ref" "cq_rpc ex_query = ex_mempool_rpc" "tap (cq_ext ex_query) = tapyrus_ref"
    by (simp_all add: ex_query_def ext_ref_def)
  have none: "mp_txids (mempool_new 0) = []" by (simp add: mp_txids_def mempool_new_def)
  have "set (mp_txids mp') = fst ` set [(40, m)]"
    using mempool_update_follows_node [OF _ mp', of "[(40, m)]"]
    by (simp add: q none m ex_gettransactions ex_free_tx_id mempool_new_ok)
  then show ?thesis using mp' by simp
qed

lemma mempool_reachable_witness:
  "\<exists>mp'. mempool_reach ext_ref mp' \<and> known (mp_txstore mp') 40 \<and> mempool_ok tapyrus_ref mp'"
proof -
  obtain mp' where mp': "mempool_update ex_query ex_store False 0 (mempool_new 0) = Inr mp'" "mp_txids mp' = [40]"
    using ex_update by blast
  have e: "cq_ext ex_query = ext_ref" "tap ext_ref = tapyrus_ref" by (simp_all add: ex_query_def ext_ref_def)
  have r: "mempool_reach ext_ref mp'" by (rule reach_update [OF reach_new e(1) mp'(1)])
  moreover have "known (mp_txstore mp') 40"
    using mp'(2) by (auto simp: mp_txids_def known_def map_of_eq_None_iff)
  ultimately show ?thesis using mempool_reachable [OF r] e(2) by auto
qed

lemma mempool_entries_as_indexed_witness:
  "\<exists>mp'. add_tx tapyrus_ref False [] (mp_store_txs tapyrus_ref [(5, ex_free_tx)] (mempool_new 0)) (5, ex_free_tx) = Inr mp' \<and>
     size (mset (entries_of_script mp' (compute_script_hash tapyrus_ref [0x51]))) = 1"
proof -
  let ?mp = "mp_store_txs tapyrus_ref [(5, ex_free_tx)] (mempool_new 0)" and ?h = "compute_script_hash tapyrus_ref [0x51]"
  have store: "mp_txstore ?mp = [(40, ex_free_tx)]"
    by (simp add: mp_store_txs_def mempool_new_def ex_free_tx_id)
  have "extract_tx_prevouts ex_free_tx [] False = Inr []"
    by (simp add: extract_tx_prevouts_def hm_collect_def)
  then obtain mp' where mp': "add_tx tapyrus_ref False [] ?mp (5, ex_free_tx) = Inr mp'"
    by (simp add: add_tx_def ex_free_tx_id store expect_def Let_def mp_spending_entries_def)
  have none: "entries_of_script ?mp ?h = []"
    by (simp add: entries_of_script_def mp_store_txs_def mempool_new_def)
  have sp: "is_spendable tapyrus_ref \<lparr>txo_value = 70, txo_script_pubkey = [0x51]\<rparr>" "split_color tapyrus_ref [0x51] = None"
    by (simp_all add: is_spendable_def tapyrus_ref_def ref_split_color_def)
  have "mset (entries_of_script mp' ?h) = mset (entries_of_script ?mp ?h) +
      mset (map snd (filter (\<lambda>e. fst e = ?h) (history_entries tapyrus_ref False ex_free_tx [])))"
    using mempool_entries_as_indexed [OF mp', where h = ?h] by (simp add: ex_free_tx_id store)
  then have "size (mset (entries_of_script mp' ?h)) = 1"
    by (simp add: none history_entries_def output_entries_def script_entries_def sp)
  then show ?thesis using mp' by blast
qed

end
