(* ===== verification/Caches.thy ===== *)
theory Caches
  imports Chain_Query
begin

text \<open>
  The caches of \<open>Chain_Query\<close>. A scan of a script's history from a height delivers the entries at or above
  it; so unspent outputs computed from a cached map and the entries above its height are those computed from
  the whole history. Statistics whose cached block has been orphaned are counted twice.
\<close>

section \<open>The history of a script, by height\<close>

lemma strict_rows_unique:
  assumes "sorted_wrt (\<lambda>r s. row_key r < row_key s) xs" "sorted_wrt (\<lambda>r s. row_key r < row_key s) ys" "set xs = set ys"
  shows "xs = (ys :: db_row list)"
proof -
  have "map row_key xs = map row_key ys"
    by (rule strict_sorted_equal) (use assms in \<open>simp_all add: sorted_wrt_map\<close>)
  moreover have "inj_on row_key (set xs \<union> set ys)"
  proof (rule inj_onI)
    fix r s
    assume rs: "r \<in> set xs \<union> set ys" "s \<in> set xs \<union> set ys" "row_key r = row_key s"
    then have "r \<in> set xs" "s \<in> set xs" using assms(3) by simp_all
    then obtain i j where "i < length xs" "r = xs ! i" "j < length xs" "s = xs ! j"
      by (metis in_set_conv_nth)
    then show "r = s"
      using assms(1) rs(3) unfolding sorted_wrt_iff_nth_less by (metis less_irrefl linorder_neqE_nat)
  qed
  ultimately show ?thesis by (rule map_inj_on)
qed

text \<open>The keys of a script's rows, in the order of the index.\<close>

definition script_keys :: "'d chain_query \<Rightarrow> 'd store \<Rightarrow> scripthash \<Rightarrow> tx_history_key list \<Rightarrow> bool" where
  "script_keys Q st sh ks \<longleftrightarrow>
     (\<forall>k \<in> set ks. thk_code k = byte CHR ''H'' \<and> thk_hash k = sh \<and>
        (\<forall>f. thk_txinfo k = Funding f \<longrightarrow> fi_open_asset f = None)) \<and>
     history_iter_scan Q st (byte CHR ''H'') sh 0 = map (tx_history_row_into_row (bo (cq_ext Q))) ks"

lemma prefix_height_filter: "prefix (tx_history_row_filter c h) (tx_history_row_prefix_height B c h n)"
  by (simp add: tx_history_row_filter_def tx_history_row_prefix_height_def)

lemma scan_from_height:
  assumes "rocksdb (rdb (cq_ext Q))" "bincode_ordered (bo (cq_ext Q))" "script_keys Q st sh ks"
  shows "history_iter_scan Q st (byte CHR ''H'') sh n =
    map (tx_history_row_into_row (bo (cq_ext Q))) (filter (\<lambda>k. of_nat n \<le> thk_confirmed_height k) ks)"
proof (rule strict_rows_unique)
  let ?R = "rdb (cq_ext Q)" and ?B = "bo (cq_ext Q)"
  have kv: "kv_store (db_get ?R) (db_put ?R) (db_write ?R) (db_iter_scan ?R) (db_iter_scan_from ?R) (db_iter_scan_reverse ?R)"
    using assms(1) by (rule rocksdb.kv_laws)
  have scan: "r \<in> set (history_iter_scan Q st (byte CHR ''H'') sh m) \<longleftrightarrow>
      prefix (tx_history_row_filter (byte CHR ''H'') sh) (row_key r) \<and>
      tx_history_row_prefix_height ?B (byte CHR ''H'') sh (of_nat m) \<le> row_key r \<and>
      has_row (db_get ?R (sto_history st)) r" for r m
    unfolding history_iter_scan_def by (rule kv_store.set_scan_from [OF kv prefix_height_filter])
  have ks: "history_iter_scan Q st (byte CHR ''H'') sh 0 = map (tx_history_row_into_row ?B) ks"
    "\<And>k. k \<in> set ks \<Longrightarrow> thk_code k = byte CHR ''H'' \<and> thk_hash k = sh"
    using assms(3) by (auto simp: script_keys_def)
  note order = history_row_scan_order [OF assms(2)]
  show "sorted_wrt (\<lambda>r s. row_key r < row_key s) (history_iter_scan Q st (byte CHR ''H'') sh n)"
    unfolding history_iter_scan_def by (rule kv_store.scan_from_sorted [OF kv])
  have all: "sorted_wrt (\<lambda>r s. row_key r < row_key s) (map (tx_history_row_into_row ?B) ks)"
    unfolding ks(1) [symmetric] history_iter_scan_def by (rule kv_store.scan_from_sorted [OF kv])
  then show "sorted_wrt (\<lambda>r s. row_key r < row_key s)
      (map (tx_history_row_into_row ?B) (filter (\<lambda>k. of_nat n \<le> thk_confirmed_height k) ks))"
    by (simp add: sorted_wrt_map sorted_wrt_filter)
  have zero: "tx_history_row_prefix_height ?B (byte CHR ''H'') sh (of_nat 0) \<le> row_key r"
    if "tx_history_row_prefix_height ?B (byte CHR ''H'') sh (of_nat n) \<le> row_key r" for r
  proof -
    have "bc_u32 ?B 0 \<le> bc_u32 ?B (of_nat n)"
    proof (cases "(of_nat n :: u32) = 0")
      case False
      then have "(0 :: u32) \<noteq> of_nat n" by simp
      from bincode_ordered.u32_order_iff [OF assms(2) this, of "[]" "[]"] False
      show ?thesis by (simp add: word_neq_0_conv order.order_iff_strict)
    qed simp
    then have "tx_history_row_prefix_height ?B (byte CHR ''H'') sh (of_nat 0) \<le>
        tx_history_row_prefix_height ?B (byte CHR ''H'') sh (of_nat n)"
      by (simp add: tx_history_row_prefix_height_def)
    then show ?thesis using that by (rule order_trans)
  qed
  have at: "tx_history_row_prefix_height ?B (byte CHR ''H'') sh (of_nat n) \<le> row_key (tx_history_row_into_row ?B k) \<longleftrightarrow>
      of_nat n \<le> thk_confirmed_height k" if "k \<in> set ks" for k
    using order [of k "byte CHR ''H''" sh "of_nat n"] ks(2) [OF that] by blast
  show "set (history_iter_scan Q st (byte CHR ''H'') sh n) =
      set (map (tx_history_row_into_row ?B) (filter (\<lambda>k. of_nat n \<le> thk_confirmed_height k) ks))"
  proof (rule set_eqI)
    fix r
    have "r \<in> set (history_iter_scan Q st (byte CHR ''H'') sh n) \<longleftrightarrow>
        r \<in> set (history_iter_scan Q st (byte CHR ''H'') sh 0) \<and>
        tx_history_row_prefix_height ?B (byte CHR ''H'') sh (of_nat n) \<le> row_key r"
      unfolding scan using zero by blast
    also have "\<dots> \<longleftrightarrow> r \<in> tx_history_row_into_row ?B ` set ks \<and>
        tx_history_row_prefix_height ?B (byte CHR ''H'') sh (of_nat n) \<le> row_key r"
      unfolding ks(1) set_map ..
    also have "\<dots> \<longleftrightarrow> r \<in> tx_history_row_into_row ?B ` {k \<in> set ks. of_nat n \<le> thk_confirmed_height k}"
      using at by blast
    finally show "r \<in> set (history_iter_scan Q st (byte CHR ''H'') sh n) \<longleftrightarrow>
        r \<in> set (map (tx_history_row_into_row ?B) (filter (\<lambda>k. of_nat n \<le> thk_confirmed_height k) ks))"
      by (simp only: set_map set_filter)
  qed
qed

lemma keys_sorted_by_height:
  assumes "rocksdb (rdb (cq_ext Q))" "bincode_ordered (bo (cq_ext Q))" "script_keys Q st sh ks"
  shows "sorted_wrt (\<lambda>k l. thk_confirmed_height k \<le> thk_confirmed_height l) ks"
proof -
  let ?R = "rdb (cq_ext Q)" and ?B = "bo (cq_ext Q)"
  have kv: "kv_store (db_get ?R) (db_put ?R) (db_write ?R) (db_iter_scan ?R) (db_iter_scan_from ?R) (db_iter_scan_reverse ?R)"
    using assms(1) by (rule rocksdb.kv_laws)
  have ks: "history_iter_scan Q st (byte CHR ''H'') sh 0 = map (tx_history_row_into_row ?B) ks"
    "\<And>k. k \<in> set ks \<Longrightarrow> thk_code k = byte CHR ''H'' \<and> thk_hash k = sh"
    using assms(3) by (auto simp: script_keys_def)
  have "sorted_wrt (\<lambda>r s. row_key r < row_key s) (map (tx_history_row_into_row ?B) ks)"
    unfolding ks(1) [symmetric] history_iter_scan_def by (rule kv_store.scan_from_sorted [OF kv])
  then have lt: "sorted_wrt (\<lambda>k l. row_key (tx_history_row_into_row ?B k) < row_key (tx_history_row_into_row ?B l)) ks"
    by (simp add: sorted_wrt_map)
  show ?thesis
  proof (rule sorted_wrt_mono_rel [OF _ lt])
    fix k l
    assume k: "k \<in> set ks" and l: "l \<in> set ks"
      and lt: "row_key (tx_history_row_into_row ?B k) < row_key (tx_history_row_into_row ?B l)"
    have k': "thk_code k = byte CHR ''H''" "thk_hash k = sh" and l': "thk_code l = byte CHR ''H''" "thk_hash l = sh"
      using ks(2) k l by blast+
    have "tx_history_row_prefix_height ?B (byte CHR ''H'') sh (thk_confirmed_height k) \<le> row_key (tx_history_row_into_row ?B k)"
      using history_row_scan_order [OF assms(2) k', of "thk_confirmed_height k"] by simp
    also note lt
    finally show "thk_confirmed_height k \<le> thk_confirmed_height l"
      using history_row_scan_order [OF assms(2) l', of "thk_confirmed_height k"] by (simp add: less_imp_le)
  qed
qed

section \<open>Entries, and the split at a height\<close>

definition confirmed_entry :: "'d chain_query \<Rightarrow> 'd store \<Rightarrow> tx_history_key \<Rightarrow> (tx_history_info \<times> block_id) option res" where
  "confirmed_entry Q st k =
     and_then (tx_confirming_block Q st (thi_get_txid (thk_txinfo k))) (\<lambda>b. Inr (map_option (Pair (thk_txinfo k)) b))"

definition entries_of_keys :: "'d chain_query \<Rightarrow> 'd store \<Rightarrow> tx_history_key list \<Rightarrow> (tx_history_info \<times> block_id) stream" where
  "entries_of_keys Q st ks = sfilter_map (confirmed_entry Q st) (map Inr ks)"

lemma entries_of_keys_append: "entries_of_keys Q st (ks @ ls) = entries_of_keys Q st ks @ entries_of_keys Q st ls"
  unfolding entries_of_keys_def by (induction ks) (auto split: sum.split option.split)

lemma history_entries_keys:
  assumes "rocksdb (rdb (cq_ext Q))" "bincode_ordered (bo (cq_ext Q))" "script_keys Q st sh ks"
  shows "history_entries_from Q st sh n =
    entries_of_keys Q st (filter (\<lambda>k. of_nat n \<le> thk_confirmed_height k) ks)"
proof -
  have B: "bincode_laws (bo (cq_ext Q))" using assms(2) by (rule bincode_ordered.axioms)
  have "tx_history_row_from_row (bo (cq_ext Q)) (tx_history_row_into_row (bo (cq_ext Q)) k) = Inr k"
    if "k \<in> set ks" for k
    using that assms(3) history_row_roundtrip [OF B] by (auto simp: script_keys_def)
  then have "map (tx_history_row_from_row (bo (cq_ext Q))) (history_iter_scan Q st (byte CHR ''H'') sh n) =
      map Inr (filter (\<lambda>k. of_nat n \<le> thk_confirmed_height k) ks)"
    unfolding scan_from_height [OF assms] by simp
  then show ?thesis
    by (simp add: history_entries_from_def entries_of_keys_def confirmed_entry_def [abs_def])
qed

lemma split_at_height:
  assumes "sorted_wrt (\<lambda>k l. thk_confirmed_height k \<le> thk_confirmed_height l) ks"
  shows "ks = filter (\<lambda>k. thk_confirmed_height k < n) ks @ filter (\<lambda>k. n \<le> thk_confirmed_height k) ks"
  using assms
proof (induction ks)
  case Nil
  then show ?case by simp
next
  case (Cons k ks)
  have "filter (\<lambda>k. thk_confirmed_height k < n) ks = []" if "n \<le> thk_confirmed_height k"
    using that Cons.prems by (auto simp: filter_empty_conv not_less)
  then show ?case using Cons by (auto simp: not_less)
qed

text \<open>The entries below a height, and the whole as those below followed by those from it on.\<close>

lemma history_entries_split:
  assumes "rocksdb (rdb (cq_ext Q))" "bincode_ordered (bo (cq_ext Q))" "script_keys Q st sh ks"
  shows "history_entries_from Q st sh 0 =
    entries_of_keys Q st (filter (\<lambda>k. thk_confirmed_height k < of_nat n) ks) @ history_entries_from Q st sh n"
proof -
  have "history_entries_from Q st sh 0 = entries_of_keys Q st ks" by (simp add: history_entries_keys [OF assms])
  also have "ks = filter (\<lambda>k. thk_confirmed_height k < of_nat n) ks @ filter (\<lambda>k. of_nat n \<le> thk_confirmed_height k) ks"
    by (rule split_at_height) (rule keys_sorted_by_height [OF assms])
  finally show ?thesis by (simp add: entries_of_keys_append history_entries_keys [OF assms])
qed

section \<open>Unspent outputs\<close>

lemma utxo_fold_state:
  "and_then (fold_res (utxo_step limit) (m, a, n) es) (\<lambda>(m, _, _). Inr m) =
   and_then (fold_res (utxo_step limit) (m, a', n') es) (\<lambda>(m, _, _). Inr m)"
proof (induction es arbitrary: m a n a' n')
  case Nil
  then show ?case by simp
next
  case (Cons e es)
  have "(\<exists>x. \<forall>a n. utxo_step limit (m, a, n) e = Inl x) \<or>
      (\<exists>m' b. \<forall>a n. utxo_step limit (m, a, n) e = Inr (m', b, n + 1))"
  proof (cases e)
    case (Inl x)
    then show ?thesis by (simp add: utxo_step_def)
  next
    case (Inr p)
    obtain i b where "p = (i, b)" by (cases p)
    then show ?thesis using Inr by (cases i) (auto simp: utxo_step_def Let_def)
  qed
  then show ?case
  proof (elim disjE exE)
    fix x
    assume "\<forall>a n. utxo_step limit (m, a, n) e = Inl x"
    then show ?thesis by simp
  next
    fix m' b
    assume "\<forall>a n. utxo_step limit (m, a, n) e = Inr (m', b, n + 1)"
    then show ?thesis using Cons.IH [of m' b "n + 1" b "n' + 1"] by simp
  qed
qed

lemma chain_utxo_result:
  "snd (chain_utxo Q st sh limit) =
     and_then (cached_utxos Q st sh) (\<lambda>cache.
     and_then (case cache of
         None \<Rightarrow> utxo_delta Q st sh [] 0 limit
       | Some (oldutxos, blockheight) \<Rightarrow> utxo_delta Q st sh oldutxos (blockheight + 1) limit) (\<lambda>(m, _, _).
       Inr (utxos_of_map m)))"
proof (cases "cached_utxos Q st sh")
  case (Inl e)
  then show ?thesis by (simp add: chain_utxo_def)
next
  case (Inr cache)
  have out: "snd (case and_then r (\<lambda>r. Inr (c, r)) of
        Inl e \<Rightarrow> (st, Inl e)
      | Inr (had_cache, newutxos, lastblock, processed_items) \<Rightarrow>
          (case lastblock of
             None \<Rightarrow> st
           | Some lastblock \<Rightarrow>
               if had_cache \<or> MIN_HISTORY_ITEMS_TO_CACHE < processed_items then g newutxos lastblock else st,
           Inr (utxos_of_map newutxos))) = and_then r (\<lambda>(m, _, _). Inr (utxos_of_map m))"
    for r :: "(utxo_map \<times> blockhash option \<times> nat) res" and g c
    by (cases r) (simp_all split: prod.split)
  show ?thesis by (cases cache) (simp_all add: chain_utxo_def Inr out split: prod.split)
qed

section \<open>What is saved\<close>

lemma hm_collect_distinct: "distinct (map fst kvs) \<Longrightarrow> hm_collect kvs = kvs"
proof (induction kvs rule: rev_induct)
  case Nil
  then show ?case by (simp add: hm_collect_def)
next
  case (snoc kv kvs)
  have absent: "k \<notin> fst ` set m \<Longrightarrow> hm_insert k v m = m @ [(k, v)]" for k v and m :: "('a, 'b) hashmap"
    by (induction m) auto
  have "fst kv \<notin> fst ` set kvs" using snoc.prems by simp
  from absent [OF this, of "snd kv"] snoc show ?case by (simp add: hm_collect_def split_def)
qed

text \<open>A map of unspent outputs whose blocks are those of the headers of the store.\<close>

definition utxo_map_ok :: "'d store \<Rightarrow> utxo_map \<Rightarrow> bool" where
  "utxo_map_ok st m \<longleftrightarrow> hm_ok m \<and>
     (\<forall>(o', b, c, v) \<in> set m. bid_height b < 2 ^ 32 \<and> blockid_by_height st (bid_height b) = Inr (Some b))"

lemma from_make_utxo_cache:
  assumes "utxo_map_ok st m"
  shows "from_utxo_cache st (make_utxo_cache m) = Inr m" "distinct (map fst (make_utxo_cache m))"
proof -
  have keys: "map fst (make_utxo_cache m) = map (\<lambda>o'. (op_txid o', op_vout o')) (map fst m)"
    by (simp add: make_utxo_cache_def split_def)
  have "x = y" if "op_txid x = op_txid y" "op_vout x = op_vout y" for x y :: outpoint
    using that by (cases x; cases y) simp
  then have "inj (\<lambda>o' :: outpoint. (op_txid o', op_vout o'))" by (auto intro!: injI)
  then show "distinct (map fst (make_utxo_cache m))"
    unfolding keys distinct_map using assms
    by (auto simp: utxo_map_ok_def hm_ok_def distinct_map intro: inj_on_subset)
  have "map_res (\<lambda>((txid, vout), (height, color_id, value)).
         and_then (blockid_by_height st (unat height)) (\<lambda>b.
         and_then (expect ''missing blockheader for valid utxo cache entry'' b) (\<lambda>blockid.
           Inr (\<lparr>op_txid = txid, op_vout = vout\<rparr>, (blockid, color_id, value))))) (make_utxo_cache n) = Inr n"
    if "\<forall>(o', b, c, v) \<in> set n. bid_height b < 2 ^ 32 \<and> blockid_by_height st (bid_height b) = Inr (Some b)" for n
    using that
  proof (induction n)
    case Nil
    then show ?case by (simp add: make_utxo_cache_def)
  next
    case (Cons e n)
    obtain o' b c v where e: "e = (o', b, c, v)" by (cases e) auto
    have "unat (of_nat (bid_height b) :: u32) = bid_height b" using Cons.prems e by (simp add: unat_of_nat_less)
    moreover have "blockid_by_height st (bid_height b) = Inr (Some b)" using Cons.prems e by simp
    ultimately show ?case using Cons by (simp add: make_utxo_cache_def e expect_def)
  qed
  from this [of m] assms show "from_utxo_cache st (make_utxo_cache m) = Inr m"
    by (simp add: from_utxo_cache_def utxo_map_ok_def hm_ok_def hm_collect_distinct)
qed

lemma cached_utxos_saved:
  assumes "bincode_laws (bc (cq_ext Q))" "utxo_map_ok st m" "length m < 2 ^ 64" "height_by_hash st bh = Some h"
    "db_get (rdb (cq_ext Q)) (sto_cache st) (utxo_cache_row_key sh) =
       Some (ucr_value (utxo_cache_row_new (bc (cq_ext Q)) sh m bh))"
  shows "cached_utxos Q st sh = Inr (Some (m, h))"
proof -
  let ?B = "bc (cq_ext Q)"
  have seq: "decodes (bc_de_seq ?B (d_cached_utxo ?B)) (bc_seq ?B (cached_utxo_bytes ?B) (make_utxo_cache m)) (make_utxo_cache m)"
    by (rule bincode_laws.de_seq [OF assms(1)])
      (use assms(3) in \<open>simp_all add: make_utxo_cache_def bincode_laws.decodes_cached_utxo [OF assms(1)]\<close>)
  have "decodes (d_bind (bc_de_seq ?B (d_cached_utxo ?B)) (\<lambda>kvs. d_bind (bc_de_hash ?B) (\<lambda>h. d_ret (hm_collect kvs, h))))
      (ucr_value (utxo_cache_row_new ?B sh m bh)) (make_utxo_cache m, bh)"
    by (intro decodesI)
      (simp add: utxo_cache_row_new_def d_bind_decodes [OF seq] bincode_laws.bc_decode_simps [OF assms(1)] decode_simps
        hm_collect_distinct from_make_utxo_cache(2) [OF assms(2)])
  from d_prefix_decodes [OF this, of "[]"] assms(4,5) show ?thesis
    by (simp add: cached_utxos_def Let_def expect_def from_make_utxo_cache(1) [OF assms(2)])
qed

text \<open>What the cache holds of a script is what the entries up to the cached height give.\<close>

definition utxo_cache_valid :: "'d chain_query \<Rightarrow> 'd store \<Rightarrow> scripthash \<Rightarrow> nat \<Rightarrow> tx_history_key list \<Rightarrow> bool" where
  "utxo_cache_valid Q st sh limit ks \<longleftrightarrow>
     (case cached_utxos Q st sh of
        Inl e \<Rightarrow> False
      | Inr None \<Rightarrow> True
      | Inr (Some (m, h)) \<Rightarrow> \<exists>b n. fold_res (utxo_step limit) ([], None, 0)
          (entries_of_keys Q st (filter (\<lambda>k. thk_confirmed_height k < of_nat (h + 1)) ks)) = Inr (m, b, n))"

text \<open>The rows of confirmed transactions are at the heights of their blocks.\<close>

definition heights_match :: "'d chain_query \<Rightarrow> 'd store \<Rightarrow> tx_history_key list \<Rightarrow> bool" where
  "heights_match Q st ks \<longleftrightarrow> (\<forall>k \<in> set ks. \<forall>b.
     tx_confirming_block Q st (thi_get_txid (thk_txinfo k)) = Inr (Some b) \<longrightarrow> unat (thk_confirmed_height k) = bid_height b)"

lemma snext_sfilter_map: "snext (sfilter_map f rs) = Inr (Some y) \<Longrightarrow> \<exists>r \<in> set rs. \<exists>x. r = Inr x \<and> f x = Inr (Some y)"
  by (induction f rs rule: sfilter_map.induct) (auto split: sum.splits option.splits)

lemma confirming_block_header:
  assumes "tx_confirming_block Q st txid = Inr (Some b)"
  shows "\<exists>h e. header_by_blockhash (sto_headers st) h = Some e \<and> b = block_id_from e"
proof -
  let ?f = "\<lambda>row. and_then (tx_conf_row_from_row row) (\<lambda>conf.
    Inr (header_by_blockhash (sto_headers st) (tcr_blockhash conf)))"
  obtain e where e: "b = block_id_from e" and s: "snext (sfilter_map ?f
      (map Inr (db_iter_scan (rdb (cq_ext Q)) (sto_txstore st) (tx_conf_row_filter (full_hash txid))))) = Inr (Some e)"
    using assms by (auto simp: tx_confirming_block_def)
  from snext_sfilter_map [OF s] obtain row where "?f row = Inr (Some e)" by blast
  then show ?thesis using e by auto
qed

lemma header_entry_at:
  assumes "hl_ok hl" "e \<in> set (hl_headers hl)"
  shows "he_height e < length (hl_headers hl)" "hl_headers hl ! he_height e = e"
proof -
  obtain i where i: "i < length (hl_headers hl)" "hl_headers hl ! i = e" using assms(2) by (metis in_set_conv_nth)
  then have "he_height e = i" using assms(1) linked_heights [of 0 0 "hl_headers hl" i] by (simp add: hl_ok_def)
  with i show "he_height e < length (hl_headers hl)" "hl_headers hl ! he_height e = e" by simp_all
qed

lemma confirming_block_id:
  assumes "tx_confirming_block Q st txid = Inr (Some b)" "hl_ok (sto_headers st)"
  shows "blockid_by_height st (bid_height b) = Inr (Some b)" "height_by_hash st (bid_hash b) = Some (bid_height b)"
    "bid_height b < header_list_len (sto_headers st)"
proof -
  obtain h e where e: "header_by_blockhash (sto_headers st) h = Some e" "b = block_id_from e"
    using confirming_block_header [OF assms(1)] by blast
  then have "e \<in> set (hl_headers (sto_headers st))" using assms(2) by (simp add: header_by_blockhash_ok)
  note at = header_entry_at [OF assms(2) this]
  from e show "blockid_by_height st (bid_height b) = Inr (Some b)" "height_by_hash st (bid_hash b) = Some (bid_height b)"
    "bid_height b < header_list_len (sto_headers st)"
    using assms(2) at
    by (auto simp: blockid_by_height_def height_by_hash_def header_by_blockhash_ok header_by_height_ok block_id_from_def
        header_list_len_def)
qed

text \<open>What a fold over confirmed entries maintains: blocks of the store, no more outputs than the limit.\<close>

lemma utxo_step_inv:
  assumes "utxo_step limit (m, a, n) (Inr (i, b)) = Inr (m', a', n')" "utxo_map_ok st m"
    "bid_height b < 2 ^ 32" "blockid_by_height st (bid_height b) = Inr (Some b)"
  shows "utxo_map_ok st m'" "length m' \<le> limit" "a' = Some (bid_hash b)"
proof -
  have sets: "set (hm_insert k v m) \<subseteq> insert (k, v) (set m)" "set (hm_remove k m) \<subseteq> set m" for k v
    and m :: utxo_map
    by (induction m) auto
  show "utxo_map_ok st m'" "length m' \<le> limit" "a' = Some (bid_hash b)"
    using assms sets
    by (cases i; fastforce simp: utxo_step_def Let_def utxo_map_ok_def split: if_splits)+
qed

lemma utxo_fold_inv:
  assumes "fold_res (utxo_step limit) (m, a, n) (map Inr xs) = Inr (m', a', n')" "utxo_map_ok st m"
    "\<forall>(i, b) \<in> set xs. bid_height b < 2 ^ 32 \<and> blockid_by_height st (bid_height b) = Inr (Some b)"
  shows "utxo_map_ok st m' \<and> (if xs = [] then m' = m \<and> a' = a else length m' \<le> limit \<and> a' = Some (bid_hash (snd (last xs))))"
  using assms
proof (induction xs arbitrary: m a n)
  case Nil
  then show ?case by simp
next
  case (Cons x xs)
  obtain i b where x: "x = (i, b)" by (cases x)
  obtain m1 a1 n1 where step: "utxo_step limit (m, a, n) (Inr (i, b)) = Inr (m1, a1, n1)"
    and rest: "fold_res (utxo_step limit) (m1, a1, n1) (map Inr xs) = Inr (m', a', n')"
    using Cons.prems(1) by (auto simp: x)
  have b: "bid_height b < 2 ^ 32" "blockid_by_height st (bid_height b) = Inr (Some b)" using Cons.prems(3) by (auto simp: x)
  note inv = utxo_step_inv [OF step Cons.prems(2) b]
  from Cons.IH [OF rest inv(1)] Cons.prems(3) inv show ?case by (auto simp: x)
qed

lemma fold_res_streams: "fold_res (utxo_step limit) s rs = Inr s' \<Longrightarrow> \<exists>xs. rs = map Inr xs"
proof (induction rs arbitrary: s)
  case Nil
  then show ?case by simp
next
  case (Cons r rs)
  from Cons.prems obtain s1 where step: "utxo_step limit s r = Inr s1" and rest: "fold_res (utxo_step limit) s1 rs = Inr s'"
    by auto
  obtain x where "r = Inr x" using step by (cases r) (auto simp: utxo_step_def)
  moreover obtain xs where "rs = map Inr xs" using Cons.IH [OF rest] by blast
  ultimately have "r # rs = map Inr (x # xs)" by simp
  then show ?case by (rule exI)
qed

lemma entries_of_keys_confirmed:
  "entries_of_keys Q st ks = map Inr xs \<Longrightarrow> (i, b) \<in> set xs \<Longrightarrow>
     \<exists>k \<in> set ks. thk_txinfo k = i \<and> tx_confirming_block Q st (thi_get_txid i) = Inr (Some b)"
  unfolding entries_of_keys_def
proof (induction ks arbitrary: xs)
  case Nil
  then show ?case by simp
next
  case (Cons k ks)
  show ?case
  proof (cases "confirmed_entry Q st k")
    case (Inl e)
    then show ?thesis using Cons.prems by auto
  next
    case (Inr r)
    then show ?thesis
      using Cons.IH Cons.prems by (cases r) (auto simp: Cons_eq_map_conv confirmed_entry_def)
  qed
qed

lemma utxo_delta_resume:
  assumes "rocksdb (rdb (cq_ext Q))" "bincode_ordered (bo (cq_ext Q))" "script_keys Q st sh ks"
    "fold_res (utxo_step limit) ([], None, 0)
       (entries_of_keys Q st (filter (\<lambda>k. thk_confirmed_height k < of_nat (h + 1)) ks)) = Inr (m, b, n)"
  shows "and_then (utxo_delta Q st sh [] 0 limit) (\<lambda>(m, _, _). Inr m) =
    and_then (utxo_delta Q st sh m (h + 1) limit) (\<lambda>(m, _, _). Inr m)"
proof -
  have "utxo_delta Q st sh [] 0 limit = fold_res (utxo_step limit) (m, b, n) (history_entries_from Q st sh (h + 1))"
    unfolding utxo_delta_def history_entries_split [OF assms(1-3), of "h + 1"] fold_res_append assms(4) by simp
  then show ?thesis unfolding utxo_delta_def using utxo_fold_state by metis
qed

text \<open>After the last confirmed entry only rows of orphaned blocks follow: the whole is what lies below the next height.\<close>

lemma entries_up_to_last:
  assumes "entries_of_keys Q st ks = map Inr xs" "xs \<noteq> []" "heights_match Q st ks"
    "sorted_wrt (\<lambda>k l. thk_confirmed_height k \<le> thk_confirmed_height l) ks"
    "bid_height (snd (last xs)) + 1 < 2 ^ 32"
  shows "entries_of_keys Q st (filter (\<lambda>k. thk_confirmed_height k < of_nat (bid_height (snd (last xs)) + 1)) ks) = map Inr xs"
proof -
  let ?n = "of_nat (bid_height (snd (last xs)) + 1) :: u32"
  have u: "unat ?n = bid_height (snd (last xs)) + 1" using assms(5) by (simp add: unat_of_nat_less del: of_nat_add of_nat_Suc)
  let ?high = "filter (\<lambda>k. ?n \<le> thk_confirmed_height k) ks"
  have split: "entries_of_keys Q st ks =
      entries_of_keys Q st (filter (\<lambda>k. thk_confirmed_height k < ?n) ks) @ entries_of_keys Q st ?high"
    using split_at_height [OF assms(4), of ?n] entries_of_keys_append by metis
  have "map Inr xs = entries_of_keys Q st (filter (\<lambda>k. thk_confirmed_height k < ?n) ks) @ entries_of_keys Q st ?high"
    using split assms(1) by (rule trans [OF sym, rotated])
  then obtain ls hs where lh: "entries_of_keys Q st (filter (\<lambda>k. thk_confirmed_height k < ?n) ks) = map Inr ls"
    "entries_of_keys Q st ?high = map Inr hs" "xs = ls @ hs"
    unfolding map_eq_append_conv by metis
  have "hs = []"
  proof (rule ccontr)
    assume "hs \<noteq> []"
    then have last: "last xs = last hs" "last hs \<in> set hs" using lh(3) by simp_all
    obtain i b where ib: "last hs = (i, b)" by (cases "last hs")
    obtain k where k: "k \<in> set ?high" "tx_confirming_block Q st (thi_get_txid i) = Inr (Some b)" "thk_txinfo k = i"
      using entries_of_keys_confirmed [OF lh(2)] last(2) ib by metis
    then have "unat (thk_confirmed_height k) = bid_height b" using assms(3) by (auto simp: heights_match_def)
    moreover have "unat ?n \<le> unat (thk_confirmed_height k)" using k(1) by (simp add: word_le_nat_alt)
    ultimately show False using u last(1) ib by simp
  qed
  then show ?thesis using lh by simp
qed

lemma same_confirmations:
  "tx_confirming_block Q (st\<lparr>sto_cache := d\<rparr>) = tx_confirming_block Q st"
  "entries_of_keys Q (st\<lparr>sto_cache := d\<rparr>) = entries_of_keys Q st"
  "script_keys Q (st\<lparr>sto_cache := d\<rparr>) sh ks \<longleftrightarrow> script_keys Q st sh ks"
  "utxo_delta Q (st\<lparr>sto_cache := d\<rparr>) = utxo_delta Q st"
  "utxo_map_ok (st\<lparr>sto_cache := d\<rparr>) = utxo_map_ok st"
  "height_by_hash (st\<lparr>sto_cache := d\<rparr>) = height_by_hash st"
  by (simp_all add: fun_eq_iff tx_confirming_block_def entries_of_keys_def confirmed_entry_def [abs_def] script_keys_def
      history_iter_scan_def utxo_delta_def history_entries_from_def utxo_map_ok_def blockid_by_height_def height_by_hash_def)

text \<open>The last block of a fold is that of its last entry, wherever it started.\<close>

lemma utxo_step_last: "utxo_step limit s e = Inr (m, l, k) \<Longrightarrow> \<exists>i b. e = Inr (i, b) \<and> l = Some (bid_hash b)"
  by (cases e) (auto simp: utxo_step_def Let_def split: prod.splits if_splits)

lemma utxo_last_block:
  assumes "fold_res (utxo_step limit) (m0, None, 0) es = Inr (m, Some b, n)" "fold_res (utxo_step limit) s es = Inr (m', l, n')"
  shows "l = Some b"
proof (cases es rule: rev_cases)
  case Nil
  with assms(1) show ?thesis by simp
next
  case (snoc es' e)
  from assms obtain s1 s2 where "utxo_step limit s1 e = Inr (m, Some b, n)" "utxo_step limit s2 e = Inr (m', l, n')"
    by (auto simp: snoc fold_res_append)
  then show ?thesis using utxo_step_last [of limit s1 e m "Some b" n] utxo_step_last [of limit s2 e m' l n'] by auto
qed

text \<open>What a query with a valid cache computes: the whole history, of which it may have read a part from the cache.\<close>

lemma chain_utxo_run:
  assumes "rocksdb (rdb (cq_ext Q))" "bincode_ordered (bo (cq_ext Q))" "script_keys Q st sh ks"
    "utxo_cache_valid Q st sh limit ks"
  obtains (error) e where "chain_utxo Q st sh limit = (st, Inl e)" "utxo_delta Q st sh [] 0 limit = Inl e"
  | (kept) m b n where "chain_utxo Q st sh limit = (st, Inr (utxos_of_map m))" "utxo_delta Q st sh [] 0 limit = Inr (m, b, n)"
  | (saved) m b n where
    "chain_utxo Q st sh limit = (st\<lparr>sto_cache := db_write (rdb (cq_ext Q)) (sto_cache st)
       [utxo_cache_row_into_row (utxo_cache_row_new (bc (cq_ext Q)) sh m b)] Enable\<rparr>, Inr (utxos_of_map m))"
    "utxo_delta Q st sh [] 0 limit = Inr (m, Some b, n)"
proof (cases "cached_utxos Q st sh")
  case (Inl e)
  then show ?thesis using assms(4) by (simp add: utxo_cache_valid_def)
next
  case (Inr cache)
  show ?thesis
  proof (cases cache)
    case None
    show ?thesis
    proof (cases "utxo_delta Q st sh [] 0 limit")
      case (Inl e)
      then show ?thesis using error Inr None by (simp add: chain_utxo_def)
    next
      case d: (Inr r)
      obtain m lb n where "r = (m, lb, n)" using prod_cases3 by blast
      then show ?thesis
        using kept saved d Inr None
        by (cases lb; cases "MIN_HISTORY_ITEMS_TO_CACHE < n") (simp_all add: chain_utxo_def)
    qed
  next
    case (Some mh)
    obtain m0 h where mh: "mh = (m0, h)" by (cases mh)
    obtain b0 n0 where low: "fold_res (utxo_step limit) ([], None, 0)
        (entries_of_keys Q st (filter (\<lambda>k. thk_confirmed_height k < of_nat (h + 1)) ks)) = Inr (m0, b0, n0)"
      using assms(4) by (auto simp: utxo_cache_valid_def Inr Some mh)
    note resume = utxo_delta_resume [OF assms(1-3) low]
    have whole: "utxo_delta Q st sh [] 0 limit = fold_res (utxo_step limit) (m0, b0, n0) (history_entries_from Q st sh (h + 1))"
      unfolding utxo_delta_def history_entries_split [OF assms(1-3), of "h + 1"] fold_res_append low by simp
    show ?thesis
    proof (cases "utxo_delta Q st sh m0 (h + 1) limit")
      case (Inl e)
      then have "utxo_delta Q st sh [] 0 limit = Inl e" using resume by (cases "utxo_delta Q st sh [] 0 limit") auto
      then show ?thesis using error Inr Some mh Inl by (simp add: chain_utxo_def)
    next
      case d: (Inr r)
      obtain m lb n where r: "r = (m, lb, n)" using prod_cases3 by blast
      then obtain lb' n' where w: "utxo_delta Q st sh [] 0 limit = Inr (m, lb', n')"
        using resume d by (cases "utxo_delta Q st sh [] 0 limit") auto
      show ?thesis
      proof (cases lb)
        case None
        then show ?thesis using kept w d r Inr Some mh by (simp add: chain_utxo_def)
      next
        case (Some b)
        have "lb' = Some b"
          using utxo_last_block [of limit m0 "history_entries_from Q st sh (h + 1)" m b n "(m0, b0, n0)" m lb' n'] d r Some w whole
          by (simp add: utxo_delta_def)
        then show ?thesis using saved w d r Inr \<open>cache = Some mh\<close> mh Some by (simp add: chain_utxo_def)
      qed
    qed
  qed
qed

lemma saved_row_read_back:
  assumes "rocksdb R"
  shows "db_get R (db_write R d [utxo_cache_row_into_row (utxo_cache_row_new B sh m b)] f) (utxo_cache_row_key sh) =
    Some (ucr_value (utxo_cache_row_new B sh m b))"
proof -
  let ?row = "utxo_cache_row_into_row (utxo_cache_row_new B sh m b)"
  have kv: "kv_store (db_get R) (db_put R) (db_write R) (db_iter_scan R) (db_iter_scan_from R) (db_iter_scan_reverse R)"
    using assms by (rule rocksdb.kv_laws)
  have "db_get R (db_write R d [?row] f) (row_key ?row) = Some (row_value ?row)"
    by (rule kv_store.get_write_in [OF kv]) (simp_all add: consistent_def)
  then show ?thesis by (simp add: utxo_cache_row_into_row_def utxo_cache_row_new_def utxo_cache_row_key_def)
qed

lemma entry_block_known:
  assumes "entries_of_keys Q st ks = map Inr xs" "(i, c) \<in> set xs" "hl_ok (sto_headers st)" "header_list_len (sto_headers st) + 1 < 2 ^ 32"
  shows "blockid_by_height st (bid_height c) = Inr (Some c)" "height_by_hash st (bid_hash c) = Some (bid_height c)"
    "bid_height c + 1 < 2 ^ 32"
proof -
  have "tx_confirming_block Q st (thi_get_txid i) = Inr (Some c)"
    using entries_of_keys_confirmed [OF assms(1,2)] by blast
  from confirming_block_id [OF this assms(3)] assms(4)
  show "blockid_by_height st (bid_height c) = Inr (Some c)" "height_by_hash st (bid_hash c) = Some (bid_height c)"
    "bid_height c + 1 < 2 ^ 32" by simp_all
qed

text \<open>
  C10: the cache of unspent outputs is transparent. While the cache of a script holds what its entries up to the
  cached height give, a query returns what it returns without a cache (the same outputs or the same error). It
  leaves a cache that again holds that, also when it saves what it computed, if the rows of the script's confirmed
  transactions are at the heights of their blocks; a reorganisation that moves a transaction to another height
  breaks that, as the rows at its old height stay.
\<close>

theorem chain_utxo_cache_transparent:
  assumes "rocksdb (rdb (cq_ext Q))" "bincode_ordered (bo (cq_ext Q))" "bincode_laws (bc (cq_ext Q))"
    "hl_ok (sto_headers st)" "header_list_len (sto_headers st) + 1 < 2 ^ 32" "limit < 2 ^ 64"
    "script_keys Q st sh ks" "utxo_cache_valid Q st sh limit ks"
  shows "snd (chain_utxo Q st sh limit) = and_then (utxo_delta Q st sh [] 0 limit) (\<lambda>(m, _, _). Inr (utxos_of_map m)) \<and>
    (heights_match Q st ks \<longrightarrow> utxo_cache_valid Q (fst (chain_utxo Q st sh limit)) sh limit ks)"
  using assms(1,2,7,8)
proof (cases rule: chain_utxo_run)
  case (error e)
  then show ?thesis using assms(8) by simp
next
  case (kept m b n)
  then show ?thesis using assms(8) by simp
next
  case (saved m b n)
  let ?row = "utxo_cache_row_new (bc (cq_ext Q)) sh m b" and ?R = "rdb (cq_ext Q)"
  let ?db = "db_write ?R (sto_cache st) [utxo_cache_row_into_row ?row] Enable"
  let ?st = "st\<lparr>sto_cache := ?db\<rparr>"
  have all: "history_entries_from Q st sh 0 = entries_of_keys Q st ks"
    using history_entries_keys [OF assms(1,2,7), of 0] by simp
  have run: "fold_res (utxo_step limit) ([], None, 0) (entries_of_keys Q st ks) = Inr (m, Some b, n)"
    using saved(2) by (simp add: utxo_delta_def all)
  obtain xs where xs: "entries_of_keys Q st ks = map Inr xs" using fold_res_streams [OF run] by blast
  note block = entry_block_known [OF xs _ assms(4,5)]
  have inv: "utxo_map_ok st m \<and> (if xs = [] then m = [] \<and> Some b = None else
      length m \<le> limit \<and> Some b = Some (bid_hash (snd (last xs))))"
    by (rule utxo_fold_inv [OF run [unfolded xs]]) (use block in \<open>fastforce simp: utxo_map_ok_def\<close>)+
  then have ne: "xs \<noteq> []" and b: "b = bid_hash (snd (last xs))" by (auto split: if_splits)
  obtain i c where last: "last xs = (i, c)" "(i, c) \<in> set xs" using ne by (metis last_in_set prod.exhaust)
  have get: "db_get ?R ?db (utxo_cache_row_key sh) = Some (ucr_value ?row)" by (rule saved_row_read_back [OF assms(1)])
  have "cached_utxos Q ?st sh = Inr (Some (m, bid_height c))"
    by (rule cached_utxos_saved [OF assms(3)])
      (use inv ne assms(6) block(2) [OF last(2)] get b last(1) in \<open>simp_all add: same_confirmations\<close>)
  moreover have "entries_of_keys Q ?st (filter (\<lambda>k. thk_confirmed_height k < of_nat (bid_height c + 1)) ks) = map Inr xs"
    if "heights_match Q st ks"
    using entries_up_to_last [OF xs ne that keys_sorted_by_height [OF assms(1,2,7)]] block(3) [OF last(2)] last(1)
    by (simp add: same_confirmations)
  ultimately have "heights_match Q st ks \<longrightarrow> utxo_cache_valid Q ?st sh limit ks"
    using run xs by (simp add: utxo_cache_valid_def)
  then show ?thesis using saved by simp
qed

subsection \<open>An example\<close>

lemma ref_scan_single:
  "db_iter_scan rocksdb_ref [(k, v)] p = (if prefix p k then [\<lparr>row_key = k, row_value = v\<rparr>] else [])"
  "db_iter_scan_from rocksdb_ref [(k, v)] p s =
     (if s \<le> k \<and> prefix p k then [\<lparr>row_key = k, row_value = v\<rparr>] else [])"
  using prefix_le [of p k]
  by (auto simp: db_iter_scan_def db_iter_scan_from_def rocksdb_ref_def kv_iter_from_def kv_sorted_def)

text \<open>One confirmed output in the first block of the example chain, cached with that block.\<close>

definition ex_key :: tx_history_key where
  "ex_key = \<lparr>thk_code = byte CHR ''H'', thk_hash = 77, thk_confirmed_height = 0, thk_txinfo = ex_funding 5 70\<rparr>"

definition ex_utxos :: utxo_map where
  "ex_utxos = [(\<lparr>op_txid = 5, op_vout = 0\<rparr>, (block_id_from (ex_entry 0 10 0), default_color, 70))]"

definition ex_cached_store :: "kv list store" where
  "ex_cached_store = \<lparr>
     sto_txstore = [(row_key (tx_conf_row_into_row \<lparr>tcr_code = byte CHR ''C'', tcr_txid = 5, tcr_blockhash = 10\<rparr>), [])],
     sto_history = [(row_key (tx_history_row_into_row bincode_be ex_key), [])],
     sto_cache = [(utxo_cache_row_key 77, ucr_value (utxo_cache_row_new bincode_le 77 ex_utxos 10))],
     sto_added = {}, sto_indexed = {}, sto_headers = ex_chain\<rparr>"

definition ex_chain_query :: "kv list chain_query" where
  "ex_chain_query = \<lparr>cq_ext = ext_ref, cq_lib = lib_ref, cq_rpc = ex_rpc, cq_light_mode = False,
     cq_network = \<lparr>network_type = Dev, network_id = 1\<rparr>\<rparr>"

lemma ex_fields [simp]:
  "rdb (cq_ext ex_chain_query) = rocksdb_ref" "bo (cq_ext ex_chain_query) = bincode_be"
  "bc (cq_ext ex_chain_query) = bincode_le" "sto_headers ex_cached_store = ex_chain"
  by (simp_all add: ex_chain_query_def ext_ref_def ex_cached_store_def)

lemma ex_confirming: "tx_confirming_block ex_chain_query ex_cached_store 5 = Inr (Some (block_id_from (ex_entry 0 10 0)))"
proof -
  let ?r = "\<lparr>tcr_code = byte CHR ''C'', tcr_txid = 5 :: txid, tcr_blockhash = 10\<rparr>"
  have row: "\<lparr>row_key = row_key (tx_conf_row_into_row ?r), row_value = []\<rparr> = tx_conf_row_into_row ?r"
    by (simp add: tx_conf_row_into_row_def)
  have pre: "prefix (tx_conf_row_filter (full_hash 5)) (row_key (tx_conf_row_into_row ?r))"
    by (simp add: tx_conf_row_into_row_def tx_conf_row_filter_def)
  have known: "header_by_blockhash ex_chain 10 = Some (ex_entry 0 10 0)"
    by (simp add: header_by_blockhash_def ex_header_defs)
  show ?thesis
    by (simp add: tx_confirming_block_def ex_cached_store_def ref_scan_single pre row tx_conf_row_roundtrip)
      (simp add: known)
qed

lemma script_keys_single:
  assumes "sto_history st = [(row_key (tx_history_row_into_row bincode_be k), [])]"
    "thk_code k = byte CHR ''H''" "thk_hash k = sh" "thk_confirmed_height k = 0" "thk_txinfo k = ex_funding 5 70"
  shows "script_keys ex_chain_query st sh [k]"
proof -
  have row: "\<lparr>row_key = row_key (tx_history_row_into_row bincode_be k), row_value = []\<rparr> =
      tx_history_row_into_row bincode_be k"
    by (simp add: tx_history_row_into_row_def)
  note order = history_row_scan_order [OF be.bincode_ordered_axioms assms(2,3), of 0, unfolded assms(4)]
  have "history_iter_scan ex_chain_query st (byte CHR ''H'') sh 0 = [tx_history_row_into_row bincode_be k]"
    using order by (simp add: history_iter_scan_def) (simp add: assms ref_scan_single row)
  then show ?thesis using assms by (simp add: script_keys_def) (simp add: ex_funding_def)
qed

lemma ex_script_keys: "script_keys ex_chain_query ex_cached_store 77 [ex_key]"
  by (rule script_keys_single) (simp_all add: ex_cached_store_def ex_key_def)

lemma ex_entries: "entries_of_keys ex_chain_query ex_cached_store [ex_key] =
    [Inr (ex_funding 5 70, block_id_from (ex_entry 0 10 0))]"
proof -
  have "thi_get_txid (thk_txinfo ex_key) = 5" "thk_txinfo ex_key = ex_funding 5 70"
    by (simp_all add: ex_key_def ex_funding_def)
  then show ?thesis by (simp add: entries_of_keys_def confirmed_entry_def ex_confirming)
qed

lemma ex_run: "fold_res (utxo_step 500) ([], None, 0) [Inr (ex_funding 5 70, block_id_from (ex_entry 0 10 0))] =
    Inr (ex_utxos, Some 10, 1)"
  by (simp add: utxo_step_def ex_funding_def ex_utxos_def block_id_from_def ex_entry_def)

lemma ex_cache_valid: "utxo_cache_valid ex_chain_query ex_cached_store 77 500 [ex_key]"
proof -
  have ok: "hl_ok ex_chain" by (rule ex_chain_ok)
  have "cached_utxos ex_chain_query ex_cached_store 77 = Inr (Some (ex_utxos, 0))"
  proof (rule cached_utxos_saved [where bh = 10])
    show "utxo_map_ok ex_cached_store ex_utxos"
      by (simp add: utxo_map_ok_def ex_utxos_def hm_ok_def block_id_from_def ex_entry_def blockid_by_height_def
          header_by_height_ok [OF ok]) (simp add: ex_header_defs)
    show "height_by_hash ex_cached_store 10 = Some 0"
      by (simp add: height_by_hash_def header_by_blockhash_def ex_header_defs)
  qed (simp_all add: le.bincode_laws_axioms ex_utxos_def ex_cached_store_def db_get_def rocksdb_ref_def)
  moreover have "thk_confirmed_height ex_key = 0" by (simp add: ex_key_def)
  ultimately show ?thesis using ex_run by (simp add: utxo_cache_valid_def ex_entries)
qed

lemma chain_utxo_cache_transparent_witness:
  "snd (chain_utxo ex_chain_query ex_cached_store 77 500) =
     Inr [\<lparr>ut_txid = 5, ut_vout = 0, ut_confirmed = Some (block_id_from (ex_entry 0 10 0)),
       ut_color_id = default_color, ut_value = 70\<rparr>] \<and>
   utxo_cache_valid ex_chain_query (fst (chain_utxo ex_chain_query ex_cached_store 77 500)) 77 500 [ex_key]"
proof -
  have all: "history_entries_from ex_chain_query ex_cached_store 77 0 = entries_of_keys ex_chain_query ex_cached_store [ex_key]"
    by (simp add: history_entries_keys [OF _ _ ex_script_keys] ref_db.rocksdb_axioms be.bincode_ordered_axioms)
  have heights: "heights_match ex_chain_query ex_cached_store [ex_key]"
    by (simp add: heights_match_def ex_key_def ex_funding_def ex_confirming) (simp add: block_id_from_def ex_entry_def)
  have len: "header_list_len ex_chain + 1 < 2 ^ 32" by (simp add: header_list_len_def ex_chain_def)
  have laws: "rocksdb (rdb (cq_ext ex_chain_query))" "bincode_ordered (bo (cq_ext ex_chain_query))"
    "bincode_laws (bc (cq_ext ex_chain_query))"
    by (simp_all add: ref_db.rocksdb_axioms be.bincode_ordered_axioms le.bincode_laws_axioms)
  have run: "and_then (utxo_delta ex_chain_query ex_cached_store 77 [] 0 500) (\<lambda>(m, _, _). Inr (utxos_of_map m)) =
      Inr (utxos_of_map ex_utxos)"
    by (simp only: utxo_delta_def all ex_entries ex_run and_then.simps prod.case)
  from chain_utxo_cache_transparent [OF laws _ _ _ ex_script_keys ex_cache_valid] heights len show ?thesis
    by (simp add: ex_chain_ok run) (simp add: utxos_of_map_def ex_utxos_def)
qed

text \<open>
  What else such a row does: when a reorganisation has moved a transaction to a lower block, its row at the old
  height comes after that of the transaction that spends its output, and the output is listed again.
\<close>

lemma stale_row_lists_spent:
  assumes "history_entries_from Q st sh 0 = map Inr (xs @ [(Spending i, b), (Funding f, c)])"
    "thi_get_funded_outpoint (Spending i) = thi_get_funded_outpoint (Funding f)"
    "utxo_delta Q st sh [] 0 limit = Inr (m, l, n)"
  shows "hm_get m (thi_get_funded_outpoint (Spending i)) = Some (c, fi_color_id f, fi_value f)"
  using assms by (auto simp: utxo_delta_def fold_res_append utxo_step_def Let_def and_then_eq_Inr split: prod.splits if_splits)

section \<open>Statistics\<close>

lemma chain_stats_result:
  "snd (chain_stats Q st sh) =
     and_then (cached_stats Q st sh) (\<lambda>(stats, height).
     and_then (stats_delta Q st sh stats (case height of Some h \<Rightarrow> h + 1 | None \<Rightarrow> 0)) (\<lambda>(new, _). Inr new))"
proof (cases "cached_stats Q st sh")
  case (Inl e)
  then show ?thesis by (simp add: chain_stats_def)
next
  case (Inr c)
  obtain s h where c: "c = (s, h)" by (cases c)
  show ?thesis
    by (cases "stats_delta Q st sh s (case h of Some h \<Rightarrow> h + 1 | None \<Rightarrow> 0)")
      (simp_all add: chain_stats_def Inr c split_def)
qed

text \<open>
  C26: statistics after a reorganisation. When the block of the cached statistics is no longer in the chain, the
  whole history is read again, but added to the cached numbers instead of replacing them: what both contain
  is counted twice.
\<close>

theorem chain_stats_orphaned_cache:
  assumes "cached_stats Q st sh = Inr (s, None)" "history_entries_from Q st sh 0 = map Inr hs"
    "grouped thi_get_txid (map (\<lambda>(i, b). (i, Some b)) hs)"
  shows "\<exists>new. snd (chain_stats Q st sh) = Inr new \<and>
    (\<forall>c. stats_of new c = add_entries (stats_of s c) (entries_of c (map (\<lambda>(i, b). (i, Some b)) hs)))"
proof -
  let ?hs = "map (\<lambda>(i, b). (i, Some b)) hs"
  obtain new seen lb where run: "foldl update_stats_step (s, [], None) ?hs = (new, seen, lb)"
    using prod_cases3 by blast
  have "stats_delta Q st sh s 0 = Inr (new, lb)"
    by (simp add: stats_delta_def assms(2) collect_pure update_stats_def run)
  then have "snd (chain_stats Q st sh) = Inr new"
    by (simp add: chain_stats_result assms(1))
  moreover have "stats_of new c = add_entries (stats_of s c) (entries_of c ?hs)" for c
    using update_stats_inv [OF assms(3), of s] by (simp add: run stats_inv_def)
  ultimately show ?thesis by blast
qed

definition ex_hash :: scripthash where
  "ex_hash = bytes_hash (replicate 32 200)"

definition ex_stats :: script_stats where
  "ex_stats = \<lparr>ss_tx_count = 1, ss_funded_txo_count = 1, ss_spent_txo_count = 0, ss_funded_txo_sum = 70, ss_spent_txo_sum = 0\<rparr>"

text \<open>The statistics of one output, cached with a block (99) that is not in the chain.\<close>

definition ex_key2 :: tx_history_key where
  "ex_key2 = ex_key\<lparr>thk_hash := ex_hash\<rparr>"

definition ex_orphaned_store :: "kv list store" where
  "ex_orphaned_store = ex_cached_store\<lparr>
     sto_history := [(row_key (tx_history_row_into_row bincode_be ex_key2), [])],
     sto_cache := [(row_key (stats_cache_row_into_row bincode_le (stats_cache_row_new bincode_le ex_hash default_color ex_stats 99)),
       row_value (stats_cache_row_into_row bincode_le (stats_cache_row_new bincode_le ex_hash default_color ex_stats 99)))]\<rparr>"

lemma stats_cache_row_read:
  assumes "bincode_laws B" "ss_tx_count s < 2 ^ 64" "ss_funded_txo_count s < 2 ^ 64" "ss_spent_txo_count s < 2 ^ 64"
  shows "stats_cache_row_from_row B (stats_cache_row_into_row B (stats_cache_row_new B h c s bh)) = Inr (stats_cache_row_new B h c s bh)"
    "d_prefix (d_bind (d_script_stats B) (\<lambda>stat. d_bind (bc_de_hash B) (\<lambda>h. d_ret (stat, h))))
       (scr_value (stats_cache_row_new B h c s bh)) = Some (s, bh)"
proof -
  note simps = bincode_laws.bc_decode_simps [OF assms(1)]
  note stats = bincode_laws.decodes_script_stats [OF assms]
  have "decodes (d_bind d_u8 (\<lambda>c. d_bind d_hash (\<lambda>h. d_bind (bc_de_color B) (\<lambda>k. d_ret (c, h, k)))))
      (row_key (stats_cache_row_into_row B (stats_cache_row_new B h c s bh))) (byte CHR ''A'', h, c)"
    by (intro decodesI) (simp add: stats_cache_row_into_row_def stats_cache_row_new_def full_hash_def simps decode_simps)
  from d_prefix_decodes [OF this, of "[]"]
  show "stats_cache_row_from_row B (stats_cache_row_into_row B (stats_cache_row_new B h c s bh)) = Inr (stats_cache_row_new B h c s bh)"
    by (simp add: stats_cache_row_from_row_def expect_def) (simp add: stats_cache_row_into_row_def stats_cache_row_new_def)
  have "decodes (d_bind (d_script_stats B) (\<lambda>stat. d_bind (bc_de_hash B) (\<lambda>h. d_ret (stat, h))))
      (scr_value (stats_cache_row_new B h c s bh)) (s, bh)"
    by (intro decodesI) (simp add: stats_cache_row_new_def d_bind_decodes [OF stats] simps decode_simps)
  from d_prefix_decodes [OF this, of "[]"]
  show "d_prefix (d_bind (d_script_stats B) (\<lambda>stat. d_bind (bc_de_hash B) (\<lambda>h. d_ret (stat, h))))
       (scr_value (stats_cache_row_new B h c s bh)) = Some (s, bh)" by simp
qed

lemma ex_cached_stats: "cached_stats ex_chain_query ex_orphaned_store ex_hash = Inr ([(default_color, ex_stats)], None)"
proof -
  let ?new = "stats_cache_row_new bincode_le ex_hash default_color ex_stats 99"
  let ?row = "stats_cache_row_into_row bincode_le ?new"
  have bytes: "full_hash ex_hash = 200 # replicate 31 200"
    by (simp add: full_hash_def ex_hash_def hash_bytes_bytes_hash numeral_eq_Suc)
  have size: "bc_usize bincode_be 32 = [32]" by (simp add: bc_usize_def bincode_be_def varint_be_def)
  have seek: "stats_cache_row_prefix_color_id bincode_be ex_hash default_color \<le> row_key ?row"
    by (simp add: stats_cache_row_prefix_color_id_def stats_cache_row_into_row_def stats_cache_row_new_def bytes size)
  have pre: "prefix (stats_cache_row_key ex_hash) (row_key ?row)"
    by (simp add: stats_cache_row_key_def stats_cache_row_into_row_def stats_cache_row_new_def)
  have row: "\<lparr>row_key = row_key ?row, row_value = row_value ?row\<rparr> = ?row" by simp
  have scan: "stats_iter_scan ex_chain_query ex_orphaned_store ex_hash default_color = [?row]"
    by (simp add: stats_iter_scan_def ex_orphaned_store_def ref_scan_single seek pre)
  have "height_by_hash ex_orphaned_store 99 = None"
    by (simp add: height_by_hash_def header_by_blockhash_def ex_orphaned_store_def) (simp add: ex_chain_def)
  moreover have "stats_cache_row_from_row bincode_le ?row = Inr ?new"
    "d_prefix (d_bind (d_script_stats bincode_le) (\<lambda>stat. d_bind (bc_de_hash bincode_le) (\<lambda>h. d_ret (stat, h))))
       (scr_value ?new) = Some (ex_stats, 99)"
    by (rule stats_cache_row_read; simp add: le.bincode_laws_axioms ex_stats_def)+
  moreover have "scr_color_id ?new = default_color" by (simp add: stats_cache_row_new_def)
  ultimately show ?thesis by (simp add: cached_stats_def scan expect_def hm_collect_def)
qed

lemma chain_stats_orphaned_cache_witness:
  "\<exists>new. snd (chain_stats ex_chain_query ex_orphaned_store ex_hash) = Inr new \<and>
     ss_funded_txo_count (stats_of new default_color) = 2 \<and> ss_funded_txo_sum (stats_of new default_color) = 140"
proof -
  have keys: "script_keys ex_chain_query ex_orphaned_store ex_hash [ex_key2]"
    by (rule script_keys_single) (simp_all add: ex_orphaned_store_def ex_key2_def ex_key_def)
  have "tx_confirming_block ex_chain_query ex_orphaned_store = tx_confirming_block ex_chain_query ex_cached_store"
    by (simp add: fun_eq_iff tx_confirming_block_def ex_orphaned_store_def)
  then have "entries_of_keys ex_chain_query ex_orphaned_store [ex_key2] =
      entries_of_keys ex_chain_query ex_cached_store [ex_key]"
    by (simp add: entries_of_keys_def confirmed_entry_def [abs_def] ex_key2_def)
  then have hs: "history_entries_from ex_chain_query ex_orphaned_store ex_hash 0 =
      map Inr [(ex_funding 5 70, block_id_from (ex_entry 0 10 0))]"
    by (simp add: history_entries_keys [OF _ _ keys] ref_db.rocksdb_axioms be.bincode_ordered_axioms ex_entries)
  have "grouped thi_get_txid (map (\<lambda>(i, b). (i, Some b)) [(ex_funding 5 70, block_id_from (ex_entry 0 10 0))])"
    by (simp add: grouped_def)
  from chain_stats_orphaned_cache [OF ex_cached_stats hs this]
  obtain new where new: "snd (chain_stats ex_chain_query ex_orphaned_store ex_hash) = Inr new"
    "stats_of new default_color = add_entries (stats_of [(default_color, ex_stats)] default_color)
       (entries_of default_color [(ex_funding 5 70, Some (block_id_from (ex_entry 0 10 0)))])"
    by auto
  have "ss_funded_txo_count (stats_of new default_color) = 2 \<and> ss_funded_txo_sum (stats_of new default_color) = 140"
    unfolding new(2)
    by (simp add: stats_of_def entries_of_def ex_funding_def add_entries_def ex_stats_def List.map_filter_simps)
  with new(1) show ?thesis by blast
qed

end
