(* ===== verification/Histories.thy ===== *)
theory Histories
  imports Caches
begin

text \<open>
  Histories page by page: the pages of a script's confirmed transactions, each asked for with the last
  transaction of the one before, are consecutive slices of one list, the newest transaction first.
\<close>

text \<open>The confirmed transactions of a list of transaction ids, each once.\<close>

definition confirmed_of :: "(txid \<Rightarrow> block_id option) \<Rightarrow> txid list \<Rightarrow> (txid \<times> block_id) list" where
  "confirmed_of c ts = List.map_filter (\<lambda>t. map_option (Pair t) (c t)) (unique ts)"

lemma confirmed_txids_pure:
  assumes "\<And>t. tx_confirming_block Q st t = Inr (c t)"
  shows "confirmed_txids Q st (map Inr ts) = map Inr (List.map_filter (\<lambda>t. map_option (Pair t) (c t)) ts)"
  by (simp add: confirmed_txids_def assms stream_simps)

lemma after_last_seen_pure:
  "after_last_seen None (map Inr ts) = map Inr ts"
  "after_last_seen (Some l) (map Inr ts) = map Inr (drop 1 (dropWhile (\<lambda>t. l \<noteq> t) ts))"
proof -
  show "after_last_seen None (map Inr ts) = map Inr ts" by (cases ts) (simp_all add: after_last_seen_def)
  show "after_last_seen (Some l) (map Inr ts) = map Inr (drop 1 (dropWhile (\<lambda>t. l \<noteq> t) ts))"
    unfolding after_last_seen_def option.case sskip_while_pure sskip_pure ..
qed

text \<open>Dropping up to a confirmed transaction before or after filtering is the same.\<close>

lemma map_filter_after:
  assumes "distinct ts" "i < length (List.map_filter f ts)" "\<And>t y. f t = Some y \<Longrightarrow> fst y = t"
  shows "List.map_filter f (drop 1 (dropWhile (\<lambda>t. fst (List.map_filter f ts ! i) \<noteq> t) ts)) =
    drop (i + 1) (List.map_filter f ts)"
  using assms(1,2)
proof (induction ts arbitrary: i)
  case Nil
  then show ?case by (simp add: List.map_filter_simps)
next
  case (Cons t ts)
  have member: "fst y \<in> set us" if "y \<in> set (List.map_filter f us)" for y us
    using that assms(3) by (induction us) (auto simp: List.map_filter_simps split: option.splits)
  show ?case
  proof (cases "f t")
    case None
    then have eq: "List.map_filter f (t # ts) = List.map_filter f ts" by (simp add: List.map_filter_simps)
    then have "fst (List.map_filter f ts ! i) \<in> set ts" using Cons.prems(2) member by simp
    then have "fst (List.map_filter f ts ! i) \<noteq> t" using Cons.prems(1) by auto
    then show ?thesis using Cons.IH [of i] Cons.prems eq by simp
  next
    case (Some y)
    then have eq: "List.map_filter f (t # ts) = y # List.map_filter f ts" by (simp add: List.map_filter_simps)
    show ?thesis
    proof (cases i)
      case 0
      then show ?thesis using eq assms(3) [OF Some] by simp
    next
      case (Suc j)
      then have j: "j < length (List.map_filter f ts)" using Cons.prems(2) eq by simp
      then have "fst (List.map_filter f ts ! j) \<in> set ts" using member by simp
      then have "fst (List.map_filter f ts ! j) \<noteq> t" using Cons.prems(1) by auto
      then show ?thesis using Cons.IH [of j] Cons.prems(1) j eq Suc by simp
    qed
  qed
qed

lemma lookup_txns_ids:
  "chain_lookup_txns Q st ps = Inr txs \<Longrightarrow> map (malfix_txid (tap (cq_ext Q))) txs = map fst ps"
proof (induction ps arbitrary: txs)
  case Nil
  then show ?case by (simp add: chain_lookup_txns_def)
next
  case (Cons p ps)
  obtain t b where p: "p = (t, b)" by (cases p)
  from Cons.prems obtain tx rest where tx: "chain_lookup_txn Q st t (Some (bid_hash b)) = Inr (Some tx)"
    and rest: "chain_lookup_txns Q st ps = Inr rest" "txs = tx # rest"
    by (auto simp: chain_lookup_txns_def p)
  have "malfix_txid (tap (cq_ext Q)) tx = t"
    using tx by (auto simp: chain_lookup_txn_def opt_then_eq_Some)
  then show ?case using Cons.IH [OF rest(1)] rest(2) p by simp
qed

lemma zip_pages: "map f txs = map fst ps \<Longrightarrow> map (\<lambda>(tx, b). (f tx, b)) (zip txs (map snd ps)) = ps"
proof (induction txs arbitrary: ps)
  case Nil
  then show ?case by simp
next
  case (Cons tx txs)
  then show ?case by (cases ps) auto
qed

text \<open>
  C25: the pages of a history. Let the rows of a script, newest first, name the transactions \<open>ts\<close>. The first page
  are the first transactions of the list of confirmed ones among them, without repetition, and the page after
  the transaction at place \<open>i\<close> of that list those that follow it; every transaction comes with the block
  that confirms it.
\<close>

theorem chain_history_pages:
  assumes "map (history_row_txid Q) (history_iter_scan_reverse Q st (byte CHR ''H'') sh) = map Inr ts"
    "\<And>t. tx_confirming_block Q st t = Inr (c t)"
    "chain_history Q st sh seen limit = Inr page"
    "case seen of None \<Rightarrow> n = 0 | Some l \<Rightarrow> \<exists>i < length (confirmed_of c ts). l = fst (confirmed_of c ts ! i) \<and> n = i + 1"
  shows "map (\<lambda>(tx, b). (malfix_txid (tap (cq_ext Q)) tx, b)) page = take limit (drop n (confirmed_of c ts))"
proof -
  let ?f = "\<lambda>t. map_option (Pair t) (c t)"
  have slice: "confirmed_txids Q st (after_last_seen seen (map Inr (unique ts))) = map Inr (drop n (confirmed_of c ts))"
  proof (cases seen)
    case None
    then show ?thesis
      using assms(4) by (simp add: after_last_seen_pure confirmed_txids_pure [OF assms(2)] confirmed_of_def)
  next
    case (Some l)
    then obtain i where i: "i < length (confirmed_of c ts)" "l = fst (confirmed_of c ts ! i)" "n = i + 1"
      using assms(4) by auto
    have "List.map_filter ?f (drop 1 (dropWhile (\<lambda>t. l \<noteq> t) (unique ts))) = drop (i + 1) (confirmed_of c ts)"
      unfolding i(2) confirmed_of_def by (rule map_filter_after) (use i(1) in \<open>auto simp: confirmed_of_def\<close>)
    then show ?thesis
      unfolding Some after_last_seen_pure confirmed_txids_pure [OF assms(2)] i(3) by simp
  qed
  have "and_then (chain_lookup_txns Q st (take limit (drop n (confirmed_of c ts)))) (\<lambda>txs.
      Inr (zip txs (map snd (take limit (drop n (confirmed_of c ts)))))) = Inr page"
    using assms(3) by (auto simp: chain_history_def history_by_code_def assms(1) sunique_pure slice take_map collect_pure)
  then obtain txs where "chain_lookup_txns Q st (take limit (drop n (confirmed_of c ts))) = Inr txs"
    "page = zip txs (map snd (take limit (drop n (confirmed_of c ts))))" by auto
  then show ?thesis using zip_pages [OF lookup_txns_ids] by metis
qed

subsection \<open>An example\<close>

definition ex_paid_tx :: transaction where
  "ex_paid_tx = ex_tx\<lparr>tx_lock_time := 5\<rparr>"

definition ex_conf_row :: db_row where
  "ex_conf_row = tx_conf_row_into_row \<lparr>tcr_code = byte CHR ''C'', tcr_txid = 5, tcr_blockhash = 10\<rparr>"

definition ex_paged_store :: "kv list store" where
  "ex_paged_store = ex_cached_store\<lparr>sto_txstore :=
     [(row_key ex_conf_row, []), (tx_row_key (full_hash 5), serialize_tx tapyrus_ref ex_paid_tx)]\<rparr>"

lemma ref_kv: "kv_store (db_get rocksdb_ref) (db_put rocksdb_ref) (db_write rocksdb_ref) (db_iter_scan rocksdb_ref)
    (db_iter_scan_from rocksdb_ref) (db_iter_scan_reverse rocksdb_ref)"
  by (rule ref_db.kv_laws)

lemma ref_scan_unique:
  assumes "{r. prefix p (row_key r) \<and> has_row (db_get rocksdb_ref d) r} = set rs" "length rs \<le> 1"
  shows "db_iter_scan rocksdb_ref d p = rs"
proof (rule strict_rows_unique)
  show "sorted_wrt (\<lambda>r s. row_key r < row_key s) rs" using assms(2) by (cases rs) auto
  show "set (db_iter_scan rocksdb_ref d p) = set rs"
    unfolding assms(1) [symmetric] using kv_store.set_scan [OF ref_kv] by blast
qed (rule kv_store.scan_sorted [OF ref_kv])

lemma ex_paged_confirming:
  "tx_confirming_block ex_chain_query ex_paged_store t = Inr (if t = 5 then Some (block_id_from (ex_entry 0 10 0)) else None)"
proof -
  have keys: "row_key ex_conf_row = byte CHR ''C'' # hash_bytes 5 @ hash_bytes 10"
    by (simp add: ex_conf_row_def tx_conf_row_into_row_def full_hash_def)
  have "prefix (hash_bytes t) (hash_bytes 5 @ hash_bytes 10) \<longleftrightarrow> hash_bytes t = hash_bytes 5"
    by (metis append_eq_append_conv length_hash_bytes prefix_def)
  then have iff: "prefix (tx_conf_row_filter (full_hash t)) (row_key ex_conf_row) \<longleftrightarrow> t = 5"
    by (simp add: tx_conf_row_filter_def keys full_hash_def)
  have no: "\<not> prefix (tx_conf_row_filter (full_hash t)) (tx_row_key (full_hash 5))"
    by (simp add: tx_conf_row_filter_def tx_row_key_def)
  have val: "row_value ex_conf_row = []" by (simp add: ex_conf_row_def tx_conf_row_into_row_def)
  have "has_row (db_get rocksdb_ref (sto_txstore ex_paged_store)) r \<and> prefix (tx_conf_row_filter (full_hash t)) (row_key r) \<longleftrightarrow>
      t = 5 \<and> r = ex_conf_row" for r
  proof -
    have "r = ex_conf_row \<longleftrightarrow> row_key r = row_key ex_conf_row \<and> row_value r = []"
      using val by (auto intro: db_row.equality)
    moreover have "db_get rocksdb_ref (sto_txstore ex_paged_store) k =
        (if k = row_key ex_conf_row then Some [] else if k = tx_row_key (full_hash 5)
         then Some (serialize_tx tapyrus_ref ex_paid_tx) else None)" for k
      by (simp add: ex_paged_store_def db_get_def rocksdb_ref_def)
    ultimately show ?thesis using no iff by (metis has_row_def option.distinct(1) option.inject)
  qed
  then have "db_iter_scan rocksdb_ref (sto_txstore ex_paged_store) (tx_conf_row_filter (full_hash t)) =
      (if t = 5 then [ex_conf_row] else [])"
    by (intro ref_scan_unique) auto
  moreover have "header_by_blockhash (sto_headers ex_paged_store) 10 = Some (ex_entry 0 10 0)"
    by (simp add: ex_paged_store_def header_by_blockhash_def) (simp add: ex_header_defs)
  ultimately show ?thesis
    by (simp add: tx_confirming_block_def) (simp add: ex_conf_row_def tx_conf_row_roundtrip)
qed

lemma chain_history_pages_witness:
  "chain_history ex_chain_query ex_paged_store 77 None 10 = Inr [(ex_paid_tx, block_id_from (ex_entry 0 10 0))]"
proof -
  let ?row = "tx_history_row_into_row bincode_be ex_key"
  have k: "thk_code ex_key = byte CHR ''H''" "thk_hash ex_key = 77" by (simp_all add: ex_key_def)
  have row: "\<lparr>row_key = row_key ?row, row_value = []\<rparr> = ?row" by (simp add: tx_history_row_into_row_def)
  note order = history_row_scan_order [OF be.bincode_ordered_axioms k, of 0]
  have "history_iter_scan_reverse ex_chain_query ex_paged_store (byte CHR ''H'') 77 = [?row]"
    using order row
    by (simp add: history_iter_scan_reverse_def ex_paged_store_def ex_cached_store_def db_iter_scan_reverse_def
        reverse_scan_iterator_takeWhile rocksdb_ref_def kv_sorted_def less_imp_le)
  moreover have "tx_history_row_from_row bincode_be ?row = Inr ex_key"
    by (rule history_row_roundtrip [OF be.bincode_laws_axioms]) (simp add: ex_key_def ex_funding_def)
  moreover have "thi_get_txid (thk_txinfo ex_key) = 5" by (simp add: ex_key_def ex_funding_def)
  ultimately have rows: "map (history_row_txid ex_chain_query)
      (history_iter_scan_reverse ex_chain_query ex_paged_store (byte CHR ''H'') 77) = map Inr [5]"
    by (simp add: history_row_txid_def)
  let ?c = "\<lambda>t. if t = 5 then Some (block_id_from (ex_entry 0 10 0)) else None"
  have conf: "confirmed_of ?c [5] = [(5, block_id_from (ex_entry 0 10 0))]"
    by (simp add: confirmed_of_def unique_def List.map_filter_simps)
  have lookup: "chain_lookup_txn ex_chain_query ex_paged_store 5 h = Inr (Some ex_paid_tx)" for h
  proof -
    have "tap (cq_ext ex_chain_query) = tapyrus_ref" "\<not> cq_light_mode ex_chain_query"
      by (simp_all add: ex_chain_query_def ext_ref_def)
    moreover have "malfix_txid tapyrus_ref ex_paid_tx = 5" by (simp add: tapyrus_ref_def ex_paid_tx_def ex_tx_def)
    moreover have "row_key ex_conf_row \<noteq> tx_row_key (full_hash 5)"
      by (simp add: ex_conf_row_def tx_conf_row_into_row_def tx_row_key_def)
    then have "db_get rocksdb_ref (sto_txstore ex_paged_store) (tx_row_key (full_hash 5)) = Some (serialize_tx tapyrus_ref ex_paid_tx)"
      by (simp add: ex_paged_store_def db_get_def rocksdb_ref_def)
    ultimately show ?thesis
      by (simp add: chain_lookup_txn_def chain_lookup_raw_txn_def expect_def ref_tap.deserialize_serialize_tx)
  qed
  have ids: "take 10 (confirmed_txids ex_chain_query ex_paged_store (after_last_seen None (sunique (map Inr [5])))) =
      map Inr (confirmed_of ?c [5])"
    unfolding sunique_pure after_last_seen_pure confirmed_txids_pure [OF ex_paged_confirming] confirmed_of_def
    by (simp add: unique_def List.map_filter_simps)
  have txs: "chain_lookup_txns ex_chain_query ex_paged_store (confirmed_of ?c [5]) = Inr [ex_paid_tx]"
    unfolding conf by (simp add: chain_lookup_txns_def lookup ok_or_def)
  have page: "chain_history ex_chain_query ex_paged_store 77 None 10 =
      Inr (zip [ex_paid_tx] (map snd (confirmed_of ?c [5])))"
    unfolding chain_history_def history_by_code_def rows ids collect_pure and_then.simps txs unwrap_def sum.case ..
  have "map (\<lambda>(tx, b). (malfix_txid (tap (cq_ext ex_chain_query)) tx, b)) (zip [ex_paid_tx] (map snd (confirmed_of ?c [5]))) =
      take 10 (drop 0 (confirmed_of ?c [5]))"
    by (rule chain_history_pages [OF rows ex_paged_confirming page]) simp
  with page show ?thesis by (simp add: conf)
qed

end
