(* ===== verification/Index_History.thy ===== *)
theory Index_History
  imports Caches
begin

text \<open>
  The indexer and the queries together (\<^verbatim>\<open>Indexer\<close> and \<^verbatim>\<open>ChainQuery\<close> in \<^verbatim>\<open>src/src/new_index/schema.rs\<close>): what a scan of
  a script's history finds after blocks were indexed.
\<close>

text \<open>The keys of the history rows of a block, in the order they are made.\<close>

definition block_history_keys :: "tapyrus \<Rightarrow> bool \<Rightarrow> (outpoint, txout) hashmap \<Rightarrow> block_entry \<Rightarrow> tx_history_key list" where
  "block_history_keys T unspendables txos b =
     concat (map (\<lambda>tx. map (history_key (of_nat (he_height (be_entry b)))) (history_entries T unspendables tx txos))
       (blk_txdata (be_block b)))"

section \<open>The rows of an index\<close>

lemma list_all2_set2: "list_all2 P xs ys \<Longrightarrow> y \<in> set ys \<Longrightarrow> \<exists>x \<in> set xs. P x y"
  by (induction rule: list_all2_induct) auto

lemma history_row_value: "row_value (tx_history_row_into_row B k) = []"
  by (simp add: tx_history_row_into_row_def)

lemma addr_row_value: "addr_search_row T spk net = Some r \<Longrightarrow> row_value r = []"
  by (auto simp: addr_search_row_def)

lemma funding_rows_values: "list_all (\<lambda>r. row_value r = []) (funding_rows E cfg txid h (n, txo))"
proof -
  let ?a = "addr_search_row (tap E) (txo_script_pubkey txo) (ic_network cfg)"
  have "list_all (\<lambda>r. row_value r = []) (case ?a of Some row \<Rightarrow> [row] | None \<Rightarrow> [])"
    using addr_row_value by (cases ?a) auto
  then show ?thesis
    unfolding funding_rows_def Let_def prod.case
    by (cases "split_color (tap E) (txo_script_pubkey txo)") (auto simp: history_row_value)
qed

lemma index_transaction_values:
  assumes "index_transaction E cfg tx h txos = Inr rows" "r \<in> set rows"
  shows "row_value r = []"
proof -
  obtain spending where sp: "list_all2 (\<lambda>e rs. spending_rows E txos (malfix_txid (tap E) tx) h e = Inr rs) (enumerate 0 (tx_input tx)) spending"
    and rows: "rows = concat (map (funding_rows E cfg (malfix_txid (tap E) tx) h) (enumerate 0 (tx_output tx))) @ concat spending @
      index_confirmed_colored_tx (tap E) (bc E) tx h txos"
    using assms(1) by (auto simp: index_transaction_def Let_def map_res_eq_Inr)
  have "row_value r = []" if "spending_rows E txos txid h e = Inr rs" "r \<in> set rs" for rs txid e
    using that by (cases e)
      (auto simp: spending_rows_def Let_def tx_history_row_into_row_def tx_edge_row_into_row_def split: if_splits option.splits prod.splits)
  moreover have "row_value r = []" if "r \<in> set (funding_rows E cfg txid h e)" for txid e
    using funding_rows_values [of E cfg txid h "fst e" "snd e"] that by (simp add: list_all_iff)
  moreover have "row_value r = []" if "r \<in> set (index_confirmed_colored_tx (tap E) (bc E) tx h txos)"
    using that by (auto simp: index_confirmed_colored_tx_def colored_row_into_row_def color_id_row_into_row_def)
  moreover have "\<exists>e. spending_rows E txos (malfix_txid (tap E) tx) h e = Inr rs" if "rs \<in> set spending" for rs
    using list_all2_set2 [OF sp that] by blast
  ultimately show ?thesis using assms(2) unfolding rows by fastforce
qed

lemma index_block_rows:
  assumes "index_block E cfg txos b = Inr rows"
  shows "filter (\<lambda>r. row_code r = byte CHR ''H'') rows =
      map (tx_history_row_into_row (bo E)) (block_history_keys (tap E) (ic_index_unspendables cfg) txos b)"
    and "\<forall>r \<in> set rows. row_value r = []"
proof -
  let ?h = "of_nat (he_height (be_entry b)) :: u32"
  obtain rs where rs: "list_all2 (\<lambda>tx r. index_transaction E cfg tx ?h txos = Inr r) (blk_txdata (be_block b)) rs"
    and rows: "rows = concat rs @ [block_row_into_row (block_row_new_done (he_hash (be_entry b)))]"
    using assms by (auto simp: index_block_def map_res_eq_Inr)
  have "filter (\<lambda>r. row_code r = byte CHR ''H'') (concat rs) =
      concat (map (\<lambda>tx. map (\<lambda>x. tx_history_row_into_row (bo E) (history_key ?h x))
        (history_entries (tap E) (ic_index_unspendables cfg) tx txos)) (blk_txdata (be_block b)))"
    by (rule list_all2_concat_filter, rule list_all2_mono [OF rs]) (rule conjunct1 [OF index_transaction_rows])
  then show "filter (\<lambda>r. row_code r = byte CHR ''H'') rows =
      map (tx_history_row_into_row (bo E)) (block_history_keys (tap E) (ic_index_unspendables cfg) txos b)"
    by (simp add: rows row_code_rows block_row_new_done_def block_history_keys_def map_concat comp_def)
  have "\<forall>r \<in> set (concat rs). row_value r = []"
    using list_all2_set2 [OF rs] index_transaction_values by fastforce
  then show "\<forall>r \<in> set rows. row_value r = []"
    by (simp add: rows block_row_into_row_def block_row_new_done_def)
qed

lemma index_blocks_rows:
  assumes "index_blocks E cfg blocks txos = Inr rows"
  shows "filter (\<lambda>r. row_code r = byte CHR ''H'') rows =
      map (tx_history_row_into_row (bo E)) (concat (map (block_history_keys (tap E) (ic_index_unspendables cfg) txos) blocks))"
    and "\<forall>r \<in> set rows. row_value r = []"
proof -
  obtain rs where rs: "list_all2 (\<lambda>b r. index_block E cfg txos b = Inr r) blocks rs" and rows: "rows = concat rs"
    using assms by (auto simp: index_blocks_def map_res_eq_Inr)
  have "filter (\<lambda>r. row_code r = byte CHR ''H'') (concat rs) =
      concat (map (\<lambda>b. map (tx_history_row_into_row (bo E)) (block_history_keys (tap E) (ic_index_unspendables cfg) txos b)) blocks)"
    by (rule list_all2_concat_filter, rule list_all2_mono [OF rs]) (rule index_block_rows(1))
  then show "filter (\<lambda>r. row_code r = byte CHR ''H'') rows =
      map (tx_history_row_into_row (bo E)) (concat (map (block_history_keys (tap E) (ic_index_unspendables cfg) txos) blocks))"
    by (simp add: rows map_concat comp_def)
  show "\<forall>r \<in> set rows. row_value r = []"
    using list_all2_set2 [OF rs] index_block_rows(2) by (fastforce simp: rows)
qed

section \<open>The history database\<close>

text \<open>
  All that an opened history database holds with a value are the compatibility bytes that opening it stores; the
  rows of the index and the marker of the compaction have none.
\<close>

definition history_db_ok :: "'d rocksdb \<Rightarrow> 'd \<Rightarrow> bool" where
  "history_db_ok R d \<longleftrightarrow> (\<forall>k v. db_get R d k = Some v \<longrightarrow> k = [byte CHR ''V''] \<or> v = [])"

lemma history_db_ok_empty: "\<forall>k. db_get R d k = None \<Longrightarrow> history_db_ok R d"
  by (simp add: history_db_ok_def)

lemma history_db_ok_put:
  "rocksdb R \<Longrightarrow> history_db_ok R d \<Longrightarrow> k = [byte CHR ''V''] \<or> v = [] \<Longrightarrow> history_db_ok R (db_put R d k v)"
  by (auto simp: history_db_ok_def kv_store.get_put [OF rocksdb.kv_laws])

lemma history_db_ok_open:
  "rocksdb R \<Longrightarrow> history_db_ok R d \<Longrightarrow> db_open R B light_mode d = Inr d' \<Longrightarrow> history_db_ok R d'"
  by (auto simp: db_open_def db_verify_compatibility_def intro: history_db_ok_put split: option.splits if_splits)

lemma history_db_ok_store_open:
  "rocksdb (rdb E) \<Longrightarrow> history_db_ok (rdb E) history \<Longrightarrow>
    store_open E light_mode txstore history cache = Inr st \<Longrightarrow> history_db_ok (rdb E) (sto_history st)"
  by (auto simp: store_open_def and_then_eq_Inr intro: history_db_ok_open)

lemma history_db_ok_compact:
  "rocksdb (rdb E) \<Longrightarrow> history_db_ok (rdb E) d \<Longrightarrow> start_auto_compactions E d = Inr d' \<Longrightarrow> history_db_ok (rdb E) d'"
  using history_db_ok_put [of "rdb E" d "[byte CHR ''F'']" "[]"]
  by (auto simp: start_auto_compactions_def Let_def db_put_def db_put_sync_def assert_res_def split: if_splits)

text \<open>Rows without a value, written to such a database, join those it holds.\<close>

lemma has_row_after_write:
  assumes "rocksdb R" "\<forall>r \<in> set rows. row_value r = []" "history_db_ok R d" "row_key r \<noteq> [byte CHR ''V'']"
  shows "has_row (db_get R (db_write R d rows f)) r \<longleftrightarrow> r \<in> set rows \<or> has_row (db_get R d) r"
proof -
  have kv: "kv_store (db_get R) (db_put R) (db_write R) (db_iter_scan R) (db_iter_scan_from R) (db_iter_scan_reverse R)"
    using assms(1) by (rule rocksdb.kv_laws)
  show ?thesis
  proof (cases "row_key r \<in> row_key ` set rows")
    case True
    then obtain s where s: "s \<in> set rows" "row_key s = row_key r" by (metis imageE)
    have "consistent rows" using assms(2) by (simp add: consistent_def)
    from kv_store.get_write_in [OF kv this s(1)] s assms(2)
    have "db_get R (db_write R d rows f) (row_key r) = Some []" by metis
    moreover have "r = s" if "row_value r = []"
    proof -
      have "row_value s = []" using s(1) assms(2) by blast
      with s(2) that show ?thesis by (cases r; cases s) simp
    qed
    moreover have "row_value r = []" if "r \<in> set rows \<or> has_row (db_get R d) r"
      using that assms(2-) by (auto simp: has_row_def history_db_ok_def)
    ultimately show ?thesis using s(1) by (auto simp: has_row_def)
  next
    case False
    then show ?thesis by (auto simp: has_row_def kv_store.get_write_out [OF kv])
  qed
qed

lemma history_db_ok_write:
  assumes "rocksdb R" "\<forall>r \<in> set rows. row_value r = []" "history_db_ok R d"
  shows "history_db_ok R (db_write R d rows f)"
  unfolding history_db_ok_def
proof (intro allI impI)
  fix k v
  assume get: "db_get R (db_write R d rows f) k = Some v"
  show "k = [byte CHR ''V''] \<or> v = []"
  proof (cases "k = [byte CHR ''V'']")
    case False
    let ?r = "\<lparr>row_key = k, row_value = v\<rparr>"
    from False have "?r \<in> set rows \<or> has_row (db_get R d) ?r"
      using has_row_after_write [OF assms, of ?r f] get by (simp add: has_row_def)
    with assms(2,3) False show ?thesis by (auto simp: has_row_def history_db_ok_def)
  qed simp
qed

lemma indexer_index_history_ok:
  assumes "rocksdb (rdb E)" "history_db_ok (rdb E) (sto_history (ix_store ix))" "indexer_index E ix blocks = (ix', r)"
  shows "history_db_ok (rdb E) (sto_history (ix_store ix'))"
proof -
  consider "sto_history (ix_store ix') = sto_history (ix_store ix)"
    | txos rows where "index_blocks E (ix_config ix) blocks txos = Inr rows"
        "sto_history (ix_store ix') = db_write (rdb E) (sto_history (ix_store ix)) rows (ix_flush ix)"
  proof (cases "and_then (lookup_txos E (sto_txstore (ix_store ix)) (get_previous_txos blocks) False)
      (\<lambda>txos. and_then (assert_added (ix_store ix) blocks) (\<lambda>_. index_blocks E (ix_config ix) blocks txos))")
    case (Inl e)
    then show ?thesis using assms(3) that(1) by (simp add: indexer_index_def Let_def)
  next
    case (Inr rows)
    then obtain txos where "index_blocks E (ix_config ix) blocks txos = Inr rows" by (auto simp: and_then_eq_Inr)
    moreover have "sto_history (ix_store ix') = db_write (rdb E) (sto_history (ix_store ix)) rows (ix_flush ix)"
      using Inr assms(3) by (auto simp: indexer_index_def Let_def)
    ultimately show ?thesis by (rule that(2))
  qed
  then show ?thesis
  proof cases
    case 2
    with history_db_ok_write [OF assms(1) index_blocks_rows(2) assms(2)] show ?thesis by simp
  qed (use assms(2) in simp)
qed

section \<open>Scanning them\<close>

lemma history_scan_start: "history_iter_scan Q st (byte CHR ''H'') sh 0 =
    db_iter_scan_from (rdb (cq_ext Q)) (sto_history st) (tx_history_row_filter (byte CHR ''H'') sh)
      (tx_history_row_prefix_height (bo (cq_ext Q)) (byte CHR ''H'') sh 0)"
  by (simp add: history_iter_scan_def)

lemma filter_code: "prefix (tx_history_row_filter (byte CHR ''H'') sh) (row_key r) \<Longrightarrow> row_code r = byte CHR ''H''"
  by (cases "row_key r") (auto simp: tx_history_row_filter_def row_code_def)

lemma filter_hash:
  "thk_code k = byte CHR ''H'' \<Longrightarrow>
    prefix (tx_history_row_filter (byte CHR ''H'') sh) (row_key (tx_history_row_into_row BE k)) \<longleftrightarrow> thk_hash k = sh"
  by (auto simp: tx_history_row_filter_def tx_history_row_into_row_def full_hash_def prefix_def append_eq_append_conv)

lemma indexed_history_rows:
  assumes "rocksdb (rdb (cq_ext Q))" "bincode_ordered (bo (cq_ext Q))"
    "history_db_ok (rdb (cq_ext Q)) (sto_history (ix_store ix))"
    "indexer_index (cq_ext Q) ix blocks = (ix', Inr ())"
  shows "\<exists>txos. lookup_txos (cq_ext Q) (sto_txstore (ix_store ix)) (get_previous_txos blocks) False = Inr txos \<and>
    set (history_iter_scan Q (ix_store ix') (byte CHR ''H'') sh 0) =
      set (history_iter_scan Q (ix_store ix) (byte CHR ''H'') sh 0) \<union>
      tx_history_row_into_row (bo (cq_ext Q)) `
        {k \<in> set (concat (map (block_history_keys (tap (cq_ext Q)) (ic_index_unspendables (ix_config ix)) txos) blocks)).
          thk_hash k = sh}"
proof -
  let ?E = "cq_ext Q" and ?H = "byte CHR ''H''"
  let ?R = "rdb ?E" and ?row = "tx_history_row_into_row (bo ?E)"
  let ?p = "tx_history_row_filter ?H sh" and ?s = "tx_history_row_prefix_height (bo ?E) ?H sh 0"
  obtain txos rows where txos: "lookup_txos ?E (sto_txstore (ix_store ix)) (get_previous_txos blocks) False = Inr txos"
    and rows: "index_blocks ?E (ix_config ix) blocks txos = Inr rows"
    and ix': "sto_history (ix_store ix') = db_write ?R (sto_history (ix_store ix)) rows (ix_flush ix)"
    using assms(4) by (auto simp: indexer_index_def Let_def split: sum.splits)
  let ?keys = "concat (map (block_history_keys (tap ?E) (ic_index_unspendables (ix_config ix)) txos) blocks)"
  note written = index_blocks_rows [OF rows]
  have kv: "kv_store (db_get ?R) (db_put ?R) (db_write ?R) (db_iter_scan ?R) (db_iter_scan_from ?R) (db_iter_scan_reverse ?R)"
    using assms(1) by (rule rocksdb.kv_laws)
  have scan: "r \<in> set (history_iter_scan Q st ?H sh 0) \<longleftrightarrow>
      prefix ?p (row_key r) \<and> ?s \<le> row_key r \<and> has_row (db_get ?R (sto_history st)) r" for st r
    unfolding history_scan_start by (rule kv_store.set_scan_from [OF kv prefix_height_filter])
  have code: "thk_code k = ?H" if "k \<in> set ?keys" for k
    using that by (auto simp: block_history_keys_def history_key_def)
  have new: "r \<in> set rows \<and> prefix ?p (row_key r) \<and> ?s \<le> row_key r \<longleftrightarrow> r \<in> ?row ` {k \<in> set ?keys. thk_hash k = sh}" for r
  proof
    assume r: "r \<in> set rows \<and> prefix ?p (row_key r) \<and> ?s \<le> row_key r"
    then have "r \<in> set (filter (\<lambda>r. row_code r = ?H) rows)" using filter_code by auto
    then obtain k where "k \<in> set ?keys" "r = ?row k" unfolding written(1) by auto
    with r code [of k] filter_hash [of k sh "bo ?E"] show "r \<in> ?row ` {k \<in> set ?keys. thk_hash k = sh}" by blast
  next
    assume "r \<in> ?row ` {k \<in> set ?keys. thk_hash k = sh}"
    then obtain k where k: "k \<in> set ?keys" "thk_hash k = sh" "r = ?row k" by blast
    then have "r \<in> set (filter (\<lambda>r. row_code r = ?H) rows)" unfolding written(1) by simp
    with history_row_scan_order [OF assms(2) code [OF k(1)] k(2), of 0] k(3)
    show "r \<in> set rows \<and> prefix ?p (row_key r) \<and> ?s \<le> row_key r" by simp
  qed
  have "r \<in> set (history_iter_scan Q (ix_store ix') ?H sh 0) \<longleftrightarrow>
      r \<in> set (history_iter_scan Q (ix_store ix) ?H sh 0) \<or> r \<in> ?row ` {k \<in> set ?keys. thk_hash k = sh}" for r
  proof -
    have "row_key r \<noteq> [byte CHR ''V'']" if "prefix ?p (row_key r)"
      using filter_code [OF that] by (auto simp: row_code_def)
    then show ?thesis unfolding scan ix' new [symmetric]
      using has_row_after_write [OF assms(1) written(2) assms(3)] by blast
  qed
  with txos show ?thesis by blast
qed

text \<open>
  C34: indexing blocks and scanning a script's history agree. In a history database that holds no value but the
  compatibility bytes of its opening (an opened one does not, nor does it after any indexing), when blocks have
  been indexed, the scan of a script from height 0 finds what it found before and, of the history entries of the blocks' transactions (their
  outputs, and the previous outputs their inputs spend), exactly those of the script.
\<close>

theorem indexed_history_scanned:
  assumes "rocksdb (rdb (cq_ext Q))" "bincode_ordered (bo (cq_ext Q))"
    "history_db_ok (rdb (cq_ext Q)) (sto_history (ix_store ix))"
    "indexer_index (cq_ext Q) ix blocks = (ix', Inr ())"
  shows "\<exists>txos. lookup_txos (cq_ext Q) (sto_txstore (ix_store ix)) (get_previous_txos blocks) False = Inr txos \<and>
    set (history_iter_scan Q (ix_store ix') (byte CHR ''H'') sh 0) =
      set (history_iter_scan Q (ix_store ix) (byte CHR ''H'') sh 0) \<union>
      tx_history_row_into_row (bo (cq_ext Q)) `
        {k \<in> set (concat (map (block_history_keys (tap (cq_ext Q)) (ic_index_unspendables (ix_config ix)) txos) blocks)).
          thk_hash k = sh}"
  using assms by (rule indexed_history_rows)

subsection \<open>An example\<close>

text \<open>
  A fresh store: three empty databases, opened. Each then holds the compatibility bytes, so the example runs on
  what a server has after its first start.
\<close>

abbreviation ex_version :: "kv list" where
  "ex_version \<equiv> [([byte CHR ''V''], compatibility_bytes bincode_le False)]"

definition ex_opened :: "kv list indexer" where
  "ex_opened = (case store_open ext_ref False [] [] [] of Inr st \<Rightarrow> indexer_open st Tapyrusd ex_config)"

lemma ex_store_open: "store_open ext_ref False [] [] [] =
    Inr \<lparr>sto_txstore = ex_version, sto_history = ex_version, sto_cache = ex_version, sto_added = {}, sto_indexed = {},
      sto_headers = header_list_empty\<rparr>"
proof -
  have "db_open rocksdb_ref bincode_le False [] = Inr ex_version"
    by (simp add: db_open_def db_verify_compatibility_def db_get_def db_put_def rocksdb_ref_def)
  moreover have "load_blockhashes rocksdb_ref ex_version block_row_done_filter = Inr {}"
    by (simp add: load_blockhashes_def ref_scan_single block_row_done_filter_def)
  moreover have "db_get rocksdb_ref ex_version tip_key = None"
    by (simp add: db_get_def rocksdb_ref_def tip_key_def)
  ultimately show ?thesis by (simp add: store_open_def ext_ref_def)
qed

lemma ex_opened_fields:
  "sto_txstore (ix_store ex_opened) = ex_version" "sto_history (ix_store ex_opened) = ex_version"
  "ix_config ex_opened = ex_config" "ix_flush ex_opened = Disable"
  by (simp_all add: ex_opened_def ex_store_open indexer_open_def)

lemma ex_opened_history_ok: "history_db_ok (rdb ext_ref) (sto_history (ix_store ex_opened))"
  by (simp add: ex_opened_fields history_db_ok_def db_get_def ext_ref_def rocksdb_ref_def)

text \<open>A block with a transaction that spends nothing and pays to a script, added and then indexed.\<close>

definition ex_paying_tx :: transaction where
  "ex_paying_tx = ex_tx\<lparr>tx_input := []\<rparr>"

definition ex_paying_block :: block_entry where
  "ex_paying_block = ex_block_entry\<lparr>be_block := (be_block ex_block_entry)\<lparr>blk_txdata := [ex_paying_tx]\<rparr>,
     be_entry := ex_entry 0 10 0\<rparr>"

definition ex_added :: "kv list indexer" where
  "ex_added = fst (indexer_add ext_ref ex_opened [ex_paying_block])"

lemma ex_added_run: "indexer_add ext_ref ex_opened [ex_paying_block] = (ex_added, Inr ())"
  by (simp add: ex_added_def indexer_add_def Let_def)

lemma ex_index_fields:
  "blk_txdata (be_block ex_paying_block) = [ex_paying_tx]" "he_hash (be_entry ex_paying_block) = 10"
  "he_height (be_entry ex_paying_block) = 0" "tx_input ex_paying_tx = []"
  "tx_output ex_paying_tx = [\<lparr>txo_value = 70, txo_script_pubkey = [0x51]\<rparr>]"
  "cq_ext ex_chain_query = ext_ref" "tap ext_ref = tapyrus_ref" "bo ext_ref = bincode_be" "rdb ext_ref = rocksdb_ref"
  "ic_index_unspendables ex_config = False"
  by (simp_all add: ex_paying_block_def ex_block_entry_def ex_entry_def ex_paying_tx_def ex_tx_def ex_chain_query_def ext_ref_def
      ex_config_def)

lemma ex_added_fields:
  "sto_added (ix_store ex_added) = {10}" "sto_history (ix_store ex_added) = ex_version" "ix_config ex_added = ex_config"
  "sto_txstore (ix_store ex_added) =
     db_write rocksdb_ref ex_version (add_blocks ext_ref ex_config [ex_paying_block]) Disable"
  by (simp_all add: ex_added_def indexer_add_def Let_def ex_index_fields ex_opened_def ex_store_open indexer_open_def)

lemma ex_no_previous: "get_previous_txos [ex_paying_block] = []" "lookup_txos E d [] b = Inr []"
  by (simp_all add: get_previous_txos_def tx_prevouts_def ex_index_fields lookup_txos_def hm_collect_def)

lemma ex_paying_id: "malfix_txid tapyrus_ref ex_paying_tx = 40"
  by (simp add: tapyrus_ref_def ex_paying_tx_def ex_tx_def)

lemma ex_paying_keys: "\<exists>k. block_history_keys tapyrus_ref False [] ex_paying_block = [k] \<and>
    thk_hash k = compute_script_hash tapyrus_ref [0x51] \<and> thi_get_txid (thk_txinfo k) = 40"
proof -
  have "is_spendable tapyrus_ref \<lparr>txo_value = 70, txo_script_pubkey = [0x51]\<rparr>" "split_color tapyrus_ref [0x51] = None"
    by (simp_all add: is_spendable_def tapyrus_ref_def ref_split_color_def)
  then show ?thesis
    by (simp add: block_history_keys_def ex_index_fields history_entries_def output_entries_def script_entries_def ex_paying_id history_key_def)
qed

lemma ex_index_run: "\<exists>ix'. indexer_index ext_ref ex_added [ex_paying_block] = (ix', Inr ())"
proof -
  have "\<exists>rows. index_blocks ext_ref ex_config [ex_paying_block] [] = Inr rows"
    by (simp add: index_blocks_def index_block_def index_transaction_def ex_index_fields Let_def)
  then show ?thesis
    by (auto simp: indexer_index_def ex_no_previous assert_added_def assert_res_def ex_index_fields ex_added_fields Let_def)
qed

lemma ex_laws: "rocksdb (rdb (cq_ext ex_chain_query))" "bincode_ordered (bo (cq_ext ex_chain_query))"
  by (simp_all add: ex_index_fields ref_db.rocksdb_axioms be.bincode_ordered_axioms)

lemma ex_added_history_ok: "history_db_ok (rdb (cq_ext ex_chain_query)) (sto_history (ix_store ex_added))"
  using ex_opened_history_ok by (simp add: ex_index_fields ex_added_fields ex_opened_fields)

lemma indexed_history_scanned_witness:
  "\<exists>ix' k. indexer_index ext_ref ex_added [ex_paying_block] = (ix', Inr ()) \<and> thi_get_txid (thk_txinfo k) = 40 \<and>
     tx_history_row_into_row bincode_be k \<in>
       set (history_iter_scan ex_chain_query (ix_store ix') (byte CHR ''H'') (compute_script_hash tapyrus_ref [0x51]) 0)"
proof -
  obtain k where k: "block_history_keys tapyrus_ref False [] ex_paying_block = [k]"
    "thk_hash k = compute_script_hash tapyrus_ref [0x51]" "thi_get_txid (thk_txinfo k) = 40"
    using ex_paying_keys by blast
  obtain ix' where run: "indexer_index ext_ref ex_added [ex_paying_block] = (ix', Inr ())"
    using ex_index_run by blast
  from indexed_history_scanned [OF ex_laws ex_added_history_ok, of "[ex_paying_block]" ix' "compute_script_hash tapyrus_ref [0x51]"] run k
  have "tx_history_row_into_row bincode_be k \<in>
       set (history_iter_scan ex_chain_query (ix_store ix') (byte CHR ''H'') (compute_script_hash tapyrus_ref [0x51]) 0)"
    by (auto simp: ex_index_fields ex_added_fields ex_no_previous)
  with run k(3) show ?thesis by blast
qed

end
