(* ===== verification/Served_History.thy ===== *)
theory Served_History
  imports Index_History
begin

text \<open>
  From blocks to answers: a transaction of a block that was added and indexed, once the block is in the
  best chain, is listed by the query for the history of every script it pays to or spends from
  (\<^verbatim>\<open>Indexer::add\<close>, \<^verbatim>\<open>Indexer::index\<close> and \<^verbatim>\<open>ChainQuery::history_txids\<close> in \<^verbatim>\<open>src/src/new_index/schema.rs\<close>).
\<close>

section \<open>Streams that are read to their end\<close>

lemma sfilter_map_complete: "sfilter_map f rs = map Inr ys \<Longrightarrow> Inr x \<in> set rs \<Longrightarrow>
    \<exists>r. f x = Inr r \<and> (\<forall>y. r = Some y \<longrightarrow> y \<in> set ys)"
proof (induction f rs arbitrary: ys rule: sfilter_map.induct)
  case (2 f r rs)
  show ?case
  proof (cases "and_then r f")
    case (Inl e)
    with "2.prems"(1) show ?thesis by (cases ys) simp_all
  next
    case (Inr r')
    show ?thesis
    proof (cases r')
      case None
      with "2.IH"(2) [OF Inr None] "2.prems" Inr show ?thesis by auto
    next
      case (Some y)
      with "2.prems"(1) Inr obtain zs where "ys = y # zs" "sfilter_map f rs = map Inr zs" by (cases ys) auto
      with "2.IH"(3) [OF Inr Some, of zs] "2.prems"(2) Inr Some show ?thesis by auto
    qed
  qed
qed simp

lemma collect_complete:
  assumes "collect (take n rs) = Inr ys" "length ys < n"
  shows "rs = map Inr ys"
proof -
  have "take n rs = map Inr ys" using assms(1) by (simp add: collect_eq_Inr)
  then have "length (take n rs) < n" using assms(2) by simp
  then have "take n rs = rs" by simp
  with \<open>take n rs = map Inr ys\<close> show ?thesis by simp
qed

lemma sunique_from_keeps: "Inr x \<in> set rs \<Longrightarrow> x \<notin> set seen \<Longrightarrow> Inr x \<in> set (sunique_from seen rs)"
  by (induction seen rs rule: sunique_from.induct) auto

lemma sunique_keeps: "Inr x \<in> set rs \<Longrightarrow> Inr x \<in> set (sunique rs)"
  unfolding sunique_def by (rule sunique_from_keeps) simp_all

lemma snext_none: "snext rs = Inr None \<Longrightarrow> rs = []"
  by (cases rs rule: snext.cases) simp_all

section \<open>Confirmation\<close>

lemma confirmed_in_chain:
  assumes "rocksdb (rdb (cq_ext Q))" "hl_ok (sto_headers st)"
    "has_row (db_get (rdb (cq_ext Q)) (sto_txstore st))
       (tx_conf_row_into_row \<lparr>tcr_code = byte CHR ''C'', tcr_txid = t, tcr_blockhash = he_hash e\<rparr>)"
    "e \<in> set (hl_headers (sto_headers st))" "tx_confirming_block Q st t = Inr r"
  shows "\<exists>e' \<in> set (hl_headers (sto_headers st)). r = Some (block_id_from e')"
proof -
  let ?row = "tx_conf_row_into_row \<lparr>tcr_code = byte CHR ''C'', tcr_txid = t, tcr_blockhash = he_hash e\<rparr>"
  let ?f = "\<lambda>row. and_then (tx_conf_row_from_row row) (\<lambda>conf.
     Inr (header_by_blockhash (sto_headers st) (tcr_blockhash conf)))"
  let ?rows = "db_iter_scan (rdb (cq_ext Q)) (sto_txstore st) (tx_conf_row_filter (full_hash t))"
  have "?row \<in> set ?rows"
    using kv_store.set_scan [OF rocksdb.kv_laws [OF assms(1)]] assms(3)
    by (simp add: tx_conf_row_filter_def tx_conf_row_into_row_def)
  moreover have "?f ?row = Inr (Some e)"
    using assms(2,4) by (simp add: tx_conf_row_roundtrip header_by_blockhash_ok)
  ultimately have "sfilter_map ?f (map Inr ?rows) \<noteq> []"
    using sfilter_map_complete [of ?f "map Inr ?rows" "[]" ?row] by fastforce
  have "r \<noteq> None"
  proof
    assume "r = None"
    with assms(5) have "snext (sfilter_map ?f (map Inr ?rows)) = Inr None" by (auto simp: tx_confirming_block_def)
    with snext_none \<open>sfilter_map ?f (map Inr ?rows) \<noteq> []\<close> show False by blast
  qed
  then obtain b where b: "r = Some b" by blast
  with confirming_block_header assms(5) obtain h e' where
    "header_by_blockhash (sto_headers st) h = Some e'" "b = block_id_from e'"
    by blast
  with b assms(2) show ?thesis by (auto simp: header_by_blockhash_ok)
qed

section \<open>Listing\<close>

lemma history_entries_txid:
  "(sh, info) \<in> set (history_entries T u tx txos) \<Longrightarrow> thi_get_txid info = malfix_txid T tx"
  by (auto simp: history_entries_def output_entries_def input_entries_def Let_def split: if_split_asm option.split_asm)

lemma history_entries_plain:
  "(sh, Funding f) \<in> set (history_entries T u tx txos) \<Longrightarrow> fi_open_asset f = None"
  by (auto simp: history_entries_def output_entries_def input_entries_def Let_def split: if_split_asm option.split_asm)

lemma indexer_index_txstore:
  "indexer_index E ix blocks = (ix', r) \<Longrightarrow> sto_txstore (ix_store ix') = sto_txstore (ix_store ix)"
  by (auto simp: indexer_index_def Let_def split: sum.split_asm)

lemma indexer_add_history: "indexer_add E ix blocks = (ix', r) \<Longrightarrow>
    sto_history (ix_store ix') = sto_history (ix_store ix) \<and> ix_config ix' = ix_config ix"
  by (auto simp: indexer_add_def Let_def)

text \<open>
  C5: from blocks to answers. In a store whose history database holds no value but the compatibility bytes of its
  opening, when blocks whose rows do not contradict each other have been added and indexed and one of them is in
  the best chain, a query for the transactions of a script that answers with fewer than its limit lists every
  transaction of that block with an entry for the script, and gives as its block one of the best chain.
\<close>

theorem indexed_transaction_listed:
  assumes "rocksdb (rdb (cq_ext Q))" "bincode_ordered (bo (cq_ext Q))"
    and "history_db_ok (rdb (cq_ext Q)) (sto_history (ix_store ix))"
    and "consistent (add_blocks (cq_ext Q) (ix_config ix) blocks)"
    and "indexer_add (cq_ext Q) ix blocks = (ix1, Inr ())" "indexer_index (cq_ext Q) ix1 blocks = (ix2, Inr ())"
    and "hl_ok hl" "b \<in> set blocks" "be_entry b \<in> set (hl_headers hl)" "tx \<in> set (blk_txdata (be_block b))"
    and "lookup_txos (cq_ext Q) (sto_txstore (ix_store ix1)) (get_previous_txos blocks) False = Inr txos"
    and "sh \<in> fst ` set (history_entries (tap (cq_ext Q)) (ic_index_unspendables (ix_config ix)) tx txos)"
    and "chain_history_txids Q ((ix_store ix2)\<lparr>sto_headers := hl\<rparr>) sh limit = Inr txids"
    and "length txids < limit"
  shows "\<exists>e \<in> set (hl_headers hl). (malfix_txid (tap (cq_ext Q)) tx, block_id_from e) \<in> set txids"
proof -
  let ?E = "cq_ext Q" and ?st = "(ix_store ix2)\<lparr>sto_headers := hl\<rparr>" and ?t = "malfix_txid (tap (cq_ext Q)) tx"
  obtain info where info: "(sh, info) \<in> set (history_entries (tap ?E) (ic_index_unspendables (ix_config ix)) tx txos)"
    using assms(12) by auto
  let ?k = "history_key (of_nat (he_height (be_entry b))) (sh, info)"
  have added: "sto_history (ix_store ix1) = sto_history (ix_store ix)" "ix_config ix1 = ix_config ix"
    using indexer_add_history [OF assms(5)] by simp_all
  have "?k \<in> set (block_history_keys (tap ?E) (ic_index_unspendables (ix_config ix)) txos b)"
    using info assms(10) by (auto simp: block_history_keys_def)
  then have "tx_history_row_into_row (bo ?E) ?k \<in> set (history_iter_scan Q (ix_store ix2) (byte CHR ''H'') sh 0)"
    using indexed_history_rows [OF assms(1,2) _ assms(6), of sh] assms(3,8,11) added
    by (auto simp: history_key_def)
  then have row: "tx_history_row_into_row (bo ?E) ?k \<in> set (history_iter_scan Q ?st (byte CHR ''H'') sh 0)"
    by (simp add: history_iter_scan_def)
  have "tx_history_row_from_row (bo ?E) (tx_history_row_into_row (bo ?E) ?k) = Inr ?k"
    using history_entries_plain info
    by (intro history_row_roundtrip [OF bincode_ordered.axioms(1) [OF assms(2)]]) (auto simp: history_key_def)
  then have "history_row_txid Q (tx_history_row_into_row (bo ?E) ?k) = Inr ?t"
    using history_entries_txid [OF info] by (simp add: history_row_txid_def history_key_def)
  with row have
    "Inr ?t \<in> set (map (history_row_txid Q) (history_iter_scan Q ?st (byte CHR ''H'') sh 0))"
    by (metis list.set_map imageI)
  then have "Inr ?t \<in> set (sunique (map (history_row_txid Q) (history_iter_scan Q ?st (byte CHR ''H'') sh 0)))"
    by (rule sunique_keeps)
  moreover have "confirmed_txids Q ?st (sunique (map (history_row_txid Q)
      (history_iter_scan Q ?st (byte CHR ''H'') sh 0))) = map Inr txids"
    using assms(13,14) by (intro collect_complete) (simp_all add: chain_history_txids_def history_txids_by_code_def)
  ultimately obtain r where r:
    "and_then (tx_confirming_block Q ?st ?t) (\<lambda>b. Inr (map_option (Pair ?t) b)) = Inr r"
    "\<forall>y. r = Some y \<longrightarrow> y \<in> set txids"
    unfolding confirmed_txids_def using sfilter_map_complete by meson
  have "has_row (db_get (rdb ?E) (sto_txstore ?st))
      (tx_conf_row_into_row \<lparr>tcr_code = byte CHR ''C'', tcr_txid = ?t, tcr_blockhash = he_hash (be_entry b)\<rparr>)"
    using kv_store.get_write_in [OF rocksdb.kv_laws [OF assms(1)] assms(4) add_blocks_rows(2) [OF assms(8,10)]] assms(5)
      indexer_index_txstore [OF assms(6)]
    by (auto simp: has_row_def indexer_add_def Let_def tx_conf_row_new_def)
  with r(1) confirmed_in_chain [OF assms(1), of ?st ?t "be_entry b"] assms(7,9)
  obtain e where "e \<in> set (hl_headers hl)" "tx_confirming_block Q ?st ?t = Inr (Some (block_id_from e))" by fastforce
  with r show ?thesis by auto
qed

subsection \<open>An example\<close>

text \<open>The block of \<open>Index_History\<close>, added to the freshly opened store and indexed, is served.\<close>

lemma single_scan: "sorted_wrt (\<lambda>r s. row_key r < row_key s) xs \<Longrightarrow> set xs = {r} \<Longrightarrow> xs = [r :: db_row]"
  by (rule strict_rows_unique) (assumption | simp)+

lemma ex_paying_codes: "distinct (map row_code (add_blocks ext_ref ex_config [ex_paying_block]))"
proof -
  have sp: "is_spendable tapyrus_ref \<lparr>txo_value = 70, txo_script_pubkey = [0x51]\<rparr>"
    by (simp add: is_spendable_def tapyrus_ref_def)
  show ?thesis
    by (simp add: add_blocks_def add_block_def ex_index_fields ext_ref_def ex_config_def Let_def
        add_transaction_def sp row_code_rows tx_conf_row_new_def tx_row_new_def tx_out_row_new_def
        block_row_new_txids_def block_row_new_meta_def block_row_new_header_def block_row_new_done_def)
qed

lemma ex_paying_not_version: "r \<in> set (add_blocks ext_ref ex_config [ex_paying_block]) \<Longrightarrow> row_key r \<noteq> [byte CHR ''V'']"
  using add_blocks_codes [of r ext_ref ex_config "[ex_paying_block]"] by (auto simp: row_code_def split: if_splits)

lemma ex_paying_confirmed:
  assumes "sto_txstore st = db_write rocksdb_ref ex_version (add_blocks ext_ref ex_config [ex_paying_block]) f"
    and "sto_headers st = ex_chain"
  shows "tx_confirming_block ex_chain_query st 40 = Inr (Some (block_id_from (ex_entry 0 10 0)))"
proof -
  let ?rows = "add_blocks ext_ref ex_config [ex_paying_block]"
  let ?r = "\<lparr>tcr_code = byte CHR ''C'', tcr_txid = 40 :: txid, tcr_blockhash = 10\<rparr>"
  let ?p = "tx_conf_row_filter (full_hash 40)"
  have r: "tx_conf_row_into_row ?r \<in> set ?rows"
    using add_blocks_rows(2) [of ex_paying_block "[ex_paying_block]" ex_paying_tx ext_ref ex_config]
    by (simp add: ex_index_fields tx_conf_row_new_def ex_paying_id)
  have code: "row_code r = byte CHR ''C''" if "prefix ?p (row_key r)" for r
    using that by (cases "row_key r") (auto simp: tx_conf_row_filter_def row_code_def)
  have pre: "prefix ?p (row_key (tx_conf_row_into_row ?r))"
    by (simp add: tx_conf_row_into_row_def tx_conf_row_filter_def)
  have "{r \<in> set ?rows. prefix ?p (row_key r)} = {tx_conf_row_into_row ?r}"
    using r code pre inj_onD [OF conjunct2 [OF ex_paying_codes [unfolded distinct_map]] _ _ r] by fastforce
  moreover have "set (db_iter_scan rocksdb_ref (sto_txstore st) ?p) =
      {r \<in> set ?rows. prefix ?p (row_key r)} \<union> set (db_iter_scan rocksdb_ref ex_version ?p)"
    unfolding assms(1)
  proof (rule kv_store.set_scan_write [OF ref_db.kv_laws consistent_distinct_codes [OF ex_paying_codes]], rule ballI)
    fix r
    assume "r \<in> set ?rows"
    from ex_paying_not_version [OF this]
    show "db_get rocksdb_ref ex_version (row_key r) = None \<or> db_get rocksdb_ref ex_version (row_key r) = Some (row_value r)"
      by (simp add: db_get_def rocksdb_ref_def)
  qed
  moreover have "db_iter_scan rocksdb_ref ex_version ?p = []"
    by (simp add: ref_scan_single tx_conf_row_filter_def)
  ultimately have "db_iter_scan rocksdb_ref (sto_txstore st) ?p = [tx_conf_row_into_row ?r]"
    by (intro single_scan kv_store.scan_sorted [OF ref_db.kv_laws]) simp
  moreover have "header_by_blockhash ex_chain 10 = Some (ex_entry 0 10 0)"
    by (simp add: header_by_blockhash_def ex_header_defs)
  ultimately show ?thesis
    by (simp add: tx_confirming_block_def tx_conf_row_roundtrip assms(2))
qed

lemma ex_added_no_history: "history_iter_scan ex_chain_query (ix_store ex_added) (byte CHR ''H'') sh 0 = []"
proof -
  have "\<not> prefix (tx_history_row_filter (byte CHR ''H'') sh) [byte CHR ''V'']" by (simp add: tx_history_row_filter_def)
  then show ?thesis by (simp add: history_scan_start ex_added_fields ex_index_fields ref_scan_single)
qed

lemma ex_paying_listed:
  assumes "indexer_index ext_ref ex_added [ex_paying_block] = (ix2, Inr ())"
  shows "chain_history_txids ex_chain_query ((ix_store ix2)\<lparr>sto_headers := ex_chain\<rparr>) (compute_script_hash tapyrus_ref [0x51]) 10 =
    Inr [(40, block_id_from (ex_entry 0 10 0))]"
proof -
  let ?sh = "compute_script_hash tapyrus_ref [0x51]" and ?b = "block_id_from (ex_entry 0 10 0)"
  let ?st = "(ix_store ix2)\<lparr>sto_headers := ex_chain\<rparr>"
  obtain k where k: "block_history_keys tapyrus_ref False [] ex_paying_block = [k]"
    "thk_hash k = ?sh" "thi_get_txid (thk_txinfo k) = 40"
    using ex_paying_keys by blast
  obtain info where info: "history_entries tapyrus_ref False ex_paying_tx [] = [(?sh, info)]"
    "thk_txinfo k = info" "thk_code k = byte CHR ''H''"
    using k(1,2) by (auto simp: block_history_keys_def ex_index_fields history_key_def)
  from indexed_history_rows [OF ex_laws ex_added_history_ok, of "[ex_paying_block]" ix2 ?sh] assms k
  have "set (history_iter_scan ex_chain_query (ix_store ix2) (byte CHR ''H'') ?sh 0) =
      {tx_history_row_into_row bincode_be k}"
    by (auto simp: ex_index_fields ex_no_previous ex_added_fields ex_added_no_history)
  then have "history_iter_scan ex_chain_query ?st (byte CHR ''H'') ?sh 0 = [tx_history_row_into_row bincode_be k]"
    by (intro single_scan) (simp_all add: history_iter_scan_def kv_store.scan_from_sorted [OF ref_db.kv_laws])
  moreover have "tx_history_row_from_row bincode_be (tx_history_row_into_row bincode_be k) = Inr k"
    using history_entries_plain [of ?sh _ tapyrus_ref False ex_paying_tx "[]"] info
    by (intro history_row_roundtrip be.bincode_laws_axioms) auto
  moreover have "tx_confirming_block ex_chain_query ?st 40 = Inr (Some ?b)"
    by (rule ex_paying_confirmed) (simp_all add: indexer_index_txstore [OF assms] ex_added_fields)
  ultimately show ?thesis
    by (simp add: chain_history_txids_def history_txids_by_code_def confirmed_txids_def history_row_txid_def k
        sunique_def collect_def)
qed

lemma indexed_transaction_listed_witness:
  "\<exists>ix2 txids. indexer_add ext_ref ex_opened [ex_paying_block] = (ex_added, Inr ()) \<and>
     indexer_index ext_ref ex_added [ex_paying_block] = (ix2, Inr ()) \<and>
     chain_history_txids ex_chain_query ((ix_store ix2)\<lparr>sto_headers := ex_chain\<rparr>)
       (compute_script_hash tapyrus_ref [0x51]) 10 = Inr txids \<and>
     (\<exists>e \<in> set (hl_headers ex_chain). (40, block_id_from e) \<in> set txids)"
proof -
  let ?sh = "compute_script_hash tapyrus_ref [0x51]" and ?b = "block_id_from (ex_entry 0 10 0)"
  obtain info where info: "history_entries tapyrus_ref False ex_paying_tx [] = [(?sh, info)]"
    using ex_paying_keys by (auto simp: block_history_keys_def ex_index_fields history_key_def)
  obtain ix2 where run: "indexer_index ext_ref ex_added [ex_paying_block] = (ix2, Inr ())"
    using ex_index_run by blast
  note listed = ex_paying_listed [OF run]
  have "\<exists>e \<in> set (hl_headers ex_chain).
      (malfix_txid (tap (cq_ext ex_chain_query)) ex_paying_tx, block_id_from e) \<in> set [(40, ?b)]"
  proof (rule indexed_transaction_listed [OF ex_laws _ _ _ _ ex_chain_ok _ _ _ _ _ listed,
        of ex_opened "[ex_paying_block]" ex_added ex_paying_block ex_paying_tx "[]"])
    show "history_db_ok (rdb (cq_ext ex_chain_query)) (sto_history (ix_store ex_opened))"
      using ex_opened_history_ok by (simp add: ex_index_fields)
    show "consistent (add_blocks (cq_ext ex_chain_query) (ix_config ex_opened) [ex_paying_block])"
      by (simp add: ex_index_fields ex_opened_fields consistent_distinct_codes ex_paying_codes)
    show "be_entry ex_paying_block \<in> set (hl_headers ex_chain)" by (simp add: ex_paying_block_def ex_chain_def)
    show "?sh \<in> fst ` set (history_entries (tap (cq_ext ex_chain_query))
        (ic_index_unspendables (ix_config ex_opened)) ex_paying_tx [])"
      by (simp add: ex_index_fields ex_opened_fields info)
  qed (simp_all add: ex_index_fields ex_added_run run ex_no_previous)
  with run listed show ?thesis by (simp add: ex_index_fields ex_added_run ex_paying_id)
qed

end
