(* ===== verification/Merkle.thy ===== *)
theory Merkle
  imports Headers
begin

text \<open>
  Merkle branches (\<^verbatim>\<open>src/src/util/electrum_merkle.rs\<close>): the loop that builds the branch of a position
  and the root, its reference definition (the root level by level, and the folding of a branch as a
  client does it), and their agreement. The functions that read the chain are in theory \<open>Protocol\<close>.
\<close>

section \<open>The loop\<close>

definition merklize :: "tapyrus \<Rightarrow> hash \<Rightarrow> hash \<Rightarrow> hash" where
  "merklize T left right = sha256d T (hash_bytes left @ hash_bytes right)"

text \<open>\<^verbatim>\<open>hashes.chunks(2).map(|pair| merklize(pair[0], pair[1]))\<close>: an incomplete pair would panic.\<close>

fun merklize_pairs :: "tapyrus \<Rightarrow> hash list \<Rightarrow> hash list res" where
  "merklize_pairs T [] = Inr []"
| "merklize_pairs T [a] = panic ''index out of bounds''"
| "merklize_pairs T (a # b # hs) =
     and_then (merklize_pairs T hs) (\<lambda>r. Inr (merklize T a b # r))"

lemma length_merklize_pairs: "merklize_pairs T hs = Inr r \<Longrightarrow> length hs = 2 * length r"
  by (induction T hs arbitrary: r rule: merklize_pairs.induct) auto

function merkle_loop :: "tapyrus \<Rightarrow> hash list \<Rightarrow> nat \<Rightarrow> hash list \<Rightarrow> (hash list \<times> hash) res" where
  "merkle_loop T hashes index merkle =
     (if 1 < length hashes then
        let hashes' = (if length hashes mod 2 \<noteq> 0 then hashes @ [last hashes] else hashes);
            index' = (if index mod 2 = 0 then index + 1 else index - 1)
        in if index' < length hashes' then
             case merklize_pairs T hashes' of
               Inl e \<Rightarrow> Inl e
             | Inr hashes'' \<Rightarrow> merkle_loop T hashes'' (index' div 2) (merkle @ [hashes' ! index'])
           else panic ''index out of bounds''
      else case hashes of
          [] \<Rightarrow> panic ''index out of bounds''
        | h # _ \<Rightarrow> Inr (merkle, h))"
  by pat_completeness auto

termination merkle_loop
proof (relation "measure (\<lambda>(T, hashes, index, merkle). length hashes)")
  fix T :: tapyrus and hashes hashes' hashes'' :: "hash list" and index index' :: nat and merkle :: "hash list"
  assume "1 < length hashes"
    and h: "hashes' = (if length hashes mod 2 \<noteq> 0 then hashes @ [last hashes] else hashes)"
    and "merklize_pairs T hashes' = Inr hashes''"
  then have "2 * length hashes'' \<le> length hashes + 1" "1 < length hashes"
    by (auto dest!: length_merklize_pairs split: if_splits)
  then show "((T, hashes'', index' div 2, merkle @ [hashes' ! index']), T, hashes, index, merkle) \<in>
    measure (\<lambda>(T, hashes, index, merkle). length hashes)" by simp
qed simp

declare merkle_loop.simps [simp del]

definition create_merkle_branch_and_root :: "tapyrus \<Rightarrow> hash list \<Rightarrow> nat \<Rightarrow> (hash list \<times> hash) res" where
  "create_merkle_branch_and_root T hashes index = merkle_loop T hashes index []"

section \<open>Reference: the root, and a client folding a branch\<close>

definition pad :: "hash list \<Rightarrow> hash list" where
  "pad hs = (if odd (length hs) then hs @ [last hs] else hs)"

fun pair_up :: "tapyrus \<Rightarrow> hash list \<Rightarrow> hash list" where
  "pair_up T (a # b # hs) = merklize T a b # pair_up T hs"
| "pair_up T _ = []"

lemma length_pair_up [simp]: "length (pair_up T hs) = length hs div 2"
  by (induction T hs rule: pair_up.induct) auto

lemma length_pad: "length (pad hs) = (if odd (length hs) then length hs + 1 else length hs)"
  by (simp add: pad_def)

text \<open>The root depends on the leaves alone.\<close>

function merkle_root :: "tapyrus \<Rightarrow> hash list \<Rightarrow> hash" where
  "merkle_root T hs = (if length hs \<le> 1 then hd hs else merkle_root T (pair_up T (pad hs)))"
  by pat_completeness auto
termination merkle_root
  by (relation "measure (\<lambda>(T, hs). length hs)") (auto simp: length_pad elim!: oddE)

declare merkle_root.simps [simp del]

definition fold_branch :: "tapyrus \<Rightarrow> hash \<Rightarrow> nat \<Rightarrow> hash list \<Rightarrow> hash" where
  "fold_branch T leaf index branch =
     fst (foldl (\<lambda>(h, i) b. (if even i then merklize T h b else merklize T b h, i div 2)) (leaf, index) branch)"

lemma merklize_pairs_even: "even (length hs) \<Longrightarrow> merklize_pairs T hs = Inr (pair_up T hs)"
  by (induction T hs rule: merklize_pairs.induct) auto

lemma pair_up_nth: "2 * i + 1 < length hs \<Longrightarrow> pair_up T hs ! i = merklize T (hs ! (2 * i)) (hs ! (2 * i + 1))"
proof (induction T hs arbitrary: i rule: pair_up.induct)
  case (1 T a b hs)
  then show ?case by (cases i) auto
qed auto

text \<open>One level: the sibling of a position and the pair they form.\<close>

lemma pair_up_sibling:
  assumes "i < length hs" "even (length hs)"
  defines "j \<equiv> if even i then i + 1 else i - 1"
  shows "j < length hs" "j div 2 = i div 2" "i div 2 < length (pair_up T hs)"
    "pair_up T hs ! (i div 2) = (if even i then merklize T (hs ! i) (hs ! j) else merklize T (hs ! j) (hs ! i))"
proof -
  show "j < length hs" "j div 2 = i div 2" "i div 2 < length (pair_up T hs)"
    using assms by (auto elim!: evenE oddE)
  have "2 * (i div 2) + 1 < length hs" using assms(1,2) by presburger
  from pair_up_nth [OF this, of T]
  show "pair_up T hs ! (i div 2) = (if even i then merklize T (hs ! i) (hs ! j) else merklize T (hs ! j) (hs ! i))"
    by (cases "even i") (auto simp: j_def elim!: evenE oddE)
qed

lemma pad_nth: "i < length hs \<Longrightarrow> pad hs ! i = hs ! i"
  by (simp add: pad_def nth_append)

section \<open>Correctness\<close>

lemma fold_branch_Cons:
  "fold_branch T h i (b # bs) = fold_branch T (if even i then merklize T h b else merklize T b h) (i div 2) bs"
  by (simp add: fold_branch_def)

lemma merkle_loop_correct:
  assumes "i < length hs"
  shows "\<exists>br. merkle_loop T hs i acc = Inr (acc @ br, merkle_root T hs) \<and>
    fold_branch T (hs ! i) i br = merkle_root T hs \<and>
    length hs \<le> 2 ^ length br \<and> (br \<noteq> [] \<longrightarrow> 2 ^ (length br - 1) < length hs)"
  using assms
proof (induction "length hs" arbitrary: hs i acc rule: less_induct)
  case less
  show ?case
  proof (cases "1 < length hs")
    case False
    with less.prems obtain h where "hs = [h]" by (cases hs) auto
    then show ?thesis
      using less.prems by (simp add: merkle_loop.simps merkle_root.simps fold_branch_def)
  next
    case True
    let ?p = "pad hs" and ?j = "if even i then i + 1 else i - 1"
    have ev: "even (length ?p)" by (simp add: length_pad)
    have i: "i < length ?p" using less.prems by (simp add: length_pad)
    note sib = pair_up_sibling [OF i ev]
    let ?up = "pair_up T ?p"
    have pad: "(if length hs mod 2 \<noteq> 0 then hs @ [last hs] else hs) = ?p"
      by (simp add: pad_def odd_iff_mod_2_eq_one)
    have idx: "(if i mod 2 = 0 then i + 1 else i - 1) = ?j"
      by (simp add: even_iff_mod_2_eq_zero)
    have up: "length ?up < length hs" "length hs \<le> 2 * length ?up" "2 * length ?up \<le> length hs + 1"
      using True by (auto simp: length_pad elim!: evenE oddE)
    obtain br where br: "merkle_loop T ?up (i div 2) (acc @ [?p ! ?j]) = Inr ((acc @ [?p ! ?j]) @ br, merkle_root T ?up)"
      "fold_branch T (?up ! (i div 2)) (i div 2) br = merkle_root T ?up"
      "length ?up \<le> 2 ^ length br" "br \<noteq> [] \<longrightarrow> 2 ^ (length br - 1) < length ?up"
      using less.hyps [OF up(1), of "i div 2"] sib(3) by blast
    have step: "merkle_loop T hs i acc = merkle_loop T ?up (?j div 2) (acc @ [?p ! ?j])"
      using True sib(1) by (subst merkle_loop.simps) (simp only: pad idx Let_def merklize_pairs_even [OF ev], simp)
    have root: "merkle_root T hs = merkle_root T ?up"
      using True by (subst merkle_root.simps) simp
    have "fold_branch T (hs ! i) i (?p ! ?j # br) = merkle_root T hs"
      using br(2) unfolding fold_branch_Cons root sib(4) pad_nth [OF less.prems] .
    moreover have "length hs \<le> 2 ^ length (?p ! ?j # br)" using br(3) up(2) by simp
    moreover have "2 ^ (length (?p ! ?j # br) - 1) < length hs"
      using br(4) up True by (cases br) auto
    ultimately show ?thesis
      using step br(1) sib(2) root by (intro exI [of _ "?p ! ?j # br"]) simp
  qed
qed

text \<open>
  C24: for every position of a list of hashes, the loop returns (never panics) the root, which depends on the
  hashes alone, with a branch from which a client recomputes that root, and the branch is as long as the
  tree is high.
\<close>

theorem create_merkle_branch_and_root_correct:
  assumes "index < length hashes"
  shows "\<exists>branch. create_merkle_branch_and_root T hashes index = Inr (branch, merkle_root T hashes) \<and>
    fold_branch T (hashes ! index) index branch = merkle_root T hashes \<and>
    length hashes \<le> 2 ^ length branch \<and> (branch \<noteq> [] \<longrightarrow> 2 ^ (length branch - 1) < length hashes)"
  using merkle_loop_correct [OF assms, of T "[]"] by (simp add: create_merkle_branch_and_root_def)

lemma create_merkle_branch_and_root_correct_witness:
  "\<exists>branch. create_merkle_branch_and_root tapyrus_ref [3, 4, 5] 2 = Inr (branch, merkle_root tapyrus_ref [3, 4, 5]) \<and>
    fold_branch tapyrus_ref 5 2 branch = merkle_root tapyrus_ref [3, 4, 5] \<and> 3 \<le> (2::nat) ^ length branch"
  using create_merkle_branch_and_root_correct [of 2 "[3, 4, 5]" tapyrus_ref] by auto

text \<open>Without hashes there is no root: the final indexing panics.\<close>

lemma create_merkle_branch_and_root_empty: "create_merkle_branch_and_root T [] i = panic ''index out of bounds''"
  by (simp add: create_merkle_branch_and_root_def merkle_loop.simps)

end
