(* ===== verification/Protocol.thy ===== *)
theory Protocol
  imports Merkle Query
begin

text \<open>
  The vocabulary of the Electrum protocol (\<^verbatim>\<open>src/src/electrum/mod.rs\<close>): confirmation heights, server features,
  protocol versions with their order and text form; and the Merkle proofs read from the chain
  (\<^verbatim>\<open>src/src/util/electrum_merkle.rs\<close>).
\<close>

section \<open>Heights\<close>

definition get_electrum_height :: "block_id option \<Rightarrow> bool \<Rightarrow> int" where
  "get_electrum_height blockid has_unconfirmed_parents =
     (case (blockid, has_unconfirmed_parents) of
        (Some blockid, _) \<Rightarrow> int (bid_height blockid)
      | (None, False) \<Rightarrow> 0
      | (None, True) \<Rightarrow> -1)"

section \<open>Protocol versions\<close>

datatype protocol_version = ProtocolVersion (pv_major: nat) (pv_minor: nat)

datatype ordering = Less | Equal | Greater

definition usize_cmp :: "nat \<Rightarrow> nat \<Rightarrow> ordering" where
  "usize_cmp a b = (if a < b then Less else if a = b then Equal else Greater)"

fun then_with :: "ordering \<Rightarrow> ordering \<Rightarrow> ordering" where
  "then_with Equal o' = o'"
| "then_with o' _ = o'"

definition protocol_version_cmp :: "protocol_version \<Rightarrow> protocol_version \<Rightarrow> ordering" where
  "protocol_version_cmp v w = then_with (usize_cmp (pv_major v) (pv_major w)) (usize_cmp (pv_minor v) (pv_minor w))"

text \<open>\<^verbatim>\<open>PartialOrd\<close>, from which the comparison operators come, is that comparison.\<close>

instantiation protocol_version :: linorder
begin

definition less_eq_protocol_version :: "protocol_version \<Rightarrow> protocol_version \<Rightarrow> bool" where
  "v \<le> w \<longleftrightarrow> protocol_version_cmp v w \<noteq> Greater"

definition less_protocol_version :: "protocol_version \<Rightarrow> protocol_version \<Rightarrow> bool" where
  "v < w \<longleftrightarrow> protocol_version_cmp v w = Less"

lemmas protocol_version_order_defs =
  less_eq_protocol_version_def less_protocol_version_def protocol_version_cmp_def usize_cmp_def

instance
proof
  fix x y z :: protocol_version
  show "x < y \<longleftrightarrow> x \<le> y \<and> \<not> y \<le> x"
    by (cases x; cases y) (auto simp: protocol_version_order_defs)
  show "x \<le> x" by (cases x) (simp add: protocol_version_order_defs)
  show "x \<le> y \<Longrightarrow> y \<le> z \<Longrightarrow> x \<le> z"
    by (cases x; cases y; cases z) (auto simp: protocol_version_order_defs split: if_splits)
  show "x \<le> y \<Longrightarrow> y \<le> x \<Longrightarrow> x = y"
    by (cases x; cases y) (auto simp: protocol_version_order_defs split: if_splits)
  show "x \<le> y \<or> y \<le> x" by (cases x; cases y) (auto simp: protocol_version_order_defs)
qed

end

lemma protocol_version_le_iff:
  "ProtocolVersion a b \<le> ProtocolVersion c d \<longleftrightarrow> a < c \<or> a = c \<and> b \<le> d"
  by (auto simp: protocol_version_order_defs split: if_splits)

lemma protocol_version_cmp_Equal: "protocol_version_cmp v w = Equal \<longleftrightarrow> v = w"
  by (cases v; cases w) (auto simp: protocol_version_cmp_def usize_cmp_def)

text \<open>\<^verbatim>\<open>str::split\<close> on a character.\<close>

fun split_on :: "char \<Rightarrow> string \<Rightarrow> string list" where
  "split_on d [] = [[]]"
| "split_on d (c # cs) =
     (if c = d then [] # split_on d cs
      else case split_on d cs of [] \<Rightarrow> [[c]] | p # ps \<Rightarrow> (c # p) # ps)"

lemma split_on_not_Nil [simp]: "split_on d s \<noteq> []"
  by (cases s) (auto split: list.splits)

lemma split_on_plain: "d \<notin> set s \<Longrightarrow> split_on d s = [s]"
  by (induction s) auto

lemma split_on_append: "d \<notin> set s \<Longrightarrow> split_on d (s @ d # t) = s # split_on d t"
  by (induction s) auto

definition protocol_version_from_str :: "string \<Rightarrow> protocol_version res" where
  "protocol_version_from_str s =
     (let parts = split_on (CHR ''.'') s in
      and_then (ok_or ''missing major'' (case parts of p # _ \<Rightarrow> Some p | [] \<Rightarrow> None)) (\<lambda>a.
      and_then (ok_or ''invalid major'' (parse_uint 64 a)) (\<lambda>major.
      and_then (ok_or ''missing minor'' (case parts of _ # p # _ \<Rightarrow> Some p | _ \<Rightarrow> None)) (\<lambda>b.
      and_then (ok_or ''invalid minor'' (parse_uint 64 b)) (\<lambda>minor.
        Inr (ProtocolVersion major minor))))))"

definition protocol_version_to_string :: "protocol_version \<Rightarrow> string" where
  "protocol_version_to_string v = dec_nat (pv_major v) @ ''.'' @ dec_nat (pv_minor v)"

definition serialize_protocol_version :: "protocol_version \<Rightarrow> json" where
  "serialize_protocol_version v = JStr (protocol_version_to_string v)"

definition deserialize_protocol_version :: "json \<Rightarrow> protocol_version res" where
  "deserialize_protocol_version v =
     and_then (ok_or ''invalid type: expected a string'' (as_str v)) protocol_version_from_str"

subsection \<open>Printing and parsing numbers\<close>

lemma dec_digit_char: "d < 10 \<Longrightarrow> dec_digit (char_of (48 + d :: nat)) = Some d"
  by (simp add: dec_digit_def)

lemma dec_value_append: "dec_value a (s @ t) = Option.bind (dec_value a s) (\<lambda>b. dec_value b t)"
  by (induction s arbitrary: a) (auto split: option.splits)

lemma dec_value_dec_nat: "dec_value 0 (dec_nat n) = Some n"
proof (induction n rule: dec_nat.induct)
  case (1 n)
  show ?case
  proof (cases "n < 10")
    case True
    then show ?thesis by (simp add: dec_nat.simps [of n] dec_digit_char)
  next
    case False
    then have "dec_value 0 (dec_nat n) = Some (10 * (n div 10) + n mod 10)"
      using 1 by (simp add: dec_nat.simps [of n] dec_value_append dec_digit_char)
    then show ?thesis by (simp only: mult_div_mod_eq)
  qed
qed

lemma dec_nat_not_Nil [simp]: "dec_nat n \<noteq> []"
  by (simp add: dec_nat.simps [of n])

lemma set_dec_nat: "set (dec_nat n) \<subseteq> (\<lambda>d. char_of (48 + d)) ` {..<10 :: nat}"
proof (induction n rule: dec_nat.induct)
  case (1 n)
  then show ?case by (subst dec_nat.simps) (auto simp: image_iff)
qed

lemma digit_char_range: "c \<in> set (dec_nat n) \<Longrightarrow> 48 \<le> (of_char c :: nat) \<and> (of_char c :: nat) \<le> 57"
proof -
  assume "c \<in> set (dec_nat n)"
  then obtain d :: nat where "d < 10" "c = char_of (48 + d)" using set_dec_nat [of n] by auto
  then show ?thesis by simp
qed

lemma not_in_dec_nat: "(of_char c :: nat) < 48 \<Longrightarrow> c \<notin> set (dec_nat n)"
  using digit_char_range [of c n] by auto

lemma parse_uint_dec_nat: "n < 2 ^ w \<Longrightarrow> parse_uint w (dec_nat n) = Some n"
proof -
  assume n: "n < 2 ^ w"
  have "CHR ''+'' \<notin> set (dec_nat n)" by (rule not_in_dec_nat) simp
  then have "take 1 (dec_nat n) \<noteq> ''+''" by (cases "dec_nat n") auto
  then show ?thesis using n by (simp add: parse_uint_def dec_value_dec_nat)
qed

lemma parse_uint_less: "parse_uint w s = Some n \<Longrightarrow> n < 2 ^ w"
  by (auto simp: parse_uint_def Let_def split: if_splits option.splits)

text \<open>The text form of a version is read back; what is read is within the width of a \<^verbatim>\<open>usize\<close>.\<close>

lemma protocol_version_roundtrip:
  assumes "pv_major v < 2 ^ 64" "pv_minor v < 2 ^ 64"
  shows "protocol_version_from_str (protocol_version_to_string v) = Inr v"
proof -
  have d: "CHR ''.'' \<notin> set (dec_nat n)" for n by (rule not_in_dec_nat) simp
  have "split_on (CHR ''.'') (protocol_version_to_string v) = [dec_nat (pv_major v), dec_nat (pv_minor v)]"
    by (simp add: protocol_version_to_string_def split_on_append [OF d] split_on_plain [OF d])
  then show ?thesis
    using assms by (cases v) (simp add: protocol_version_from_str_def parse_uint_dec_nat)
qed

lemma protocol_version_from_str_bounds:
  "protocol_version_from_str s = Inr v \<Longrightarrow> pv_major v < 2 ^ 64 \<and> pv_minor v < 2 ^ 64"
  by (auto simp: protocol_version_from_str_def Let_def dest!: parse_uint_less)

section \<open>Server features\<close>

record server_ports =
  sp_tcp_port :: "u16 option"
  sp_ssl_port :: "u16 option"

record server_features =
  sf_hosts :: "(string, server_ports) hashmap"
  sf_server_version :: string
  sf_protocol_min :: protocol_version
  sf_protocol_max :: protocol_version
  sf_pruning :: "nat option"
  sf_hash_function :: string

section \<open>Merkle proofs\<close>

definition position :: "'a \<Rightarrow> 'a list \<Rightarrow> nat option" where
  "position x xs = (if x \<in> set xs then Some (length (takeWhile (\<lambda>y. y \<noteq> x) xs)) else None)"

lemma position_Some: "position x xs = Some i \<Longrightarrow> i < length xs \<and> xs ! i = x"
proof (induction xs arbitrary: i)
  case (Cons y ys)
  then show ?case by (cases "y = x") (auto simp: position_def split: if_splits)
qed (simp add: position_def)

definition get_tx_merkle_proof ::
  "'d chain_query \<Rightarrow> 'd store \<Rightarrow> txid \<Rightarrow> blockhash \<Rightarrow> (hash list \<times> nat) res" where
  "get_tx_merkle_proof Q st tx_hash blockhash =
     and_then (get_block_txids Q st blockhash) (\<lambda>txids.
     and_then (ok_or (''missing block txids for #'' @ hash_to_hex (cq_lib Q) blockhash) txids) (\<lambda>txids.
     and_then (ok_or (''missing txid '' @ hash_to_hex (cq_lib Q) tx_hash) (position tx_hash txids)) (\<lambda>pos.
     and_then (create_merkle_branch_and_root (tap (cq_ext Q)) txids pos) (\<lambda>(branch, root).
       Inr (branch, pos)))))"

text \<open>\<^verbatim>\<open>iter().map(hash_by_height).collect::<Option<Vec<_>>>()\<close> stops at the first missing height.\<close>

fun hashes_by_height :: "'d store \<Rightarrow> nat list \<Rightarrow> blockhash list option res" where
  "hashes_by_height st [] = Inr (Some [])"
| "hashes_by_height st (h # hs) =
     opt_then (hash_by_height st h) (\<lambda>x. opt_then (hashes_by_height st hs) (\<lambda>xs. Inr (Some (x # xs))))"

definition get_header_merkle_proof ::
  "'d chain_query \<Rightarrow> 'd store \<Rightarrow> nat \<Rightarrow> nat \<Rightarrow> (hash list \<times> hash) res" where
  "get_header_merkle_proof Q st height cp_height =
     (if cp_height < height then
        bail (''cp_height #'' @ dec_nat cp_height @ '' < height #'' @ dec_nat height)
      else let best_height = best_height st in
        if best_height < cp_height then
          bail (''cp_height #'' @ dec_nat cp_height @ '' above best block height #'' @ dec_nat best_height)
        else
          and_then (hashes_by_height st [0..<cp_height + 1]) (\<lambda>header_hashes.
          and_then (ok_or ''missing block headers'' header_hashes) (\<lambda>header_hashes.
            create_merkle_branch_and_root (tap (cq_ext Q)) header_hashes height)))"

definition get_id_from_pos ::
  "'d chain_query \<Rightarrow> 'd store \<Rightarrow> nat \<Rightarrow> nat \<Rightarrow> bool \<Rightarrow> (txid \<times> hash list) res" where
  "get_id_from_pos Q st height tx_pos want_merkle =
     and_then (hash_by_height st height) (\<lambda>h.
     and_then (ok_or (''missing block #'' @ dec_nat height) h) (\<lambda>header_hash.
     and_then (get_block_txids Q st header_hash) (\<lambda>txids.
     and_then (ok_or (''missing block txids #'' @ dec_nat height) txids) (\<lambda>txids.
     and_then (ok_or (''No tx in position #'' @ dec_nat tx_pos @ '' in block #'' @ dec_nat height)
         (if tx_pos < length txids then Some (txids ! tx_pos) else None)) (\<lambda>txid.
     and_then
       (if want_merkle
        then and_then (create_merkle_branch_and_root (tap (cq_ext Q)) txids tx_pos) (\<lambda>(branch, root). Inr branch)
        else Inr []) (\<lambda>branch.
       Inr (txid, branch)))))))"

subsection \<open>The proofs verify\<close>

text \<open>A client that folds the returned branch from the transaction arrives at the Merkle root of the block.\<close>

lemma create_branch_correct:
  assumes "create_merkle_branch_and_root T hashes i = Inr (branch, mroot)" "i < length hashes"
  shows "mroot = merkle_root T hashes" "fold_branch T (hashes ! i) i branch = merkle_root T hashes"
    "length hashes \<le> 2 ^ length branch"
  using merkle_loop_correct [OF assms(2), of T "[]"] assms(1)
  by (auto simp: create_merkle_branch_and_root_def)

lemma create_branch_returns:
  "i < length hashes \<Longrightarrow> \<exists>branch. create_merkle_branch_and_root T hashes i = Inr (branch, merkle_root T hashes)"
  using merkle_loop_correct [of i hashes T "[]"] by (auto simp: create_merkle_branch_and_root_def)

lemma get_tx_merkle_proof_verifies:
  assumes "get_tx_merkle_proof Q st txid block = Inr (branch, pos)"
  obtains txids where "get_block_txids Q st block = Inr (Some txids)" "pos < length txids" "txids ! pos = txid"
    "fold_branch (tap (cq_ext Q)) txid pos branch = merkle_root (tap (cq_ext Q)) txids"
proof -
  from assms obtain txids mroot where t: "get_block_txids Q st block = Inr (Some txids)"
    and p: "position txid txids = Some pos"
    and b: "create_merkle_branch_and_root (tap (cq_ext Q)) txids pos = Inr (branch, mroot)"
    by (auto simp: get_tx_merkle_proof_def)
  from position_Some [OF p] have i: "pos < length txids" "txids ! pos = txid" by simp_all
  with create_branch_correct(2) [OF b i(1)] that [OF t] show ?thesis by simp
qed

lemma hashes_by_height_spec:
  "hashes_by_height st hs = Inr (Some xs) \<longleftrightarrow> list_all2 (\<lambda>h x. hash_by_height st h = Inr (Some x)) hs xs"
  by (induction hs arbitrary: xs) (auto simp: opt_then_eq_Some list_all2_Cons1)

lemma get_header_merkle_proof_verifies:
  assumes "get_header_merkle_proof Q st height cp_height = Inr (branch, mroot)"
  obtains hashes where "length hashes = cp_height + 1" "height \<le> cp_height" "cp_height \<le> best_height st"
    "\<And>h. h \<le> cp_height \<Longrightarrow> hash_by_height st h = Inr (Some (hashes ! h))"
    "mroot = merkle_root (tap (cq_ext Q)) hashes"
    "fold_branch (tap (cq_ext Q)) (hashes ! height) height branch = mroot"
proof -
  from assms obtain hashes where le: "height \<le> cp_height" "cp_height \<le> best_height st"
    and hs: "hashes_by_height st [0..<cp_height + 1] = Inr (Some hashes)"
    and b: "create_merkle_branch_and_root (tap (cq_ext Q)) hashes height = Inr (branch, mroot)"
    by (auto simp: get_header_merkle_proof_def Let_def simp del: upt_Suc split: if_splits)
  from hs have l: "list_all2 (\<lambda>h x. hash_by_height st h = Inr (Some x)) [0..<cp_height + 1] hashes"
    by (simp only: hashes_by_height_spec)
  then have len: "length hashes = cp_height + 1" by (auto dest: list_all2_lengthD)
  have at: "hash_by_height st h = Inr (Some (hashes ! h))" if "h \<le> cp_height" for h
    using list_all2_nthD [OF l, of h] that by (simp del: upt_Suc)
  have "height < length hashes" using le len by simp
  from create_branch_correct [OF b this] that [OF len le at] show ?thesis by simp
qed

end
