(* ===== verification/Config.thy ===== *)
theory Config
  imports Protocol
begin

text \<open>
  The configuration (\<^verbatim>\<open>src/src/config.rs\<close>): the declared command-line arguments, the reading of the parsed
  ones with their defaults, and the authentication cookie. Parsing the command line belongs to clap, whose
  matches are a parameter, as are name resolution, the home directory and the file system.
\<close>

section \<open>Environment\<close>

datatype ip_addr = V4 u32 | V6 "128 word"

type_synonym socket_addr = "ip_addr \<times> u16"

record host =
  hs_to_socket_addrs :: "string \<Rightarrow> socket_addr list option"
  hs_home_dir :: "string option"
  hs_read :: "string \<Rightarrow> bytes option"

text \<open>\<^verbatim>\<open>Path::join\<close>: an absolute path replaces the base.\<close>

definition path_join :: "string \<Rightarrow> string \<Rightarrow> string" where
  "path_join base path =
     (if take 1 path = ''/'' then path
      else if base = [] \<or> last base = CHR ''/'' then base @ path
      else base @ ''/'' @ path)"

definition str_to_socketaddr :: "host \<Rightarrow> string \<Rightarrow> string \<Rightarrow> socket_addr res" where
  "str_to_socketaddr H address what =
     and_then (expect (''unable to resolve '' @ what @ '' address'') (hs_to_socket_addrs H address)) (\<lambda>addrs.
       expect ''unwrap'' (if addrs = [] then None else Some (last addrs)))"

section \<open>Arguments\<close>

text \<open>How an argument is read: a string, a \<^verbatim>\<open>usize\<close> with a default, a flag, or counted.\<close>

datatype arg_kind = ArgString | ArgUsize nat | ArgFlag | ArgCount

definition arg_specs :: "(string \<times> string \<times> arg_kind) list" where
  "arg_specs =
     [(''verbosity'', ''v'', ArgCount),
      (''timestamp'', ''timestamp'', ArgFlag),
      (''db_dir'', ''db-dir'', ArgString),
      (''daemon_dir'', ''daemon-dir'', ArgString),
      (''blocks_dir'', ''blocks-dir'', ArgString),
      (''cookie'', ''cookie'', ArgString),
      (''network'', ''network'', ArgString),
      (''electrum_rpc_addr'', ''electrum-rpc-addr'', ArgString),
      (''network_id'', ''network-id'', ArgString),
      (''http_addr'', ''http-addr'', ArgString),
      (''daemon_rpc_addr'', ''daemon-rpc-addr'', ArgString),
      (''monitoring_addr'', ''monitoring-addr'', ArgString),
      (''jsonrpc_import'', ''jsonrpc-import'', ArgFlag),
      (''light_mode'', ''lightmode'', ArgFlag),
      (''address_search'', ''address-search'', ArgFlag),
      (''index_unspendables'', ''index-unspendables'', ArgFlag),
      (''cors'', ''cors'', ArgString),
      (''precache_scripts'', ''precache-scripts'', ArgString),
      (''utxos_limit'', ''utxos-limit'', ArgUsize 500),
      (''electrum_txs_limit'', ''electrum-txs-limit'', ArgUsize 500),
      (''electrum_banner'', ''electrum-banner'', ArgString),
      (''enable_open_assets'', ''enable-open-assets'', ArgFlag),
      (''http_socket_file'', ''http-socket-file'', ArgString)]"

text \<open>
  The matches of a command line that clap has accepted. Reading an argument that was not declared, or not with
  that type, panics.
\<close>

record arg_matches =
  am_string :: "string \<Rightarrow> string option"
  am_usize :: "string \<Rightarrow> nat option"
  am_flag :: "string \<Rightarrow> bool"
  am_count :: "string \<Rightarrow> nat"

definition arg_kind_of :: "string \<Rightarrow> arg_kind option" where
  "arg_kind_of name = map_option snd (map_of arg_specs name)"

definition get_one_string :: "arg_matches \<Rightarrow> string \<Rightarrow> string option res" where
  "get_one_string m name =
     (if arg_kind_of name = Some ArgString then Inr (am_string m name)
      else panic ''mismatch between definition and access'')"

definition get_one_usize :: "arg_matches \<Rightarrow> string \<Rightarrow> nat option res" where
  "get_one_usize m name =
     (case arg_kind_of name of
        Some (ArgUsize d) \<Rightarrow> Inr (Some (case am_usize m name of Some n \<Rightarrow> n | None \<Rightarrow> d))
      | _ \<Rightarrow> panic ''mismatch between definition and access'')"

definition get_flag :: "arg_matches \<Rightarrow> string \<Rightarrow> bool res" where
  "get_flag m name =
     (if arg_kind_of name = Some ArgFlag then Inr (am_flag m name)
      else panic ''mismatch between definition and access'')"

definition unwrap_or :: "'a option \<Rightarrow> 'a \<Rightarrow> 'a" where
  "unwrap_or x d = (case x of Some y \<Rightarrow> y | None \<Rightarrow> d)"

section \<open>The configuration\<close>

record config =
  cf_network :: network
  cf_db_path :: string
  cf_daemon_dir :: string
  cf_blocks_dir :: string
  cf_daemon_rpc_addr :: socket_addr
  cf_cookie :: "string option"
  cf_electrum_rpc_addr :: socket_addr
  cf_http_addr :: socket_addr
  cf_http_socket_file :: "string option"
  cf_monitoring_addr :: socket_addr
  cf_jsonrpc_import :: bool
  cf_light_mode :: bool
  cf_address_search :: bool
  cf_index_unspendables :: bool
  cf_cors :: "string option"
  cf_precache_scripts :: "string option"
  cf_utxos_limit :: nat
  cf_electrum_txs_limit :: nat
  cf_electrum_banner :: string
  cf_enable_open_assets :: bool

definition ELECTRS_VERSION :: string where
  "ELECTRS_VERSION = ''0.5.7''"

fun default_daemon_port :: "network_type \<Rightarrow> nat" where
  "default_daemon_port Prod = 2377"
| "default_daemon_port Dev = 12381"

fun default_electrum_port :: "network_type \<Rightarrow> nat" where
  "default_electrum_port Prod = 50001"
| "default_electrum_port Dev = 60001"

fun default_http_port :: "network_type \<Rightarrow> nat" where
  "default_http_port Prod = 3000"
| "default_http_port Dev = 3001"

fun default_monitoring_port :: "network_type \<Rightarrow> nat" where
  "default_monitoring_port Prod = 4224"
| "default_monitoring_port Dev = 14224"

definition socketaddr_arg :: "host \<Rightarrow> arg_matches \<Rightarrow> string \<Rightarrow> nat \<Rightarrow> string \<Rightarrow> socket_addr res" where
  "socketaddr_arg H m name port what =
     and_then (get_one_string m name) (\<lambda>s. str_to_socketaddr H (unwrap_or s (''127.0.0.1:'' @ dec_nat port)) what)"

definition daemon_dir_arg :: "host \<Rightarrow> arg_matches \<Rightarrow> string \<Rightarrow> nat \<Rightarrow> string res" where
  "daemon_dir_arg H m network_name net_id =
     and_then (get_one_string m ''daemon_dir'') (\<lambda>dir.
       case dir of
         Some d \<Rightarrow> Inr d
       | None \<Rightarrow>
           and_then (expect ''no homedir'' (hs_home_dir H)) (\<lambda>default_dir.
             Inr (path_join (path_join default_dir ''.tapyrus'') (network_name @ ''-'' @ dec_nat net_id))))"

definition from_args :: "host \<Rightarrow> arg_matches \<Rightarrow> config res" where
  "from_args H m =
     and_then (get_one_string m ''network'') (\<lambda>nw. let network_name = unwrap_or nw ''prod'' in
     and_then (get_one_string m ''network_id'') (\<lambda>nid.
     and_then (expect ''failed to get network id'' (parse_uint 32 (unwrap_or nid ''1''))) (\<lambda>net_id.
     and_then (network_new network_name (of_nat net_id)) (\<lambda>network.
     and_then (get_one_string m ''db_dir'') (\<lambda>db_dir.
     let db_path = path_join (unwrap_or db_dir ''./db'') network_name; ty = network_type network in
     and_then (socketaddr_arg H m ''daemon_rpc_addr'' (default_daemon_port ty) ''Tapyrus RPC'') (\<lambda>daemon_rpc_addr.
     and_then (socketaddr_arg H m ''electrum_rpc_addr'' (default_electrum_port ty) ''Electrum RPC'') (\<lambda>electrum_rpc_addr.
     and_then (socketaddr_arg H m ''http_addr'' (default_http_port ty) ''HTTP Server'') (\<lambda>http_addr.
     and_then (get_one_string m ''http_socket_file'') (\<lambda>http_socket_file.
     and_then (socketaddr_arg H m ''monitoring_addr'' (default_monitoring_port ty) ''Prometheus monitoring'') (\<lambda>monitoring_addr.
     and_then (daemon_dir_arg H m network_name net_id) (\<lambda>daemon_dir.
     and_then (get_one_string m ''blocks_dir'') (\<lambda>blocks_dir.
     and_then (get_one_string m ''cookie'') (\<lambda>cookie.
     and_then (get_one_string m ''electrum_banner'') (\<lambda>electrum_banner.
     and_then (get_one_usize m ''utxos_limit'') (\<lambda>utxos_limit.
     and_then (expect ''unwrap'' utxos_limit) (\<lambda>utxos_limit.
     and_then (get_one_usize m ''electrum_txs_limit'') (\<lambda>electrum_txs_limit.
     and_then (expect ''unwrap'' electrum_txs_limit) (\<lambda>electrum_txs_limit.
     and_then (get_flag m ''jsonrpc_import'') (\<lambda>jsonrpc_import.
     and_then (get_flag m ''light_mode'') (\<lambda>light_mode.
     and_then (get_flag m ''address_search'') (\<lambda>address_search.
     and_then (get_flag m ''index_unspendables'') (\<lambda>index_unspendables.
     and_then (get_one_string m ''cors'') (\<lambda>cors.
     and_then (get_one_string m ''precache_scripts'') (\<lambda>precache_scripts.
     and_then (get_flag m ''enable_open_assets'') (\<lambda>enable_open_assets.
       Inr \<lparr>cf_network = network, cf_db_path = db_path, cf_daemon_dir = daemon_dir,
         cf_blocks_dir = unwrap_or blocks_dir (path_join daemon_dir ''blocks''),
         cf_daemon_rpc_addr = daemon_rpc_addr, cf_cookie = cookie, cf_electrum_rpc_addr = electrum_rpc_addr,
         cf_http_addr = http_addr, cf_http_socket_file = http_socket_file, cf_monitoring_addr = monitoring_addr,
         cf_jsonrpc_import = jsonrpc_import, cf_light_mode = light_mode, cf_address_search = address_search,
         cf_index_unspendables = index_unspendables, cf_cors = cors, cf_precache_scripts = precache_scripts,
         cf_utxos_limit = utxos_limit, cf_electrum_txs_limit = electrum_txs_limit,
         cf_electrum_banner = unwrap_or electrum_banner (''Welcome to electrs-esplora '' @ ELECTRS_VERSION),
         cf_enable_open_assets = enable_open_assets\<rparr>)))))))))))))))))))))))))"

text \<open>The parts of the configuration that the indexer and the queries read.\<close>

definition config_query :: "config \<Rightarrow> query_config" where
  "config_query c = \<lparr>qc_utxos_limit = cf_utxos_limit c, qc_network = cf_network c,
     qc_index_unspendables = cf_index_unspendables c\<rparr>"

definition config_indexer :: "config \<Rightarrow> indexer_config" where
  "config_indexer c = \<lparr>ic_light_mode = cf_light_mode c, ic_address_search = cf_address_search c,
     ic_index_unspendables = cf_index_unspendables c, ic_network = cf_network c\<rparr>"

section \<open>Cookies\<close>

datatype cookie_getter = StaticCookie bytes | CookieFile string

definition config_cookie_getter :: "config \<Rightarrow> cookie_getter" where
  "config_cookie_getter c =
     (case cf_cookie c of
        Some v \<Rightarrow> StaticCookie (map byte v)
      | None \<Rightarrow> CookieFile (cf_daemon_dir c))"

fun cookie_get :: "host \<Rightarrow> cookie_getter \<Rightarrow> bytes res" where
  "cookie_get H (StaticCookie v) = Inr v"
| "cookie_get H (CookieFile daemon_dir) =
     (let path = path_join daemon_dir ''.cookie'' in
      case hs_read H path of
        None \<Rightarrow> Inl (Connection (''failed to read cookie from '' @ path))
      | Some contents \<Rightarrow> Inr contents)"

section \<open>Reading the arguments never mismatches their declarations\<close>

lemmas arg_access_defs = get_one_string_def get_one_usize_def get_flag_def arg_kind_of_def arg_specs_def

lemma get_one_string_declared [simp]:
  "get_one_string m ''network'' = Inr (am_string m ''network'')"
  "get_one_string m ''network_id'' = Inr (am_string m ''network_id'')"
  "get_one_string m ''db_dir'' = Inr (am_string m ''db_dir'')"
  "get_one_string m ''daemon_rpc_addr'' = Inr (am_string m ''daemon_rpc_addr'')"
  "get_one_string m ''electrum_rpc_addr'' = Inr (am_string m ''electrum_rpc_addr'')"
  "get_one_string m ''http_addr'' = Inr (am_string m ''http_addr'')"
  "get_one_string m ''http_socket_file'' = Inr (am_string m ''http_socket_file'')"
  "get_one_string m ''monitoring_addr'' = Inr (am_string m ''monitoring_addr'')"
  "get_one_string m ''daemon_dir'' = Inr (am_string m ''daemon_dir'')"
  "get_one_string m ''blocks_dir'' = Inr (am_string m ''blocks_dir'')"
  "get_one_string m ''cookie'' = Inr (am_string m ''cookie'')"
  "get_one_string m ''electrum_banner'' = Inr (am_string m ''electrum_banner'')"
  "get_one_string m ''cors'' = Inr (am_string m ''cors'')"
  "get_one_string m ''precache_scripts'' = Inr (am_string m ''precache_scripts'')"
  by (simp_all add: arg_access_defs)

lemma get_flag_declared [simp]:
  "get_flag m ''jsonrpc_import'' = Inr (am_flag m ''jsonrpc_import'')"
  "get_flag m ''light_mode'' = Inr (am_flag m ''light_mode'')"
  "get_flag m ''address_search'' = Inr (am_flag m ''address_search'')"
  "get_flag m ''index_unspendables'' = Inr (am_flag m ''index_unspendables'')"
  "get_flag m ''enable_open_assets'' = Inr (am_flag m ''enable_open_assets'')"
  by (simp_all add: arg_access_defs)

lemma get_one_usize_declared [simp]:
  "get_one_usize m ''utxos_limit'' = Inr (Some (unwrap_or (am_usize m ''utxos_limit'') 500))"
  "get_one_usize m ''electrum_txs_limit'' = Inr (Some (unwrap_or (am_usize m ''electrum_txs_limit'') 500))"
  by (simp_all add: arg_access_defs unwrap_or_def)

text \<open>
  With a supported network, a numeric network id, resolvable addresses and a home directory, the configuration
  is read; only one of those can make it panic.
\<close>

lemma from_args_returns:
  assumes "unwrap_or (am_string m ''network'') ''prod'' \<in> set network_type_names"
    and "parse_uint 32 (unwrap_or (am_string m ''network_id'') ''1'') \<noteq> None"
    and "\<And>a. \<exists>addr addrs. hs_to_socket_addrs H a = Some (addr # addrs)"
    and "hs_home_dir H \<noteq> None"
  shows "\<exists>c. from_args H m = Inr c \<and>
    cf_utxos_limit c = unwrap_or (am_usize m ''utxos_limit'') 500 \<and>
    cf_electrum_txs_limit c = unwrap_or (am_usize m ''electrum_txs_limit'') 500"
proof -
  let ?n = "unwrap_or (am_string m ''network'') ''prod''"
  obtain i where i: "parse_uint 32 (unwrap_or (am_string m ''network_id'') ''1'') = Some i" using assms(2) by auto
  have "\<exists>t. network_type_new ?n = Inr t" using assms(1) network_type_new_iff by blast
  then obtain nw where nw: "network_new ?n (of_nat i) = Inr nw" by (auto simp: network_new_def)
  have addr: "\<exists>x. str_to_socketaddr H a w = Inr x" for a w
  proof -
    obtain addr addrs where "hs_to_socket_addrs H a = Some (addr # addrs)" using assms(3) by blast
    then have "str_to_socketaddr H a w = Inr (last (addr # addrs))" by (simp add: str_to_socketaddr_def)
    then show ?thesis by blast
  qed
  have dir: "\<exists>d. daemon_dir_arg H m ?n i = Inr d"
    using assms(4) by (auto simp: daemon_dir_arg_def split: option.splits)
  obtain a1 where a1: "socketaddr_arg H m ''daemon_rpc_addr'' (default_daemon_port (network_type nw)) ''Tapyrus RPC'' = Inr a1"
    using addr unfolding socketaddr_arg_def by fastforce
  obtain a2 where a2: "socketaddr_arg H m ''electrum_rpc_addr'' (default_electrum_port (network_type nw)) ''Electrum RPC'' = Inr a2"
    using addr unfolding socketaddr_arg_def by fastforce
  obtain a3 where a3: "socketaddr_arg H m ''http_addr'' (default_http_port (network_type nw)) ''HTTP Server'' = Inr a3"
    using addr unfolding socketaddr_arg_def by fastforce
  obtain a4 where a4: "socketaddr_arg H m ''monitoring_addr'' (default_monitoring_port (network_type nw)) ''Prometheus monitoring'' = Inr a4"
    using addr unfolding socketaddr_arg_def by fastforce
  obtain d where d: "daemon_dir_arg H m ?n i = Inr d" using dir by blast
  show ?thesis unfolding from_args_def Let_def by (simp add: i nw a1 a2 a3 a4 d expect_def del: and_then_eq_Inr)
qed

end
