(* ===== verification/Web.thy ===== *)
theory Web
  imports Config
begin

text \<open>
  What the two servers share: the interface to the libraries they use beyond those of theory \<open>Json\<close>, the
  checking of UTF-8 text, numbers in JSON values, and the derived serialisations of the data they return. A
  serialised value is a value of type \<open>json\<close>; its text form belongs to serde\_json.
\<close>

section \<open>Libraries\<close>

text \<open>
  Which colour identifiers are colours and which is the default; their text form (also as keys of JSON objects), their reading from hexadecimal text and
  from consensus-encoded bytes; asset ids and their metadata; addresses with their network and script; the decoding of a query
  string; scripts, extra fields and block proofs as text.
\<close>

record web =
  wb_is_colored :: "color \<Rightarrow> bool"
  wb_is_default :: "color \<Rightarrow> bool"
  wb_color_to_string :: "color \<Rightarrow> string"
  wb_color_from_hex :: "string \<Rightarrow> color option"
  wb_deserialize_color :: "bytes \<Rightarrow> color option"
  wb_asset_id_to_string :: "asset_id \<Rightarrow> string"
  wb_metadata_json :: "bytes \<Rightarrow> json"
  wb_asset_id_from_str :: "string \<Rightarrow> asset_id option"
  wb_address_from_str :: "string \<Rightarrow> (bnetwork \<times> script) option"
  wb_form_parse :: "string \<Rightarrow> (string \<times> string) list"
  wb_script_hex :: "script \<Rightarrow> string"
  wb_xfield_to_string :: "xfield \<Rightarrow> string"
  wb_xfield_type :: "xfield \<Rightarrow> u8"
  wb_proof_hex :: "bytes \<Rightarrow> string"

section \<open>UTF-8\<close>

text \<open>
  \<^verbatim>\<open>String::from_utf8\<close>. A string is the list of its bytes as characters; it must be a sequence of well-formed
  code points (no overlong forms, no surrogates, nothing above U+10FFFF).
\<close>

definition utf8_cont :: "u8 \<Rightarrow> bool" where
  "utf8_cont b \<longleftrightarrow> 0x80 \<le> b \<and> b \<le> 0xBF"

function utf8_valid :: "bytes \<Rightarrow> bool" where
  "utf8_valid bs =
     (case bs of
        [] \<Rightarrow> True
      | b # r \<Rightarrow>
          if b < 0x80 then utf8_valid r
          else if 0xC2 \<le> b \<and> b \<le> 0xDF then
            (case r of c # r' \<Rightarrow> utf8_cont c \<and> utf8_valid r' | _ \<Rightarrow> False)
          else if 0xE0 \<le> b \<and> b \<le> 0xEF then
            (case r of c # d # r' \<Rightarrow>
               utf8_cont c \<and> utf8_cont d \<and> (b = 0xE0 \<longrightarrow> 0xA0 \<le> c) \<and> (b = 0xED \<longrightarrow> c \<le> 0x9F) \<and> utf8_valid r'
             | _ \<Rightarrow> False)
          else if 0xF0 \<le> b \<and> b \<le> 0xF4 then
            (case r of c # d # e # r' \<Rightarrow>
               utf8_cont c \<and> utf8_cont d \<and> utf8_cont e \<and> (b = 0xF0 \<longrightarrow> 0x90 \<le> c) \<and> (b = 0xF4 \<longrightarrow> c \<le> 0x8F) \<and>
               utf8_valid r'
             | _ \<Rightarrow> False)
          else False)"
  by pat_completeness auto
termination utf8_valid
  by (relation "measure length") simp_all

declare utf8_valid.simps [simp del]

definition from_utf8 :: "bytes \<Rightarrow> string option" where
  "from_utf8 bs = (if utf8_valid bs then Some (map (\<lambda>b. char_of (unat b)) bs) else None)"

lemma byte_char_of [simp]: "byte (char_of (unat b)) = b"
proof -
  have "byte (char_of (unat b)) = of_nat (of_char (char_of (unat b)))" by (simp only: byte_def of_nat_of_char)
  also have "\<dots> = of_nat (unat b mod 256)" by (simp only: of_char_of)
  also have "unat b mod 256 = unat b" using unat_less_pow [of b] by simp
  finally show ?thesis by simp
qed

lemma from_utf8_bytes: "from_utf8 bs = Some s \<Longrightarrow> string_bytes s = bs"
  by (auto simp: from_utf8_def string_bytes_def o_def split: if_splits intro!: map_idI)

lemma utf8_valid_ascii: "\<forall>b \<in> set bs. b < 0x80 \<Longrightarrow> utf8_valid bs"
  by (induction bs) (subst utf8_valid.simps; simp)+

section \<open>Numbers\<close>

definition f64_div :: "rat \<Rightarrow> rat \<Rightarrow> rat" where
  "f64_div a b = f64_round (a / b)"

definition j_f64 :: "rat \<Rightarrow> json" where
  "j_f64 q = JNum (Float q)"

text \<open>A float that is not finite is serialised as null.\<close>

fun j_f32 :: "f32 \<Rightarrow> json" where
  "j_f32 (Fin q) = JNum (Float q)"
| "j_f32 _ = JNull"

definition j_int :: "int \<Rightarrow> json" where
  "j_int i = JNum (if 0 \<le> i then PosInt (word_of_int i) else NegInt i)"

definition j_i64 :: "u64 \<Rightarrow> json" where
  "j_i64 w = j_int (sint w)"

definition j_i32 :: "u32 \<Rightarrow> json" where
  "j_i32 w = j_int (sint w)"

definition j_u32 :: "u32 \<Rightarrow> json" where
  "j_u32 w = j_nat (unat w)"

definition dec_int :: "int \<Rightarrow> string" where
  "dec_int i = (if i < 0 then ''-'' @ dec_nat (nat (- i)) else dec_nat (nat i))"

text \<open>\<^verbatim>\<open>Display\<close> of an error.\<close>

fun error_display :: "error \<Rightarrow> string" where
  "error_display (Msg m) = m"
| "error_display (Connection m) = ''Connection error: '' @ m"
| "error_display (Interrupt sig) = ''Iterrupted by signal '' @ dec_int sig"
| "error_display TooPopular = ''Too many history entries''"
| "error_display (Panic m) = m"

section \<open>Derived serialisations\<close>

text \<open>An optional field is null, or absent with \<^verbatim>\<open>skip_serializing_if\<close>.\<close>

definition j_opt :: "('a \<Rightarrow> json) \<Rightarrow> 'a option \<Rightarrow> json" where
  "j_opt f x = (case x of Some y \<Rightarrow> f y | None \<Rightarrow> JNull)"

definition j_skip :: "string \<Rightarrow> ('a \<Rightarrow> json) \<Rightarrow> 'a option \<Rightarrow> (string \<times> json) list" where
  "j_skip k f x = (case x of Some y \<Rightarrow> [(k, f y)] | None \<Rightarrow> [])"

definition j_color :: "web \<Rightarrow> color \<Rightarrow> json" where
  "j_color W c = JStr (wb_color_to_string W c)"

definition j_transaction_status :: "lib \<Rightarrow> transaction_status \<Rightarrow> json" where
  "j_transaction_status L s =
     JObj ((''confirmed'', JBool (ts_confirmed s)) #
       j_skip ''block_height'' j_nat (ts_block_height s) @ j_skip ''block_hash'' (j_hash L) (ts_block_hash s) @
       j_skip ''block_time'' j_u32 (ts_block_time s))"

definition j_block_status :: "lib \<Rightarrow> block_status \<Rightarrow> json" where
  "j_block_status L s =
     JObj [(''in_best_chain'', JBool (bs_in_best_chain s)), (''height'', j_opt j_nat (bs_height s)),
       (''next_best'', j_opt (j_hash L) (bs_next_best s))]"

definition j_script_stats :: "script_stats \<Rightarrow> json" where
  "j_script_stats s =
     JObj [(''tx_count'', j_nat (ss_tx_count s)), (''funded_txo_count'', j_nat (ss_funded_txo_count s)),
       (''spent_txo_count'', j_nat (ss_spent_txo_count s)), (''funded_txo_sum'', j_u64 (ss_funded_txo_sum s)),
       (''spent_txo_sum'', j_u64 (ss_spent_txo_sum s))]"

definition j_stats_map :: "web \<Rightarrow> stats_map \<Rightarrow> json" where
  "j_stats_map W m = JObj (map (\<lambda>(c, s). (wb_color_to_string W c, j_script_stats s)) m)"

definition j_backlog_stats :: "backlog_stats \<Rightarrow> json" where
  "j_backlog_stats s =
     JObj [(''count'', j_u32 (bls_count s)), (''vsize'', j_u32 (bls_vsize s)), (''total_fee'', j_u64 (bls_total_fee s)),
       (''fee_histogram'', JArr (map (\<lambda>(rate, vsize). JArr [j_f32 rate, j_u32 vsize]) (bls_fee_histogram s)))]"

definition j_tx_overview :: "lib \<Rightarrow> tx_overview \<Rightarrow> json" where
  "j_tx_overview L t =
     JObj [(''txid'', j_hash L (tov_txid t)), (''fee'', j_u64 (tov_fee t)), (''vsize'', j_u32 (tov_vsize t)),
       (''time'', j_u32 (tov_time t)), (''value'', j_u64 (tov_value t))]"

section \<open>Open assets\<close>

text \<open>
  The written-out \<^verbatim>\<open>Serialize\<close> of an asset, and the visitor that reads one: the keys it accepts are the variants
  of \<^verbatim>\<open>OpenAssetField\<close>, under their own names.
\<close>

definition serialize_open_asset :: "web \<Rightarrow> open_asset \<Rightarrow> json" where
  "serialize_open_asset W a =
     JObj [(''asset_id'', JStr (wb_asset_id_to_string W (oa_asset_id a))), (''asset_quantity'', j_u64 (oa_asset_quantity a)),
       (''metadata'', wb_metadata_json W (oa_metadata a))]"

datatype open_asset_field = AssetId | AssetQuantity | MetadataField

definition open_asset_field_of :: "string \<Rightarrow> open_asset_field option" where
  "open_asset_field_of k =
     map_of [(''AssetId'', AssetId), (''AssetQuantity'', AssetQuantity), (''Metadata'', MetadataField)] k"

definition js_u8 :: "json \<Rightarrow> u8 option" where
  "js_u8 v = map_option of_nat (js_uint 8 v)"

fun visit_open_asset :: "web \<Rightarrow> (string \<times> json) list \<Rightarrow> asset_id option \<Rightarrow> u64 option \<Rightarrow> bytes option \<Rightarrow> open_asset res" where
  "visit_open_asset W [] a q m =
     and_then (ok_or ''missing field `asset_id`'' a) (\<lambda>asset_id.
     and_then (ok_or ''missing field `asset_quantity`'' q) (\<lambda>asset_quantity.
     and_then (ok_or ''missing field `metadata`'' m) (\<lambda>metadata.
       Inr \<lparr>oa_asset_id = asset_id, oa_asset_quantity = asset_quantity, oa_metadata = metadata\<rparr>)))"
| "visit_open_asset W ((k, v) # kvs) a q m =
     (case open_asset_field_of k of
        None \<Rightarrow> bail ''unknown variant''
      | Some AssetId \<Rightarrow>
          if a \<noteq> None then bail ''duplicate field `asset_id`''
          else and_then (ok_or ''invalid type'' (as_str v)) (\<lambda>s.
            and_then (ok_or ''invalid asset id'' (wb_asset_id_from_str W s)) (\<lambda>x. visit_open_asset W kvs (Some x) q m))
      | Some AssetQuantity \<Rightarrow>
          if q \<noteq> None then bail ''duplicate field `asset_quantity`''
          else and_then (ok_or ''invalid type'' (js_u64 v)) (\<lambda>x. visit_open_asset W kvs a (Some x) m)
      | Some MetadataField \<Rightarrow>
          if m \<noteq> None then bail ''duplicate field `metadata`''
          else and_then (ok_or ''invalid type'' (js_list js_u8 v)) (\<lambda>x. visit_open_asset W kvs a q (Some x)))"

definition deserialize_open_asset :: "web \<Rightarrow> json \<Rightarrow> open_asset res" where
  "deserialize_open_asset W v =
     and_then (ok_or ''invalid type'' (as_object v)) (\<lambda>kvs. visit_open_asset W kvs None None None)"

text \<open>What is written can not be read back: the names of the fields differ.\<close>

lemma open_asset_not_read_back: "deserialize_open_asset W (serialize_open_asset W a) = bail ''unknown variant''"
  by (simp add: deserialize_open_asset_def serialize_open_asset_def open_asset_field_of_def res_simps)

lemma js_list_bytes: "js_list js_u8 (JArr (map (\<lambda>b. j_nat (unat b)) bs)) = Some bs"
proof -
  have "js_u8 (j_nat (unat b)) = Some b" for b :: u8
  proof -
    have "unat b < 256" using unat_less_pow [of b] by simp
    then have "unat (of_nat (unat b) :: u64) = unat b" by (intro unat_of_nat_less) simp
    with \<open>unat b < 256\<close> show ?thesis by (simp add: js_u8_def j_nat_def)
  qed
  then show ?thesis by (simp add: sequence_option_Some o_def)
qed

text \<open>With the variants' names as keys the visitor accepts the fields in any order.\<close>

lemma visit_open_asset_reads:
  assumes "\<And>i. wb_asset_id_from_str W (wb_asset_id_to_string W i) = Some i"
  shows "deserialize_open_asset W (JObj
      [(''Metadata'', JArr (map (\<lambda>b. j_nat (unat b)) (oa_metadata a))), (''AssetQuantity'', j_u64 (oa_asset_quantity a)),
       (''AssetId'', JStr (wb_asset_id_to_string W (oa_asset_id a)))]) = Inr a"
proof -
  have "js_u64 (j_u64 (oa_asset_quantity a)) = Some (oa_asset_quantity a)"
    using unat_less_pow [of "oa_asset_quantity a"] by (simp add: js_u64_def)
  then show ?thesis
    by (simp add: deserialize_open_asset_def open_asset_field_of_def assms js_list_bytes del: js_list.simps)
qed

end
