(* ===== verification/Electrum.thy ===== *)
theory Electrum
  imports Web
begin

text \<open>
  The Electrum RPC server (\<^verbatim>\<open>src/src/electrum/server.rs\<close>): reading parameters, the status of a script, the
  methods, the dispatch of a command to its reply, the notification of subscriptions, and the two loops of a
  connection. Shared state (the query with its caches, the gauges) is part of the session a connection works
  on; what other threads do to it in between is in theory \<open>Electrum_Session\<close>.
\<close>

section \<open>Parameters\<close>

definition PROTOCOL_VERSION :: protocol_version where
  "PROTOCOL_VERSION = ProtocolVersion 1 4"

definition MAX_HEADERS :: nat where
  "MAX_HEADERS = 2016"

definition param :: "json list \<Rightarrow> nat \<Rightarrow> json option" where
  "param params i = (if i < length params then Some (params ! i) else None)"

definition hash_from_value :: "lib \<Rightarrow> json option \<Rightarrow> hash res" where
  "hash_from_value L val =
     and_then (ok_or ''missing hash'' val) (\<lambda>script_hash.
     and_then (ok_or ''non-string hash'' (as_str script_hash)) (\<lambda>script_hash.
       ok_or ''non-hex hash'' (hash_from_hex L script_hash)))"

definition usize_from_value :: "json option \<Rightarrow> string \<Rightarrow> nat res" where
  "usize_from_value val name =
     and_then (ok_or (''missing '' @ name) val) (\<lambda>val.
     and_then (ok_or (''non-integer '' @ name) (as_u64 val)) (\<lambda>n. Inr (unat n)))"

definition usize_from_value_or :: "json option \<Rightarrow> string \<Rightarrow> nat \<Rightarrow> nat res" where
  "usize_from_value_or val name dflt = (if val = None then Inr dflt else usize_from_value val name)"

definition bool_from_value :: "json option \<Rightarrow> string \<Rightarrow> bool res" where
  "bool_from_value val name =
     and_then (ok_or (''missing '' @ name) val) (\<lambda>val. ok_or (''not a bool '' @ name) (as_bool val))"

definition bool_from_value_or :: "json option \<Rightarrow> string \<Rightarrow> bool \<Rightarrow> bool res" where
  "bool_from_value_or val name dflt = (if val = None then Inr dflt else bool_from_value val name)"

text \<open>The slice \<^verbatim>\<open>val[0..33]\<close> of fewer bytes panics.\<close>

definition color_id_from_value :: "lib \<Rightarrow> web \<Rightarrow> json option \<Rightarrow> string \<Rightarrow> color option res" where
  "color_id_from_value L W val name =
     (case val of
        None \<Rightarrow> Inr None
      | Some val \<Rightarrow>
          and_then (ok_or (''not a string '' @ name) (as_str val)) (\<lambda>val.
          and_then (ok_or (''invalie hex format: '' @ name) (hex_decode L val)) (\<lambda>val.
          and_then (if 33 \<le> length val then Inr (take 33 val) else panic ''range end index 33 out of range'') (\<lambda>val.
          and_then (ok_or (''decode failed: '' @ name) (wb_deserialize_color W val)) (\<lambda>color_id.
            Inr (Some color_id))))))"

lemma color_id_from_value_short:
  "hex_decode L h = Some bs \<Longrightarrow> length bs < 33 \<Longrightarrow>
     color_id_from_value L W (Some (JStr h)) name = panic ''range end index 33 out of range''"
  by (simp add: color_id_from_value_def ok_or_def panic_def)

section \<open>Sessions\<close>

text \<open>
  What a command works with: the chain's environment (with the node's answers), the web libraries, the
  configuration, the clock, and whether the stream accepts a line after those already written.
\<close>

record 'd rpc_env =
  re_query :: "'d chain_query"
  re_web :: web
  re_config :: config
  re_now :: nat
  re_write_ok :: "json list \<Rightarrow> json \<Rightarrow> bool"

datatype message = Request string | PeriodicUpdate | Done

text \<open>
  A connection with its channel (of capacity 10) and the values written to the stream; the query and the two
  gauges are shared with the other connections.
\<close>

record 'd session =
  sn_query :: "'d query"
  sn_last_header_entry :: "header_entry option"
  sn_status_hashes :: "(scripthash, json) hashmap"
  sn_chan :: "message list"
  sn_out :: "json list"
  sn_clients :: int
  sn_subscriptions :: int

definition CHANNEL_SIZE :: nat where
  "CHANNEL_SIZE = 10"

definition connection_open :: "'d query \<Rightarrow> int \<Rightarrow> int \<Rightarrow> 'd session" where
  "connection_open q clients subscriptions =
     \<lparr>sn_query = q, sn_last_header_entry = None, sn_status_hashes = [], sn_chan = [], sn_out = [],
      sn_clients = clients, sn_subscriptions = subscriptions\<rparr>"

text \<open>\<^verbatim>\<open>try_send\<close>: a full channel drops the message.\<close>

definition try_send :: "message \<Rightarrow> 'd session \<Rightarrow> 'd session" where
  "try_send m s = (if length (sn_chan s) < CHANNEL_SIZE then s\<lparr>sn_chan := sn_chan s @ [m]\<rparr> else s)"

abbreviation env_lib :: "'d rpc_env \<Rightarrow> lib" where
  "env_lib E \<equiv> cq_lib (re_query E)"

abbreviation env_tap :: "'d rpc_env \<Rightarrow> tapyrus" where
  "env_tap E \<equiv> tap (cq_ext (re_query E))"

abbreviation sn_store :: "'d session \<Rightarrow> 'd store" where
  "sn_store s \<equiv> qy_store (sn_query s)"

text \<open>A query operation on the session's query.\<close>

fun with_query :: "'d session \<Rightarrow> 'd query \<times> 'a res \<Rightarrow> 'd session \<times> 'a res" where
  "with_query s (q, r) = (s\<lparr>sn_query := q\<rparr>, r)"

section \<open>Histories and statuses\<close>

text \<open>One more entry than the limit is asked for; \<^verbatim>\<open>txs_limit + 1\<close> wraps around.\<close>

definition get_history ::
  "'d rpc_env \<Rightarrow> 'd query \<Rightarrow> scripthash \<Rightarrow> (txid \<times> block_id option) list res" where
  "get_history E q scripthash =
     (let txs_limit = cf_electrum_txs_limit (re_config E) in
      and_then (query_history_txids (re_query E) q scripthash ((txs_limit + 1) mod 2 ^ 64)) (\<lambda>history_txids.
        if length history_txids \<le> txs_limit then Inr history_txids else Inl TooPopular))"

definition history_height :: "'d query \<Rightarrow> txid \<times> block_id option \<Rightarrow> int" where
  "history_height q e =
     (case e of (txid, blockid) \<Rightarrow>
        get_electrum_height blockid (blockid = None \<and> query_has_unconfirmed_parents q txid))"

definition status_part :: "lib \<Rightarrow> 'd query \<Rightarrow> txid \<times> block_id option \<Rightarrow> string" where
  "status_part L q e = hash_to_hex L (fst e) @ '':'' @ dec_int (history_height q e) @ '':''"

definition get_status_hash :: "lib \<Rightarrow> tapyrus \<Rightarrow> (txid \<times> block_id option) list \<Rightarrow> 'd query \<Rightarrow> hash option" where
  "get_status_hash L T txs q =
     (if txs = [] then None else Some (sha256 T (string_bytes (concat (map (status_part L q) txs)))))"

definition status_json :: "lib \<Rightarrow> hash option \<Rightarrow> json" where
  "status_json L h = (case h of None \<Rightarrow> JNull | Some h \<Rightarrow> JStr (hex_encode L (hash_bytes h)))"

definition current_status :: "'d rpc_env \<Rightarrow> 'd query \<Rightarrow> scripthash \<Rightarrow> json res" where
  "current_status E q script_hash =
     and_then (get_history E q script_hash) (\<lambda>history_txids.
       Inr (status_json (env_lib E) (get_status_hash (env_lib E) (env_tap E) history_txids q)))"

section \<open>Methods\<close>

definition header_hex :: "'d rpc_env \<Rightarrow> block_header \<Rightarrow> string" where
  "header_hex E h = hex_encode (env_lib E) (serialize_header (env_tap E) h)"

definition header_json :: "'d rpc_env \<Rightarrow> header_entry \<Rightarrow> json" where
  "header_json E entry = JObj [(''hex'', JStr (header_hex E (he_header entry))), (''height'', j_nat (he_height entry))]"

definition blockchain_headers_subscribe :: "'d rpc_env \<Rightarrow> 'd session \<Rightarrow> 'd session \<times> json res" where
  "blockchain_headers_subscribe E s =
     (case best_header (sn_store s) of
        Inl e \<Rightarrow> (s, Inl e)
      | Inr entry \<Rightarrow> (s\<lparr>sn_last_header_entry := Some entry\<rparr>, Inr (header_json E entry)))"

definition server_version :: json where
  "server_version = JArr [JStr (''electrs-esplora '' @ ELECTRS_VERSION), serialize_protocol_version PROTOCOL_VERSION]"

definition server_banner :: "'d rpc_env \<Rightarrow> json" where
  "server_banner E = JStr (cf_electrum_banner (re_config E))"

definition server_donation_address :: json where
  "server_donation_address = JNull"

definition server_peers_subscribe :: json where
  "server_peers_subscribe = JArr []"

definition mempool_get_fee_histogram :: "'d query \<Rightarrow> json" where
  "mempool_get_fee_histogram q =
     JArr (map (\<lambda>(rate, vsize). JArr [j_f32 rate, j_u32 vsize]) (bls_fee_histogram (mp_backlog (qy_mempool q))))"

definition j_hashes :: "lib \<Rightarrow> hash list \<Rightarrow> json" where
  "j_hashes L hs = JArr (map (j_hash L) hs)"

definition blockchain_block_header :: "'d rpc_env \<Rightarrow> 'd query \<Rightarrow> json list \<Rightarrow> json res" where
  "blockchain_block_header E q params =
     and_then (usize_from_value (param params 0) ''height'') (\<lambda>height.
     and_then (usize_from_value_or (param params 1) ''cp_height'' 0) (\<lambda>cp_height.
     and_then (cq_header_by_height (qy_store q) height) (\<lambda>entry.
     and_then (ok_or ''missing header'' entry) (\<lambda>entry.
       let raw_header_hex = JStr (header_hex E (he_header entry)) in
       if cp_height = 0 then Inr raw_header_hex
       else and_then (get_header_merkle_proof (re_query E) (qy_store q) height cp_height) (\<lambda>(branch, r).
         Inr (JObj [(''header'', raw_header_hex), (''root'', j_hash (env_lib E) r), (''branch'', j_hashes (env_lib E) branch)]))))))"

text \<open>\<^verbatim>\<open>filter_map\<close> of the headers at the given heights, joined.\<close>

fun headers_at :: "'d store \<Rightarrow> nat list \<Rightarrow> header_entry list res" where
  "headers_at st [] = Inr []"
| "headers_at st (h # hs) =
     and_then (cq_header_by_height st h) (\<lambda>e.
     and_then (headers_at st hs) (\<lambda>es. Inr (case e of Some entry \<Rightarrow> entry # es | None \<Rightarrow> es)))"

definition blockchain_block_headers :: "'d rpc_env \<Rightarrow> 'd query \<Rightarrow> json list \<Rightarrow> json res" where
  "blockchain_block_headers E q params =
     and_then (usize_from_value (param params 0) ''start_height'') (\<lambda>start_height.
     and_then (usize_from_value (param params 1) ''count'') (\<lambda>count.
     let count = min MAX_HEADERS count in
     and_then (usize_from_value_or (param params 2) ''cp_height'' 0) (\<lambda>cp_height.
     and_then (headers_at (qy_store q) [start_height ..< (start_height + count) mod 2 ^ 64]) (\<lambda>headers.
       let reply =
         [(''count'', j_nat (length headers)),
          (''hex'', JStr (concat (map (\<lambda>e. header_hex E (he_header e)) headers))), (''max'', j_nat MAX_HEADERS)] in
       if count = 0 \<or> cp_height = 0 then Inr (JObj reply)
       else and_then (get_header_merkle_proof (re_query E) (qy_store q) ((start_height + (count - 1)) mod 2 ^ 64) cp_height)
         (\<lambda>(branch, r).
           Inr (JObj (reply @ [(''root'', j_hash (env_lib E) r), (''branch'', j_hashes (env_lib E) branch)])))))))"

definition blockchain_estimatefee :: "'d rpc_env \<Rightarrow> json list \<Rightarrow> 'd session \<Rightarrow> 'd session \<times> json res" where
  "blockchain_estimatefee E params s =
     st_then (s, usize_from_value (param params 0) ''blocks_count'') (\<lambda>conf_target s.
     st_then (with_query s (query_estimate_fee (re_query E) (config_query (re_config E)) (re_now E) (of_nat conf_target) (sn_query s)))
       (\<lambda>fee_rate s.
     st_then (s, ok_or (''cannot estimate fee for '' @ dec_nat conf_target @ '' blocks'') fee_rate) (\<lambda>fee_rate s.
       (s, Inr (j_f64 (f64_div fee_rate 100000))))))"

definition blockchain_relayfee :: "'d rpc_env \<Rightarrow> 'd session \<Rightarrow> 'd session \<times> json res" where
  "blockchain_relayfee E s =
     st_then (with_query s (query_get_relayfee (re_query E) (sn_query s))) (\<lambda>relayfee s.
       (s, Inr (j_f64 (f64_div relayfee 100000))))"

definition utxo_fields :: "lib \<Rightarrow> utxo \<Rightarrow> (string \<times> json) list" where
  "utxo_fields L u =
     [(''height'', case ut_confirmed u of Some b \<Rightarrow> j_nat (bid_height b) | None \<Rightarrow> j_nat 0),
      (''tx_pos'', j_u32 (ut_vout u)), (''tx_hash'', j_hash L (ut_txid u))]"

definition utxo_to_json :: "'d rpc_env \<Rightarrow> utxo \<Rightarrow> open_asset option \<Rightarrow> json" where
  "utxo_to_json E u asset =
     (case asset of
        Some asset \<Rightarrow>
          JObj (utxo_fields (env_lib E) u @ [(''value'', j_u64 (ut_value u)),
            (''asset'', JObj [(''asset_id'', JStr (wb_asset_id_to_string (re_web E) (oa_asset_id asset))),
              (''asset_quantity'', j_u64 (oa_asset_quantity asset))])])
      | None \<Rightarrow>
          if wb_is_colored (re_web E) (ut_color_id u) then
            JObj (utxo_fields (env_lib E) u @ [(''color_id'', j_color (re_web E) (ut_color_id u)), (''value'', j_u64 (ut_value u))])
          else JObj (utxo_fields (env_lib E) u @ [(''value'', j_u64 (ut_value u))]))"

definition stats_or_default :: "stats_map \<Rightarrow> color \<Rightarrow> script_stats" where
  "stats_or_default m c = (case hm_get m c of Some s \<Rightarrow> s | None \<Rightarrow> script_stats_default)"

definition balance_to_json :: "'d rpc_env \<Rightarrow> stats_map \<Rightarrow> stats_map \<Rightarrow> color \<Rightarrow> json" where
  "balance_to_json E chain_map mempool_map color_id =
     (let chain = stats_or_default chain_map color_id; mempool = stats_or_default mempool_map color_id;
          amounts = [(''confirmed'', j_u64 (ss_funded_txo_sum chain - ss_spent_txo_sum chain)),
            (''unconfirmed'', j_i64 (ss_funded_txo_sum mempool - ss_spent_txo_sum mempool))]
      in if wb_is_colored (re_web E) color_id then JObj ((''color_id'', j_color (re_web E) color_id) # amounts) else JObj amounts)"

definition script_utxos :: "'d rpc_env \<Rightarrow> json list \<Rightarrow> 'd session \<Rightarrow> 'd session \<times> utxo list res" where
  "script_utxos E params s =
     st_then (s, chain_err ''bad script_hash'' (hash_from_value (env_lib E) (param params 0))) (\<lambda>script_hash s.
       with_query s (query_utxo (re_query E) (config_query (re_config E)) script_hash (sn_query s)))"

text \<open>
  The three open-assets listings: the outputs with their assets, those that have one, those that have none.
  Computing the assets may not return.
\<close>

definition asset_utxos :: "'d rpc_env \<Rightarrow> json list \<Rightarrow> 'd session \<Rightarrow>
    ('d session \<times> (utxo \<times> open_asset option) list res) option" where
  "asset_utxos E params s =
     (case script_utxos E params s of
        (s', Inl e) \<Rightarrow> Some (s', Inl e)
      | (s', Inr utxos) \<Rightarrow>
          map_option (\<lambda>r. (s', and_then r (\<lambda>assets. Inr (map (\<lambda>u. (u, hm_get assets (utxo_outpoint u))) utxos))))
            (open_assets (re_query E) (config_query (re_config E)) (sn_query s') utxos))"

definition list_assets :: "((utxo \<times> open_asset option) \<Rightarrow> bool) \<Rightarrow> 'd rpc_env \<Rightarrow> json list \<Rightarrow> 'd session \<Rightarrow>
    ('d session \<times> json res) option" where
  "list_assets P E params s =
     map_option (\<lambda>(s', r). (s', and_then r (\<lambda>us. Inr (JArr (map (\<lambda>(u, a). utxo_to_json E u a) (filter P us))))))
       (asset_utxos E params s)"

definition blockchain_openassets_scripthash_listunspent ::
  "'d rpc_env \<Rightarrow> json list \<Rightarrow> 'd session \<Rightarrow> ('d session \<times> json res) option" where
  "blockchain_openassets_scripthash_listunspent = list_assets (\<lambda>_. True)"

definition blockchain_openassets_scripthash_listcoloredunspent ::
  "'d rpc_env \<Rightarrow> json list \<Rightarrow> 'd session \<Rightarrow> ('d session \<times> json res) option" where
  "blockchain_openassets_scripthash_listcoloredunspent = list_assets (\<lambda>(u, asset). asset \<noteq> None)"

definition blockchain_openassets_scripthash_listuncoloredunspent ::
  "'d rpc_env \<Rightarrow> json list \<Rightarrow> 'd session \<Rightarrow> ('d session \<times> json res) option" where
  "blockchain_openassets_scripthash_listuncoloredunspent = list_assets (\<lambda>(u, asset). asset = None)"

text \<open>The gauge counts the scripts with a status.\<close>

definition blockchain_scripthash_subscribe :: "'d rpc_env \<Rightarrow> json list \<Rightarrow> 'd session \<Rightarrow> 'd session \<times> json res" where
  "blockchain_scripthash_subscribe E params s =
     st_then (s, chain_err ''bad script_hash'' (hash_from_value (env_lib E) (param params 0))) (\<lambda>script_hash s.
     st_then (s, current_status E (sn_query s) script_hash) (\<lambda>status_hash s.
       (s\<lparr>sn_status_hashes := hm_insert script_hash status_hash (sn_status_hashes s),
          sn_subscriptions := sn_subscriptions s + (if hm_get (sn_status_hashes s) script_hash = None then 1 else 0)\<rparr>,
        Inr status_hash)))"

definition blockchain_scripthash_get_balance :: "'d rpc_env \<Rightarrow> json list \<Rightarrow> 'd session \<Rightarrow> 'd session \<times> json res" where
  "blockchain_scripthash_get_balance E params s =
     st_then (s, chain_err ''bad script_hash'' (hash_from_value (env_lib E) (param params 0))) (\<lambda>script_hash s.
     st_then (with_query s (query_stats (re_query E) script_hash (sn_query s))) (\<lambda>(chain_stats, mempool_stats) s.
       let color_ids = remdups (map fst chain_stats @ map fst mempool_stats) in
       (s, Inr (JArr (map (balance_to_json E chain_stats mempool_stats) color_ids)))))"

definition history_result :: "'d rpc_env \<Rightarrow> 'd query \<Rightarrow> txid \<times> block_id option \<Rightarrow> json" where
  "history_result E q e =
     (case e of (txid, blockid) \<Rightarrow>
        let fee = (if blockid = None then get_mempool_tx_fee q txid else None) in
        JObj ([(''tx_hash'', j_hash (env_lib E) txid), (''height'', j_int (history_height q e))] @ j_skip ''fee'' j_u64 fee))"

definition blockchain_scripthash_get_history :: "'d rpc_env \<Rightarrow> 'd query \<Rightarrow> json list \<Rightarrow> json res" where
  "blockchain_scripthash_get_history E q params =
     and_then (chain_err ''bad script_hash'' (hash_from_value (env_lib E) (param params 0))) (\<lambda>script_hash.
     and_then (get_history E q script_hash) (\<lambda>history_txids.
       Inr (JArr (map (history_result E q) history_txids))))"

definition list_utxos :: "(utxo \<Rightarrow> bool) \<Rightarrow> 'd rpc_env \<Rightarrow> json list \<Rightarrow> 'd session \<Rightarrow> 'd session \<times> json res" where
  "list_utxos P E params s =
     st_then (script_utxos E params s) (\<lambda>utxos s.
       (s, Inr (JArr (map (\<lambda>u. utxo_to_json E u None) (filter P utxos)))))"

definition blockchain_scripthash_listunspent :: "'d rpc_env \<Rightarrow> json list \<Rightarrow> 'd session \<Rightarrow> 'd session \<times> json res" where
  "blockchain_scripthash_listunspent = list_utxos (\<lambda>_. True)"

definition blockchain_scripthash_listcoloredunspent :: "'d rpc_env \<Rightarrow> json list \<Rightarrow> 'd session \<Rightarrow> 'd session \<times> json res" where
  "blockchain_scripthash_listcoloredunspent E params s =
     st_then (s, chain_err ''bad script_hash'' (hash_from_value (env_lib E) (param params 0))) (\<lambda>_ s.
     st_then (s, chain_err ''bad color_id'' (color_id_from_value (env_lib E) (re_web E) (param params 1) ''color_id''))
       (\<lambda>color_id s.
          list_utxos (\<lambda>u. wb_is_colored (re_web E) (ut_color_id u) \<and> (color_id = None \<or> color_id = Some (ut_color_id u))) E params s))"

definition blockchain_scripthash_listuncoloredunspent :: "'d rpc_env \<Rightarrow> json list \<Rightarrow> 'd session \<Rightarrow> 'd session \<times> json res" where
  "blockchain_scripthash_listuncoloredunspent E = list_utxos (\<lambda>u. wb_is_default (re_web E) (ut_color_id u)) E"

definition blockchain_transaction_broadcast :: "'d rpc_env \<Rightarrow> json list \<Rightarrow> 'd session \<Rightarrow> 'd session \<times> json res" where
  "blockchain_transaction_broadcast E params s =
     st_then (s, and_then (ok_or ''missing tx'' (param params 0)) (\<lambda>tx. ok_or ''non-string tx'' (as_str tx))) (\<lambda>tx s.
     st_then (with_query s (query_broadcast_raw (re_query E) (config_query (re_config E)) tx (sn_query s))) (\<lambda>txid s.
       (try_send PeriodicUpdate s, Inr (j_hash (env_lib E) txid))))"

definition blockchain_transaction_get :: "'d rpc_env \<Rightarrow> 'd query \<Rightarrow> json list \<Rightarrow> json res" where
  "blockchain_transaction_get E q params =
     and_then (chain_err ''bad tx_hash'' (hash_from_value (env_lib E) (param params 0))) (\<lambda>tx_hash.
     and_then (case param params 1 of Some v \<Rightarrow> ok_or ''non-bool verbose value'' (as_bool v) | None \<Rightarrow> Inr False) (\<lambda>verbose.
       if verbose then bail ''verbose transactions are currently unsupported''
       else and_then (query_lookup_raw_txn (re_query E) q tx_hash) (\<lambda>tx.
         and_then (ok_or ''missing transaction'' tx) (\<lambda>tx. Inr (JStr (hex_encode (env_lib E) tx))))))"

definition blockchain_transaction_get_merkle :: "'d rpc_env \<Rightarrow> 'd query \<Rightarrow> json list \<Rightarrow> json res" where
  "blockchain_transaction_get_merkle E q params =
     and_then (chain_err ''bad tx_hash'' (hash_from_value (env_lib E) (param params 0))) (\<lambda>txid.
     and_then (usize_from_value (param params 1) ''height'') (\<lambda>height.
     and_then (tx_confirming_block (re_query E) (qy_store q) txid) (\<lambda>blockid.
     and_then (ok_or ''tx not found or is unconfirmed'' blockid) (\<lambda>blockid.
       if bid_height blockid \<noteq> height then bail ''invalid confirmation height provided''
       else and_then (chain_err ''cannot create merkle proof'' (get_tx_merkle_proof (re_query E) (qy_store q) txid (bid_hash blockid)))
         (\<lambda>(merkle, pos).
           Inr (JObj [(''block_height'', j_nat (bid_height blockid)), (''merkle'', j_hashes (env_lib E) merkle), (''pos'', j_nat pos)]))))))"

definition blockchain_transaction_id_from_pos :: "'d rpc_env \<Rightarrow> 'd query \<Rightarrow> json list \<Rightarrow> json res" where
  "blockchain_transaction_id_from_pos E q params =
     and_then (usize_from_value (param params 0) ''height'') (\<lambda>height.
     and_then (usize_from_value (param params 1) ''tx_pos'') (\<lambda>tx_pos.
     and_then (bool_from_value_or (param params 2) ''merkle'' False) (\<lambda>want_merkle.
     and_then (get_id_from_pos (re_query E) (qy_store q) height tx_pos want_merkle) (\<lambda>(txid, merkle).
       Inr (if \<not> want_merkle then j_hash (env_lib E) txid
         else JObj [(''tx_hash'', j_hash (env_lib E) txid), (''merkle'', j_hashes (env_lib E) merkle)])))))"

section \<open>Commands\<close>

datatype command =
    BlockHeader | BlockHeaders | Estimatefee | HeadersSubscribe
  | OaListunspent | OaListcoloredunspent | OaListuncoloredunspent
  | Relayfee | GetBalance | GetHistory | Listunspent | Listcoloredunspent | Listuncoloredunspent
  | ScripthashSubscribe | Broadcast | TransactionGet | GetMerkle | IdFromPos
  | FeeHistogram | Banner | DonationAddress | PeersSubscribe | Ping | Version

definition command_table :: "(string \<times> command) list" where
  "command_table =
     [(''blockchain.block.header'', BlockHeader),
      (''blockchain.block.headers'', BlockHeaders),
      (''blockchain.estimatefee'', Estimatefee),
      (''blockchain.headers.subscribe'', HeadersSubscribe),
      (''blockchain.openassets.scripthash.listunspent'', OaListunspent),
      (''blockchain.openassets.scripthash.listcoloredunspent'', OaListcoloredunspent),
      (''blockchain.openassets.scripthash.listuncoloredunspent'', OaListuncoloredunspent),
      (''blockchain.relayfee'', Relayfee),
      (''blockchain.scripthash.get_balance'', GetBalance),
      (''blockchain.scripthash.get_history'', GetHistory),
      (''blockchain.scripthash.listunspent'', Listunspent),
      (''blockchain.scripthash.listcoloredunspent'', Listcoloredunspent),
      (''blockchain.scripthash.listuncoloredunspent'', Listuncoloredunspent),
      (''blockchain.scripthash.subscribe'', ScripthashSubscribe),
      (''blockchain.transaction.broadcast'', Broadcast),
      (''blockchain.transaction.get'', TransactionGet),
      (''blockchain.transaction.get_merkle'', GetMerkle),
      (''blockchain.transaction.id_from_pos'', IdFromPos),
      (''mempool.get_fee_histogram'', FeeHistogram),
      (''server.banner'', Banner),
      (''server.donation_address'', DonationAddress),
      (''server.peers.subscribe'', PeersSubscribe),
      (''server.ping'', Ping),
      (''server.version'', Version)]"

definition open_assets_command :: "command \<Rightarrow> bool" where
  "open_assets_command c \<longleftrightarrow> c \<in> {OaListunspent, OaListcoloredunspent, OaListuncoloredunspent}"

text \<open>The match on the name; the open-assets methods are guarded by the configuration.\<close>

definition command_of :: "bool \<Rightarrow> string \<Rightarrow> command option" where
  "command_of enable_open_assets name =
     (case map_of command_table name of
        Some c \<Rightarrow> if open_assets_command c \<and> \<not> enable_open_assets then None else Some c
      | None \<Rightarrow> None)"

fun run_command :: "command \<Rightarrow> 'd rpc_env \<Rightarrow> json list \<Rightarrow> 'd session \<Rightarrow> ('d session \<times> json res) option" where
  "run_command BlockHeader E params s = Some (s, blockchain_block_header E (sn_query s) params)"
| "run_command BlockHeaders E params s = Some (s, blockchain_block_headers E (sn_query s) params)"
| "run_command Estimatefee E params s = Some (blockchain_estimatefee E params s)"
| "run_command HeadersSubscribe E params s = Some (blockchain_headers_subscribe E s)"
| "run_command OaListunspent E params s = blockchain_openassets_scripthash_listunspent E params s"
| "run_command OaListcoloredunspent E params s = blockchain_openassets_scripthash_listcoloredunspent E params s"
| "run_command OaListuncoloredunspent E params s = blockchain_openassets_scripthash_listuncoloredunspent E params s"
| "run_command Relayfee E params s = Some (blockchain_relayfee E s)"
| "run_command GetBalance E params s = Some (blockchain_scripthash_get_balance E params s)"
| "run_command GetHistory E params s = Some (s, blockchain_scripthash_get_history E (sn_query s) params)"
| "run_command Listunspent E params s = Some (blockchain_scripthash_listunspent E params s)"
| "run_command Listcoloredunspent E params s = Some (blockchain_scripthash_listcoloredunspent E params s)"
| "run_command Listuncoloredunspent E params s = Some (blockchain_scripthash_listuncoloredunspent E params s)"
| "run_command ScripthashSubscribe E params s = Some (blockchain_scripthash_subscribe E params s)"
| "run_command Broadcast E params s = Some (blockchain_transaction_broadcast E params s)"
| "run_command TransactionGet E params s = Some (s, blockchain_transaction_get E (sn_query s) params)"
| "run_command GetMerkle E params s = Some (s, blockchain_transaction_get_merkle E (sn_query s) params)"
| "run_command IdFromPos E params s = Some (s, blockchain_transaction_id_from_pos E (sn_query s) params)"
| "run_command FeeHistogram E params s = Some (s, Inr (mempool_get_fee_histogram (sn_query s)))"
| "run_command Banner E params s = Some (s, Inr (server_banner E))"
| "run_command DonationAddress E params s = Some (s, Inr server_donation_address)"
| "run_command PeersSubscribe E params s = Some (s, Inr server_peers_subscribe)"
| "run_command Ping E params s = Some (s, Inr JNull)"
| "run_command Version E params s = Some (s, Inr server_version)"

definition result_reply :: "json \<Rightarrow> json \<Rightarrow> json" where
  "result_reply i result = JObj [(''jsonrpc'', JStr ''2.0''), (''id'', i), (''result'', result)]"

definition error_reply :: "json \<Rightarrow> error \<Rightarrow> json" where
  "error_reply i e = JObj [(''jsonrpc'', JStr ''2.0''), (''id'', i), (''error'', JStr (error_display e))]"

text \<open>An unknown method is an error of the connection, an error of a method is a reply; a panic is neither.\<close>

definition handle_command :: "'d rpc_env \<Rightarrow> string \<Rightarrow> json list \<Rightarrow> json \<Rightarrow> 'd session \<Rightarrow>
    ('d session \<times> json res) option" where
  "handle_command E name params i s =
     (case command_of (cf_enable_open_assets (re_config E)) name of
        None \<Rightarrow> Some (s, bail (''unknown method '' @ name))
      | Some c \<Rightarrow>
          map_option (\<lambda>(s', r). (s', case r of
              Inr result \<Rightarrow> Inr (result_reply i result)
            | Inl e \<Rightarrow> if is_panic e then Inl e else Inr (error_reply i e)))
          (run_command c E params s))"

section \<open>Notifications\<close>

definition notification :: "string \<Rightarrow> json list \<Rightarrow> json" where
  "notification name params = JObj [(''jsonrpc'', JStr ''2.0''), (''method'', JStr name), (''params'', JArr params)]"

text \<open>
  The loop over the subscribed scripts: a status that changed is stored and notified; an error leaves the
  statuses changed so far, and their notifications are lost with it.
\<close>

fun update_statuses :: "'d rpc_env \<Rightarrow> 'd query \<Rightarrow> (scripthash, json) hashmap \<Rightarrow>
    (scripthash, json) hashmap \<times> json list res" where
  "update_statuses E q [] = ([], Inr [])"
| "update_statuses E q ((script_hash, status_hash) # hs) =
     (case current_status E q script_hash of
        Inl e \<Rightarrow> ((script_hash, status_hash) # hs, Inl e)
      | Inr new_status_hash \<Rightarrow>
          (case update_statuses E q hs of (hs', r) \<Rightarrow>
             ((script_hash, new_status_hash) # hs',
              and_then r (\<lambda>result.
                Inr (if new_status_hash = status_hash then result
                  else notification ''blockchain.scripthash.subscribe'' [j_hash (env_lib E) script_hash, new_status_hash] # result)))))"

definition update_header :: "'d rpc_env \<Rightarrow> 'd session \<Rightarrow> 'd session \<times> json list res" where
  "update_header E s =
     (case sn_last_header_entry s of
        None \<Rightarrow> (s, Inr [])
      | Some last_entry \<Rightarrow>
          (case best_header (sn_store s) of
             Inl e \<Rightarrow> (s, Inl e)
           | Inr entry \<Rightarrow>
               if last_entry \<noteq> entry then
                 (s\<lparr>sn_last_header_entry := Some entry\<rparr>,
                  Inr [notification ''blockchain.headers.subscribe'' [header_json E entry]])
               else (s, Inr [])))"

definition update_subscriptions :: "'d rpc_env \<Rightarrow> 'd session \<Rightarrow> 'd session \<times> json list res" where
  "update_subscriptions E s =
     st_then (update_header E s) (\<lambda>headers s.
       case update_statuses E (sn_query s) (sn_status_hashes s) of (hs, r) \<Rightarrow>
         (s\<lparr>sn_status_hashes := hs\<rparr>, and_then r (\<lambda>result. Inr (headers @ result))))"

section \<open>The loops of a connection\<close>

fun send_values :: "'d rpc_env \<Rightarrow> json list \<Rightarrow> 'd session \<Rightarrow> 'd session \<times> unit res" where
  "send_values E [] s = (s, Inr ())"
| "send_values E (v # vs) s =
     (if re_write_ok E (sn_out s) v then send_values E vs (s\<lparr>sn_out := sn_out s @ [v]\<rparr>)
      else (s, bail (''failed to send '' @ js_to_string (env_lib E) v)))"

definition parse_command :: "json \<Rightarrow> (string \<times> json list \<times> json) option" where
  "parse_command cmd =
     (case (json_get ''method'' cmd, case json_get ''params'' cmd of Some p \<Rightarrow> p | None \<Rightarrow> JArr [], json_get ''id'' cmd) of
        (Some (JStr name), JArr params, Some i) \<Rightarrow> Some (name, params, i)
      | _ \<Rightarrow> None)"

text \<open>
  One round of \<^verbatim>\<open>handle_replies\<close> for a received message: whether the loop goes on, or its error.
\<close>

fun handle_message :: "'d rpc_env \<Rightarrow> message \<Rightarrow> 'd session \<Rightarrow> ('d session \<times> bool res) option" where
  "handle_message E (Request line) s =
     (case js_from_str (env_lib E) line of
        None \<Rightarrow> Some (s, bail ''invalid JSON format'')
      | Some cmd \<Rightarrow>
          (case parse_command cmd of
             None \<Rightarrow> Some (s, bail (''invalid command: '' @ js_to_string (env_lib E) cmd))
           | Some (name, params, i) \<Rightarrow>
               map_option (\<lambda>r. st_then r (\<lambda>reply s. st_then (send_values E [reply] s) (\<lambda>_ s. (s, Inr True))))
                 (handle_command E name params i s)))"
| "handle_message E PeriodicUpdate s =
     (case update_subscriptions E s of (s', r) \<Rightarrow>
        Some (st_then (s', chain_err ''failed to update subscriptions'' r) (\<lambda>values s.
          st_then (send_values E values s) (\<lambda>_ s. (s, Inr True)))))"
| "handle_message E Done s = Some (s, Inr False)"

text \<open>The loop on the messages it receives, in the environments of those moments: it may be waiting for more.\<close>

fun handle_replies :: "('d rpc_env \<times> message) list \<Rightarrow> 'd session \<Rightarrow> ('d session \<times> unit res option) option" where
  "handle_replies [] s = Some (s, None)"
| "handle_replies ((E, m) # ms) s =
     Option.bind (handle_message E m s) (\<lambda>(s', r).
       case r of
         Inl e \<Rightarrow> Some (s', Some (Inl e))
       | Inr continue \<Rightarrow> if continue then handle_replies ms s' else Some (s', Some (Inr ())))"

text \<open>
  The reader: the lines up to and including a newline, and what is left at the end of the stream, or the lines
  before a read error. At the end the reader sends \<^verbatim>\<open>Done\<close>, but not after a read error.
\<close>

fun read_until :: "bytes \<Rightarrow> bytes \<times> bytes" where
  "read_until [] = ([], [])"
| "read_until (b # bs) = (if b = 0x0A then ([b], bs) else case read_until bs of (line, rest) \<Rightarrow> (b # line, rest))"

lemma read_until_append: "read_until bs = (line, rest) \<Longrightarrow> bs = line @ rest"
  by (induction bs arbitrary: line) (auto split: if_splits prod.splits)

lemma read_until_progress: "(line, rest) = read_until bs \<Longrightarrow> line \<noteq> [] \<Longrightarrow> length rest < length bs"
  by (drule sym, drule read_until_append) simp

function handle_requests :: "bool \<Rightarrow> bytes \<Rightarrow> message list \<times> unit res" where
  "handle_requests read_error stream =
     (case read_until stream of (line, rest) \<Rightarrow>
        if read_error \<and> (line = [] \<or> last line \<noteq> 0x0A) then ([], bail ''failed to read a request'')
        else if line = [] then ([Done], Inr ())
        else if take 3 line = [22, 3, 1] then ([Done], bail ''invalid request - maybe SSL-encrypted data?'')
        else case from_utf8 line of
            Some req \<Rightarrow> (case handle_requests read_error rest of (ms, r) \<Rightarrow> (Request req # ms, r))
          | None \<Rightarrow> ([Done], bail ''invalid UTF8''))"
  by pat_completeness auto
termination handle_requests
  by (relation "measure (\<lambda>(e, stream). length stream)") (auto dest: read_until_progress)

declare handle_requests.simps [simp del]

text \<open>A connection from its start to its end: the gauges are adjusted when the loop has ended.\<close>

definition run_end :: "'d session \<Rightarrow> 'd session" where
  "run_end s = s\<lparr>sn_clients := sn_clients s - 1, sn_subscriptions := sn_subscriptions s - int (length (sn_status_hashes s))\<rparr>"

definition connection_run :: "('d rpc_env \<times> message) list \<Rightarrow> 'd session \<Rightarrow> ('d session \<times> unit res option) option" where
  "connection_run ms s =
     map_option (\<lambda>(s', r). case r of
         None \<Rightarrow> (s', None)
       | Some (Inl e) \<Rightarrow> if is_panic e then (s', r) else (run_end s', r)
       | Some (Inr u) \<Rightarrow> (run_end s', r))
     (handle_replies ms (s\<lparr>sn_clients := sn_clients s + 1\<rparr>))"

section \<open>Notifications\<close>

text \<open>What the main loop tells the Electrum server.\<close>

datatype notification_msg = Periodic | Exit

end
