(* ===== verification/Electrum_Types.thy ===== *)
theory Electrum_Types
  imports Electrum Mempool_Invariant
begin

text \<open>
  The types of the replies of the Electrum server: a small language of types for JSON values, the type of the
  result of each method, and the fact that every reply is an error text or a result of that type.
\<close>

section \<open>Types of replies\<close>

datatype jty =
    TNull
  | TInt
  | TNum
  | TStr
  | TArr jty
  | TPair jty jty
  | TObj "(string \<times> jty \<times> bool) list"
  | TOr jty jty

text \<open>An object has the required fields, and only the listed ones.\<close>

fun has_type :: "jty \<Rightarrow> json \<Rightarrow> bool" and
  has_fields :: "(string \<times> jty \<times> bool) list \<Rightarrow> (string \<times> json) list \<Rightarrow> bool" where
  "has_type TNull v \<longleftrightarrow> v = JNull"
| "has_type TInt v \<longleftrightarrow> (case v of JNum (PosInt n) \<Rightarrow> True | JNum (NegInt i) \<Rightarrow> True | _ \<Rightarrow> False)"
| "has_type TNum v \<longleftrightarrow> (case v of JNum n \<Rightarrow> True | _ \<Rightarrow> False)"
| "has_type TStr v \<longleftrightarrow> (case v of JStr s \<Rightarrow> True | _ \<Rightarrow> False)"
| "has_type (TArr t) v \<longleftrightarrow> (case v of JArr vs \<Rightarrow> list_all (has_type t) vs | _ \<Rightarrow> False)"
| "has_type (TPair t u) v \<longleftrightarrow> (case v of JArr [x, y] \<Rightarrow> has_type t x \<and> has_type u y | _ \<Rightarrow> False)"
| "has_type (TObj fs) v \<longleftrightarrow>
     (case v of JObj kvs \<Rightarrow> distinct (map fst kvs) \<and> set (map fst kvs) \<subseteq> set (map fst fs) \<and> has_fields fs kvs | _ \<Rightarrow> False)"
| "has_type (TOr t u) v \<longleftrightarrow> has_type t v \<or> has_type u v"
| "has_fields [] kvs \<longleftrightarrow> True"
| "has_fields ((k, t, required) # fs) kvs \<longleftrightarrow>
     (case map_of kvs k of None \<Rightarrow> \<not> required | Some v \<Rightarrow> has_type t v) \<and> has_fields fs kvs"

definition TUtxo :: jty where
  "TUtxo = TObj [(''height'', TInt, True), (''tx_pos'', TInt, True), (''tx_hash'', TStr, True), (''value'', TInt, True),
     (''color_id'', TStr, False), (''asset'', TObj [(''asset_id'', TStr, True), (''asset_quantity'', TInt, True)], False)]"

text \<open>The type of the result of each method.\<close>

fun command_type :: "command \<Rightarrow> jty" where
  "command_type BlockHeader =
     TOr TStr (TObj [(''header'', TStr, True), (''root'', TStr, True), (''branch'', TArr TStr, True)])"
| "command_type BlockHeaders =
     TObj [(''count'', TInt, True), (''hex'', TStr, True), (''max'', TInt, True), (''root'', TStr, False),
       (''branch'', TArr TStr, False)]"
| "command_type Estimatefee = TNum"
| "command_type HeadersSubscribe = TObj [(''hex'', TStr, True), (''height'', TInt, True)]"
| "command_type OaListunspent = TArr TUtxo"
| "command_type OaListcoloredunspent = TArr TUtxo"
| "command_type OaListuncoloredunspent = TArr TUtxo"
| "command_type Relayfee = TNum"
| "command_type GetBalance =
     TArr (TObj [(''color_id'', TStr, False), (''confirmed'', TInt, True), (''unconfirmed'', TInt, True)])"
| "command_type GetHistory = TArr (TObj [(''tx_hash'', TStr, True), (''height'', TInt, True), (''fee'', TInt, False)])"
| "command_type Listunspent = TArr TUtxo"
| "command_type Listcoloredunspent = TArr TUtxo"
| "command_type Listuncoloredunspent = TArr TUtxo"
| "command_type ScripthashSubscribe = TOr TNull TStr"
| "command_type Broadcast = TStr"
| "command_type TransactionGet = TStr"
| "command_type GetMerkle = TObj [(''block_height'', TInt, True), (''merkle'', TArr TStr, True), (''pos'', TInt, True)]"
| "command_type IdFromPos = TOr TStr (TObj [(''tx_hash'', TStr, True), (''merkle'', TArr TStr, True)])"
| "command_type FeeHistogram = TArr (TPair (TOr TNum TNull) TInt)"
| "command_type Banner = TStr"
| "command_type DonationAddress = TNull"
| "command_type PeersSubscribe = TArr TStr"
| "command_type Ping = TNull"
| "command_type Version = TPair TStr TStr"

named_theorems typing \<open>types of serialised values\<close>

lemma typing_atoms [typing, simp]:
  "has_type TInt (j_nat n)" "has_type TInt (j_u64 w)" "has_type TInt (j_u32 v)" "has_type TInt (j_int i)"
  "has_type TInt (j_i64 w)" "has_type TStr (j_hash L h)" "has_type TStr (j_color W c)" "has_type TNum (j_f64 q)"
  "has_type TStr (serialize_protocol_version v')"
  by (simp_all add: j_nat_def j_u32_def j_int_def j_i64_def j_hash_def j_color_def j_f64_def serialize_protocol_version_def)

lemma typing_hashes [typing, simp]: "has_type (TArr TStr) (j_hashes L hs)"
  by (simp add: j_hashes_def list_all_iff j_hash_def)

lemma typing_array [typing]: "has_type (TArr t) (JArr vs) \<longleftrightarrow> (\<forall>v \<in> set vs. has_type t v)"
  by (simp add: list_all_iff)

lemma typing_status [typing, simp]: "has_type (TOr TNull TStr) (status_json L h)"
  by (simp add: status_json_def split: option.splits)

lemma typing_utxo [typing, simp]: "has_type TUtxo (utxo_to_json E u a)"
  by (simp add: TUtxo_def utxo_to_json_def utxo_fields_def j_nat_def j_u32_def j_hash_def j_color_def split: option.splits)

lemma typing_balance [typing]: "has_type (TObj [(''color_id'', TStr, False), (''confirmed'', TInt, True), (''unconfirmed'', TInt, True)])
    (balance_to_json E cs ms c)"
  by (simp add: balance_to_json_def Let_def j_color_def j_i64_def j_int_def)

lemma typing_history [typing]: "has_type (TObj [(''tx_hash'', TStr, True), (''height'', TInt, True), (''fee'', TInt, False)])
    (history_result E q e)"
  by (simp add: history_result_def Let_def j_skip_def j_hash_def j_int_def split: prod.splits option.splits)

lemma typing_rate [typing]: "has_type (TOr TNum TNull) (j_f32 r)"
  by (cases r) simp_all

subsection \<open>Each method\<close>

lemma typing_list_utxos: "list_utxos P E params s = (s', Inr v) \<Longrightarrow> has_type (TArr TUtxo) v"
  by (auto simp: list_utxos_def st_then_eq_Inr typing_array simp del: has_type.simps intro: typing_utxo)

lemma typing_list_assets: "list_assets P E params s = Some (s', Inr v) \<Longrightarrow> has_type (TArr TUtxo) v"
  by (auto simp: list_assets_def typing_array simp del: has_type.simps intro: typing_utxo)

lemma typing_block_header: "blockchain_block_header E q params = Inr v \<Longrightarrow> has_type (command_type BlockHeader) v"
  by (auto simp: blockchain_block_header_def Let_def j_hashes_def j_hash_def list_all_iff split: if_splits)

lemma typing_block_headers: "blockchain_block_headers E q params = Inr v \<Longrightarrow> has_type (command_type BlockHeaders) v"
  by (auto simp: blockchain_block_headers_def Let_def j_hashes_def j_hash_def j_nat_def list_all_iff split: if_splits)

lemma typing_get_merkle: "blockchain_transaction_get_merkle E q params = Inr v \<Longrightarrow> has_type (command_type GetMerkle) v"
  by (auto simp: blockchain_transaction_get_merkle_def j_hashes_def j_hash_def j_nat_def list_all_iff split: if_splits)

lemma typing_id_from_pos: "blockchain_transaction_id_from_pos E q params = Inr v \<Longrightarrow> has_type (command_type IdFromPos) v"
  by (auto simp: blockchain_transaction_id_from_pos_def j_hashes_def j_hash_def list_all_iff split: if_splits)

lemma typing_get: "blockchain_transaction_get E q params = Inr v \<Longrightarrow> has_type TStr v"
  by (auto simp: blockchain_transaction_get_def split: if_splits)

lemma typing_get_history: "blockchain_scripthash_get_history E q params = Inr v \<Longrightarrow> has_type (command_type GetHistory) v"
  by (auto simp: blockchain_scripthash_get_history_def typing_array simp del: has_type.simps intro: typing_history)

lemma typing_get_balance: "blockchain_scripthash_get_balance E params s = (s', Inr v) \<Longrightarrow> has_type (command_type GetBalance) v"
  by (auto simp: blockchain_scripthash_get_balance_def st_then_eq_Inr Let_def typing_array simp del: has_type.simps intro: typing_balance)

lemma typing_subscribe: "blockchain_scripthash_subscribe E params s = (s', Inr v) \<Longrightarrow> has_type (TOr TNull TStr) v"
  by (auto simp: blockchain_scripthash_subscribe_def st_then_eq_Inr current_status_def simp del: has_type.simps)

lemma typing_headers_subscribe: "blockchain_headers_subscribe E s = (s', Inr v) \<Longrightarrow> has_type (command_type HeadersSubscribe) v"
  by (auto simp: blockchain_headers_subscribe_def header_json_def j_nat_def split: sum.splits)

lemma typing_fees:
  "blockchain_estimatefee E params s = (s', Inr v) \<Longrightarrow> has_type TNum v"
  "blockchain_relayfee E s = (s', Inr v) \<Longrightarrow> has_type TNum v"
  by (auto simp: blockchain_estimatefee_def blockchain_relayfee_def st_then_eq_Inr simp del: has_type.simps)

lemma typing_broadcast: "blockchain_transaction_broadcast E params s = (s', Inr v) \<Longrightarrow> has_type TStr v"
  by (auto simp: blockchain_transaction_broadcast_def st_then_eq_Inr simp del: has_type.simps)

lemma typing_colored: "blockchain_scripthash_listcoloredunspent E params s = (s', Inr v) \<Longrightarrow> has_type (TArr TUtxo) v"
  by (auto simp: blockchain_scripthash_listcoloredunspent_def st_then_eq_Inr simp del: has_type.simps dest: typing_list_utxos)

lemma typing_fee_histogram: "has_type (command_type FeeHistogram) (mempool_get_fee_histogram q)"
  using typing_rate by (auto simp: mempool_get_fee_histogram_def list_all_iff j_u32_def j_nat_def)

lemma run_command_typed: "run_command c E params s = Some (s', Inr v) \<Longrightarrow> has_type (command_type c) v"
proof (cases c)
  case FeeHistogram
  then show "run_command c E params s = Some (s', Inr v) \<Longrightarrow> has_type (command_type c) v"
    using typing_fee_histogram [of "sn_query s"] by (auto simp del: has_type.simps command_type.simps)
next
  case Version
  then show "run_command c E params s = Some (s', Inr v) \<Longrightarrow> has_type (command_type c) v"
    by (auto simp: server_version_def serialize_protocol_version_def)
next
  case PeersSubscribe
  then show "run_command c E params s = Some (s', Inr v) \<Longrightarrow> has_type (command_type c) v"
    by (auto simp: server_peers_subscribe_def)
qed (auto simp: blockchain_openassets_scripthash_listunspent_def blockchain_openassets_scripthash_listcoloredunspent_def
    blockchain_openassets_scripthash_listuncoloredunspent_def blockchain_scripthash_listunspent_def
    blockchain_scripthash_listuncoloredunspent_def server_banner_def server_donation_address_def
    simp del: has_type.simps(5,7,8)
    dest: typing_block_header typing_block_headers typing_list_assets typing_list_utxos typing_get_merkle typing_id_from_pos
      typing_get typing_get_history typing_get_balance typing_subscribe typing_headers_subscribe typing_fees
      typing_broadcast typing_colored)

text \<open>What a client may get in answer to a request.\<close>

definition reply_to :: "bool \<Rightarrow> string \<Rightarrow> json \<Rightarrow> json \<Rightarrow> bool" where
  "reply_to enabled name i reply \<longleftrightarrow>
     (\<exists>c. command_of enabled name = Some c \<and>
       ((\<exists>result. reply = result_reply i result \<and> has_type (command_type c) result) \<or>
        (\<exists>e. \<not> is_panic e \<and> reply = error_reply i e)))"

lemma handle_command_reply:
  assumes "handle_command E name params i s = Some (s', Inr reply)"
  shows "reply_to (cf_enable_open_assets (re_config E)) name i reply"
proof -
  from assms obtain c r where c: "command_of (cf_enable_open_assets (re_config E)) name = Some c"
    and r: "run_command c E params s = Some (s', r)"
    and reply: "(case r of Inr result \<Rightarrow> Inr (result_reply i result)
      | Inl e \<Rightarrow> if is_panic e then Inl e else Inr (error_reply i e)) = Inr reply"
    by (auto simp: handle_command_def split: option.splits)
  show ?thesis
  proof (cases r)
    case (Inr v)
    with r have "has_type (command_type c) v" by (simp add: run_command_typed)
    with c reply Inr show ?thesis by (auto simp: reply_to_def)
  next
    case (Inl e)
    with c reply show ?thesis by (auto simp: reply_to_def split: if_splits)
  qed
qed

section \<open>Typed replies\<close>

text \<open>
  C16: every reply to a command is an object of version 2.0 with the id of the request and either the text of
  an error or a result of the type of the method (fields, their types, which are optional), whatever the
  parameters, the node's answers and the state. Amounts are integers in the minimum unit, also the balances, for
  which \<^verbatim>\<open>doc/protocol.md\<close> says strings in coin units. There is no reply to an unknown method, and the open-assets
  methods are unknown unless they are enabled.
\<close>

theorem handle_command_typed:
  assumes "handle_command E name params i s = Some (s', Inr reply)"
  shows "\<exists>c. command_of (cf_enable_open_assets (re_config E)) name = Some c \<and>
    (open_assets_command c \<longrightarrow> cf_enable_open_assets (re_config E)) \<and>
    ((\<exists>result. reply = JObj [(''jsonrpc'', JStr ''2.0''), (''id'', i), (''result'', result)] \<and> has_type (command_type c) result) \<or>
     (\<exists>e. \<not> is_panic e \<and> reply = JObj [(''jsonrpc'', JStr ''2.0''), (''id'', i), (''error'', JStr (error_display e))]))"
proof -
  from handle_command_reply [OF assms] obtain c where c: "command_of (cf_enable_open_assets (re_config E)) name = Some c"
    and r: "(\<exists>result. reply = result_reply i result \<and> has_type (command_type c) result) \<or>
      (\<exists>e. \<not> is_panic e \<and> reply = error_reply i e)"
    unfolding reply_to_def by blast
  from c have "open_assets_command c \<longrightarrow> cf_enable_open_assets (re_config E)"
    by (auto simp: command_of_def split: option.splits if_splits)
  with c r show ?thesis unfolding result_reply_def error_reply_def by blast
qed

definition ex_addr :: socket_addr where
  "ex_addr = (V4 0x7F000001, 50001)"

definition ex_server_config :: config where
  "ex_server_config = \<lparr>cf_network = \<lparr>network_type = Dev, network_id = 1\<rparr>, cf_db_path = ''./db/dev'', cf_daemon_dir = ''/d'',
     cf_blocks_dir = ''/d/blocks'', cf_daemon_rpc_addr = ex_addr, cf_cookie = None, cf_electrum_rpc_addr = ex_addr,
     cf_http_addr = ex_addr, cf_http_socket_file = None, cf_monitoring_addr = ex_addr, cf_jsonrpc_import = False,
     cf_light_mode = False, cf_address_search = True, cf_index_unspendables = False, cf_cors = None,
     cf_precache_scripts = None, cf_utxos_limit = 500, cf_electrum_txs_limit = 500, cf_electrum_banner = ''hello'',
     cf_enable_open_assets = False\<rparr>"

definition ex_web :: web where
  "ex_web = \<lparr>wb_is_colored = (\<lambda>c. token_type c \<noteq> 0), wb_is_default = (\<lambda>c. c = default_color),
     wb_color_to_string = (\<lambda>c. ref_hex_encode (color_bytes c)),
     wb_color_from_hex = (\<lambda>s. Option.bind (ref_hex_decode s) ref_color_from_slice),
     wb_deserialize_color = ref_color_from_slice, wb_asset_id_to_string = ref_hex_encode,
     wb_metadata_json = (\<lambda>m. JStr (ref_hex_encode m)), wb_asset_id_from_str = ref_hex_decode,
     wb_address_from_str = (\<lambda>s. map_option (\<lambda>b. (BDev, b)) (ref_hex_decode s)), wb_form_parse = (\<lambda>s. [(''tx'', s)]),
     wb_script_hex = ref_hex_encode, wb_xfield_to_string = (\<lambda>x. ''xfield''), wb_xfield_type = (\<lambda>x. 0),
     wb_proof_hex = ref_hex_encode\<rparr>"

definition ex_env :: "kv list rpc_env" where
  "ex_env = \<lparr>re_query = ex_query, re_web = ex_web, re_config = ex_server_config, re_now = 0, re_write_ok = (\<lambda>out v. True)\<rparr>"

definition ex_session :: "kv list session" where
  "ex_session = connection_open (query_new ex_store (mempool_new 0)) 0 0"

lemma ex_banner: "handle_command ex_env ''server.banner'' [] (j_nat 7) ex_session =
    Some (ex_session, Inr (result_reply (j_nat 7) (JStr ''hello'')))"
  by (simp add: handle_command_def command_of_def command_table_def open_assets_command_def server_banner_def ex_env_def ex_server_config_def)

lemma handle_command_typed_witness:
  "\<exists>c. command_of False ''server.banner'' = Some c \<and>
    ((\<exists>result. result_reply (j_nat 7) (JStr ''hello'') =
       JObj [(''jsonrpc'', JStr ''2.0''), (''id'', j_nat 7), (''result'', result)] \<and> has_type (command_type c) result) \<or>
     (\<exists>e. result_reply (j_nat 7) (JStr ''hello'') =
       JObj [(''jsonrpc'', JStr ''2.0''), (''id'', j_nat 7), (''error'', JStr (error_display e))]))"
proof -
  have "cf_enable_open_assets (re_config ex_env) = False" by (simp add: ex_env_def ex_server_config_def)
  then show ?thesis using handle_command_typed [OF ex_banner] by auto
qed

end
