(* ===== verification/Electrum_Session.thy ===== *)
theory Electrum_Session
  imports Electrum_Types
begin

text \<open>
  A connection of the Electrum server over time: the statuses and notifications of its subscriptions, the
  gauges, and its steps among those of the threads it runs with (its reader, the notifier, the shutdown, and
  whatever else changes the shared query).
\<close>

section \<open>Subscriptions\<close>

definition status_of :: "'d rpc_env \<Rightarrow> 'd query \<Rightarrow> scripthash \<Rightarrow> json" where
  "status_of E q h = (case current_status E q h of Inr v \<Rightarrow> v | Inl e \<Rightarrow> JNull)"

definition status_changes :: "'d rpc_env \<Rightarrow> 'd query \<Rightarrow> (scripthash, json) hashmap \<Rightarrow> json list" where
  "status_changes E q hs =
     map (\<lambda>(h, v). notification ''blockchain.scripthash.subscribe'' [j_hash (env_lib E) h, status_of E q h])
       (filter (\<lambda>(h, v). status_of E q h \<noteq> v) hs)"

lemma update_statuses_exact:
  "update_statuses E q hs = (hs', Inr sent) \<Longrightarrow>
     (\<forall>h \<in> fst ` set hs. current_status E q h = Inr (status_of E q h)) \<and>
     hs' = map (\<lambda>(h, v). (h, status_of E q h)) hs \<and> sent = status_changes E q hs"
proof (induction E q hs arbitrary: hs' sent rule: update_statuses.induct)
  case (2 E q h v hs)
  from "2.prems" obtain x where x: "current_status E q h = Inr x" by (cases "current_status E q h") auto
  obtain hs1 r' where "update_statuses E q hs = (hs1, r')" by fastforce
  with "2.prems" x obtain r where r: "update_statuses E q hs = (hs1, Inr r)" and hs': "hs' = (h, x) # hs1"
    and sent: "sent = (if x = v then r
      else notification ''blockchain.scripthash.subscribe'' [j_hash (env_lib E) h, x] # r)" by auto
  have "status_of E q h = x" using x by (simp add: status_of_def)
  with "2.IH" [OF x r] x hs' sent show ?case by (auto simp: status_changes_def)
qed (simp add: status_changes_def)

lemma update_statuses_current:
  assumes "\<forall>h \<in> fst ` set hs. current_status E q h = Inr (status_of E q h)"
  shows "update_statuses E q (map (\<lambda>(h, v). (h, status_of E q h)) hs) = (map (\<lambda>(h, v). (h, status_of E q h)) hs, Inr [])"
  using assms by (induction hs) auto

lemma update_statuses_returns:
  "(\<exists>sent. snd (update_statuses E q hs) = Inr sent) \<longleftrightarrow> (\<forall>h \<in> fst ` set hs. \<exists>v. current_status E q h = Inr v)"
proof (induction hs)
  case (Cons x hs)
  obtain h v where x: "x = (h, v)" by (cases x)
  obtain hs' r where u: "update_statuses E q hs = (hs', r)" by fastforce
  show ?case
  proof (cases "current_status E q h")
    case (Inr w)
    with Cons x u show ?thesis by (cases r) simp_all
  qed (simp add: x)
qed simp

lemma update_header_returns:
  "(\<exists>sent. snd (update_header E s) = Inr sent) \<longleftrightarrow>
   sn_last_header_entry s = None \<or> (\<exists>entry. best_header (sn_store s) = Inr entry)"
  by (cases "sn_last_header_entry s"; cases "best_header (sn_store s)") (auto simp: update_header_def)

lemma update_header_cases:
  assumes "update_header E s = (s', Inr headers)"
  obtains (same) "s' = s" "headers = []" "update_header E s = (s, Inr [])"
  | (changed) entry where "sn_last_header_entry s \<noteq> None" "best_header (sn_store s) = Inr entry" "sn_last_header_entry s \<noteq> Some entry"
      "s' = s\<lparr>sn_last_header_entry := Some entry\<rparr>"
      "headers = [notification ''blockchain.headers.subscribe'' [header_json E entry]]"
  using assms by (auto simp: update_header_def split: option.splits sum.splits if_splits)

lemma update_header_sent:
  assumes "update_header E s = (s', Inr headers)"
  shows "case sn_last_header_entry s of
      None \<Rightarrow> headers = [] \<and> sn_last_header_entry s' = None
    | Some last_entry \<Rightarrow> \<exists>entry. best_header (sn_store s) = Inr entry \<and> sn_last_header_entry s' = Some entry \<and>
        headers = (if entry = last_entry then [] else [notification ''blockchain.headers.subscribe'' [header_json E entry]])"
proof (cases "sn_last_header_entry s")
  case (Some last_entry)
  with assms obtain entry where best: "best_header (sn_store s) = Inr entry"
    by (cases "best_header (sn_store s)") (auto simp: update_header_def)
  then have "\<exists>e. best_header (sn_store s) = Inr e \<and> sn_last_header_entry s' = Some e \<and>
      headers = (if e = last_entry then [] else [notification ''blockchain.headers.subscribe'' [header_json E e]])"
    using assms Some by (intro exI [of _ entry]) (auto simp: update_header_def split: if_splits)
  then show ?thesis by (simp only: Some option.case)
qed (use assms in \<open>simp add: update_header_def\<close>)

text \<open>A second update in the same environment finds nothing to send.\<close>

lemma update_header_again: "update_header E s = (s', Inr headers) \<Longrightarrow> update_header E (s'\<lparr>sn_status_hashes := hs\<rparr>) = (s'\<lparr>sn_status_hashes := hs\<rparr>, Inr [])"
  by (auto simp: update_header_def split: option.splits sum.splits if_splits)

lemma update_subscriptions_facts:
  assumes "update_subscriptions E s = (s', Inr sent)"
  shows "\<forall>h \<in> fst ` set (sn_status_hashes s). current_status E (sn_query s) h = Inr (status_of E (sn_query s) h)"
    and "sn_status_hashes s' = map (\<lambda>(h, v). (h, status_of E (sn_query s) h)) (sn_status_hashes s)"
    and "\<exists>headers. sent = headers @ status_changes E (sn_query s) (sn_status_hashes s) \<and>
      (case sn_last_header_entry s of
         None \<Rightarrow> headers = [] \<and> sn_last_header_entry s' = None
       | Some last_entry \<Rightarrow> \<exists>entry. best_header (sn_store s) = Inr entry \<and> sn_last_header_entry s' = Some entry \<and>
           headers = (if entry = last_entry then [] else [notification ''blockchain.headers.subscribe'' [header_json E entry]]))"
    and "update_subscriptions E s' = (s', Inr [])"
    and "s' = s\<lparr>sn_last_header_entry := sn_last_header_entry s', sn_status_hashes := sn_status_hashes s'\<rparr>"
proof -
  from assms obtain s1 headers where h: "update_header E s = (s1, Inr headers)"
    and rest: "(case update_statuses E (sn_query s1) (sn_status_hashes s1) of (hs, r) \<Rightarrow>
      (s1\<lparr>sn_status_hashes := hs\<rparr>, and_then r (\<lambda>result. Inr (headers @ result)))) = (s', Inr sent)"
    by (auto simp: update_subscriptions_def st_then_eq_Inr)
  obtain hs r' where "update_statuses E (sn_query s1) (sn_status_hashes s1) = (hs, r')" by fastforce
  with rest obtain r where u: "update_statuses E (sn_query s1) (sn_status_hashes s1) = (hs, Inr r)"
    and s': "s' = s1\<lparr>sn_status_hashes := hs\<rparr>" and v: "sent = headers @ r" by auto
  obtain e where s1: "s1 = s\<lparr>sn_last_header_entry := e\<rparr>"
    using h by (cases rule: update_header_cases) (use that [of "sn_last_header_entry s"] in auto)
  then have same: "sn_query s1 = sn_query s" "sn_status_hashes s1 = sn_status_hashes s" by simp_all
  note ex = update_statuses_exact [OF u, unfolded same]
  show "\<forall>h \<in> fst ` set (sn_status_hashes s). current_status E (sn_query s) h = Inr (status_of E (sn_query s) h)"
    using ex by blast
  show hs: "sn_status_hashes s' = map (\<lambda>(h, v). (h, status_of E (sn_query s) h)) (sn_status_hashes s)"
    using ex s' by simp
  show "s' = s\<lparr>sn_last_header_entry := sn_last_header_entry s', sn_status_hashes := sn_status_hashes s'\<rparr>"
    by (simp add: s' s1)
  have l: "sn_last_header_entry s' = sn_last_header_entry s1" by (simp add: s')
  show "\<exists>headers. sent = headers @ status_changes E (sn_query s) (sn_status_hashes s) \<and>
      (case sn_last_header_entry s of
         None \<Rightarrow> headers = [] \<and> sn_last_header_entry s' = None
       | Some last_entry \<Rightarrow> \<exists>entry. best_header (sn_store s) = Inr entry \<and> sn_last_header_entry s' = Some entry \<and>
           headers = (if entry = last_entry then [] else [notification ''blockchain.headers.subscribe'' [header_json E entry]]))"
    using ex v update_header_sent [OF h] unfolding l by blast
  have q: "sn_query s' = sn_query s" using s' same by simp
  have "update_statuses E (sn_query s') (sn_status_hashes s') = (sn_status_hashes s', Inr [])"
    using update_statuses_current [of "sn_status_hashes s" E "sn_query s"] ex hs q by simp
  then show "update_subscriptions E s' = (s', Inr [])"
    using update_header_again [OF h, of hs] s' by (simp add: update_subscriptions_def)
qed

section \<open>What a command leaves alone\<close>

text \<open>The values written, the gauges up to the connection's own statuses, and the channel up to updates at its end.\<close>

definition gauge :: "'d session \<Rightarrow> int" where
  "gauge s = sn_subscriptions s - int (length (sn_status_hashes s))"

definition keeps :: "'d session \<Rightarrow> 'd session \<Rightarrow> bool" where
  "keeps s s' \<longleftrightarrow> sn_out s' = sn_out s \<and> sn_clients s' = sn_clients s \<and> gauge s' = gauge s \<and>
     (\<exists>k. sn_chan s' = sn_chan s @ replicate k PeriodicUpdate) \<and>
     (length (sn_chan s) \<le> CHANNEL_SIZE \<longrightarrow> length (sn_chan s') \<le> CHANNEL_SIZE)"

lemma keepsI:
  "sn_out s' = sn_out s \<Longrightarrow> sn_clients s' = sn_clients s \<Longrightarrow> gauge s' = gauge s \<Longrightarrow> sn_chan s' = sn_chan s \<Longrightarrow> keeps s s'"
  by (auto simp: keeps_def intro: exI [of _ 0])

lemma keeps_refl [simp]: "keeps s s"
  by (rule keepsI) simp_all

lemma keeps_trans: "keeps s s' \<Longrightarrow> keeps s' s'' \<Longrightarrow> keeps s s''"
  by (auto simp: keeps_def replicate_add [symmetric])

lemma keeps_st_then:
  assumes "keeps s (fst p)" "\<And>x s'. keeps s' (fst (f x s'))"
  shows "keeps s (fst (st_then p f))"
proof -
  obtain s1 r where p: "p = (s1, r)" by (cases p)
  show ?thesis
  proof (cases r)
    case (Inr y)
    from assms(1) p have "keeps s s1" by simp
    with assms(2) [of s1 y] show ?thesis by (simp add: p Inr keeps_trans)
  qed (use assms(1) p in simp)
qed

lemma keeps_with_query [simp]: "keeps s (fst (with_query s p))"
  by (cases p) (auto intro!: keepsI simp: gauge_def)

lemma keeps_last_header [simp]: "keeps s (s\<lparr>sn_last_header_entry := e\<rparr>)"
  by (auto intro!: keepsI simp: gauge_def)

lemma keeps_try_send [simp]: "keeps s (try_send PeriodicUpdate s)"
  by (auto simp: keeps_def try_send_def gauge_def CHANNEL_SIZE_def intro: exI [of _ 0] exI [of _ 1])

lemma length_hm_insert: "length (hm_insert k v m) = length m + (if hm_get m k = None then 1 else 0)"
  by (induction m) auto

lemma keeps_subscribe [simp]:
  "keeps s (s\<lparr>sn_status_hashes := hm_insert h v (sn_status_hashes s),
     sn_subscriptions := sn_subscriptions s + (if hm_get (sn_status_hashes s) h = None then 1 else 0)\<rparr>)"
  by (auto intro!: keepsI simp: gauge_def length_hm_insert)

lemma keeps_script_utxos [simp]: "keeps s (fst (script_utxos E params s))"
  unfolding script_utxos_def by (rule keeps_st_then) simp_all

lemma keeps_list_utxos [simp]: "keeps s (fst (list_utxos P E params s))"
  unfolding list_utxos_def by (rule keeps_st_then) simp_all

lemma keeps_list_utxosD: "list_utxos P E params s = (s', r) \<Longrightarrow> keeps s s'"
  using keeps_list_utxos [of s P E params] by simp

lemma keeps_list_assets: "list_assets P E params s = Some (s', r) \<Longrightarrow> keeps s s'"
proof -
  assume "list_assets P E params s = Some (s', r)"
  then have "s' = fst (script_utxos E params s)"
    by (auto simp: list_assets_def asset_utxos_def split: prod.splits sum.splits)
  then show ?thesis by simp
qed

lemma run_command_keeps: "run_command c E params s = Some (s', r) \<Longrightarrow> keeps s s'"
proof -
  have *: "keeps s (fst (blockchain_estimatefee E params s))" "keeps s (fst (blockchain_relayfee E s))"
    "keeps s (fst (blockchain_headers_subscribe E s))" "keeps s (fst (blockchain_scripthash_get_balance E params s))"
    "keeps s (fst (blockchain_scripthash_listcoloredunspent E params s))"
    "keeps s (fst (blockchain_scripthash_subscribe E params s))" "keeps s (fst (blockchain_transaction_broadcast E params s))" for s
    unfolding blockchain_estimatefee_def blockchain_relayfee_def blockchain_headers_subscribe_def
      blockchain_scripthash_get_balance_def blockchain_scripthash_listcoloredunspent_def
      blockchain_scripthash_subscribe_def blockchain_transaction_broadcast_def
    by ((intro keeps_st_then)?; simp add: Let_def split: sum.splits prod.splits)+
  show "run_command c E params s = Some (s', r) \<Longrightarrow> keeps s s'"
    using * [of s]
    by (cases c) (auto simp: blockchain_openassets_scripthash_listunspent_def
      blockchain_openassets_scripthash_listcoloredunspent_def blockchain_openassets_scripthash_listuncoloredunspent_def
      blockchain_scripthash_listunspent_def blockchain_scripthash_listuncoloredunspent_def dest: keeps_list_assets keeps_list_utxosD)
qed

section \<open>One message\<close>

definition is_notification :: "json \<Rightarrow> bool" where
  "is_notification v \<longleftrightarrow> json_get ''method'' v \<noteq> None"

definition replies :: "json list \<Rightarrow> json list" where
  "replies vs = filter (\<lambda>v. \<not> is_notification v) vs"

fun request_lines :: "message list \<Rightarrow> string list" where
  "request_lines [] = []"
| "request_lines (Request line # ms) = line # request_lines ms"
| "request_lines (_ # ms) = request_lines ms"

definition answers :: "lib \<Rightarrow> bool \<Rightarrow> string \<Rightarrow> json \<Rightarrow> bool" where
  "answers L enabled line reply \<longleftrightarrow>
     (\<exists>cmd name params i. js_from_str L line = Some cmd \<and> parse_command cmd = Some (name, params, i) \<and>
        reply_to enabled name i reply)"

lemma request_lines_append [simp]: "request_lines (ms @ ms') = request_lines ms @ request_lines ms'"
  by (induction ms rule: request_lines.induct) simp_all

lemma request_lines_updates [simp]: "request_lines (replicate k PeriodicUpdate) = []"
  by (induction k) simp_all

lemma replies_append [simp]: "replies (vs @ ws) = replies vs @ replies ws"
  by (simp add: replies_def)

lemma reply_not_notification: "reply_to enabled name i v \<Longrightarrow> replies [v] = [v]"
  by (auto simp: reply_to_def replies_def is_notification_def result_reply_def error_reply_def)

lemma send_values_ok:
  "send_values E vs s = (s', Inr u) \<Longrightarrow> s' = s\<lparr>sn_out := sn_out s @ vs\<rparr>"
proof (induction vs arbitrary: s)
  case (Cons v vs)
  then have "send_values E vs (s\<lparr>sn_out := sn_out s @ [v]\<rparr>) = (s', Inr u)" by (simp add: bail_def split: if_splits)
  from Cons.IH [OF this] show ?case by simp
qed simp

lemma send_values_out: "\<exists>vs'. fst (send_values E vs s) = s\<lparr>sn_out := sn_out s @ vs'\<rparr>"
proof (induction vs arbitrary: s)
  case (Cons v vs)
  obtain vs' where "fst (send_values E vs (s\<lparr>sn_out := sn_out s @ [v]\<rparr>)) = s\<lparr>sn_out := sn_out s @ v # vs'\<rparr>"
    using Cons [of "s\<lparr>sn_out := sn_out s @ [v]\<rparr>"] by auto
  then show ?case by (auto intro: exI [of _ "[]"])
qed (auto intro: exI [of _ "[]"])

lemma send_values_gauges:
  "sn_clients (fst (send_values E vs s)) = sn_clients s" "gauge (fst (send_values E vs s)) = gauge s"
  "sn_chan (fst (send_values E vs s)) = sn_chan s"
proof -
  obtain vs' where "fst (send_values E vs s) = s\<lparr>sn_out := sn_out s @ vs'\<rparr>" using send_values_out by blast
  then show "sn_clients (fst (send_values E vs s)) = sn_clients s" "gauge (fst (send_values E vs s)) = gauge s"
    "sn_chan (fst (send_values E vs s)) = sn_chan s"
    by (simp_all add: gauge_def)
qed

lemma update_statuses_length: "length (fst (update_statuses E q hs)) = length hs"
  by (induction E q hs rule: update_statuses.induct) (auto split: sum.splits prod.splits)

lemma update_header_frame:
  "\<exists>e. fst (update_header E s) = s\<lparr>sn_last_header_entry := e\<rparr>"
  by (auto simp: update_header_def split: option.splits sum.splits intro: exI [of _ "sn_last_header_entry s"])

lemma update_subscriptions_frame:
  "\<exists>e hs. fst (update_subscriptions E s) = s\<lparr>sn_last_header_entry := e, sn_status_hashes := hs\<rparr> \<and>
     length hs = length (sn_status_hashes s)"
proof -
  obtain e where e: "fst (update_header E s) = s\<lparr>sn_last_header_entry := e\<rparr>" using update_header_frame by blast
  then obtain r where u: "update_header E s = (s\<lparr>sn_last_header_entry := e\<rparr>, r)" by (metis prod.collapse)
  show ?thesis
  proof (cases r)
    case (Inl x)
    with u show ?thesis
      by (intro exI [of _ e] exI [of _ "sn_status_hashes s"]) (simp add: update_subscriptions_def)
  next
    case (Inr headers)
    with u show ?thesis
      by (intro exI [of _ e] exI [of _ "fst (update_statuses E (sn_query s) (sn_status_hashes s))"])
        (simp add: update_subscriptions_def update_statuses_length split: prod.splits)
  qed
qed

lemma update_subscriptions_notifications:
  assumes "update_subscriptions E s = (s', Inr sent)"
  shows "replies sent = []"
proof -
  have quiet: "replies (map (\<lambda>(h, v). notification name (ps h v)) hs) = []" "replies [notification name qs] = []" for name ps qs hs
    by (auto simp: replies_def is_notification_def notification_def filter_empty_conv)
  obtain headers where h: "sent = headers @ status_changes E (sn_query s) (sn_status_hashes s)"
    and hs: "case sn_last_header_entry s of
       None \<Rightarrow> headers = [] \<and> sn_last_header_entry s' = None
     | Some last_entry \<Rightarrow> \<exists>entry. best_header (sn_store s) = Inr entry \<and> sn_last_header_entry s' = Some entry \<and>
         headers = (if entry = last_entry then [] else [notification ''blockchain.headers.subscribe'' [header_json E entry]])"
    using update_subscriptions_facts(3) [OF assms] by blast
  have "replies headers = []"
  proof (cases "sn_last_header_entry s")
    case None
    with hs show ?thesis by (simp add: replies_def)
  next
    case (Some l)
    with hs obtain entry where
      "headers = (if entry = l then [] else [notification ''blockchain.headers.subscribe'' [header_json E entry]])" by auto
    then show ?thesis using quiet(2) by (cases "entry = l") (simp_all add: replies_def)
  qed
  then show ?thesis by (simp add: h quiet(1) status_changes_def)
qed

lemma handle_command_keeps: "handle_command E name params i s = Some (s', r) \<Longrightarrow> keeps s s'"
  by (auto simp: handle_command_def dest: run_command_keeps split: option.splits)

text \<open>A round that goes on has sent the reply of a request, or notifications only.\<close>

lemma handle_message_goes_on:
  assumes "handle_message E m s = Some (s', Inr True)"
  shows "list_all2 (answers (env_lib E) (cf_enable_open_assets (re_config E))) (request_lines [m]) (drop (length (replies (sn_out s))) (replies (sn_out s')))"
    and "\<exists>vs. sn_out s' = sn_out s @ vs" and "m \<noteq> Done"
    and "\<exists>k. sn_chan s' = sn_chan s @ replicate k PeriodicUpdate"
    and "length (sn_chan s) \<le> CHANNEL_SIZE \<Longrightarrow> length (sn_chan s') \<le> CHANNEL_SIZE"
proof -
  have "(list_all2 (answers (env_lib E) (cf_enable_open_assets (re_config E))) (request_lines [m]) (drop (length (replies (sn_out s))) (replies (sn_out s'))) \<and>
    (\<exists>vs. sn_out s' = sn_out s @ vs)) \<and> m \<noteq> Done \<and> (\<exists>k. sn_chan s' = sn_chan s @ replicate k PeriodicUpdate) \<and>
    (length (sn_chan s) \<le> CHANNEL_SIZE \<longrightarrow> length (sn_chan s') \<le> CHANNEL_SIZE)"
  proof (cases m)
    case (Request line)
    from assms Request obtain cmd name params i s1 reply where cmd: "js_from_str (env_lib E) line = Some cmd"
      "parse_command cmd = Some (name, params, i)" and h: "handle_command E name params i s = Some (s1, Inr reply)"
      and sd: "send_values E [reply] s1 = (s', Inr ())"
      by (auto simp: st_then_eq_Inr bail_def split: option.splits prod.splits if_splits)
    have out: "sn_out s1 = sn_out s" and k: "keeps s s1" using handle_command_keeps [OF h] by (auto simp: keeps_def)
    have s': "s' = s1\<lparr>sn_out := sn_out s @ [reply]\<rparr>" using send_values_ok [OF sd] out by simp
    have r: "reply_to (cf_enable_open_assets (re_config E)) name i reply" by (rule handle_command_reply [OF h])
    then have "answers (env_lib E) (cf_enable_open_assets (re_config E)) line reply" using cmd by (auto simp: answers_def)
    then show ?thesis using s' k Request reply_not_notification [OF r] by (auto simp: keeps_def)
  next
    case PeriodicUpdate
    from assms PeriodicUpdate obtain s1 sent where u: "update_subscriptions E s = (s1, Inr sent)"
      and sd: "send_values E sent s1 = (s', Inr ())"
      by (auto simp: st_then_eq_Inr split: prod.splits)
    have "sn_out s1 = sn_out s" "sn_chan s1 = sn_chan s"
      using update_subscriptions_facts(5) [OF u] by (metis session.select_convs(4,5) session.surjective session.update_convs(2,3))+
    then have "sn_out s' = sn_out s @ sent" "sn_chan s' = sn_chan s" using send_values_ok [OF sd] by simp_all
    then show ?thesis using PeriodicUpdate update_subscriptions_notifications [OF u] by (auto intro: exI [of _ 0])
  next
    case Done
    with assms show ?thesis by simp
  qed
  then show "list_all2 (answers (env_lib E) (cf_enable_open_assets (re_config E))) (request_lines [m]) (drop (length (replies (sn_out s))) (replies (sn_out s')))"
    "\<exists>vs. sn_out s' = sn_out s @ vs" "m \<noteq> Done" "\<exists>k. sn_chan s' = sn_chan s @ replicate k PeriodicUpdate"
    "length (sn_chan s) \<le> CHANNEL_SIZE \<Longrightarrow> length (sn_chan s') \<le> CHANNEL_SIZE"
    by blast+
qed

text \<open>Every round keeps the gauges and the bound of the channel, whatever its outcome.\<close>

lemma handle_message_frame:
  assumes "handle_message E m s = Some (s', r)"
  shows "sn_clients s' = sn_clients s \<and> gauge s' = gauge s \<and>
    (length (sn_chan s) \<le> CHANNEL_SIZE \<longrightarrow> length (sn_chan s') \<le> CHANNEL_SIZE)"
proof (cases m)
  case (Request line)
  show ?thesis
  proof (cases "Option.bind (js_from_str (env_lib E) line) parse_command")
    case None
    with assms Request show ?thesis by (auto split: option.splits)
  next
    case (Some x)
    obtain name params i where x: "x = (name, params, i)" by (cases x) auto
    from assms Request Some x obtain s1 r1 where h: "handle_command E name params i s = Some (s1, r1)"
      and s': "(s', r) = st_then (s1, r1) (\<lambda>reply s. st_then (send_values E [reply] s) (\<lambda>_ s. (s, Inr True)))"
      by (auto split: option.splits)
    have "\<exists>vs. s' = fst (send_values E vs s1)"
    proof (cases r1)
      case (Inl e)
      with s' show ?thesis by (intro exI [of _ "[]"]) simp
    next
      case (Inr reply)
      with s' show ?thesis
        by (intro exI [of _ "[reply]"]) (cases "send_values E [reply] s1"; cases "snd (send_values E [reply] s1)"; simp)
    qed
    then show ?thesis using handle_command_keeps [OF h] by (auto simp: keeps_def send_values_gauges)
  qed
next
  case PeriodicUpdate
  obtain s1 r1 where u: "update_subscriptions E s = (s1, r1)" by fastforce
  from assms PeriodicUpdate u have s': "(s', r) = st_then (s1, chain_err ''failed to update subscriptions'' r1)
    (\<lambda>sent s. st_then (send_values E sent s) (\<lambda>_ s. (s, Inr True)))" by simp
  have "\<exists>vs. s' = fst (send_values E vs s1)"
  proof (cases "chain_err ''failed to update subscriptions'' r1")
    case (Inl e)
    with s' show ?thesis by (intro exI [of _ "[]"]) simp
  next
    case (Inr sent)
    with s' show ?thesis
      by (intro exI [of _ sent]) (cases "send_values E sent s1"; cases "snd (send_values E sent s1)"; simp)
  qed
  moreover have "sn_clients s1 = sn_clients s" "gauge s1 = gauge s" "sn_chan s1 = sn_chan s"
    using update_subscriptions_frame [of E s] u by (auto simp: gauge_def)
  ultimately show ?thesis by (auto simp: send_values_gauges)
next
  case Done
  with assms show ?thesis by simp
qed

lemma handle_replies_gauges:
  "handle_replies ms s = Some (s', r) \<Longrightarrow> sn_clients s' = sn_clients s \<and> gauge s' = gauge s"
proof (induction ms arbitrary: s)
  case (Cons x ms)
  obtain E m where x: "x = (E, m)" by (cases x)
  with Cons.prems obtain s1 r1 where m: "handle_message E m s = Some (s1, r1)" by (auto simp: bind_eq_Some_conv)
  with Cons.prems x have "s' = s1 \<or> handle_replies ms s1 = Some (s', r)" by (auto split: sum.splits if_splits)
  then show ?case using Cons.IH [of s1] handle_message_frame [OF m] by auto
qed simp

section \<open>A connection among other threads\<close>

text \<open>
  The messages the reader has still to send, those the connection's loop has handled, and the session. The
  reader and the shutdown wait for room in the channel; the notifier does not; other threads may change the
  shared query and gauges between two steps; the loop takes the oldest message and handles it in one of the
  environments of the set.
\<close>

inductive session_run :: "'d rpc_env set \<Rightarrow> message list \<Rightarrow> 'd session \<Rightarrow> message list \<Rightarrow> message list \<Rightarrow> 'd session \<Rightarrow> bool"
  for EE :: "'d rpc_env set" and input :: "message list" and s0 :: "'d session" where
  run_start: "session_run EE input s0 input [] (s0\<lparr>sn_clients := sn_clients s0 + 1\<rparr>)"
| run_reader: "session_run EE input s0 (m # pending) handled s \<Longrightarrow> length (sn_chan s) < CHANNEL_SIZE \<Longrightarrow>
    session_run EE input s0 pending handled (s\<lparr>sn_chan := sn_chan s @ [m]\<rparr>)"
| run_notifier: "session_run EE input s0 pending handled s \<Longrightarrow>
    session_run EE input s0 pending handled (try_send PeriodicUpdate s)"
| run_shutdown: "session_run EE input s0 pending handled s \<Longrightarrow> length (sn_chan s) < CHANNEL_SIZE \<Longrightarrow>
    session_run EE input s0 pending handled (s\<lparr>sn_chan := sn_chan s @ [Done]\<rparr>)"
| run_others: "session_run EE input s0 pending handled s \<Longrightarrow>
    session_run EE input s0 pending handled (s\<lparr>sn_query := q, sn_clients := c, sn_subscriptions := n\<rparr>)"
| run_handle: "session_run EE input s0 pending handled s \<Longrightarrow> sn_chan s = m # ms \<Longrightarrow> E \<in> EE \<Longrightarrow>
    handle_message E m (s\<lparr>sn_chan := ms\<rparr>) = Some (s', Inr True) \<Longrightarrow>
    session_run EE input s0 pending (handled @ [m]) s'"

text \<open>Everything a client sent is answered once, is in the channel, or has still to be read, in this order.\<close>

definition session_inv :: "lib \<Rightarrow> bool \<Rightarrow> message list \<Rightarrow> message list \<Rightarrow> message list \<Rightarrow> 'd session \<Rightarrow> bool" where
  "session_inv L enabled input pending handled s \<longleftrightarrow>
     length (sn_chan s) \<le> CHANNEL_SIZE \<and> Done \<notin> set handled \<and>
     request_lines input = request_lines handled @ request_lines (sn_chan s) @ request_lines pending \<and>
     list_all2 (answers L enabled) (request_lines handled) (replies (sn_out s))"

lemma session_inv_handle:
  assumes inv: "session_inv L enabled input pending handled s" and chan: "sn_chan s = m # ms"
    and E: "env_lib E = L" "cf_enable_open_assets (re_config E) = enabled"
    and h: "handle_message E m (s\<lparr>sn_chan := ms\<rparr>) = Some (s', Inr True)"
  shows "session_inv L enabled input pending (handled @ [m]) s'"
proof -
  note go = handle_message_goes_on [OF h, unfolded E]
  obtain vs where vs: "sn_out s' = sn_out s @ vs" using go(2) by auto
  then have "list_all2 (answers L enabled) (request_lines [m]) (replies vs)" using go(1) by simp
  then have "list_all2 (answers L enabled) (request_lines (handled @ [m])) (replies (sn_out s'))"
    using inv vs by (simp add: session_inv_def list_all2_appendI)
  moreover have "request_lines (sn_chan s') = request_lines ms" using go(4) by auto
  moreover have "request_lines (m # ms) = request_lines [m] @ request_lines ms" by (cases m) simp_all
  ultimately show ?thesis using inv chan go(3,5) by (simp add: session_inv_def)
qed

lemma session_inv_run:
  assumes "session_run EE input s0 pending handled s"
    and E: "\<And>E. E \<in> EE \<Longrightarrow> env_lib E = L \<and> cf_enable_open_assets (re_config E) = enabled"
    and s0: "sn_chan s0 = []" "sn_out s0 = []"
  shows "session_inv L enabled input pending handled s"
  using assms(1)
proof (induction rule: session_run.induct)
  case run_start
  then show ?case using s0 by (simp add: session_inv_def replies_def)
next
  case (run_reader m pending handled s)
  have "request_lines (m # pending) = request_lines [m] @ request_lines pending" by (cases m) simp_all
  with run_reader show ?case by (auto simp: session_inv_def)
next
  case (run_notifier pending handled s)
  then show ?case by (auto simp: session_inv_def try_send_def)
next
  case (run_shutdown pending handled s)
  then show ?case by (auto simp: session_inv_def)
next
  case (run_others pending handled s q c n)
  then show ?case by (simp add: session_inv_def)
next
  case (run_handle pending handled s m ms E s')
  then show ?case using E [OF run_handle.hyps(3)] by (intro session_inv_handle [OF run_handle.IH]) auto
qed

lemma connection_run_end:
  assumes "connection_run ms s = Some (s', Some r)" "\<And>e. r = Inl e \<Longrightarrow> \<not> is_panic e"
  obtains s1 where "handle_replies ms (s\<lparr>sn_clients := sn_clients s + 1\<rparr>) = Some (s1, Some r)" "s' = run_end s1"
proof (cases "handle_replies ms (s\<lparr>sn_clients := sn_clients s + 1\<rparr>)")
  case None
  with assms(1) show ?thesis by (simp add: connection_run_def)
next
  case (Some x)
  obtain s1 r1 where x: "x = (s1, r1)" by (cases x)
  with assms(1) Some have r1: "r1 = Some r" by (auto simp: connection_run_def split: option.split_asm sum.split_asm if_split_asm)
  have "s' = run_end s1"
  proof (cases r)
    case (Inl e)
    with assms(2) have "\<not> is_panic e" by simp
    with assms(1) Some x r1 Inl show ?thesis by (simp add: connection_run_def)
  next
    case (Inr u)
    with assms(1) Some x r1 show ?thesis by (simp add: connection_run_def)
  qed
  with that Some x r1 show ?thesis by simp
qed

section \<open>Properties\<close>

text \<open>
  However the reader, the notifier, the shutdown and the changes of the shared state interleave with a
  connection, its channel never holds more than ten messages; the request lines the client sent are those
  handled, followed by those waiting in the channel, followed by those still to be read; and the replies
  written so far are one for each handled request, in their order, carrying its id and of the type of its
  method, whatever notifications are written in between.
\<close>

lemma session_replies_in_order:
  assumes "session_run EE (fst (handle_requests read_error stream)) (connection_open q clients subscriptions) pending handled s"
    and "\<And>E. E \<in> EE \<Longrightarrow> env_lib E = L \<and> cf_enable_open_assets (re_config E) = enabled"
  shows "length (sn_chan s) \<le> 10 \<and>
    request_lines (fst (handle_requests read_error stream)) =
      request_lines handled @ request_lines (sn_chan s) @ request_lines pending \<and>
    list_all2 (answers L enabled) (request_lines handled) (replies (sn_out s))"
  using session_inv_run [OF assms] by (simp_all add: connection_open_def session_inv_def CHANNEL_SIZE_def)

lemma update_subscriptions_returns:
  "(\<exists>sent. snd (update_subscriptions E s) = Inr sent) \<longleftrightarrow>
     (sn_last_header_entry s = None \<or> (\<exists>entry. best_header (sn_store s) = Inr entry)) \<and>
     (\<forall>h \<in> fst ` set (sn_status_hashes s). \<exists>v. current_status E (sn_query s) h = Inr v)"
proof -
  obtain e r where u: "update_header E s = (s\<lparr>sn_last_header_entry := e\<rparr>, r)"
    using update_header_frame by (metis prod.collapse)
  obtain hs r' where v: "update_statuses E (sn_query s) (sn_status_hashes s) = (hs, r')" by fastforce
  have "(\<exists>sent. snd (update_subscriptions E s) = Inr sent) \<longleftrightarrow> (\<exists>sent. r = Inr sent) \<and> (\<exists>sent. r' = Inr sent)"
    by (cases r; cases r') (simp_all add: update_subscriptions_def u v)
  with update_header_returns [of E s] update_statuses_returns [of E "sn_query s" "sn_status_hashes s"] show ?thesis
    by (simp add: u v)
qed

text \<open>
  C9: an update of the subscriptions succeeds exactly when the chain has a best header, if the client subscribed to
  headers, and the status of each subscribed script can be computed. It then leaves for every subscribed script its
  current status and for the headers the best one, sends a notification of the best header if it differs from
  the stored one, and then one for each script whose status differs from the stored one (and for no other), in the
  order of the map, and changes nothing else; a second update in the same environment sends nothing.
\<close>

theorem update_subscriptions_exact:
  shows "((\<exists>sent. snd (update_subscriptions E s) = Inr sent) \<longleftrightarrow>
      (sn_last_header_entry s = None \<or> (\<exists>entry. best_header (sn_store s) = Inr entry)) \<and>
      (\<forall>h \<in> fst ` set (sn_status_hashes s). \<exists>v. current_status E (sn_query s) h = Inr v)) \<and>
    (\<forall>s' sent. update_subscriptions E s = (s', Inr sent) \<longrightarrow> (\<exists>status headers.
      (\<forall>h \<in> fst ` set (sn_status_hashes s). current_status E (sn_query s) h = Inr (status h)) \<and>
      s' = s\<lparr>sn_last_header_entry := sn_last_header_entry s', sn_status_hashes := map (\<lambda>(h, v). (h, status h)) (sn_status_hashes s)\<rparr> \<and>
      (case sn_last_header_entry s of
         None \<Rightarrow> headers = [] \<and> sn_last_header_entry s' = None
       | Some last_entry \<Rightarrow> \<exists>entry. best_header (sn_store s) = Inr entry \<and> sn_last_header_entry s' = Some entry \<and>
           headers = (if entry = last_entry then [] else [notification ''blockchain.headers.subscribe'' [header_json E entry]])) \<and>
      sent = headers @ map (\<lambda>(h, v). notification ''blockchain.scripthash.subscribe'' [j_hash (env_lib E) h, status h])
        (filter (\<lambda>(h, v). status h \<noteq> v) (sn_status_hashes s)) \<and>
      update_subscriptions E s' = (s', Inr [])))"
proof (intro conjI [OF update_subscriptions_returns] allI impI)
  fix s' sent
  assume u: "update_subscriptions E s = (s', Inr sent)"
  note f = update_subscriptions_facts [OF u]
  from f(3) obtain headers where h: "sent = headers @ status_changes E (sn_query s) (sn_status_hashes s)"
    "case sn_last_header_entry s of
       None \<Rightarrow> headers = [] \<and> sn_last_header_entry s' = None
     | Some last_entry \<Rightarrow> \<exists>entry. best_header (sn_store s) = Inr entry \<and> sn_last_header_entry s' = Some entry \<and>
         headers = (if entry = last_entry then [] else [notification ''blockchain.headers.subscribe'' [header_json E entry]])"
    by blast
  have "s' = s\<lparr>sn_last_header_entry := sn_last_header_entry s',
    sn_status_hashes := map (\<lambda>(h, v). (h, status_of E (sn_query s) h)) (sn_status_hashes s)\<rparr>" using f(5) f(2) by simp
  with f(1,4) h show "\<exists>status headers.
      (\<forall>h \<in> fst ` set (sn_status_hashes s). current_status E (sn_query s) h = Inr (status h)) \<and>
      s' = s\<lparr>sn_last_header_entry := sn_last_header_entry s', sn_status_hashes := map (\<lambda>(h, v). (h, status h)) (sn_status_hashes s)\<rparr> \<and>
      (case sn_last_header_entry s of
         None \<Rightarrow> headers = [] \<and> sn_last_header_entry s' = None
       | Some last_entry \<Rightarrow> \<exists>entry. best_header (sn_store s) = Inr entry \<and> sn_last_header_entry s' = Some entry \<and>
           headers = (if entry = last_entry then [] else [notification ''blockchain.headers.subscribe'' [header_json E entry]])) \<and>
      sent = headers @ map (\<lambda>(h, v). notification ''blockchain.scripthash.subscribe'' [j_hash (env_lib E) h, status h])
        (filter (\<lambda>(h, v). status h \<noteq> v) (sn_status_hashes s)) \<and>
      update_subscriptions E s' = (s', Inr [])"
    unfolding status_changes_def by (intro exI [of _ "status_of E (sn_query s)"] exI [of _ headers]) blast
qed

text \<open>
  A connection whose loop ends without a panic gives back what it added to the two gauges: the number of
  clients and of subscriptions are then those from before it started.
\<close>

lemma connection_run_gauges:
  assumes "connection_run ms (connection_open q clients subscriptions) = Some (s', Some r)"
    and "\<And>e. r = Inl e \<Longrightarrow> \<not> is_panic e"
  shows "sn_clients s' = clients \<and> sn_subscriptions s' = subscriptions"
proof -
  let ?s = "(connection_open q clients subscriptions)\<lparr>sn_clients := clients + 1\<rparr>"
  have c: "sn_clients (connection_open q clients subscriptions) + 1 = clients + 1" by (simp add: connection_open_def)
  obtain s1 where r: "handle_replies ms ?s = Some (s1, Some r)" and s': "s' = run_end s1"
    using assms(2) by (rule connection_run_end [OF assms(1), unfolded c])
  from handle_replies_gauges [OF r] s' show ?thesis
    by (auto simp: run_end_def gauge_def connection_open_def)
qed

text \<open>
  A read error ends the reader without a \<^verbatim>\<open>Done\<close>: nothing it sends ends the loop of the connection, which goes on
  waiting.
\<close>

lemma read_error_never_done:
  "Done \<in> set (fst (handle_requests read_error stream)) \<longleftrightarrow>
   snd (handle_requests read_error stream) \<noteq> bail ''failed to read a request''"
proof (induction read_error stream rule: handle_requests.induct)
  case (1 read_error stream)
  obtain line rest where l: "read_until stream = (line, rest)" by fastforce
  show ?case
    using 1 [OF l [symmetric]] by (subst (1 2) handle_requests.simps) (auto simp: l bail_def split: option.splits prod.splits)
qed

subsection \<open>Examples\<close>

text \<open>A client that sends one line, read as a request for \<^verbatim>\<open>server.ping\<close> with the line as its id.\<close>

definition ex_json_lib :: lib where
  "ex_json_lib = lib_ref\<lparr>js_from_str := (\<lambda>s. Some (JObj [(''method'', JStr ''server.ping''), (''id'', JStr s)]))\<rparr>"

definition ex_rpc_env :: "kv list rpc_env" where
  "ex_rpc_env = ex_env\<lparr>re_query := ex_query\<lparr>cq_lib := ex_json_lib\<rparr>\<rparr>"

lemma ex_rpc_env_simps [simp]:
  "cq_lib (re_query ex_rpc_env) = ex_json_lib" "re_config ex_rpc_env = ex_server_config"
  "re_write_ok ex_rpc_env = (\<lambda>out v. True)" "cf_enable_open_assets ex_server_config = False"
  "js_from_str ex_json_lib s = Some (JObj [(''method'', JStr ''server.ping''), (''id'', JStr s)])"
  by (simp_all add: ex_rpc_env_def ex_env_def ex_json_lib_def ex_server_config_def)

lemma ex_ping: "handle_message ex_rpc_env (Request line) s =
    Some (s\<lparr>sn_out := sn_out s @ [result_reply (JStr line) JNull]\<rparr>, Inr True)"
  by (simp add: parse_command_def handle_command_def command_of_def command_table_def open_assets_command_def)

lemma ex_requests: "handle_requests False [0x70, 0x0A] = ([Request [CHR ''p'', CHR 0x0A], Done], Inr ())"
proof -
  have "from_utf8 [0x70, 0x0A] = Some [CHR ''p'', CHR 0x0A]"
    by (simp add: from_utf8_def utf8_valid_ascii) code_simp
  then show ?thesis by (simp add: handle_requests.simps [of False "[112, 10]"] handle_requests.simps [of False "[]"])
qed

abbreviation ex_conn :: "kv list session" where
  "ex_conn \<equiv> connection_open (query_new ex_store (mempool_new 0)) 0 0"

text \<open>
  A script without history, whose stored status is not null, of a client that was last told of the first of three
  headers.
\<close>

definition ex_subscribed :: "kv list session" where
  "ex_subscribed = (connection_open (query_new (ex_store\<lparr>sto_history := [], sto_headers := ex_chain\<rparr>) (mempool_new 0)) 1 1)
     \<lparr>sn_last_header_entry := Some (ex_entry 0 10 0), sn_status_hashes := [(7, JStr ''old'')]\<rparr>"

lemma ex_no_history: "query_history_txids ex_query (sn_query ex_subscribed) 7 n = Inr []"
  by (simp add: ex_subscribed_def connection_open_def query_new_def query_history_txids_def chain_history_txids_def
    history_txids_by_code_def history_iter_scan_def confirmed_txids_def sunique_def unique_def sfilter_map_pure collect_def db_iter_scan_from_def
    kv_iter_from_def kv_sorted_def ex_query_def ext_ref_def rocksdb_ref_def
    mp_history_txids_def entries_of_script_def mempool_new_def stream_simps)

lemma ex_subscribed_fields: "sn_last_header_entry ex_subscribed = Some (ex_entry 0 10 0)"
  "sn_status_hashes ex_subscribed = [(7, JStr ''old'')]" "sto_headers (sn_store ex_subscribed) = ex_chain"
  by (simp_all add: ex_subscribed_def connection_open_def query_new_def)

lemma ex_best_header: "best_header (sn_store ex_subscribed) = Inr (ex_entry 2 12 11)"
  by (simp add: best_header_def ex_subscribed_fields)
    (simp add: header_list_tip_def header_by_blockhash_def last_hash_def ex_header_defs assert_res_def expect_def)

lemma ex_status: "current_status ex_env (sn_query ex_subscribed) 7 = Inr JNull"
proof -
  have "re_query ex_env = ex_query" "cq_lib ex_query = lib_ref" by (simp_all add: ex_env_def ex_query_def)
  then show ?thesis by (simp add: current_status_def get_history_def ex_no_history get_status_hash_def status_json_def)
qed

lemma update_subscriptions_exact_witness:
  "\<exists>s'. update_subscriptions ex_env ex_subscribed =
      (s', Inr [notification ''blockchain.headers.subscribe'' [header_json ex_env (ex_entry 2 12 11)],
        notification ''blockchain.scripthash.subscribe'' [j_hash lib_ref 7, JNull]]) \<and>
    sn_last_header_entry s' = Some (ex_entry 2 12 11) \<and> sn_status_hashes s' = [(7, JNull)]"
proof -
  note exact = update_subscriptions_exact [of ex_env ex_subscribed]
  have lib: "env_lib ex_env = lib_ref" by (simp add: ex_env_def ex_query_def)
  have ne: "ex_entry 2 12 11 \<noteq> ex_entry 0 10 0" by (simp add: ex_entry_def)
  have "\<exists>sent. snd (update_subscriptions ex_env ex_subscribed) = Inr sent"
    using conjunct1 [OF exact] by (simp add: ex_best_header ex_subscribed_fields ex_status)
  then obtain s' sent where u: "update_subscriptions ex_env ex_subscribed = (s', Inr sent)" by (metis prod.collapse)
  from conjunct2 [OF exact] u obtain status headers where
    "\<forall>h \<in> fst ` set (sn_status_hashes ex_subscribed). current_status ex_env (sn_query ex_subscribed) h = Inr (status h)"
    and s': "s' = ex_subscribed\<lparr>sn_last_header_entry := sn_last_header_entry s',
      sn_status_hashes := map (\<lambda>(h, v). (h, status h)) (sn_status_hashes ex_subscribed)\<rparr>"
    and hs: "case sn_last_header_entry ex_subscribed of
       None \<Rightarrow> headers = [] \<and> sn_last_header_entry s' = None
     | Some last_entry \<Rightarrow> \<exists>entry. best_header (sn_store ex_subscribed) = Inr entry \<and> sn_last_header_entry s' = Some entry \<and>
         headers = (if entry = last_entry then [] else [notification ''blockchain.headers.subscribe'' [header_json ex_env entry]])"
    and sent: "sent = headers @ map (\<lambda>(h, v). notification ''blockchain.scripthash.subscribe'' [j_hash (env_lib ex_env) h, status h])
        (filter (\<lambda>(h, v). status h \<noteq> v) (sn_status_hashes ex_subscribed))"
    by blast
  then have status: "status 7 = JNull" by (simp add: ex_subscribed_fields ex_status)
  have tip: "sn_last_header_entry s' = Some (ex_entry 2 12 11)"
    "headers = [notification ''blockchain.headers.subscribe'' [header_json ex_env (ex_entry 2 12 11)]]"
    using hs by (simp_all add: ex_subscribed_fields ex_best_header ne)
  have "sn_status_hashes s' = [(7, JNull)]" by (subst s') (simp add: ex_subscribed_fields status)
  with u tip show ?thesis by (simp add: sent ex_subscribed_fields status lib)
qed

end
