(* ===== verification/Rpc_Server.thy ===== *)
theory Rpc_Server
  imports Electrum_Session
begin

text \<open>
  The threads of the Electrum server (\<^verbatim>\<open>RPC\<close> in \<^verbatim>\<open>src/src/electrum/server.rs\<close>): the acceptor, the notifier, the
  main thread that spawns and joins the connections, and each connection with its reader. Any thread may take
  the next step; a step is what one thread does between two operations on a channel or a lock.
\<close>

section \<open>Connections\<close>

text \<open>
  A connection is spawned, registers its channel and runs, waits for its reader after its loop has ended, and is
  gone. What the client sends is its stream, or the part of it before a read error.
\<close>

datatype peer_phase = Starting | Serving | Closing | Gone

type_synonym client = "bool \<times> bytes"

abbreviation client_messages :: "client \<Rightarrow> message list" where
  "client_messages c \<equiv> fst (handle_requests (fst c) (snd c))"

text \<open>
  The reader has a message that waits for room in the channel, if any, and the part of the stream it has not made
  messages of, until it returns. Of that part it holds the first \<open>pr_buffered\<close> bytes, in the buffer of its
  \<^verbatim>\<open>BufReader\<close> or in the line it is reading.
\<close>

record 'd peer =
  pr_client :: client
  pr_phase :: peer_phase
  pr_session :: "'d session"
  pr_line :: "message option"
  pr_reader :: "client option"
  pr_buffered :: nat

abbreviation peer_chan :: "'d peer \<Rightarrow> message list" where
  "peer_chan p \<equiv> sn_chan (pr_session p)"

abbreviation has_room :: "'d peer \<Rightarrow> bool" where
  "has_room p \<equiv> length (peer_chan p) < CHANNEL_SIZE"

definition reader_messages :: "'d peer \<Rightarrow> message list" where
  "reader_messages p =
     (case pr_line p of None \<Rightarrow> [] | Some m \<Rightarrow> [m]) @ (case pr_reader p of None \<Rightarrow> [] | Some c \<Rightarrow> client_messages c)"

definition peer_open :: "client \<Rightarrow> 'd session \<Rightarrow> 'd peer" where
  "peer_open c s = \<lparr>pr_client = c, pr_phase = Starting, pr_session = s, pr_line = None, pr_reader = Some c, pr_buffered = 0\<rparr>"

text \<open>
  One turn of \<^verbatim>\<open>Connection::handle_requests\<close>: the message it sends, if any, and what is left to read if it goes on.
  It needs a line that ends in the bytes held, or the end of the stream.
\<close>

fun reader_next :: "client \<Rightarrow> message option \<times> client option" where
  "reader_next (read_error, stream) =
     (case read_until stream of (line, rest) \<Rightarrow>
        if read_error \<and> (line = [] \<or> last line \<noteq> 0x0A) then (None, None)
        else if line = [] \<or> take 3 line = [22, 3, 1] then (Some Done, None)
        else case from_utf8 line of
            Some req \<Rightarrow> (Some (Request req), Some (read_error, rest))
          | None \<Rightarrow> (Some Done, None))"

definition reader_ready :: "nat \<Rightarrow> bytes \<Rightarrow> bool" where
  "reader_ready held stream \<longleftrightarrow> 0x0A \<in> set (take held stream) \<or> length stream \<le> held"

text \<open>The size of the buffer of a \<^verbatim>\<open>BufReader\<close>.\<close>

definition BUFFER_SIZE :: nat where
  "BUFFER_SIZE = 8192"

text \<open>\<^verbatim>\<open>Connection::run\<close> begins.\<close>

definition peer_serve :: "'d peer \<Rightarrow> 'd peer" where
  "peer_serve p = p\<lparr>pr_phase := Serving, pr_session := (pr_session p)\<lparr>sn_clients := sn_clients (pr_session p) + 1\<rparr>\<rparr>"

definition peer_send :: "message \<Rightarrow> 'd peer \<Rightarrow> 'd peer" where
  "peer_send m p = p\<lparr>pr_session := (pr_session p)\<lparr>sn_chan := peer_chan p @ [m]\<rparr>\<rparr>"

definition peer_notify :: "'d peer \<Rightarrow> 'd peer" where
  "peer_notify p = p\<lparr>pr_session := try_send PeriodicUpdate (pr_session p)\<rparr>"

definition shared :: "'d query \<Rightarrow> int \<Rightarrow> int \<Rightarrow> 'd session \<Rightarrow> 'd session" where
  "shared q c n s = s\<lparr>sn_query := q, sn_clients := c, sn_subscriptions := n\<rparr>"

text \<open>
  Shutting the stream down: the reader still finds what it holds and perhaps more of what the client has sent
  (\<open>k\<close> bytes in all), and then the end or an error.
\<close>

definition shut_down :: "bool \<Rightarrow> nat \<Rightarrow> client option \<Rightarrow> client option" where
  "shut_down read_error k reader = map_option (\<lambda>(_, stream). (read_error, take k stream)) reader"

text \<open>
  The steps of a connection's own threads. The reader fills its buffer when no line ends in it, makes a message
  of the next line, and sends it when there is room. The loop takes the oldest message and handles it in one of the
  environments, with the query and the gauges as the other threads have left them; when it ends the stream is shut
  down. A panic of the loop, where it unwinds, ends the connection without waiting for the reader.
\<close>

inductive peer_step :: "'d rpc_env set \<Rightarrow> 'd peer \<Rightarrow> 'd peer \<Rightarrow> bool" for EE :: "'d rpc_env set" where
  peer_fill: "pr_phase p \<in> {Serving, Closing} \<Longrightarrow> pr_line p = None \<Longrightarrow> pr_reader p = Some (read_error, stream) \<Longrightarrow>
    \<not> reader_ready (pr_buffered p) stream \<Longrightarrow>
    pr_buffered p < n \<Longrightarrow> n \<le> pr_buffered p + BUFFER_SIZE \<Longrightarrow> n \<le> length stream \<Longrightarrow>
    peer_step EE p (p\<lparr>pr_buffered := n\<rparr>)"
| peer_read: "pr_phase p \<in> {Serving, Closing} \<Longrightarrow> pr_line p = None \<Longrightarrow> pr_reader p = Some (read_error, stream) \<Longrightarrow>
    reader_ready (pr_buffered p) stream \<Longrightarrow> reader_next (read_error, stream) = (line, reader) \<Longrightarrow>
    peer_step EE p (p\<lparr>pr_line := line, pr_reader := reader,
      pr_buffered := pr_buffered p - length (fst (read_until stream))\<rparr>)"
| peer_queue: "pr_phase p \<in> {Serving, Closing} \<Longrightarrow> pr_line p = Some m \<Longrightarrow> has_room p \<Longrightarrow>
    peer_step EE p ((peer_send m p)\<lparr>pr_line := None\<rparr>)"
| peer_handle: "pr_phase p = Serving \<Longrightarrow> peer_chan p = m # ms \<Longrightarrow> E \<in> EE \<Longrightarrow>
    handle_message E m ((shared q c n (pr_session p))\<lparr>sn_chan := ms\<rparr>) = Some (s', Inr True) \<Longrightarrow>
    peer_step EE p (p\<lparr>pr_session := s'\<rparr>)"
| peer_finish: "pr_phase p = Serving \<Longrightarrow> peer_chan p = m # ms \<Longrightarrow> E \<in> EE \<Longrightarrow>
    handle_message E m ((shared q c n (pr_session p))\<lparr>sn_chan := ms\<rparr>) = Some (s', r) \<Longrightarrow>
    r = Inr False \<or> (\<exists>e. r = Inl e \<and> \<not> is_panic e) \<Longrightarrow> pr_buffered p \<le> k \<Longrightarrow>
    peer_step EE p (p\<lparr>pr_phase := Closing, pr_session := run_end s', pr_reader := shut_down read_error k (pr_reader p)\<rparr>)"
| peer_panic: "pr_phase p = Serving \<Longrightarrow> peer_chan p = m # ms \<Longrightarrow> E \<in> EE \<Longrightarrow>
    handle_message E m ((shared q c n (pr_session p))\<lparr>sn_chan := ms\<rparr>) = Some (s', Inl e) \<Longrightarrow> is_panic e \<Longrightarrow>
    peer_step EE p (p\<lparr>pr_phase := Gone, pr_session := s'\<rparr>)"

text \<open>Turn by turn, the reader sends what \<open>handle_requests\<close> sends.\<close>

lemma client_messages_next:
  assumes "reader_next c = (line, reader)"
  shows "client_messages c =
    (case line of None \<Rightarrow> [] | Some m \<Rightarrow> [m]) @ (case reader of None \<Rightarrow> [] | Some c' \<Rightarrow> client_messages c')"
proof -
  obtain e bs where c: "c = (e, bs)" by (cases c)
  obtain l rest where l: "read_until bs = (l, rest)" by fastforce
  show ?thesis using assms unfolding c by (subst handle_requests.simps) (auto simp: l split: if_splits option.splits prod.splits)
qed

lemma reader_next_shorter:
  assumes "reader_next (e, bs) = (line, Some (e', rest))"
  shows "length rest < length bs"
proof -
  obtain l r where l: "read_until bs = (l, r)" by fastforce
  with assms have "l \<noteq> []" "rest = r" by (auto split: if_splits option.splits)
  with read_until_progress [OF l [symmetric]] show ?thesis by simp
qed

section \<open>The server\<close>

text \<open>
  The main thread waits for a connection, joins those that have ended after each new one, and, once told to
  stop, sends \<^verbatim>\<open>Done\<close> to the registered channels (with the list locked) and joins the others.
\<close>

datatype main_phase = Accepting | Collecting | SendingDone "nat list" | Joining "nat list" | Closed

record 'd rpc_server =
  rv_dropped :: bool
  rv_notifications :: "notification_msg list"
  rv_accepted :: "client option list"
  rv_senders :: "nat list"
  rv_threads :: "nat list"
  rv_garbage :: "nat list"
  rv_peers :: "'d peer list"
  rv_main :: main_phase

definition rpc_start :: "'d rpc_server" where
  "rpc_start = \<lparr>rv_dropped = False, rv_notifications = [], rv_accepted = [], rv_senders = [], rv_threads = [],
     rv_garbage = [], rv_peers = [], rv_main = Accepting\<rparr>"

fun senders_locked :: "'d rpc_server \<Rightarrow> bool" where
  "senders_locked s = (case rv_main s of SendingDone is \<Rightarrow> True | _ \<Rightarrow> False)"

declare senders_locked.simps [simp del]

abbreviation with_peer :: "nat \<Rightarrow> 'd peer \<Rightarrow> 'd rpc_server \<Rightarrow> 'd rpc_server" where
  "with_peer i p s \<equiv> s\<lparr>rv_peers := (rv_peers s)[i := p]\<rparr>"

text \<open>
  The notifier: each registered channel gets a \<^verbatim>\<open>PeriodicUpdate\<close> if it has room; a channel whose connection has
  gone is forgotten. \<^verbatim>\<open>Exit\<close> ends the connections to be accepted.
\<close>

fun notify_senders :: "nat list \<Rightarrow> 'd peer list \<Rightarrow> nat list \<times> 'd peer list" where
  "notify_senders [] ps = ([], ps)"
| "notify_senders (i # is) ps =
     (if pr_phase (ps ! i) = Gone then notify_senders is ps
      else case notify_senders is (ps[i := peer_notify (ps ! i)]) of (kept, ps') \<Rightarrow> (i # kept, ps'))"

fun notifier_step :: "notification_msg \<Rightarrow> 'd rpc_server \<Rightarrow> 'd rpc_server" where
  "notifier_step Periodic s =
     (case notify_senders (rv_senders s) (rv_peers s) of (senders, peers) \<Rightarrow> s\<lparr>rv_senders := senders, rv_peers := peers\<rparr>)"
| "notifier_step Exit s = s\<lparr>rv_accepted := rv_accepted s @ [None]\<rparr>"

text \<open>
  \<open>rpc_notify_step\<close> and \<open>rpc_drop_step\<close> are those of the owner of the server, \<open>rpc_connect\<close> of the acceptor, \<open>rpc_register\<close>
  and \<open>rpc_leave\<close> of a connection's thread; the main thread's are the rest.
\<close>

inductive rpc_step :: "'d rpc_env set \<Rightarrow> 'd rpc_server \<Rightarrow> 'd rpc_server \<Rightarrow> bool" for EE :: "'d rpc_env set" where
  rpc_notify_step: "\<not> rv_dropped s \<Longrightarrow> rpc_step EE s (s\<lparr>rv_notifications := rv_notifications s @ [Periodic]\<rparr>)"
| rpc_drop_step: "\<not> rv_dropped s \<Longrightarrow>
    rpc_step EE s (s\<lparr>rv_dropped := True, rv_notifications := rv_notifications s @ [Exit]\<rparr>)"
| rpc_connect: "rv_main s \<noteq> Closed \<Longrightarrow> rpc_step EE s (s\<lparr>rv_accepted := rv_accepted s @ [Some client]\<rparr>)"
| rpc_notifier: "rv_notifications s = n # ns \<Longrightarrow> \<not> senders_locked s \<Longrightarrow>
    rpc_step EE s (notifier_step n (s\<lparr>rv_notifications := ns\<rparr>))"
| rpc_accept: "rv_main s = Accepting \<Longrightarrow> rv_accepted s = Some client # rest \<Longrightarrow>
    rpc_step EE s (s\<lparr>rv_main := Collecting, rv_accepted := rest, rv_threads := rv_threads s @ [length (rv_peers s)],
      rv_peers := rv_peers s @ [peer_open client (connection_open q c n)]\<rparr>)"
| rpc_collect: "rv_main s = Collecting \<Longrightarrow> rv_garbage s = i # rest \<Longrightarrow>
    rpc_step EE s (s\<lparr>rv_garbage := rest, rv_threads := filter (\<lambda>j. j \<noteq> i) (rv_threads s)\<rparr>)"
| rpc_collected: "rv_main s = Collecting \<Longrightarrow> rv_garbage s = [] \<Longrightarrow> rpc_step EE s (s\<lparr>rv_main := Accepting\<rparr>)"
| rpc_stop: "rv_main s = Accepting \<Longrightarrow> rv_accepted s = None # rest \<Longrightarrow>
    rpc_step EE s (s\<lparr>rv_main := SendingDone (rv_senders s), rv_accepted := rest\<rparr>)"
| rpc_send_done: "rv_main s = SendingDone (i # is) \<Longrightarrow> pr_phase (rv_peers s ! i) \<noteq> Gone \<Longrightarrow> has_room (rv_peers s ! i) \<Longrightarrow>
    rpc_step EE s (with_peer i (peer_send Done (rv_peers s ! i)) (s\<lparr>rv_main := SendingDone is\<rparr>))"
| rpc_skip_gone: "rv_main s = SendingDone (i # is) \<Longrightarrow> pr_phase (rv_peers s ! i) = Gone \<Longrightarrow>
    rpc_step EE s (s\<lparr>rv_main := SendingDone is\<rparr>)"
| rpc_sent: "rv_main s = SendingDone [] \<Longrightarrow> rpc_step EE s (s\<lparr>rv_main := Joining (rv_threads s)\<rparr>)"
| rpc_join: "rv_main s = Joining is \<Longrightarrow> i \<in> set is \<Longrightarrow> pr_phase (rv_peers s ! i) = Gone \<Longrightarrow>
    rpc_step EE s (s\<lparr>rv_main := Joining (filter (\<lambda>j. j \<noteq> i) is)\<rparr>)"
| rpc_close: "rv_main s = Joining [] \<Longrightarrow> rpc_step EE s (s\<lparr>rv_main := Closed\<rparr>)"
| rpc_register: "i < length (rv_peers s) \<Longrightarrow> pr_phase (rv_peers s ! i) = Starting \<Longrightarrow> \<not> senders_locked s \<Longrightarrow>
    rpc_step EE s (with_peer i (peer_serve (rv_peers s ! i)) (s\<lparr>rv_senders := rv_senders s @ [i]\<rparr>))"
| rpc_peer: "i < length (rv_peers s) \<Longrightarrow> peer_step EE (rv_peers s ! i) p \<Longrightarrow> rpc_step EE s (with_peer i p s)"
| rpc_leave: "i < length (rv_peers s) \<Longrightarrow> pr_phase (rv_peers s ! i) = Closing \<Longrightarrow>
    pr_line (rv_peers s ! i) = None \<Longrightarrow> pr_reader (rv_peers s ! i) = None \<Longrightarrow>
    rpc_step EE s (with_peer i ((rv_peers s ! i)\<lparr>pr_phase := Gone\<rparr>) (s\<lparr>rv_garbage := rv_garbage s @ [i]\<rparr>))"

abbreviation rpc_steps :: "'d rpc_env set \<Rightarrow> 'd rpc_server \<Rightarrow> 'd rpc_server \<Rightarrow> bool" where
  "rpc_steps EE \<equiv> (rpc_step EE)\<^sup>*\<^sup>*"

definition rpc_reach :: "'d rpc_env set \<Rightarrow> 'd rpc_server \<Rightarrow> bool" where
  "rpc_reach EE s \<longleftrightarrow> rpc_steps EE rpc_start s"

lemma rpc_reach_induct [consumes 1, case_names start step]:
  assumes "rpc_reach EE s" "P rpc_start" "\<And>s s'. rpc_reach EE s \<Longrightarrow> P s \<Longrightarrow> rpc_step EE s s' \<Longrightarrow> P s'"
  shows "P s"
  using assms(1) unfolding rpc_reach_def
  by (induction rule: rtranclp_induct) (use assms(2,3) in \<open>auto simp: rpc_reach_def\<close>)

section \<open>Invariants\<close>

subsection \<open>The notifier\<close>

lemma peer_notify_phase [simp]: "pr_phase (peer_notify p) = pr_phase p" "pr_line (peer_notify p) = pr_line p"
  "pr_reader (peer_notify p) = pr_reader p" "pr_buffered (peer_notify p) = pr_buffered p" "pr_client (peer_notify p) = pr_client p"
  by (simp_all add: peer_notify_def)

lemma peer_send_phase [simp]: "pr_phase (peer_send m p) = pr_phase p" "pr_line (peer_send m p) = pr_line p"
  "pr_reader (peer_send m p) = pr_reader p" "pr_buffered (peer_send m p) = pr_buffered p" "pr_client (peer_send m p) = pr_client p"
  by (simp_all add: peer_send_def)

text \<open>The channels registered afterwards are those of the connections not gone, each notified once.\<close>

lemma notify_senders_exact:
  assumes "distinct is" "set is \<subseteq> {..<length ps}"
  shows "notify_senders is ps =
    (filter (\<lambda>i. pr_phase (ps ! i) \<noteq> Gone) is,
     map (\<lambda>i. if i \<in> set is \<and> pr_phase (ps ! i) \<noteq> Gone then peer_notify (ps ! i) else ps ! i) [0..<length ps])"
  using assms
proof (induction "is" ps rule: notify_senders.induct)
  case (1 ps)
  then show ?case by (simp add: map_nth)
next
  case (2 i "is" ps)
  show ?case
  proof (cases "pr_phase (ps ! i) = Gone")
    case True
    with "2.IH"(1) [OF True] "2.prems" show ?thesis by auto
  next
    case False
    let ?qs = "ps[i := peer_notify (ps ! i)]"
    have "notify_senders is ?qs =
      (filter (\<lambda>j. pr_phase (?qs ! j) \<noteq> Gone) is,
       map (\<lambda>j. if j \<in> set is \<and> pr_phase (?qs ! j) \<noteq> Gone then peer_notify (?qs ! j) else ?qs ! j) [0..<length ?qs])"
      using "2.IH"(2) [OF False] "2.prems" by simp
    moreover have "filter (\<lambda>j. pr_phase (?qs ! j) \<noteq> Gone) is = filter (\<lambda>j. pr_phase (ps ! j) \<noteq> Gone) is"
      using "2.prems" by (intro filter_cong) (auto simp: nth_list_update)
    ultimately show ?thesis using False "2.prems" by (auto simp: nth_list_update)
  qed
qed

lemma notifier_step_fields:
  "rv_dropped (notifier_step n s) = rv_dropped s" "rv_notifications (notifier_step n s) = rv_notifications s"
  "rv_threads (notifier_step n s) = rv_threads s" "rv_garbage (notifier_step n s) = rv_garbage s"
  "rv_main (notifier_step n s) = rv_main s"
  by (cases n; simp split: prod.splits)+

lemma notifier_step_senders:
  assumes "distinct (rv_senders s)" "set (rv_senders s) \<subseteq> {..<length (rv_peers s)}"
  shows "map pr_phase (rv_peers (notifier_step n s)) = map pr_phase (rv_peers s)"
    and "rv_senders (notifier_step n s) =
      (if n = Periodic then filter (\<lambda>i. pr_phase (rv_peers s ! i) \<noteq> Gone) (rv_senders s) else rv_senders s)"
    and "\<forall>i < length (rv_peers s). rv_peers (notifier_step n s) ! i \<in> {rv_peers s ! i, peer_notify (rv_peers s ! i)}"
proof -
  show "map pr_phase (rv_peers (notifier_step n s)) = map pr_phase (rv_peers s)"
    using notify_senders_exact [OF assms] by (cases n) (auto intro: nth_equalityI)
  show "rv_senders (notifier_step n s) =
      (if n = Periodic then filter (\<lambda>i. pr_phase (rv_peers s ! i) \<noteq> Gone) (rv_senders s) else rv_senders s)"
    using notify_senders_exact [OF assms] by (cases n) simp_all
  show "\<forall>i < length (rv_peers s). rv_peers (notifier_step n s) ! i \<in> {rv_peers s ! i, peer_notify (rv_peers s ! i)}"
    using notify_senders_exact [OF assms] by (cases n) simp_all
qed

declare notifier_step.simps [simp del]

subsection \<open>Registered and joined\<close>

text \<open>
  In terms of the phases alone: a running connection is registered, a connection that is not gone has a thread the
  main thread has still to join, and those in the garbage are gone.
\<close>

definition awaited :: "'d rpc_server \<Rightarrow> nat list" where
  "awaited s = (case rv_main s of Joining is \<Rightarrow> is | Closed \<Rightarrow> [] | _ \<Rightarrow> rv_threads s)"

lemma awaited_frame [simp]:
  "awaited (s\<lparr>rv_peers := ps\<rparr>) = awaited s" "awaited (s\<lparr>rv_senders := ss\<rparr>) = awaited s"
  "awaited (s\<lparr>rv_garbage := g\<rparr>) = awaited s" "awaited (s\<lparr>rv_notifications := ns\<rparr>) = awaited s"
  "awaited (s\<lparr>rv_accepted := cs\<rparr>) = awaited s" "awaited (s\<lparr>rv_dropped := b\<rparr>) = awaited s"
  by (simp_all add: awaited_def split: main_phase.split)

definition threads_ok :: "peer_phase list \<Rightarrow> nat list \<Rightarrow> nat list \<Rightarrow> nat list \<Rightarrow> bool" where
  "threads_ok phases senders threads garbage \<longleftrightarrow>
     distinct senders \<and> set senders \<subseteq> {..<length phases} \<and> set threads \<subseteq> {..<length phases} \<and>
     (\<forall>i < length phases. (phases ! i = Starting \<longrightarrow> i \<notin> set senders) \<and>
        (phases ! i \<in> {Serving, Closing} \<longrightarrow> i \<in> set senders) \<and>
        (phases ! i \<noteq> Gone \<longrightarrow> i \<in> set threads)) \<and>
     (\<forall>i \<in> set garbage. i < length phases \<and> phases ! i = Gone)"

definition rpc_threads_ok :: "'d rpc_server \<Rightarrow> bool" where
  "rpc_threads_ok s \<longleftrightarrow>
     threads_ok (map pr_phase (rv_peers s)) (rv_senders s) (awaited s) (rv_garbage s) \<and>
     (\<forall>is. rv_main s = SendingDone is \<longrightarrow> set is \<subseteq> set (rv_senders s))"

lemma peer_step_phase:
  "peer_step EE p p' \<Longrightarrow> pr_phase p \<in> {Serving, Closing} \<and> pr_phase p' \<in> {Serving, Closing, Gone} \<and> pr_client p' = pr_client p"
  by (induction rule: peer_step.induct) auto

lemma threads_ok_update:
  assumes "threads_ok phases senders threads garbage" "i < length phases" "phases ! i \<in> {Serving, Closing}"
    "ph \<in> {Serving, Closing, Gone}"
  shows "threads_ok (phases[i := ph]) senders threads garbage"
  using assms by (auto simp: threads_ok_def nth_list_update)

lemma threads_ok_forget:
  assumes "threads_ok phases senders threads garbage" "\<And>i. i \<in> set senders \<Longrightarrow> gone i \<longleftrightarrow> phases ! i = Gone"
  shows "threads_ok phases (filter (\<lambda>i. \<not> gone i) senders) threads garbage"
  using assms by (auto simp: threads_ok_def)

lemma threads_ok_same_phase: "i < length ps \<Longrightarrow> pr_phase p = pr_phase (ps ! i) \<Longrightarrow> map pr_phase (ps[i := p]) = map pr_phase ps"
  by (simp add: map_update list_update_same_conv)

lemma rpc_threads_step:
  assumes "rpc_step EE s s'" "rpc_threads_ok s"
  shows "rpc_threads_ok s'"
  using assms
proof (induction rule: rpc_step.induct)
  case (rpc_notifier s n ns)
  let ?s = "s\<lparr>rv_notifications := ns\<rparr>"
  have "distinct (rv_senders ?s)" "set (rv_senders ?s) \<subseteq> {..<length (rv_peers ?s)}"
    using rpc_notifier.prems by (simp_all add: rpc_threads_ok_def threads_ok_def)
  note ns = notifier_step_senders [OF this, of n] notifier_step_fields [of n ?s]
  have ok: "threads_ok (map pr_phase (rv_peers s)) (rv_senders s) (awaited s) (rv_garbage s)"
    using rpc_notifier.prems by (simp add: rpc_threads_ok_def)
  then have "set (rv_senders s) \<subseteq> {..<length (rv_peers s)}" by (simp add: threads_ok_def)
  with ok have "threads_ok (map pr_phase (rv_peers s)) (filter (\<lambda>i. pr_phase (rv_peers s ! i) \<noteq> Gone) (rv_senders s))
      (awaited s) (rv_garbage s)" by (intro threads_ok_forget) (auto simp: nth_map subset_iff)
  moreover have "awaited (notifier_step n ?s) = awaited s"
    by (simp add: awaited_def ns(4-) split: main_phase.split)
  ultimately show ?case using ok rpc_notifier.hyps(2)
    by (auto simp: rpc_threads_ok_def ns(1,2) ns(4-) senders_locked.simps)
next
  case rpc_accept
  then show ?case by (auto simp: rpc_threads_ok_def threads_ok_def awaited_def nth_append peer_open_def less_Suc_eq)
next
  case (rpc_collect s i rest)
  then show ?case by (auto simp: rpc_threads_ok_def threads_ok_def awaited_def)
next
  case (rpc_stop s rest)
  then show ?case by (auto simp: rpc_threads_ok_def threads_ok_def awaited_def)
next
  case (rpc_send_done s i "is")
  then have "i < length (rv_peers s)" by (auto simp: rpc_threads_ok_def threads_ok_def)
  with rpc_send_done show ?case by (simp add: rpc_threads_ok_def awaited_def threads_ok_same_phase)
next
  case (rpc_join s "is" i)
  then show ?case by (auto simp: rpc_threads_ok_def threads_ok_def awaited_def)
next
  case (rpc_register i s)
  then show ?case by (auto simp: rpc_threads_ok_def threads_ok_def awaited_def peer_serve_def map_update nth_list_update split: main_phase.splits)
next
  case (rpc_peer i s p)
  note ph = peer_step_phase [OF rpc_peer.hyps(2)]
  from rpc_peer.prems have "threads_ok (map pr_phase (rv_peers s)) (rv_senders s) (awaited s) (rv_garbage s)"
    by (simp add: rpc_threads_ok_def)
  from threads_ok_update [OF this, of i "pr_phase p"] ph rpc_peer.hyps(1) rpc_peer.prems show ?case
    by (simp add: rpc_threads_ok_def map_update)
next
  case (rpc_leave i s)
  then show ?case by (auto simp: rpc_threads_ok_def threads_ok_def map_update nth_list_update)
qed (simp_all add: rpc_threads_ok_def, simp_all add: awaited_def)

lemma rpc_threads_reach: "rpc_reach EE s \<Longrightarrow> rpc_threads_ok s"
proof (induction rule: rpc_reach_induct)
  case start
  show ?case by (simp add: rpc_start_def rpc_threads_ok_def threads_ok_def awaited_def)
next
  case (step s s')
  then show ?case by (blast intro: rpc_threads_step)
qed

subsection \<open>Stopping\<close>

definition stop_ok :: "'d rpc_server \<Rightarrow> bool" where
  "stop_ok s \<longleftrightarrow>
     (None \<in> set (rv_accepted s) \<or> Exit \<in> set (rv_notifications s) \<or> rv_main s \<notin> {Accepting, Collecting} \<longrightarrow> rv_dropped s)"

lemma notifier_step_accepted: "rv_accepted (notifier_step n s) = rv_accepted s @ (if n = Exit then [None] else [])"
  by (cases n) (simp_all add: notifier_step.simps split: prod.split)

lemma stop_step: "rpc_step EE s s' \<Longrightarrow> stop_ok s \<Longrightarrow> stop_ok s'"
  by (induction rule: rpc_step.induct) (auto simp: stop_ok_def notifier_step_fields notifier_step_accepted)

lemma stop_reach: "rpc_reach EE s \<Longrightarrow> stop_ok s"
proof (induction rule: rpc_reach_induct)
  case start
  show ?case by (simp add: rpc_start_def stop_ok_def)
next
  case (step s s')
  then show ?case by (blast intro: stop_step)
qed

subsection \<open>Every connection is a session\<close>

definition session_reached :: "'d rpc_env set \<Rightarrow> message list \<Rightarrow> message list \<Rightarrow> 'd session \<Rightarrow> bool" where
  "session_reached EE input pending s \<longleftrightarrow>
     (\<exists>q c n handled. session_run EE input (connection_open q c n) pending handled s)"

lemma session_reached_start: "session_reached EE input input (s\<lparr>sn_clients := sn_clients s + 1\<rparr>)"
  if "s = connection_open q c n"
  unfolding session_reached_def that by (intro exI, rule run_start)

lemma session_reached_reader:
  "session_reached EE input (m # ms) s \<Longrightarrow> length (sn_chan s) < CHANNEL_SIZE \<Longrightarrow>
    session_reached EE input ms (s\<lparr>sn_chan := sn_chan s @ [m]\<rparr>)"
  unfolding session_reached_def by (blast intro: run_reader)

lemma session_reached_notifier:
  "session_reached EE input ms s \<Longrightarrow> session_reached EE input ms (try_send PeriodicUpdate s)"
  unfolding session_reached_def by (blast intro: run_notifier)

lemma session_reached_shutdown:
  "session_reached EE input ms s \<Longrightarrow> length (sn_chan s) < CHANNEL_SIZE \<Longrightarrow>
    session_reached EE input ms (s\<lparr>sn_chan := sn_chan s @ [Done]\<rparr>)"
  unfolding session_reached_def by (blast intro: run_shutdown)

lemma session_reached_handle:
  assumes "session_reached EE input pending s" "sn_chan s = m # ms" "E \<in> EE"
    "handle_message E m ((shared q c n s)\<lparr>sn_chan := ms\<rparr>) = Some (s', Inr True)"
  shows "session_reached EE input pending s'"
proof -
  from assms(1) obtain q0 c0 n0 handled where "session_run EE input (connection_open q0 c0 n0) pending handled s"
    by (auto simp: session_reached_def)
  from run_handle [OF run_others [OF this, where q = q and c = c and n = n], of m ms E s'] assms(2-)
  show ?thesis by (auto simp: session_reached_def shared_def)
qed

definition peer_ok :: "'d rpc_env set \<Rightarrow> 'd peer \<Rightarrow> bool" where
  "peer_ok EE p \<longleftrightarrow>
     (pr_phase p = Starting \<longrightarrow> reader_messages p = client_messages (pr_client p) \<and> (\<exists>q c n. pr_session p = connection_open q c n)) \<and>
     (pr_phase p = Serving \<longrightarrow> session_reached EE (client_messages (pr_client p)) (reader_messages p) (pr_session p)) \<and>
     (pr_phase p \<noteq> Gone \<longrightarrow> length (peer_chan p) \<le> CHANNEL_SIZE)"

lemma reader_messages_simps [simp]:
  "reader_messages (p\<lparr>pr_session := s\<rparr>) = reader_messages p" "reader_messages (p\<lparr>pr_phase := ph\<rparr>) = reader_messages p"
  "reader_messages (peer_send m p) = reader_messages p" "reader_messages (peer_notify p) = reader_messages p"
  "reader_messages (p\<lparr>pr_buffered := n\<rparr>) = reader_messages p"
  by (simp_all add: reader_messages_def)

lemma try_send_bound: "length (sn_chan s) \<le> CHANNEL_SIZE \<Longrightarrow> length (sn_chan (try_send m s)) \<le> CHANNEL_SIZE"
  by (simp add: try_send_def)

lemma handle_message_chan:
  "handle_message E m s = Some (s', r) \<Longrightarrow> length (sn_chan s) \<le> CHANNEL_SIZE \<Longrightarrow> length (sn_chan s') \<le> CHANNEL_SIZE"
  using handle_message_frame by blast

lemma peer_ok_open: "peer_ok EE (peer_open client (connection_open q c n))"
  by (auto simp: peer_ok_def peer_open_def reader_messages_def connection_open_def)

lemma peer_ok_serve: "peer_ok EE p \<Longrightarrow> pr_phase p = Starting \<Longrightarrow> peer_ok EE (peer_serve p)"
  by (auto simp: peer_ok_def peer_serve_def intro: session_reached_start)

lemma peer_ok_notify: "peer_ok EE p \<Longrightarrow> pr_phase p \<noteq> Starting \<Longrightarrow> peer_ok EE (peer_notify p)"
  using try_send_bound [of "pr_session p"] by (auto simp: peer_ok_def peer_notify_def intro: session_reached_notifier)

lemma peer_ok_send_done: "peer_ok EE p \<Longrightarrow> pr_phase p \<noteq> Starting \<Longrightarrow> has_room p \<Longrightarrow> peer_ok EE (peer_send Done p)"
  by (simp add: peer_ok_def peer_send_def session_reached_shutdown)

lemma reader_messages_read: "pr_line p = None \<Longrightarrow> pr_reader p = Some c \<Longrightarrow> reader_next c = (line, reader) \<Longrightarrow>
    reader_messages (p\<lparr>pr_line := line, pr_reader := reader, pr_buffered := n\<rparr>) = reader_messages p"
  using client_messages_next [of c line reader] by (simp add: reader_messages_def)

lemma peer_ok_step: "peer_step EE p p' \<Longrightarrow> peer_ok EE p \<Longrightarrow> peer_ok EE p'"
proof (induction rule: peer_step.induct)
  case (peer_read p read_error stream line reader)
  from peer_read.hyps(1) peer_read.prems reader_messages_read [OF peer_read.hyps(2,3,5)] show ?case
    by (auto simp: peer_ok_def)
next
  case (peer_queue p m)
  then show ?case by (auto simp: peer_ok_def reader_messages_def peer_send_def intro: session_reached_reader)
next
  case (peer_handle p m ms E q c n s')
  have "length (sn_chan s') \<le> CHANNEL_SIZE"
    by (rule handle_message_chan [OF peer_handle.hyps(4)]) (use peer_handle in \<open>simp add: peer_ok_def shared_def\<close>)
  with peer_handle show ?case by (auto simp: peer_ok_def intro: session_reached_handle)
next
  case (peer_finish p m ms E q c n s' r k e)
  have "length (sn_chan s') \<le> CHANNEL_SIZE"
    by (rule handle_message_chan [OF peer_finish.hyps(4)]) (use peer_finish in \<open>simp add: peer_ok_def shared_def\<close>)
  then show ?case by (simp add: peer_ok_def run_end_def)
qed (auto simp: peer_ok_def)

lemma peers_step:
  assumes "rpc_step EE s s'" "rpc_threads_ok s" "\<forall>p \<in> set (rv_peers s). peer_ok EE p"
  shows "\<forall>p \<in> set (rv_peers s'). peer_ok EE p"
  using assms
proof (induction rule: rpc_step.induct)
  case (rpc_notifier s n ns)
  let ?s = "s\<lparr>rv_notifications := ns\<rparr>"
  have ok: "distinct (rv_senders ?s)" "set (rv_senders ?s) \<subseteq> {..<length (rv_peers ?s)}"
    "\<forall>i < length (rv_peers s). pr_phase (rv_peers s ! i) = Starting \<longrightarrow> i \<notin> set (rv_senders s)"
    using rpc_notifier.prems(1) by (simp_all add: rpc_threads_ok_def threads_ok_def)
  show ?case
  proof (cases n)
    case Periodic
    then show ?thesis using rpc_notifier.prems(2) ok(3)
      by (auto simp: notifier_step.simps notify_senders_exact [OF ok(1,2), simplified] intro!: peer_ok_notify)
  qed (use rpc_notifier.prems(2) in \<open>simp add: notifier_step.simps\<close>)
next
  case rpc_accept
  then show ?case by (auto simp: peer_ok_open)
next
  case (rpc_send_done s i "is")
  then have i: "i < length (rv_peers s)" "pr_phase (rv_peers s ! i) \<noteq> Starting"
    by (auto simp: rpc_threads_ok_def threads_ok_def)
  with rpc_send_done.hyps rpc_send_done.prems(2) have "peer_ok EE (peer_send Done (rv_peers s ! i))"
    by (intro peer_ok_send_done) simp_all
  with rpc_send_done.prems(2) show ?case by (auto dest!: set_update_subset_insert [THEN subsetD])
next
  case (rpc_register i s)
  then have "peer_ok EE (peer_serve (rv_peers s ! i))" by (intro peer_ok_serve) simp_all
  with rpc_register.prems(2) show ?case by (auto dest!: set_update_subset_insert [THEN subsetD])
next
  case (rpc_peer i s p)
  then have "peer_ok EE p" by (blast intro: peer_ok_step nth_mem)
  with rpc_peer.prems(2) show ?case by (auto dest!: set_update_subset_insert [THEN subsetD])
next
  case (rpc_leave i s)
  have "peer_ok EE ((rv_peers s ! i)\<lparr>pr_phase := Gone\<rparr>)" by (simp add: peer_ok_def)
  with rpc_leave.prems(2) show ?case by (auto dest!: set_update_subset_insert [THEN subsetD])
qed simp_all

lemma peers_reach: "rpc_reach EE s \<Longrightarrow> \<forall>p \<in> set (rv_peers s). peer_ok EE p"
proof (induction rule: rpc_reach_induct)
  case start
  show ?case by (simp add: rpc_start_def)
next
  case (step s s')
  then show ?case using peers_step [OF step(2) rpc_threads_reach [OF step(1)]] by blast
qed

section \<open>A blocked shutdown\<close>

text \<open>
  A connection whose loop has ended keeps its channel until its reader returns, and nobody takes from it any more:
  the reader waits for ever if there is not enough room for all it has still to send.
\<close>

definition overfull :: "'d peer \<Rightarrow> bool" where
  "overfull p \<longleftrightarrow> pr_phase p = Closing \<and> CHANNEL_SIZE < length (peer_chan p) + length (reader_messages p)"

lemma overfull_peer: "peer_step EE p p' \<Longrightarrow> overfull p \<Longrightarrow> overfull p'"
proof (induction rule: peer_step.induct)
  case (peer_read p read_error stream line reader)
  from peer_read.prems reader_messages_read [OF peer_read.hyps(2,3,5)] show ?case by (simp add: overfull_def)
next
  case (peer_queue p m)
  then show ?case by (simp add: overfull_def reader_messages_def peer_send_def)
qed (simp_all add: overfull_def)

lemma overfull_notify: "overfull p \<Longrightarrow> overfull (peer_notify p)"
  by (simp add: overfull_def) (simp add: peer_notify_def try_send_def)

lemma overfull_send: "overfull p \<Longrightarrow> overfull (peer_send m p)"
  by (simp add: overfull_def) (simp add: peer_send_def)

lemma overfull_step:
  assumes "rpc_step EE s s'" "rpc_reach EE s" "i < length (rv_peers s)" "overfull (rv_peers s ! i)"
  shows "i < length (rv_peers s') \<and> overfull (rv_peers s' ! i)"
  using assms
proof (induction rule: rpc_step.induct)
  case (rpc_notifier s n ns)
  let ?s = "s\<lparr>rv_notifications := ns\<rparr>"
  have "distinct (rv_senders ?s)" "set (rv_senders ?s) \<subseteq> {..<length (rv_peers ?s)}"
    using rpc_threads_reach [OF rpc_notifier.prems(1)] by (simp_all add: rpc_threads_ok_def threads_ok_def)
  note ns = notifier_step_senders [OF this, of n]
  have "length (rv_peers (notifier_step n ?s)) = length (rv_peers s)" using arg_cong [OF ns(1), of length] by simp
  then show ?case using ns(3) rpc_notifier.prems(2,3) overfull_notify by fastforce
next
  case (rpc_send_done s j "is")
  then show ?case by (cases "j = i") (auto simp: overfull_send)
next
  case (rpc_register j s)
  then show ?case by (cases "j = i") (auto simp: overfull_def)
next
  case (rpc_peer j s p)
  then show ?case by (cases "j = i") (auto dest: overfull_peer)
next
  case (rpc_leave j s)
  have "length (peer_chan (rv_peers s ! j)) \<le> CHANNEL_SIZE"
    using peers_reach [OF rpc_leave.prems(1)] rpc_leave.hyps(1,2) by (auto simp: peer_ok_def)
  with rpc_leave show ?case by (cases "j = i") (auto simp: overfull_def reader_messages_def)
qed (simp_all add: nth_append)

lemma overfull_steps:
  assumes "rpc_steps EE s s'" "rpc_reach EE s" "i < length (rv_peers s)" "overfull (rv_peers s ! i)"
  shows "rpc_reach EE s' \<and> i < length (rv_peers s') \<and> overfull (rv_peers s' ! i)"
  using assms(1)
proof (induction rule: rtranclp_induct)
  case base
  then show ?case using assms(2-) by simp
next
  case (step s1 s2)
  then show ?case using overfull_step [OF step(2)] by (auto simp: rpc_reach_def)
qed

lemma closed_all_gone:
  assumes "rpc_reach EE s" "rv_main s = Closed" "i < length (rv_peers s)"
  shows "pr_phase (rv_peers s ! i) = Gone"
  using rpc_threads_reach [OF assms(1)] assms(2,3) by (auto simp: rpc_threads_ok_def threads_ok_def awaited_def)

text \<open>
  Where there is enough room, the reader can send all it has to, and return; the connection then leaves, and a
  main thread that joins the connections can end when all have left.
\<close>

lemma reader_returns:
  assumes "pr_phase p = Closing" "\<not> overfull p"
  shows "\<exists>r. (peer_step EE)\<^sup>*\<^sup>* p r \<and> pr_phase r = Closing \<and> pr_line r = None \<and> pr_reader r = None"
  using assms
proof (induction p rule: wf_induct_rule [OF wf_measures [of "[\<lambda>p. case pr_reader p of None \<Rightarrow> 0 | Some c \<Rightarrow> Suc (length (snd c)),
    \<lambda>p. if pr_line p = None then 0 else 1, \<lambda>p. case pr_reader p of None \<Rightarrow> 0 | Some c \<Rightarrow> length (snd c) - pr_buffered p]"]])
  case (1 p)
  have step: ?case if "peer_step EE p p'" "pr_phase p' = Closing" "\<not> overfull p'"
    "(p', p) \<in> measures [\<lambda>p. case pr_reader p of None \<Rightarrow> 0 | Some c \<Rightarrow> Suc (length (snd c)),
      \<lambda>p. if pr_line p = None then 0 else 1, \<lambda>p. case pr_reader p of None \<Rightarrow> 0 | Some c \<Rightarrow> length (snd c) - pr_buffered p]" for p'
    using "1.IH" [OF that(4,2,3)] that(1) by (meson converse_rtranclp_into_rtranclp)
  show ?case
  proof (cases "pr_line p")
    case (Some m)
    have "has_room p" using "1.prems" Some by (simp add: overfull_def reader_messages_def)
    with "1.prems" Some show ?thesis
      by (intro step [OF peer_queue [of p m]]) (simp_all add: overfull_def reader_messages_def peer_send_def)
  next
    case None
    show ?thesis
    proof (cases "pr_reader p")
      case None
      with \<open>pr_line p = None\<close> "1.prems" show ?thesis by (intro exI [of _ p]) simp
    next
      case (Some c)
      obtain e bs where c: "c = (e, bs)" by (cases c)
      obtain line reader where turn: "reader_next (e, bs) = (line, reader)" by fastforce
      show ?thesis
      proof (cases "reader_ready (pr_buffered p) bs")
        case True
        let ?q = "p\<lparr>pr_line := line, pr_reader := reader, pr_buffered := pr_buffered p - length (fst (read_until bs))\<rparr>"
        have "case reader of None \<Rightarrow> True | Some c' \<Rightarrow> length (snd c') < length bs"
          using turn reader_next_shorter [of e bs line] by (cases reader) auto
        moreover have "reader_messages ?q = reader_messages p"
          by (rule reader_messages_read [OF None _ turn]) (simp add: Some c)
        ultimately show ?thesis
          using "1.prems" Some c
          by (intro step [OF peer_read [OF _ None Some [unfolded c] True turn]]) (auto simp: overfull_def split: option.splits)
      next
        case False
        then have "pr_buffered p < length bs" by (simp add: reader_ready_def)
        with "1.prems" None Some c False show ?thesis
          by (intro step [OF peer_fill [where n = "Suc (pr_buffered p)"]]) (auto simp: overfull_def BUFFER_SIZE_def)
      qed
    qed
  qed
qed

lemma closing_leaves:
  assumes i: "i < length (rv_peers s)" and p: "pr_phase (rv_peers s ! i) = Closing" "\<not> overfull (rv_peers s ! i)"
  obtains p' g where "rpc_steps EE s (s\<lparr>rv_garbage := g, rv_peers := (rv_peers s)[i := p']\<rparr>)" "pr_phase p' = Gone"
proof -
  obtain r where r: "(peer_step EE)\<^sup>*\<^sup>* (rv_peers s ! i) r" "pr_phase r = Closing" "pr_line r = None" "pr_reader r = None"
    using reader_returns [OF p] by blast
  have "rpc_steps EE s (with_peer i r s)" using r(1)
  proof (induction rule: rtranclp_induct)
    case base
    then show ?case by simp
  next
    case (step r1 r2)
    from rpc_peer [of i "with_peer i r1 s" EE r2] step.hyps(2) i have "rpc_step EE (with_peer i r1 s) (with_peer i r2 s)" by simp
    with step.IH show ?case by (rule rtranclp.rtrancl_into_rtrancl)
  qed
  moreover have "rpc_step EE (with_peer i r s)
      (s\<lparr>rv_garbage := rv_garbage s @ [i], rv_peers := (rv_peers s)[i := r\<lparr>pr_phase := Gone\<rparr>]\<rparr>)"
    using rpc_leave [of i "with_peer i r s" EE] i r(2-) by simp
  ultimately show ?thesis by (intro that [of "r\<lparr>pr_phase := Gone\<rparr>" "rv_garbage s @ [i]"]) auto
qed

definition ended :: "'d peer list \<Rightarrow> bool" where
  "ended ps \<longleftrightarrow> (\<forall>p \<in> set ps. pr_phase p \<in> {Closing, Gone} \<and> \<not> overfull p)"

lemma ended_update: "ended ps \<Longrightarrow> pr_phase p = Gone \<Longrightarrow> ended (ps[i := p])"
  by (auto simp: ended_def overfull_def dest!: set_update_subset_insert [THEN subsetD])

lemma all_leave:
  assumes "ended (rv_peers s)"
  shows "\<exists>ps g. rpc_steps EE s (s\<lparr>rv_garbage := g, rv_peers := ps\<rparr>) \<and> length ps = length (rv_peers s) \<and> (\<forall>p \<in> set ps. pr_phase p = Gone)"
  using assms
proof (induction "card {i. i < length (rv_peers s) \<and> pr_phase (rv_peers s ! i) \<noteq> Gone}" arbitrary: s rule: less_induct)
  case less
  show ?case
  proof (cases "\<forall>p \<in> set (rv_peers s). pr_phase p = Gone")
    case True
    then show ?thesis by (intro exI [of _ "rv_peers s"] exI [of _ "rv_garbage s"]) simp
  next
    case False
    then obtain i where i: "i < length (rv_peers s)" "pr_phase (rv_peers s ! i) \<noteq> Gone" by (auto simp: in_set_conv_nth)
    with less.prems have p: "pr_phase (rv_peers s ! i) = Closing" "\<not> overfull (rv_peers s ! i)" by (auto simp: ended_def)
    obtain p' g where steps: "rpc_steps EE s (s\<lparr>rv_garbage := g, rv_peers := (rv_peers s)[i := p']\<rparr>)" and gone: "pr_phase p' = Gone"
      using closing_leaves [OF i(1) p] by blast
    let ?s = "s\<lparr>rv_garbage := g, rv_peers := (rv_peers s)[i := p']\<rparr>"
    have "{j. j < length (rv_peers ?s) \<and> pr_phase (rv_peers ?s ! j) \<noteq> Gone} \<subset>
        {j. j < length (rv_peers s) \<and> pr_phase (rv_peers s ! j) \<noteq> Gone}"
      using i gone by (auto simp: nth_list_update)
    then have "card {j. j < length (rv_peers ?s) \<and> pr_phase (rv_peers ?s ! j) \<noteq> Gone} <
        card {j. j < length (rv_peers s) \<and> pr_phase (rv_peers s ! j) \<noteq> Gone}" by (intro psubset_card_mono) simp
    from less.hyps [OF this] less.prems gone obtain ps g' where
      "rpc_steps EE ?s (s\<lparr>rv_garbage := g', rv_peers := ps\<rparr>)" "length ps = length (rv_peers s)" "\<forall>p \<in> set ps. pr_phase p = Gone"
      by (auto simp: ended_update)
    with steps show ?thesis by (meson rtranclp_trans)
  qed
qed

lemma all_joined:
  assumes "rv_main s = Joining is" "set is \<subseteq> {..<length (rv_peers s)}" "\<forall>p \<in> set (rv_peers s). pr_phase p = Gone"
  shows "rpc_steps EE s (s\<lparr>rv_main := Closed\<rparr>)"
  using assms
proof (induction "length is" arbitrary: s "is" rule: less_induct)
  case less
  show ?case
  proof (cases "is")
    case Nil
    with less.prems(1) show ?thesis by (auto intro: rpc_close)
  next
    case (Cons i js)
    let ?s = "s\<lparr>rv_main := Joining (filter (\<lambda>j. j \<noteq> i) is)\<rparr>"
    have "rpc_step EE s ?s" using less.prems Cons by (intro rpc_join) auto
    moreover have "rpc_steps EE ?s (?s\<lparr>rv_main := Closed\<rparr>)"
      using less.prems Cons by (intro less.hyps [of "filter (\<lambda>j. j \<noteq> i) is"]) (auto simp: le_imp_less_Suc)
    ultimately show ?thesis by (simp add: converse_rtranclp_into_rtranclp)
  qed
qed

lemma joining_ends:
  assumes "rpc_reach EE s" "rv_main s = Joining is" "ended (rv_peers s)"
  shows "\<exists>s'. rpc_steps EE s s' \<and> rv_main s' = Closed"
proof -
  from all_leave [OF assms(3)] obtain ps g where ps: "rpc_steps EE s (s\<lparr>rv_garbage := g, rv_peers := ps\<rparr>)"
    "length ps = length (rv_peers s)" "\<forall>p \<in> set ps. pr_phase p = Gone" by blast
  have "set is \<subseteq> {..<length ps}"
    using rpc_threads_reach [OF assms(1)] assms(2) ps(2) by (simp add: rpc_threads_ok_def threads_ok_def awaited_def)
  then have "rpc_steps EE (s\<lparr>rv_garbage := g, rv_peers := ps\<rparr>) (s\<lparr>rv_garbage := g, rv_peers := ps, rv_main := Closed\<rparr>)"
    using all_joined [of "s\<lparr>rv_garbage := g, rv_peers := ps\<rparr>" "is" EE] assms(2) ps(3) by simp
  with ps(1) have "rpc_steps EE s (s\<lparr>rv_garbage := g, rv_peers := ps, rv_main := Closed\<rparr>)" by (rule rtranclp_trans)
  then show ?thesis by (intro exI conjI) (assumption, simp)
qed

section \<open>Properties\<close>

text \<open>
  C7: whatever the threads of the Electrum server do, in any order, each connection being served has a channel of at
  most ten messages; the request lines of its client are those it has handled, then those in its channel, then those
  its reader has still to send; and what it has written, notifications apart, is one reply for each handled
  request, in order, with the id of the request and of the type of its method.
\<close>

theorem connections_answer_in_order:
  assumes "rpc_reach EE s" "p \<in> set (rv_peers s)" "pr_phase p = Serving"
    and "\<And>E. E \<in> EE \<Longrightarrow> env_lib E = L \<and> cf_enable_open_assets (re_config E) = enabled"
  shows "length (peer_chan p) \<le> 10 \<and>
    (\<exists>handled. request_lines (client_messages (pr_client p)) =
        handled @ request_lines (peer_chan p) @ request_lines (reader_messages p) \<and>
      list_all2 (answers L enabled) handled (replies (sn_out (pr_session p))))"
proof -
  have "peer_ok EE p" using peers_reach [OF assms(1)] assms(2) by blast
  then obtain q c n handled where
    "session_run EE (client_messages (pr_client p)) (connection_open q c n) (reader_messages p) handled (pr_session p)"
    using assms(3) by (auto simp: peer_ok_def session_reached_def)
  from session_replies_in_order [OF this assms(4)] show ?thesis by blast
qed

text \<open>
  C8: the server's main thread ends only after the server was dropped, and only when every connection it ever
  accepted has ended, whether it was told to or its client left.
\<close>

theorem closed_after_connections:
  assumes "rpc_reach EE s" "rv_main s = Closed"
  shows "rv_dropped s \<and> (\<forall>p \<in> set (rv_peers s). pr_phase p = Gone)"
  using stop_reach [OF assms(1)] closed_all_gone [OF assms] assms(2) by (auto simp: stop_ok_def in_set_conv_nth)

text \<open>
  C17: a connection whose loop has ended while its reader waits for room in its full channel stays so, and the main
  thread never ends, whatever the client, the node and the other threads do: dropping the server hangs.
\<close>

theorem blocked_reader_blocks_shutdown:
  assumes "rpc_reach EE s" "i < length (rv_peers s)" "pr_phase (rv_peers s ! i) = Closing"
    "pr_line (rv_peers s ! i) = Some m" "length (peer_chan (rv_peers s ! i)) = 10" "rpc_steps EE s s'"
  shows "pr_phase (rv_peers s' ! i) = Closing \<and> rv_main s' \<noteq> Closed"
proof -
  have "overfull (rv_peers s ! i)" using assms(3-5) by (simp add: overfull_def reader_messages_def CHANNEL_SIZE_def)
  from overfull_steps [OF assms(6,1,2) this] closed_all_gone show ?thesis by (fastforce simp: overfull_def)
qed

text \<open>
  C18: once the main thread joins the connections and the loop of each has ended, the shutdown can complete exactly
  when each connection that has not left has room in its channel, of ten messages, for all that its reader has
  still to send: the message that waits, and those of the lines it had buffered, or may still read, when the stream
  was shut down.
\<close>

theorem shutdown_completes_iff:
  assumes "rpc_reach EE s" "rv_main s = Joining is" "\<forall>p \<in> set (rv_peers s). pr_phase p \<in> {Closing, Gone}"
  shows "(\<exists>s'. rpc_steps EE s s' \<and> rv_main s' = Closed) \<longleftrightarrow>
    (\<forall>p \<in> set (rv_peers s). pr_phase p = Closing \<longrightarrow> length (peer_chan p) + length (reader_messages p) \<le> 10)"
proof
  assume "\<exists>s'. rpc_steps EE s s' \<and> rv_main s' = Closed"
  then obtain s' where s': "rpc_steps EE s s'" "rv_main s' = Closed" by blast
  have "\<not> overfull (rv_peers s ! i)" if "i < length (rv_peers s)" for i
    using overfull_steps [OF s'(1) assms(1) that] closed_all_gone s'(2) by (fastforce simp: overfull_def)
  then show "\<forall>p \<in> set (rv_peers s). pr_phase p = Closing \<longrightarrow> length (peer_chan p) + length (reader_messages p) \<le> 10"
    by (auto simp: in_set_conv_nth overfull_def CHANNEL_SIZE_def not_less)
next
  assume "\<forall>p \<in> set (rv_peers s). pr_phase p = Closing \<longrightarrow> length (peer_chan p) + length (reader_messages p) \<le> 10"
  with assms(3) have "ended (rv_peers s)" by (auto simp: ended_def overfull_def CHANNEL_SIZE_def)
  with assms(1,2) show "\<exists>s'. rpc_steps EE s s' \<and> rv_main s' = Closed" by (rule joining_ends)
qed

text \<open>
  The notifier: every connection being served gets the update, unless ten messages wait for it already, and stays
  registered; those that are gone do not.
\<close>

lemma notifier_reaches_connections:
  assumes "rpc_reach EE s" "i < length (rv_peers s)"
  shows "pr_phase (rv_peers s ! i) = Serving \<Longrightarrow> i \<in> set (rv_senders (notifier_step Periodic s)) \<and>
      peer_chan (rv_peers (notifier_step Periodic s) ! i) =
        peer_chan (rv_peers s ! i) @ (if has_room (rv_peers s ! i) then [PeriodicUpdate] else [])"
    and "pr_phase (rv_peers s ! i) = Gone \<Longrightarrow> i \<notin> set (rv_senders (notifier_step Periodic s))"
proof -
  from rpc_threads_reach [OF assms(1)] have "distinct (rv_senders s)" "set (rv_senders s) \<subseteq> {..<length (rv_peers s)}"
    and reg: "pr_phase (rv_peers s ! i) = Serving \<Longrightarrow> i \<in> set (rv_senders s)"
    using assms(2) by (auto simp: rpc_threads_ok_def threads_ok_def)
  note ns = notify_senders_exact [OF this(1,2)]
  show "i \<in> set (rv_senders (notifier_step Periodic s)) \<and>
      peer_chan (rv_peers (notifier_step Periodic s) ! i) =
        peer_chan (rv_peers s ! i) @ (if has_room (rv_peers s ! i) then [PeriodicUpdate] else [])"
    if "pr_phase (rv_peers s ! i) = Serving"
    using reg that assms(2) by (simp add: notifier_step.simps ns peer_notify_def try_send_def)
  show "pr_phase (rv_peers s ! i) = Gone \<Longrightarrow> i \<notin> set (rv_senders (notifier_step Periodic s))"
    by (simp add: notifier_step.simps ns)
qed

subsection \<open>Examples\<close>

lemma rpc_reach_step: "rpc_reach EE s \<Longrightarrow> rpc_step EE s s' \<Longrightarrow> rpc_reach EE s'"
  unfolding rpc_reach_def by (rule rtranclp.rtrancl_into_rtrancl)

lemma rpc_reach_peer:
  "rpc_reach EE s \<Longrightarrow> peer_step EE (rv_peers s ! i) p \<Longrightarrow> i < length (rv_peers s) \<Longrightarrow> s' = with_peer i p s \<Longrightarrow> rpc_reach EE s'"
  using rpc_reach_step rpc_peer by fast

text \<open>A server with one connection, accepted and registered.\<close>

definition ex_rpc_server :: "kv list peer \<Rightarrow> kv list rpc_server" where
  "ex_rpc_server p = rpc_start\<lparr>rv_threads := [0], rv_senders := [0], rv_peers := [p]\<rparr>"

lemma ex_rpc_server_simps [simp]:
  "rv_peers (ex_rpc_server p) = [p]" "rv_main (ex_rpc_server p) = Accepting" "rv_senders (ex_rpc_server p) = [0]"
  "rv_threads (ex_rpc_server p) = [0]" "rv_garbage (ex_rpc_server p) = []" "rv_accepted (ex_rpc_server p) = []"
  "rv_notifications (ex_rpc_server p) = []" "rv_dropped (ex_rpc_server p) = False"
  "with_peer 0 p' (ex_rpc_server p) = ex_rpc_server p'"
  by (simp_all add: ex_rpc_server_def rpc_start_def)

lemma ex_rpc_accepted: "rpc_reach EE (ex_rpc_server (peer_serve (peer_open client ex_conn)))"
proof -
  let ?accepted = "rpc_start\<lparr>rv_main := Collecting, rv_threads := [0], rv_peers := [peer_open client ex_conn]\<rparr>"
  have "rpc_reach EE rpc_start" by (simp add: rpc_reach_def)
  from rpc_reach_step [OF this rpc_connect] have "rpc_reach EE (rpc_start\<lparr>rv_accepted := [Some client]\<rparr>)"
    by (simp add: rpc_start_def)
  from rpc_reach_step [OF this rpc_accept] have "rpc_reach EE ?accepted" by (simp add: rpc_start_def)
  from rpc_reach_step [OF this rpc_collected] have "rpc_reach EE (?accepted\<lparr>rv_main := Accepting\<rparr>)" by (simp add: rpc_start_def)
  from rpc_reach_step [OF this rpc_register [of 0]] show ?thesis
    by (simp add: ex_rpc_server_def rpc_start_def peer_open_def senders_locked.simps)
qed

lemma ex_rpc_peer: "rpc_reach EE (ex_rpc_server p) \<Longrightarrow> peer_step EE p p' \<Longrightarrow> rpc_reach EE (ex_rpc_server p')"
  by (erule rpc_reach_peer [where i = 0 and p = p']) simp_all

text \<open>A line that is held is read and sent.\<close>

lemma ex_rpc_queue:
  assumes "rpc_reach EE (ex_rpc_server p)" "pr_phase p \<in> {Serving, Closing}" "pr_line p = None" "pr_reader p = Some (e, bs)"
    "reader_ready (pr_buffered p) bs" "reader_next (e, bs) = (Some m, reader)" "has_room p"
    "p' = peer_send m (p\<lparr>pr_reader := reader, pr_buffered := pr_buffered p - length (fst (read_until bs))\<rparr>)"
  shows "rpc_reach EE (ex_rpc_server p')"
proof -
  let ?q = "p\<lparr>pr_line := Some m, pr_reader := reader, pr_buffered := pr_buffered p - length (fst (read_until bs))\<rparr>"
  from ex_rpc_peer [OF assms(1) peer_read [OF assms(2-6)]] have r: "rpc_reach EE (ex_rpc_server ?q)" .
  have "peer_step EE ?q ((peer_send m ?q)\<lparr>pr_line := None\<rparr>)"
    by (rule peer_queue) (use assms in simp_all)
  moreover have "(peer_send m ?q)\<lparr>pr_line := None\<rparr> = p'"
    using assms(3,8) by (simp add: peer_send_def)
  ultimately show ?thesis using ex_rpc_peer [OF r] by simp
qed

text \<open>A connection whose reader took all its client sent with its first read.\<close>

definition ex_filled :: "client \<Rightarrow> kv list peer" where
  "ex_filled c = (peer_serve (peer_open c ex_conn))\<lparr>pr_buffered := length (snd c)\<rparr>"

lemma ex_filled_fields: "pr_phase (ex_filled c) = Serving" "pr_line (ex_filled c) = None" "pr_reader (ex_filled c) = Some c"
  "pr_buffered (ex_filled c) = length (snd c)" "peer_chan (ex_filled c) = []"
  by (simp_all add: ex_filled_def peer_serve_def peer_open_def connection_open_def)

lemma ex_filled_reach:
  assumes "length bs \<le> BUFFER_SIZE"
  shows "rpc_reach EE (ex_rpc_server (ex_filled (e, bs)))"
proof (cases "bs = []")
  case True
  then have "ex_filled (e, bs) = peer_serve (peer_open (e, bs) ex_conn)"
    by (simp add: ex_filled_def peer_serve_def peer_open_def)
  then show ?thesis using ex_rpc_accepted by metis
next
  case False
  have "peer_step EE (peer_serve (peer_open (e, bs) ex_conn)) (ex_filled (e, bs))"
    unfolding ex_filled_def snd_conv
    by (rule peer_fill [where read_error = e and stream = bs])
      (use assms False in \<open>simp_all add: peer_serve_def peer_open_def reader_ready_def\<close>)
  with ex_rpc_peer [OF ex_rpc_accepted] show ?thesis .
qed

text \<open>One \<^verbatim>\<open>server.ping\<close>, handled.\<close>

definition ex_pinged :: "kv list peer" where
  "ex_pinged = (ex_filled (False, [0x70, 0x0A]))\<lparr>pr_reader := Some (False, []), pr_buffered := 0,
     pr_session := ex_conn\<lparr>sn_clients := 1, sn_out := [result_reply (JStr [CHR ''p'', CHR 0x0A]) JNull]\<rparr>\<rparr>"

lemma ex_ping_turn: "reader_next (False, [0x70, 0x0A]) = (Some (Request [CHR ''p'', CHR 0x0A]), Some (False, []))"
proof -
  have "from_utf8 [0x70, 0x0A] = Some [CHR ''p'', CHR 0x0A]"
    by (simp add: from_utf8_def utf8_valid_ascii) code_simp
  then show ?thesis by simp
qed

lemma ex_pinged_reach: "rpc_reach {ex_rpc_env} (ex_rpc_server ex_pinged)"
proof -
  let ?bs = "[0x70, 0x0A]" and ?m = "Request [CHR ''p'', CHR 0x0A]"
  let ?q = "peer_send ?m ((ex_filled (False, ?bs))\<lparr>pr_reader := Some (False, []), pr_buffered := 0\<rparr>)"
  have "rpc_reach {ex_rpc_env} (ex_rpc_server (ex_filled (False, ?bs)))" by (rule ex_filled_reach) (simp add: BUFFER_SIZE_def)
  then have "rpc_reach {ex_rpc_env} (ex_rpc_server ?q)"
    by (rule ex_rpc_queue [OF _ _ _ _ _ ex_ping_turn]) (simp_all add: ex_filled_fields reader_ready_def CHANNEL_SIZE_def)
  moreover have "peer_step {ex_rpc_env} ?q ex_pinged"
  proof -
    have "peer_step {ex_rpc_env} ?q (?q\<lparr>pr_session := pr_session ex_pinged\<rparr>)"
      by (rule peer_handle [where m = ?m and ms = "[]" and E = ex_rpc_env and q = "sn_query ex_conn" and c = 1 and n = 0])
        (simp_all only: ex_ping, simp_all add: ex_filled_def peer_serve_def peer_open_def peer_send_def connection_open_def shared_def ex_pinged_def)
    then show ?thesis by (simp add: ex_pinged_def peer_send_def)
  qed
  ultimately show ?thesis by (rule ex_rpc_peer)
qed

lemma connections_answer_in_order_witness:
  "\<exists>handled. request_lines (client_messages (pr_client ex_pinged)) = handled @ request_lines [] @ request_lines [Done] \<and>
     list_all2 (answers ex_json_lib False) handled [result_reply (JStr [CHR ''p'', CHR 0x0A]) JNull]"
proof -
  have r: "replies [result_reply v JNull] = [result_reply v JNull]" for v
    by (simp add: replies_def is_notification_def result_reply_def)
  have f: "pr_phase ex_pinged = Serving" "reader_messages ex_pinged = [Done]" "peer_chan ex_pinged = []"
    "sn_out (pr_session ex_pinged) = [result_reply (JStr [CHR ''p'', CHR 0x0A]) JNull]"
    by (simp_all add: ex_pinged_def ex_filled_fields connection_open_def reader_messages_def) (simp add: handle_requests.simps)
  show ?thesis
    using connections_answer_in_order [OF ex_pinged_reach, of ex_pinged ex_json_lib False] by (simp add: f r)
qed

text \<open>A client that leaves at once, and a server that is dropped then.\<close>

definition ex_left :: "kv list peer" where
  "ex_left = (ex_filled (False, []))\<lparr>pr_buffered := 0, pr_phase := Closing, pr_session := run_end (ex_conn\<lparr>sn_clients := 1\<rparr>), pr_reader := None\<rparr>"

lemma ex_left_reach: "rpc_reach {ex_rpc_env} (ex_rpc_server ex_left)"
proof -
  let ?q = "peer_send Done ((ex_filled (False, []))\<lparr>pr_reader := None, pr_buffered := 0\<rparr>)"
  have "rpc_reach {ex_rpc_env} (ex_rpc_server (ex_filled (False, [])))" by (rule ex_filled_reach) simp
  then have "rpc_reach {ex_rpc_env} (ex_rpc_server ?q)"
    by (rule ex_rpc_queue [where e = False and bs = "[]"])
      (simp_all add: ex_filled_fields reader_ready_def CHANNEL_SIZE_def)
  moreover have "peer_step {ex_rpc_env} ?q
      (?q\<lparr>pr_phase := Closing, pr_session := run_end (ex_conn\<lparr>sn_clients := 1\<rparr>), pr_reader := shut_down False 0 (pr_reader ?q)\<rparr>)"
    by (rule peer_finish [where m = Done and ms = "[]" and E = ex_rpc_env and q = "sn_query ex_conn" and c = 1 and n = 0 and r = "Inr False"])
      (simp_all add: ex_filled_def peer_serve_def peer_open_def peer_send_def connection_open_def shared_def)
  then have "peer_step {ex_rpc_env} ?q ex_left" by (simp add: ex_left_def peer_send_def shut_down_def)
  ultimately show ?thesis by (rule ex_rpc_peer)
qed

lemma ex_left_fields: "pr_phase ex_left = Closing" "pr_line ex_left = None" "pr_reader ex_left = None" "peer_chan ex_left = []"
  by (simp_all add: ex_left_def ex_filled_fields run_end_def connection_open_def)

definition ex_stopping :: "kv list rpc_server" where
  "ex_stopping = (ex_rpc_server (ex_left\<lparr>pr_phase := Gone\<rparr>))\<lparr>rv_garbage := [0], rv_dropped := True\<rparr>"

lemma ex_stopping_simps [simp]:
  "rv_main ex_stopping = Accepting" "rv_senders ex_stopping = [0]" "rv_threads ex_stopping = [0]" "rv_accepted ex_stopping = []"
  "rv_notifications ex_stopping = []" "pr_phase (rv_peers ex_stopping ! 0) = Gone"
  by (simp_all add: ex_stopping_def ex_rpc_server_def rpc_start_def)

lemma ex_joining_reach: "rpc_reach {ex_rpc_env} (ex_stopping\<lparr>rv_main := Joining [0]\<rparr>)"
proof -
  let ?EE = "{ex_rpc_env}"
  have "rpc_reach ?EE ((ex_rpc_server (ex_left\<lparr>pr_phase := Gone\<rparr>))\<lparr>rv_garbage := [0]\<rparr>)"
    using rpc_reach_step [OF ex_left_reach rpc_leave [of 0]] ex_left_fields by (simp add: ex_rpc_server_def rpc_start_def)
  from rpc_reach_step [OF this rpc_drop_step] have "rpc_reach ?EE (ex_stopping\<lparr>rv_notifications := [Exit]\<rparr>)"
    by (simp add: ex_stopping_def ex_rpc_server_def rpc_start_def)
  from rpc_reach_step [OF this rpc_notifier] have "rpc_reach ?EE (ex_stopping\<lparr>rv_accepted := [None]\<rparr>)"
    by (simp add: ex_stopping_def ex_rpc_server_def rpc_start_def senders_locked.simps notifier_step.simps)
  from rpc_reach_step [OF this rpc_stop] have "rpc_reach ?EE (ex_stopping\<lparr>rv_main := SendingDone [0]\<rparr>)"
    by (simp add: ex_stopping_def ex_rpc_server_def rpc_start_def)
  from rpc_reach_step [OF this rpc_skip_gone] have "rpc_reach ?EE (ex_stopping\<lparr>rv_main := SendingDone []\<rparr>)" by simp
  from rpc_reach_step [OF this rpc_sent] show ?thesis by simp
qed

lemma ex_closed_reach: "rpc_reach {ex_rpc_env} (ex_stopping\<lparr>rv_main := Closed\<rparr>)"
proof -
  from rpc_reach_step [OF ex_joining_reach rpc_join [of _ "[0]" 0]]
  have "rpc_reach {ex_rpc_env} (ex_stopping\<lparr>rv_main := Joining []\<rparr>)" by simp
  from rpc_reach_step [OF this rpc_close] show ?thesis by simp
qed

lemma closed_after_connections_witness:
  "rpc_reach {ex_rpc_env} (ex_stopping\<lparr>rv_main := Closed\<rparr>) \<and> rv_dropped (ex_stopping\<lparr>rv_main := Closed\<rparr>) \<and>
   pr_phase (rv_peers (ex_stopping\<lparr>rv_main := Closed\<rparr>) ! 0) = Gone"
  using closed_after_connections [OF ex_closed_reach] ex_closed_reach by simp

text \<open>A client that sends twelve lines at once, of which the first is no JSON.\<close>

definition ex_broken_env :: "kv list rpc_env" where
  "ex_broken_env = ex_env\<lparr>re_query := ex_query\<lparr>cq_lib := lib_ref\<lparr>js_from_str := (\<lambda>s. None)\<rparr>\<rparr>\<rparr>"

definition ex_broken_line :: message where
  "ex_broken_line = Request [CHR ''{'', CHR 0x0A]"

fun ex_lines :: "nat \<Rightarrow> bytes" where
  "ex_lines 0 = []"
| "ex_lines (Suc k) = 0x7B # 0x0A # ex_lines k"

lemma ex_broken_turn: "reader_next (False, ex_lines (Suc k)) = (Some ex_broken_line, Some (False, ex_lines k))"
proof -
  have "from_utf8 [0x7B, 0x0A] = Some [CHR ''{'', CHR 0x0A]"
    by (simp add: from_utf8_def utf8_valid_ascii) code_simp
  then show ?thesis by (simp add: ex_broken_line_def)
qed

lemma ex_broken_requests: "fst (handle_requests False (ex_lines k)) = replicate k ex_broken_line @ [Done]"
proof (induction k)
  case 0
  show ?case by (simp add: handle_requests.simps)
next
  case (Suc k)
  from client_messages_next [OF ex_broken_turn [of k]] Suc show ?case by simp
qed

lemma length_ex_lines [simp]: "length (ex_lines k) = 2 * k"
  by (induction k) simp_all

abbreviation ex_broken_client :: client where
  "ex_broken_client \<equiv> (False, ex_lines 12)"

text \<open>The first line ends the loop; the other lines are held by the reader, which goes on to send them.\<close>

definition ex_broken :: "kv list peer" where
  "ex_broken = (ex_filled ex_broken_client)\<lparr>pr_buffered := 22, pr_phase := Closing,
     pr_session := run_end (ex_conn\<lparr>sn_clients := 1\<rparr>), pr_reader := Some (False, ex_lines 11)\<rparr>"

lemma ex_broken_fields: "pr_phase ex_broken = Closing" "pr_line ex_broken = None" "pr_reader ex_broken = Some (False, ex_lines 11)"
  "pr_buffered ex_broken = 22" "peer_chan ex_broken = []"
  by (simp_all add: ex_broken_def ex_filled_fields run_end_def connection_open_def)

lemma ex_broken_reach: "rpc_reach {ex_broken_env} (ex_rpc_server ex_broken)"
proof -
  let ?q = "peer_send ex_broken_line ((ex_filled ex_broken_client)\<lparr>pr_reader := Some (False, ex_lines 11), pr_buffered := 22\<rparr>)"
  have turn: "reader_next (False, ex_lines 12) = (Some ex_broken_line, Some (False, ex_lines 11))"
    using ex_broken_turn [of 11] by (simp del: ex_lines.simps reader_next.simps)
  have l: "length (fst (read_until (ex_lines 12))) = 2"
    using ex_lines.simps(2) [of 11] by simp
  have "rpc_reach {ex_broken_env} (ex_rpc_server (ex_filled ex_broken_client))"
    by (rule ex_filled_reach) (simp add: BUFFER_SIZE_def)
  then have "rpc_reach {ex_broken_env} (ex_rpc_server ?q)"
    by (rule ex_rpc_queue [OF _ _ _ _ _ turn])
      (simp_all only: ex_filled_fields snd_conv length_ex_lines l reader_ready_def, simp_all add: CHANNEL_SIZE_def)
  moreover have "peer_step {ex_broken_env} ?q
      (?q\<lparr>pr_phase := Closing, pr_session := run_end (ex_conn\<lparr>sn_clients := 1\<rparr>), pr_reader := shut_down False 22 (pr_reader ?q)\<rparr>)"
    by (rule peer_finish [where m = ex_broken_line and ms = "[]" and E = ex_broken_env and q = "sn_query ex_conn" and c = 1 and n = 0
        and r = "bail ''invalid JSON format''"])
      (simp_all add: ex_filled_def peer_serve_def peer_open_def peer_send_def connection_open_def shared_def ex_broken_env_def ex_broken_line_def bail_def)
  moreover have "shut_down False 22 (Some (False, ex_lines 11)) = Some (False, ex_lines 11)"
    by (simp only: shut_down_def option.map prod.case) (simp)
  ultimately have "peer_step {ex_broken_env} ?q ex_broken" by (simp add: ex_broken_def peer_send_def)
  with \<open>rpc_reach {ex_broken_env} (ex_rpc_server ?q)\<close> show ?thesis by (rule ex_rpc_peer)
qed

lemma ex_rpc_fill:
  assumes "rpc_reach EE (ex_rpc_server p)" "pr_phase p = Closing" "pr_line p = None" "pr_reader p = Some (False, ex_lines (k + j))"
    "pr_buffered p = 2 * (k + j)" "length (peer_chan p) + k \<le> CHANNEL_SIZE"
  shows "rpc_reach EE (ex_rpc_server (p\<lparr>pr_reader := Some (False, ex_lines j), pr_buffered := 2 * j,
    pr_session := (pr_session p)\<lparr>sn_chan := peer_chan p @ replicate k ex_broken_line\<rparr>\<rparr>))"
  using assms
proof (induction k arbitrary: p)
  case 0
  then show ?case by (cases p) simp
next
  case (Suc k)
  let ?p = "peer_send ex_broken_line (p\<lparr>pr_reader := Some (False, ex_lines (k + j)), pr_buffered := 2 * (k + j)\<rparr>)"
  have "rpc_reach EE (ex_rpc_server ?p)"
  proof (rule ex_rpc_queue [OF Suc.prems(1) _ Suc.prems(3,4) _ ex_broken_turn [of "k + j", folded add_Suc]])
    show "reader_ready (pr_buffered p) (ex_lines (Suc k + j))" by (simp add: reader_ready_def Suc.prems(5) del: ex_lines.simps)
    show "?p = peer_send ex_broken_line (p\<lparr>pr_reader := Some (False, ex_lines (k + j)),
        pr_buffered := pr_buffered p - length (fst (read_until (ex_lines (Suc k + j))))\<rparr>)"
      by (simp add: Suc.prems(5))
  qed (use Suc.prems in simp_all)
  then have "rpc_reach EE (ex_rpc_server (?p\<lparr>pr_reader := Some (False, ex_lines j), pr_buffered := 2 * j,
      pr_session := (pr_session ?p)\<lparr>sn_chan := peer_chan ?p @ replicate k ex_broken_line\<rparr>\<rparr>))"
    using Suc.prems by (intro Suc.IH) (simp_all add: peer_send_def)
  then show ?case by (simp add: peer_send_def)
qed

definition ex_blocked :: "kv list peer" where
  "ex_blocked = ex_broken\<lparr>pr_session := (pr_session ex_broken)\<lparr>sn_chan := replicate 10 ex_broken_line\<rparr>,
     pr_line := Some ex_broken_line, pr_reader := Some (False, []), pr_buffered := 0\<rparr>"

lemma ex_blocked_reach: "rpc_reach {ex_broken_env} (ex_rpc_server ex_blocked)"
proof -
  let ?p = "ex_broken\<lparr>pr_reader := Some (False, ex_lines 1), pr_buffered := 2,
    pr_session := (pr_session ex_broken)\<lparr>sn_chan := replicate 10 ex_broken_line\<rparr>\<rparr>"
  have "rpc_reach {ex_broken_env} (ex_rpc_server ?p)"
    using ex_rpc_fill [OF ex_broken_reach ex_broken_fields(1,2), of 10 1] by (simp add: ex_broken_fields CHANNEL_SIZE_def)
  moreover have "peer_step {ex_broken_env} ?p (?p\<lparr>pr_line := Some ex_broken_line, pr_reader := Some (False, []), pr_buffered := 0\<rparr>)"
    using peer_read [of ?p False "ex_lines 1" "Some ex_broken_line" "Some (False, [])"] ex_broken_turn [of 0]
    by (simp add: ex_broken_fields reader_ready_def)
  ultimately have "rpc_reach {ex_broken_env} (ex_rpc_server (?p\<lparr>pr_line := Some ex_broken_line, pr_reader := Some (False, []), pr_buffered := 0\<rparr>))"
    by (rule ex_rpc_peer)
  then show ?thesis by (simp add: ex_blocked_def)
qed

lemma blocked_reader_blocks_shutdown_witness:
  "rpc_steps {ex_broken_env} (ex_rpc_server ex_blocked)
     ((ex_rpc_server ex_blocked)\<lparr>rv_dropped := True, rv_notifications := [Exit]\<rparr>) \<and>
   pr_phase (rv_peers ((ex_rpc_server ex_blocked)\<lparr>rv_dropped := True, rv_notifications := [Exit]\<rparr>) ! 0) = Closing \<and>
   rv_main ((ex_rpc_server ex_blocked)\<lparr>rv_dropped := True, rv_notifications := [Exit]\<rparr>) \<noteq> Closed"
proof -
  have "rpc_steps {ex_broken_env} (ex_rpc_server ex_blocked)
     ((ex_rpc_server ex_blocked)\<lparr>rv_dropped := True, rv_notifications := [Exit]\<rparr>)"
    using rpc_drop_step [of "ex_rpc_server ex_blocked" "{ex_broken_env}"] by simp
  moreover have "pr_phase (rv_peers (ex_rpc_server ex_blocked) ! 0) = Closing"
    "pr_line (rv_peers (ex_rpc_server ex_blocked) ! 0) = Some ex_broken_line"
    "length (peer_chan (rv_peers (ex_rpc_server ex_blocked) ! 0)) = 10" "0 < length (rv_peers (ex_rpc_server ex_blocked))"
    by (simp_all add: ex_blocked_def ex_broken_def)
  ultimately show ?thesis using blocked_reader_blocks_shutdown [OF ex_blocked_reach] by blast
qed

text \<open>
  Dropping the server: the main thread sends \<^verbatim>\<open>Done\<close> to the one connection and joins it. The client that left
  lets it end, the one with twelve lines does not.
\<close>

lemma ex_dropped_reach:
  assumes "rpc_reach EE (ex_rpc_server p)" "pr_phase p \<noteq> Gone" "has_room p"
  shows "rpc_reach EE ((ex_rpc_server (peer_send Done p))\<lparr>rv_dropped := True, rv_main := Joining [0]\<rparr>)"
proof -
  let ?s = "(ex_rpc_server p)\<lparr>rv_dropped := True\<rparr>"
  from rpc_reach_step [OF assms(1) rpc_drop_step] have "rpc_reach EE (?s\<lparr>rv_notifications := [Exit]\<rparr>)"
    by (simp add: ex_rpc_server_def rpc_start_def)
  from rpc_reach_step [OF this rpc_notifier] have "rpc_reach EE (?s\<lparr>rv_accepted := [None]\<rparr>)"
    by (simp add: ex_rpc_server_def rpc_start_def senders_locked.simps notifier_step.simps)
  from rpc_reach_step [OF this rpc_stop] have "rpc_reach EE (?s\<lparr>rv_main := SendingDone [0]\<rparr>)"
    by (simp add: ex_rpc_server_def rpc_start_def)
  from rpc_reach_step [OF this rpc_send_done] assms(2,3)
  have "rpc_reach EE ((ex_rpc_server (peer_send Done p))\<lparr>rv_dropped := True, rv_main := SendingDone []\<rparr>)"
    by (simp add: ex_rpc_server_def rpc_start_def)
  from rpc_reach_step [OF this rpc_sent] show ?thesis by (simp add: ex_rpc_server_def rpc_start_def)
qed

lemma shutdown_completes_iff_witness:
  "(\<exists>s'. rpc_steps {ex_rpc_env} ((ex_rpc_server (peer_send Done ex_left))\<lparr>rv_dropped := True, rv_main := Joining [0]\<rparr>) s' \<and>
     rv_main s' = Closed) \<and>
   \<not> (\<exists>s'. rpc_steps {ex_broken_env} ((ex_rpc_server (peer_send Done ex_broken))\<lparr>rv_dropped := True, rv_main := Joining [0]\<rparr>) s' \<and>
     rv_main s' = Closed)"
proof
  have "rpc_reach {ex_rpc_env} ((ex_rpc_server (peer_send Done ex_left))\<lparr>rv_dropped := True, rv_main := Joining [0]\<rparr>)"
    by (rule ex_dropped_reach [OF ex_left_reach]) (simp_all add: ex_left_fields CHANNEL_SIZE_def)
  from shutdown_completes_iff [OF this, of "[0]"]
  show "\<exists>s'. rpc_steps {ex_rpc_env} ((ex_rpc_server (peer_send Done ex_left))\<lparr>rv_dropped := True, rv_main := Joining [0]\<rparr>) s' \<and>
      rv_main s' = Closed"
    by (simp add: ex_left_fields reader_messages_def) (simp add: peer_send_def ex_left_fields)
  have "rpc_reach {ex_broken_env} ((ex_rpc_server (peer_send Done ex_broken))\<lparr>rv_dropped := True, rv_main := Joining [0]\<rparr>)"
    by (rule ex_dropped_reach [OF ex_broken_reach]) (simp_all add: ex_broken_fields CHANNEL_SIZE_def)
  from shutdown_completes_iff [OF this, of "[0]"]
  show "\<not> (\<exists>s'. rpc_steps {ex_broken_env} ((ex_rpc_server (peer_send Done ex_broken))\<lparr>rv_dropped := True, rv_main := Joining [0]\<rparr>) s' \<and>
      rv_main s' = Closed)"
    by (simp add: ex_broken_fields reader_messages_def ex_broken_requests)
qed

text \<open>
  A connection that was accepted before the end but registers after \<^verbatim>\<open>Done\<close> was sent to the others is not told:
  the main thread waits for its client to leave.
\<close>

lemma late_connection_not_told:
  "\<exists>s. rpc_reach EE s \<and> rv_main s = Joining [0] \<and> rv_peers s = [peer_serve (peer_open client ex_conn)]"
proof -
  let ?p = "peer_open client ex_conn"
  let ?s = "rpc_start\<lparr>rv_dropped := True, rv_threads := [0], rv_peers := [?p]\<rparr>"
  have "rpc_reach EE rpc_start" by (simp add: rpc_reach_def)
  from rpc_reach_step [OF this rpc_connect] have "rpc_reach EE (rpc_start\<lparr>rv_accepted := [Some client]\<rparr>)"
    by (simp add: rpc_start_def)
  from rpc_reach_step [OF this rpc_drop_step]
  have "rpc_reach EE (rpc_start\<lparr>rv_dropped := True, rv_notifications := [Exit], rv_accepted := [Some client]\<rparr>)"
    by (simp add: rpc_start_def)
  from rpc_reach_step [OF this rpc_accept [where q = "query_new ex_store (mempool_new 0)" and c = 0 and n = 0]]
  have "rpc_reach EE (?s\<lparr>rv_main := Collecting, rv_notifications := [Exit]\<rparr>)" by (simp add: rpc_start_def)
  from rpc_reach_step [OF this rpc_collected] have "rpc_reach EE (?s\<lparr>rv_notifications := [Exit]\<rparr>)" by (simp add: rpc_start_def)
  from rpc_reach_step [OF this rpc_notifier] have "rpc_reach EE (?s\<lparr>rv_accepted := [None]\<rparr>)"
    by (simp add: rpc_start_def senders_locked.simps notifier_step.simps)
  from rpc_reach_step [OF this rpc_stop] have "rpc_reach EE (?s\<lparr>rv_main := SendingDone []\<rparr>)" by (simp add: rpc_start_def)
  from rpc_reach_step [OF this rpc_sent] have "rpc_reach EE (?s\<lparr>rv_main := Joining [0]\<rparr>)" by (simp add: rpc_start_def)
  from rpc_reach_step [OF this rpc_register [of 0]]
  have "rpc_reach EE (?s\<lparr>rv_main := Joining [0], rv_senders := [0], rv_peers := [peer_serve ?p]\<rparr>)"
    by (simp add: rpc_start_def peer_open_def senders_locked.simps)
  then show ?thesis by (intro exI conjI) (assumption, simp_all)
qed

end
