(* ===== verification/Rest.thy ===== *)
theory Rest
  imports Web
begin

text \<open>
  The HTTP interface (\<^verbatim>\<open>src/src/rest.rs\<close>): the values it returns and their serialisation, the routes, the
  handler of each, errors with their status, and the response. HTTP itself (hyper), the sockets and the
  threads are not modelled.
\<close>

section \<open>Constants\<close>

definition CHAIN_TXS_PER_PAGE :: nat where
  "CHAIN_TXS_PER_PAGE = 25"

definition MAX_MEMPOOL_TXS :: nat where
  "MAX_MEMPOOL_TXS = 50"

definition MEMPOOL_TXS_PER_PAGE :: nat where
  "MEMPOOL_TXS_PER_PAGE = 25"

definition BLOCK_LIMIT :: nat where
  "BLOCK_LIMIT = 10"

definition ADDRESS_SEARCH_LIMIT :: nat where
  "ADDRESS_SEARCH_LIMIT = 10"

definition COLOR_IDS_PER_PAGE :: nat where
  "COLOR_IDS_PER_PAGE = 25"

definition TTL_LONG :: nat where
  "TTL_LONG = 157784630"

definition TTL_SHORT :: nat where
  "TTL_SHORT = 10"

definition TTL_MEMPOOL_RECENT :: nat where
  "TTL_MEMPOOL_RECENT = 5"

definition CONF_FINAL :: nat where
  "CONF_FINAL = 10"

section \<open>Errors\<close>

text \<open>\<^verbatim>\<open>struct HttpError\<close>, and the panic of the task that serves a request.\<close>

datatype http_failure = HttpPanic string | HttpError nat string

type_synonym 'a http = "http_failure + 'a"

definition OK :: nat where "OK = 200"
definition BAD_REQUEST :: nat where "BAD_REQUEST = 400"
definition NOT_FOUND :: nat where "NOT_FOUND = 404"

definition not_found :: "string \<Rightarrow> 'a http" where
  "not_found msg = Inl (HttpError NOT_FOUND msg)"

definition bad_request :: "string \<Rightarrow> 'a http" where
  "bad_request msg = Inl (HttpError BAD_REQUEST msg)"

fun h_then :: "'a http \<Rightarrow> ('a \<Rightarrow> 'b http) \<Rightarrow> 'b http" where
  "h_then (Inl e) f = Inl e"
| "h_then (Inr x) f = f x"

definition ok_or_else :: "'b http \<Rightarrow> 'a option \<Rightarrow> ('a \<Rightarrow> 'b http) \<Rightarrow> 'b http" where
  "ok_or_else e r f = (case r of None \<Rightarrow> e | Some x \<Rightarrow> f x)"

fun error_description :: "error \<Rightarrow> string" where
  "error_description (Msg m) = m"
| "error_description (Connection m) = ''Connection error''"
| "error_description (Interrupt sig) = ''Interruption by external signal''"
| "error_description TooPopular = ''Too many history entries''"
| "error_description (Panic m) = m"

definition block_not_found_message :: string where
  "block_not_found_message = ''getblock RPC error: {'' @ [CHR 0x22] @ ''code'' @ [CHR 0x22] @ '':-5,'' @ [CHR 0x22] @
     ''message'' @ [CHR 0x22] @ '':'' @ [CHR 0x22] @ ''Block not found'' @ [CHR 0x22] @ ''}''"

text \<open>\<^verbatim>\<open>impl From<errors::Error> for HttpError\<close>, applied by \<^verbatim>\<open>?\<close>.\<close>

fun http_error_from :: "error \<Rightarrow> http_failure" where
  "http_error_from (Panic m) = HttpPanic m"
| "http_error_from e =
     (if error_description e = block_not_found_message then HttpError NOT_FOUND ''Block not found''
      else HttpError BAD_REQUEST (error_display e))"

definition lift_res :: "'a res \<Rightarrow> 'a http" where
  "lift_res r = (case r of Inl e \<Rightarrow> Inl (http_error_from e) | Inr x \<Rightarrow> Inr x)"

section \<open>Responses\<close>

datatype body = BodyText string | BodyBytes bytes | BodyJson json

record response =
  rs_status :: nat
  rs_headers :: "(string \<times> string) list"
  rs_body :: body

definition cache_control :: "nat \<Rightarrow> string \<times> string" where
  "cache_control ttl = (''Cache-Control'', ''public, max-age='' @ dec_nat ttl)"

definition http_message :: "nat \<Rightarrow> string \<Rightarrow> nat \<Rightarrow> response http" where
  "http_message status message ttl =
     Inr \<lparr>rs_status = status, rs_headers = [(''Content-Type'', ''text/plain''), cache_control ttl], rs_body = BodyText message\<rparr>"

definition json_response :: "json \<Rightarrow> nat \<Rightarrow> response http" where
  "json_response value ttl =
     Inr \<lparr>rs_status = OK, rs_headers = [(''Content-Type'', ''application/json''), cache_control ttl], rs_body = BodyJson value\<rparr>"

text \<open>The distance from the tip, in \<^verbatim>\<open>usize\<close> arithmetic.\<close>

definition ttl_by_depth :: "nat option \<Rightarrow> 'd store \<Rightarrow> nat" where
  "ttl_by_depth height st =
     (case height of
        None \<Rightarrow> TTL_SHORT
      | Some height \<Rightarrow>
          if CONF_FINAL \<le> nat ((int (best_height st) - int height) mod 2 ^ 64) then TTL_LONG else TTL_SHORT)"

section \<open>Values\<close>

record rest_env =
  rt_lib :: lib
  rt_tap :: tapyrus
  rt_web :: web
  rt_config :: config

definition block_value :: "rest_env \<Rightarrow> block_header_meta \<Rightarrow> json" where
  "block_value R blockhm =
     (let L = rt_lib R; W = rt_web R; entry = bhm_header_entry blockhm; header = he_header entry; meta = bhm_meta blockhm;
          xfield = (case bh_xfield header of XFieldNone \<Rightarrow> None | x \<Rightarrow> Some (wb_xfield_to_string W x))
      in JObj
        [(''id'', j_hash L (block_hash (rt_tap R) header)),
         (''height'', j_u32 (of_nat (he_height entry))),
         (''features'', j_i32 (bh_version header)),
         (''time'', j_u32 (bh_time header)),
         (''tx_count'', j_u32 (bm_tx_count meta)),
         (''size'', j_u32 (bm_size meta)),
         (''weight'', j_u32 (bm_weight meta)),
         (''merkle_root'', j_hash L (bh_merkle_root header)),
         (''im_merkle_root'', j_hash L (bh_im_merkle_root header)),
         (''previousblockhash'', if bh_prev_blockhash header \<noteq> 0 then j_hash L (bh_prev_blockhash header) else JNull),
         (''signature'', j_opt (\<lambda>p. JStr (wb_proof_hex W p)) (bh_proof header)),
         (''xfield_type'', j_nat (unat (wb_xfield_type W (bh_xfield header)))),
         (''xfield'', j_opt JStr xfield)])"

definition tx_out_value :: "rest_env \<Rightarrow> txout \<Rightarrow> json res" where
  "tx_out_value R txout =
     (let script = txo_script_pubkey txout in
      and_then (get_script_asm (rt_tap R) script) (\<lambda>script_asm.
        Inr (JObj ([(''scriptpubkey'', JStr (wb_script_hex (rt_web R) script)), (''scriptpubkey_asm'', JStr script_asm),
            (''scriptpubkey_type'', JStr (get_script_type (rt_tap R) script))] @
          j_skip ''scriptpubkey_address'' JStr (script_to_address (rt_tap R) script (cf_network (rt_config R))) @
          [(''value'', j_u64 (txo_value txout))]))))"

definition opt_asm :: "rest_env \<Rightarrow> script option \<Rightarrow> string option res" where
  "opt_asm R s = (case s of None \<Rightarrow> Inr None | Some s \<Rightarrow> and_then (get_script_asm (rt_tap R) s) (\<lambda>a. Inr (Some a)))"

definition tx_in_value :: "rest_env \<Rightarrow> txin \<Rightarrow> txout option \<Rightarrow> json res" where
  "tx_in_value R txin prevout =
     (let witness = (if txi_witness txin \<noteq> [] then Some (map (\<lambda>w. JStr (hex_encode (rt_lib R) w)) (txi_witness txin)) else None);
          innerscripts = map_option (\<lambda>p. get_innerscripts (rt_tap R) txin p) prevout
      in
      and_then (case prevout of None \<Rightarrow> Inr JNull | Some p \<Rightarrow> tx_out_value R p) (\<lambda>prevout_value.
      and_then (get_script_asm (rt_tap R) (txi_script_sig txin)) (\<lambda>scriptsig_asm.
      and_then (opt_asm R (Option.bind innerscripts is_redeem_script)) (\<lambda>redeem_asm.
      and_then (opt_asm R (Option.bind innerscripts is_witness_script)) (\<lambda>witness_asm.
        Inr (JObj ([(''txid'', j_hash (rt_lib R) (op_txid (txi_previous_output txin))),
            (''vout'', j_u32 (op_vout (txi_previous_output txin))), (''prevout'', prevout_value),
            (''scriptsig'', JStr (wb_script_hex (rt_web R) (txi_script_sig txin))), (''scriptsig_asm'', JStr scriptsig_asm)] @
          j_skip ''witness'' JArr witness @
          [(''is_coinbase'', JBool (is_coinbase txin)), (''sequence'', j_u32 (txi_sequence txin))] @
          j_skip ''inner_redeemscript_asm'' JStr redeem_asm @ j_skip ''inner_witnessscript_asm'' JStr witness_asm)))))))"

definition transaction_value :: "rest_env \<Rightarrow> transaction \<Rightarrow> block_id option \<Rightarrow> (outpoint, txout) hashmap \<Rightarrow> json res" where
  "transaction_value R tx blockid txos =
     and_then (extract_tx_prevouts tx txos True) (\<lambda>prevouts.
     and_then (map_res (\<lambda>(index, txin). tx_in_value R txin (hm_get prevouts (of_nat index))) (enumerate 0 (tx_input tx))) (\<lambda>vins.
     and_then (map_res (tx_out_value R) (tx_output tx)) (\<lambda>vouts.
       Inr (JObj
         [(''txid'', j_hash (rt_lib R) (malfix_txid (rt_tap R) tx)), (''version'', j_i32 (tx_version tx)),
          (''locktime'', j_u32 (tx_lock_time tx)), (''vin'', JArr vins), (''vout'', JArr vouts),
          (''size'', j_u32 (of_nat (tx_get_size (rt_tap R) tx))), (''weight'', j_u32 (of_nat (tx_get_weight (rt_tap R) tx))),
          (''fee'', j_u64 (get_tx_fee (rt_tap R) tx prevouts)),
          (''status'', j_transaction_status (rt_lib R) (transaction_status_from blockid))]))))"

definition utxo_value :: "rest_env \<Rightarrow> utxo \<Rightarrow> json" where
  "utxo_value R u =
     JObj [(''txid'', j_hash (rt_lib R) (ut_txid u)), (''vout'', j_u32 (ut_vout u)),
       (''status'', j_transaction_status (rt_lib R) (transaction_status_from (ut_confirmed u))),
       (''value'', j_u64 (ut_value u)), (''color_id'', j_color (rt_web R) (ut_color_id u))]"

definition spending_value :: "rest_env \<Rightarrow> spending_input option \<Rightarrow> json" where
  "spending_value R spend =
     (case spend of
        Some sp \<Rightarrow>
          JObj [(''spent'', JBool True), (''txid'', j_hash (rt_lib R) (sp_txid sp)), (''vin'', j_u32 (sp_vin sp)),
            (''status'', j_transaction_status (rt_lib R) (transaction_status_from (sp_confirmed sp)))]
      | None \<Rightarrow> JObj [(''spent'', JBool False)])"

definition colored_stats_value :: "rest_env \<Rightarrow> colored_stats \<Rightarrow> json" where
  "colored_stats_value R s =
     JObj [(''color_id'', j_color (rt_web R) (cs_color_id s)), (''tx_count'', j_nat (cs_tx_count s)),
       (''issued_tx_count'', j_nat (cs_issued_tx_count s)), (''transferred_tx_count'', j_nat (cs_transferred_tx_count s)),
       (''burned_tx_count'', j_nat (cs_burned_tx_count s)), (''issued_sum'', j_u64 (cs_issued_sum s)),
       (''transferred_sum'', j_u64 (cs_transferred_sum s)), (''burned_sum'', j_u64 (cs_burned_sum s))]"

definition prepare_txs :: "rest_env \<Rightarrow> 'd chain_query \<Rightarrow> 'd query \<Rightarrow> (transaction \<times> block_id option) list \<Rightarrow> json list res" where
  "prepare_txs R Q q txs =
     (let outpoints = remdups (concat (map (\<lambda>(tx, _). map txi_previous_output (filter has_prevout (tx_input tx))) txs)) in
      and_then (query_lookup_txos Q q outpoints) (\<lambda>prevouts.
        map_res (\<lambda>(tx, blockid). transaction_value R tx blockid prevouts) txs))"

section \<open>Scripts\<close>

definition address_to_scripthash :: "rest_env \<Rightarrow> string \<Rightarrow> scripthash http" where
  "address_to_scripthash R addr =
     ok_or_else (bad_request ''Invalid Tapyrus address'') (wb_address_from_str (rt_web R) addr) (\<lambda>(net, script).
       if network_type_from_bnetwork net \<noteq> network_type (cf_network (rt_config R)) then bad_request ''Address on invalid network''
       else Inr (compute_script_hash (rt_tap R) script))"

definition parse_scripthash :: "rest_env \<Rightarrow> string \<Rightarrow> scripthash http" where
  "parse_scripthash R scripthash =
     ok_or_else (bad_request ''Invalid hex string'') (hex_decode (rt_lib R) scripthash) (\<lambda>bs.
       if length bs \<noteq> 32 then bad_request ''Invalid scripthash'' else Inr (bytes_hash bs))"

definition to_scripthash :: "rest_env \<Rightarrow> string \<Rightarrow> string \<Rightarrow> scripthash http" where
  "to_scripthash R script_type script_str =
     (if script_type = ''address'' then address_to_scripthash R script_str
      else if script_type = ''scripthash'' then parse_scripthash R script_str
      else bad_request ''Invalid script type'')"

definition parse_hash_param :: "rest_env \<Rightarrow> string \<Rightarrow> (hash \<Rightarrow> 'b http) \<Rightarrow> 'b http" where
  "parse_hash_param R s f = ok_or_else (bad_request ''Invalid hex string'') (hash_from_hex (rt_lib R) s) f"

definition parse_number :: "nat \<Rightarrow> string \<Rightarrow> (nat \<Rightarrow> 'b http) \<Rightarrow> 'b http" where
  "parse_number w s f = ok_or_else (bad_request ''Invalid number'') (parse_uint w s) f"

text \<open>\<^verbatim>\<open>map_or(0u32, |el| el.parse().unwrap_or(0)).max(0u32)\<close>.\<close>

definition start_index_of :: "string option \<Rightarrow> nat" where
  "start_index_of s = (case s of None \<Rightarrow> 0 | Some el \<Rightarrow> unwrap_or (parse_uint 32 el) 0)"

section \<open>Routes\<close>

datatype http_method = GET | POST | OtherMethod

datatype route =
    RTipHash | RTipHeight | RBlocks "string option" | RBlockHeight string
  | RBlock string | RBlockStatus string | RBlockTxids string | RBlockHeader string | RBlockRaw string
  | RBlockTxid string string | RBlockTxs string "string option"
  | RScript string string | RScriptTxs string string | RScriptTxsChain string string "string option"
  | RScriptTxsMempool string string | RScriptUtxo string string
  | RAddressPrefix string
  | RTx string | RTxHex string | RTxRaw string | RTxStatus string | RTxMerkleProof string | RTxMerkleblockProof string
  | RTxOutspend string string | RTxOutspends string
  | RBroadcastGet | RBroadcastPost
  | RMempool | RMempoolTxids | RMempoolRecent | RMempoolTxs "string option"
  | RColors "string option" | RColor string | RColorTxs string | RColorTxsChain string "string option"
  | RFeeEstimates

definition script_type :: "string \<Rightarrow> bool" where
  "script_type s \<longleftrightarrow> s = ''address'' \<or> s = ''scripthash''"

text \<open>\<^verbatim>\<open>uri.path().split('/').skip(1)\<close>, of which the match looks at the first five segments.\<close>

definition path_segments :: "string \<Rightarrow> string list" where
  "path_segments path = drop 1 (split_on (CHR ''/'') path)"

fun get_route :: "string list \<Rightarrow> route option" where
  "get_route [a] =
     (if a = ''blocks'' then Some (RBlocks None)
      else if a = ''broadcast'' then Some RBroadcastGet
      else if a = ''mempool'' then Some RMempool
      else if a = ''colors'' then Some (RColors None)
      else if a = ''fee-estimates'' then Some RFeeEstimates
      else None)"
| "get_route [a, b] =
     (if a = ''blocks'' then Some (RBlocks (Some b))
      else if a = ''block-height'' then Some (RBlockHeight b)
      else if a = ''block'' then Some (RBlock b)
      else if script_type a then Some (RScript a b)
      else if a = ''address-prefix'' then Some (RAddressPrefix b)
      else if a = ''tx'' then Some (RTx b)
      else if a = ''mempool'' then
        (if b = ''txids'' then Some RMempoolTxids
         else if b = ''recent'' then Some RMempoolRecent
         else if b = ''txs'' then Some (RMempoolTxs None)
         else None)
      else if a = ''colors'' then Some (RColors (Some b))
      else if a = ''color'' then Some (RColor b)
      else None)"
| "get_route [a, b, c] =
     (if a = ''blocks'' \<and> b = ''tip'' \<and> c = ''hash'' then Some RTipHash
      else if a = ''blocks'' \<and> b = ''tip'' \<and> c = ''height'' then Some RTipHeight
      else if a = ''block'' then
        (if c = ''status'' then Some (RBlockStatus b)
         else if c = ''txids'' then Some (RBlockTxids b)
         else if c = ''header'' then Some (RBlockHeader b)
         else if c = ''raw'' then Some (RBlockRaw b)
         else if c = ''txs'' then Some (RBlockTxs b None)
         else None)
      else if script_type a then
        (if c = ''txs'' then Some (RScriptTxs a b)
         else if c = ''utxo'' then Some (RScriptUtxo a b)
         else None)
      else if a = ''tx'' then
        (if c = ''hex'' then Some (RTxHex b)
         else if c = ''raw'' then Some (RTxRaw b)
         else if c = ''status'' then Some (RTxStatus b)
         else if c = ''merkle-proof'' then Some (RTxMerkleProof b)
         else if c = ''merkleblock-proof'' then Some (RTxMerkleblockProof b)
         else if c = ''outspends'' then Some (RTxOutspends b)
         else None)
      else if a = ''mempool'' \<and> b = ''txs'' then Some (RMempoolTxs (Some c))
      else if a = ''color'' \<and> c = ''txs'' then Some (RColorTxs b)
      else None)"
| "get_route [a, b, c, d] =
     (if a = ''block'' \<and> c = ''txid'' then Some (RBlockTxid b d)
      else if a = ''block'' \<and> c = ''txs'' then Some (RBlockTxs b (Some d))
      else if script_type a \<and> c = ''txs'' \<and> d = ''chain'' then Some (RScriptTxsChain a b None)
      else if script_type a \<and> c = ''txs'' \<and> d = ''mempool'' then Some (RScriptTxsMempool a b)
      else if a = ''tx'' \<and> c = ''outspend'' then Some (RTxOutspend b d)
      else if a = ''color'' \<and> c = ''txs'' \<and> d = ''chain'' then Some (RColorTxsChain b None)
      else None)"
| "get_route [a, b, c, d, e] =
     (if script_type a \<and> c = ''txs'' \<and> d = ''chain'' then Some (RScriptTxsChain a b (Some e))
      else if a = ''color'' \<and> c = ''txs'' \<and> d = ''chain'' then Some (RColorTxsChain b (Some e))
      else None)"
| "get_route _ = None"

definition route_of :: "http_method \<Rightarrow> string list \<Rightarrow> route option" where
  "route_of m path =
     (case m of
        GET \<Rightarrow> get_route (take 5 path)
      | POST \<Rightarrow> if path = [''tx''] then Some RBroadcastPost else None
      | OtherMethod \<Rightarrow> None)"

section \<open>Handlers\<close>

definition headers_ok :: "nat \<Rightarrow> string \<Rightarrow> body \<Rightarrow> response http" where
  "headers_ok ttl content_type b =
     Inr \<lparr>rs_status = OK, rs_headers = [(''Content-Type'', content_type), cache_control ttl], rs_body = b\<rparr>"

text \<open>An option that the chain returns: absence is an error of the request.\<close>

definition found :: "string \<Rightarrow> 'a option res \<Rightarrow> ('a \<Rightarrow> 'b http) \<Rightarrow> 'b http" where
  "found msg r f = h_then (lift_res r) (\<lambda>x. ok_or_else (not_found msg) x f)"

text \<open>The loop of \<^verbatim>\<open>blocks\<close>, down the chain from a hash, at most \<^verbatim>\<open>BLOCK_LIMIT\<close> times.\<close>

fun blocks_from :: "'d chain_query \<Rightarrow> 'd store \<Rightarrow> nat \<Rightarrow> blockhash \<Rightarrow> block_header_meta list http" where
  "blocks_from Q st 0 current_hash = Inr []"
| "blocks_from Q st (Suc n) current_hash =
     found ''Block not found'' (get_block_with_meta Q st current_hash) (\<lambda>blockhm.
       let current_hash = bh_prev_blockhash (he_header (bhm_header_entry blockhm)) in
       if current_hash = 0 then Inr [blockhm]
       else h_then (blocks_from Q st n current_hash) (\<lambda>bs. Inr (blockhm # bs)))"

definition rest_blocks :: "rest_env \<Rightarrow> 'd chain_query \<Rightarrow> 'd store \<Rightarrow> nat option \<Rightarrow> response http" where
  "rest_blocks R Q st start_height =
     h_then
       (case start_height of
          Some height \<Rightarrow> found ''Block not found'' (cq_header_by_height st height) (\<lambda>entry. Inr (he_hash entry))
        | None \<Rightarrow> lift_res (best_hash st)) (\<lambda>current_hash.
     h_then (blocks_from Q st BLOCK_LIMIT current_hash) (\<lambda>blocks.
       json_response (JArr (map (block_value R) blocks)) TTL_SHORT))"

definition rest_block_height :: "rest_env \<Rightarrow> 'd store \<Rightarrow> string \<Rightarrow> response http" where
  "rest_block_height R st height =
     parse_number 64 height (\<lambda>height.
     found ''Block not found'' (cq_header_by_height st height) (\<lambda>header.
       http_message OK (hash_to_hex (rt_lib R) (he_hash header)) (ttl_by_depth (Some height) st)))"

definition rest_block :: "rest_env \<Rightarrow> 'd chain_query \<Rightarrow> 'd store \<Rightarrow> string \<Rightarrow> response http" where
  "rest_block R Q st hash =
     parse_hash_param R hash (\<lambda>hash.
     found ''Block not found'' (get_block_with_meta Q st hash) (\<lambda>blockhm.
       json_response (block_value R blockhm) TTL_LONG))"

definition rest_block_status :: "rest_env \<Rightarrow> 'd store \<Rightarrow> string \<Rightarrow> response http" where
  "rest_block_status R st hash =
     parse_hash_param R hash (\<lambda>hash.
     h_then (lift_res (get_block_status st hash)) (\<lambda>status.
       json_response (j_block_status (rt_lib R) status) (ttl_by_depth (bs_height status) st)))"

definition rest_block_txids :: "rest_env \<Rightarrow> 'd chain_query \<Rightarrow> 'd store \<Rightarrow> string \<Rightarrow> response http" where
  "rest_block_txids R Q st hash =
     parse_hash_param R hash (\<lambda>hash.
     found ''Block not found'' (get_block_txids Q st hash) (\<lambda>txids.
       json_response (JArr (map (j_hash (rt_lib R)) txids)) TTL_LONG))"

definition rest_block_header :: "rest_env \<Rightarrow> 'd store \<Rightarrow> string \<Rightarrow> response http" where
  "rest_block_header R st hash =
     parse_hash_param R hash (\<lambda>hash.
     found ''Block not found'' (Inr (get_block_header st hash)) (\<lambda>header.
       http_message OK (hex_encode (rt_lib R) (serialize_header (rt_tap R) header)) TTL_LONG))"

definition rest_block_raw :: "rest_env \<Rightarrow> 'd chain_query \<Rightarrow> 'd store \<Rightarrow> string \<Rightarrow> response http" where
  "rest_block_raw R Q st hash =
     parse_hash_param R hash (\<lambda>hash.
     found ''Block not found'' (get_block_raw Q st hash) (\<lambda>raw.
       headers_ok TTL_LONG ''application/octet-stream'' (BodyBytes raw)))"

definition rest_block_txid :: "rest_env \<Rightarrow> 'd chain_query \<Rightarrow> 'd store \<Rightarrow> string \<Rightarrow> string \<Rightarrow> response http" where
  "rest_block_txid R Q st hash index =
     parse_hash_param R hash (\<lambda>hash.
     parse_number 64 index (\<lambda>index.
     found ''Block not found'' (get_block_txids Q st hash) (\<lambda>txids.
       if length txids \<le> index then not_found ''tx index out of range''
       else http_message OK (hash_to_hex (rt_lib R) (txids ! index)) TTL_LONG)))"

text \<open>The transactions of a page of a block; the page as txids is separate.\<close>

definition block_page :: "txid list \<Rightarrow> nat \<Rightarrow> txid list http" where
  "block_page txids start_index =
     (if length txids \<le> start_index then not_found ''start index out of range''
      else if start_index mod CHAIN_TXS_PER_PAGE \<noteq> 0 then
        bad_request (''start index must be a multipication of '' @ dec_nat CHAIN_TXS_PER_PAGE)
      else Inr (take CHAIN_TXS_PER_PAGE (drop start_index txids)))"

fun lookup_page :: "'d chain_query \<Rightarrow> 'd query \<Rightarrow> block_id option \<Rightarrow> txid list \<Rightarrow> (transaction \<times> block_id option) list http" where
  "lookup_page Q q confirmed_blockid [] = Inr []"
| "lookup_page Q q confirmed_blockid (txid # txids) =
     h_then (lift_res (query_lookup_txn Q q txid)) (\<lambda>tx.
     ok_or_else (bad_request ''missing tx'') tx (\<lambda>tx.
     h_then (lookup_page Q q confirmed_blockid txids) (\<lambda>txs. Inr ((tx, confirmed_blockid) # txs))))"

definition rest_txs :: "rest_env \<Rightarrow> 'd chain_query \<Rightarrow> 'd query \<Rightarrow> (transaction \<times> block_id option) list \<Rightarrow> nat \<Rightarrow> response http" where
  "rest_txs R Q q txs ttl = h_then (lift_res (prepare_txs R Q q txs)) (\<lambda>vs. json_response (JArr vs) ttl)"

definition rest_block_txs :: "rest_env \<Rightarrow> 'd chain_query \<Rightarrow> 'd query \<Rightarrow> string \<Rightarrow> string option \<Rightarrow> response http" where
  "rest_block_txs R Q q hash start_index =
     (let st = qy_store q in
      parse_hash_param R hash (\<lambda>hash.
      found ''Block not found'' (get_block_txids Q st hash) (\<lambda>txids.
      h_then (block_page txids (start_index_of start_index)) (\<lambda>page.
      let confirmed_blockid = blockid_by_hash st hash in
      h_then (lookup_page Q q confirmed_blockid page) (\<lambda>txs.
        rest_txs R Q q txs (ttl_by_depth (map_option bid_height confirmed_blockid) st))))))"

definition rest_script :: "rest_env \<Rightarrow> 'd chain_query \<Rightarrow> string \<Rightarrow> string \<Rightarrow> 'd query \<Rightarrow> 'd query \<times> response http" where
  "rest_script R Q ty script_str q =
     (case to_scripthash R ty script_str of
        Inl e \<Rightarrow> (q, Inl e)
      | Inr script_hash \<Rightarrow>
          (case query_stats Q script_hash q of (q', r) \<Rightarrow>
             (q', h_then (lift_res r) (\<lambda>(chain, mempool).
               json_response (JObj [(ty, JStr script_str), (''chain_stats'', j_stats_map (rt_web R) chain),
                 (''mempool_stats'', j_stats_map (rt_web R) mempool)]) TTL_SHORT))))"

definition mempool_page :: "'d query \<Rightarrow> scripthash \<Rightarrow> (transaction \<times> block_id option) list res" where
  "mempool_page q script_hash =
     and_then (mp_history_txs (qy_mempool q) script_hash MAX_MEMPOOL_TXS) (\<lambda>txs. Inr (map (\<lambda>tx. (tx, None)) txs))"

definition chain_page :: "'d chain_query \<Rightarrow> 'd query \<Rightarrow> scripthash \<Rightarrow> txid option \<Rightarrow> (transaction \<times> block_id option) list res" where
  "chain_page Q q script_hash last_seen_txid =
     and_then (chain_history Q (qy_store q) script_hash last_seen_txid CHAIN_TXS_PER_PAGE) (\<lambda>txs.
       Inr (map (\<lambda>(tx, blockid). (tx, Some blockid)) txs))"

definition rest_script_txs :: "rest_env \<Rightarrow> 'd chain_query \<Rightarrow> 'd query \<Rightarrow> string \<Rightarrow> string \<Rightarrow> response http" where
  "rest_script_txs R Q q ty script_str =
     h_then (to_scripthash R ty script_str) (\<lambda>script_hash.
     h_then (lift_res (mempool_page q script_hash)) (\<lambda>unconfirmed.
     h_then (lift_res (chain_page Q q script_hash None)) (\<lambda>confirmed.
       rest_txs R Q q (unconfirmed @ confirmed) TTL_SHORT)))"

definition rest_script_txs_chain :: "rest_env \<Rightarrow> 'd chain_query \<Rightarrow> 'd query \<Rightarrow> string \<Rightarrow> string \<Rightarrow> string option \<Rightarrow> response http" where
  "rest_script_txs_chain R Q q ty script_str last_seen_txid =
     h_then (to_scripthash R ty script_str) (\<lambda>script_hash.
     h_then (lift_res (chain_page Q q script_hash (Option.bind last_seen_txid (hash_from_hex (rt_lib R))))) (\<lambda>txs.
       rest_txs R Q q txs TTL_SHORT))"

definition rest_script_txs_mempool :: "rest_env \<Rightarrow> 'd chain_query \<Rightarrow> 'd query \<Rightarrow> string \<Rightarrow> string \<Rightarrow> response http" where
  "rest_script_txs_mempool R Q q ty script_str =
     h_then (to_scripthash R ty script_str) (\<lambda>script_hash.
     h_then (lift_res (mempool_page q script_hash)) (\<lambda>txs. rest_txs R Q q txs TTL_SHORT))"

definition rest_script_utxo :: "rest_env \<Rightarrow> 'd chain_query \<Rightarrow> string \<Rightarrow> string \<Rightarrow> 'd query \<Rightarrow> 'd query \<times> response http" where
  "rest_script_utxo R Q ty script_str q =
     (case to_scripthash R ty script_str of
        Inl e \<Rightarrow> (q, Inl e)
      | Inr script_hash \<Rightarrow>
          (case query_utxo Q (config_query (rt_config R)) script_hash q of (q', r) \<Rightarrow>
             (q', h_then (lift_res r) (\<lambda>utxos. json_response (JArr (map (utxo_value R) utxos)) TTL_SHORT))))"

definition rest_address_prefix :: "rest_env \<Rightarrow> 'd chain_query \<Rightarrow> 'd store \<Rightarrow> string \<Rightarrow> response http" where
  "rest_address_prefix R Q st pre =
     (if \<not> cf_address_search (rt_config R) then bad_request ''address search disabled''
      else json_response (JArr (map JStr (address_search Q st pre ADDRESS_SEARCH_LIMIT))) TTL_SHORT)"

definition rest_tx :: "rest_env \<Rightarrow> 'd chain_query \<Rightarrow> 'd query \<Rightarrow> string \<Rightarrow> response http" where
  "rest_tx R Q q hash =
     parse_hash_param R hash (\<lambda>hash.
     found ''Transaction not found'' (query_lookup_txn Q q hash) (\<lambda>tx.
     h_then (lift_res (tx_confirming_block Q (qy_store q) hash)) (\<lambda>blockid.
     h_then (lift_res (prepare_txs R Q q [(tx, blockid)])) (\<lambda>vs.
     h_then (lift_res (expect ''removal index'' (case vs of v # _ \<Rightarrow> Some v | [] \<Rightarrow> None))) (\<lambda>v.
       json_response v (ttl_by_depth (map_option bid_height blockid) (qy_store q)))))))"

definition rest_tx_raw :: "rest_env \<Rightarrow> 'd chain_query \<Rightarrow> 'd query \<Rightarrow> bool \<Rightarrow> string \<Rightarrow> response http" where
  "rest_tx_raw R Q q hex hash =
     parse_hash_param R hash (\<lambda>hash.
     found ''Transaction not found'' (query_lookup_raw_txn Q q hash) (\<lambda>rawtx.
     h_then (lift_res (get_tx_status Q q hash)) (\<lambda>status.
       let ttl = ttl_by_depth (ts_block_height status) (qy_store q) in
       if hex then headers_ok ttl ''text/plain'' (BodyText (hex_encode (rt_lib R) rawtx))
       else headers_ok ttl ''application/octet-stream'' (BodyBytes rawtx))))"

definition rest_tx_status :: "rest_env \<Rightarrow> 'd chain_query \<Rightarrow> 'd query \<Rightarrow> string \<Rightarrow> response http" where
  "rest_tx_status R Q q hash =
     parse_hash_param R hash (\<lambda>hash.
     h_then (lift_res (get_tx_status Q q hash)) (\<lambda>status.
       json_response (j_transaction_status (rt_lib R) status) (ttl_by_depth (ts_block_height status) (qy_store q))))"

definition unconfirmed_message :: string where
  "unconfirmed_message = ''Transaction not found or is unconfirmed''"

definition rest_tx_merkle_proof :: "rest_env \<Rightarrow> 'd chain_query \<Rightarrow> 'd store \<Rightarrow> string \<Rightarrow> response http" where
  "rest_tx_merkle_proof R Q st hash =
     parse_hash_param R hash (\<lambda>hash.
     found unconfirmed_message (tx_confirming_block Q st hash) (\<lambda>blockid.
     h_then (lift_res (get_tx_merkle_proof Q st hash (bid_hash blockid))) (\<lambda>(merkle, pos).
       json_response (JObj [(''block_height'', j_nat (bid_height blockid)),
         (''merkle'', JArr (map (j_hash (rt_lib R)) merkle)), (''pos'', j_nat pos)]) (ttl_by_depth (Some (bid_height blockid)) st))))"

text \<open>The header of the Merkle block is that of the confirming block.\<close>

definition rest_tx_merkleblock_proof :: "rest_env \<Rightarrow> 'd chain_query \<Rightarrow> 'd store \<Rightarrow> string \<Rightarrow> response http" where
  "rest_tx_merkleblock_proof R Q st hash =
     parse_hash_param R hash (\<lambda>hash.
     found unconfirmed_message (get_merkleblock_proof Q st hash) (\<lambda>merkleblock.
     found unconfirmed_message (tx_confirming_block Q st hash) (\<lambda>blockid.
     let height = Option.bind (header_by_hash st (bid_hash blockid)) (\<lambda>e. height_by_hash st (block_hash (rt_tap R) (he_header e)))
     in http_message OK (hex_encode (rt_lib R) merkleblock) (ttl_by_depth height st))))"

definition rest_tx_outspend :: "rest_env \<Rightarrow> 'd chain_query \<Rightarrow> 'd query \<Rightarrow> string \<Rightarrow> string \<Rightarrow> response http" where
  "rest_tx_outspend R Q q hash index =
     parse_hash_param R hash (\<lambda>hash.
     parse_number 32 index (\<lambda>vout.
     h_then (lift_res (query_lookup_spend Q q \<lparr>op_txid = hash, op_vout = of_nat vout\<rparr>)) (\<lambda>spend.
       json_response (spending_value R spend)
         (ttl_by_depth (Option.bind spend (\<lambda>sp. ts_block_height (transaction_status_from (sp_confirmed sp)))) (qy_store q)))))"

definition rest_tx_outspends :: "rest_env \<Rightarrow> 'd chain_query \<Rightarrow> 'd query \<Rightarrow> string \<Rightarrow> response http" where
  "rest_tx_outspends R Q q hash =
     parse_hash_param R hash (\<lambda>hash.
     found ''Transaction not found'' (query_lookup_txn Q q hash) (\<lambda>tx.
     h_then (lift_res (lookup_tx_spends Q q tx)) (\<lambda>spends.
       json_response (JArr (map (spending_value R) spends)) TTL_SHORT)))"

definition rest_broadcast :: "rest_env \<Rightarrow> 'd chain_query \<Rightarrow> string http \<Rightarrow> 'd query \<Rightarrow> 'd query \<times> response http" where
  "rest_broadcast R Q txhex q =
     (case txhex of
        Inl e \<Rightarrow> (q, Inl e)
      | Inr txhex \<Rightarrow>
          (case query_broadcast_raw Q (config_query (rt_config R)) txhex q of (q', r) \<Rightarrow>
             (q', case r of
                 Inl (Panic m) \<Rightarrow> Inl (HttpPanic m)
               | Inl e \<Rightarrow> bad_request (error_description e)
               | Inr txid \<Rightarrow> http_message OK (hash_to_hex (rt_lib R) txid) 0)))"

definition mempool_txs_response :: "rest_env \<Rightarrow> 'd query \<Rightarrow> nat \<Rightarrow> response http" where
  "mempool_txs_response R q start_index =
     (let txs = txs_overview (qy_mempool q) in
      Inr \<lparr>rs_status = OK,
        rs_headers = [(''Content-Type'', ''application/json''), cache_control TTL_MEMPOOL_RECENT,
          (''X-Total-Results'', dec_nat (length txs))],
        rs_body = BodyJson (JArr (map (j_tx_overview (rt_lib R)) (take MEMPOOL_TXS_PER_PAGE (drop start_index txs))))\<rparr>)"

text \<open>The statistics of each colour of a page, through the cache.\<close>

fun color_values :: "rest_env \<Rightarrow> 'd chain_query \<Rightarrow> (color \<times> u32) list \<Rightarrow> 'd query \<Rightarrow> 'd query \<times> json list res" where
  "color_values R Q [] q = (q, Inr [])"
| "color_values R Q ((color_id, height) # cs) q =
     (case query_get_colored_stats Q color_id q of
        (q', Inl e) \<Rightarrow> (q', Inl e)
      | (q', Inr (chain, mempool)) \<Rightarrow>
          (case color_values R Q cs q' of (q'', r) \<Rightarrow>
             (q'', and_then r (\<lambda>vs.
               Inr (JObj [(''color_id'', j_color (rt_web R) color_id), (''height'', j_u32 height),
                 (''chain_stats'', colored_stats_value R chain), (''mempool_stats'', colored_stats_value R mempool)] # vs)))))"

definition rest_colors :: "rest_env \<Rightarrow> 'd chain_query \<Rightarrow> string option \<Rightarrow> 'd query \<Rightarrow> 'd query \<times> response http" where
  "rest_colors R Q last_seen_color_id q =
     (case query_get_colors Q q (Option.bind last_seen_color_id (wb_color_from_hex (rt_web R))) COLOR_IDS_PER_PAGE of
        Inl e \<Rightarrow> (q, Inl (http_error_from e))
      | Inr colors \<Rightarrow>
          (case color_values R Q colors q of (q', r) \<Rightarrow>
             (q', h_then (lift_res r) (\<lambda>vs. json_response (JArr vs) TTL_SHORT))))"

text \<open>\<^verbatim>\<open>ColorIdentifier::from_hex(..).unwrap()\<close>.\<close>

definition parse_color :: "rest_env \<Rightarrow> string \<Rightarrow> color http" where
  "parse_color R s = lift_res (expect ''unwrap'' (wb_color_from_hex (rt_web R) s))"

definition rest_color :: "rest_env \<Rightarrow> 'd chain_query \<Rightarrow> string \<Rightarrow> 'd query \<Rightarrow> 'd query \<times> response http" where
  "rest_color R Q color_str q =
     (case parse_color R color_str of
        Inl e \<Rightarrow> (q, Inl e)
      | Inr color_id \<Rightarrow>
          (case query_get_colored_stats Q color_id q of (q', r) \<Rightarrow>
             (q', h_then (lift_res r) (\<lambda>(chain, mempool).
               json_response (JObj [(''chain_stats'', colored_stats_value R chain),
                 (''mempool_stats'', colored_stats_value R mempool)]) TTL_SHORT))))"

definition rest_color_txs :: "rest_env \<Rightarrow> 'd chain_query \<Rightarrow> 'd query \<Rightarrow> string \<Rightarrow> string option \<Rightarrow> response http" where
  "rest_color_txs R Q q color_str last_seen_txid =
     h_then (parse_color R color_str) (\<lambda>color_id.
     h_then (lift_res (query_get_colored_txs Q q color_id (Option.bind last_seen_txid (hash_from_hex (rt_lib R))) CHAIN_TXS_PER_PAGE)) (\<lambda>txs.
       rest_txs R Q q txs TTL_SHORT))"

definition rest_fee_estimates :: "'d chain_query \<Rightarrow> nat \<Rightarrow> 'd query \<Rightarrow> 'd query \<times> response http" where
  "rest_fee_estimates Q now q =
     (case estimate_fee_map Q now q of (q', r) \<Rightarrow>
        (q', h_then (lift_res r) (\<lambda>m.
          json_response (JObj (map (\<lambda>(target, fee). (dec_nat (unat target), j_f64 fee)) m)) TTL_SHORT)))"

section \<open>Requests\<close>

text \<open>The transaction to broadcast: the body of a \<^verbatim>\<open>POST\<close>, or the last \<^verbatim>\<open>tx\<close> of the query string.\<close>

definition broadcast_body :: "bytes \<Rightarrow> string http" where
  "broadcast_body b = ok_or_else (bad_request ''invalid utf-8 sequence'') (from_utf8 b) Inr"

definition broadcast_param :: "rest_env \<Rightarrow> string option \<Rightarrow> string http" where
  "broadcast_param R query_string =
     (let query_params = (case query_string of Some value \<Rightarrow> hm_collect (wb_form_parse (rt_web R) value) | None \<Rightarrow> []) in
      ok_or_else (bad_request ''Missing tx'') (hm_get query_params ''tx'') Inr)"

fun run_route :: "rest_env \<Rightarrow> 'd chain_query \<Rightarrow> nat \<Rightarrow> string option \<Rightarrow> bytes \<Rightarrow> route \<Rightarrow> 'd query \<Rightarrow> 'd query \<times> response http" where
  "run_route R Q now qs b RTipHash q =
     (q, h_then (lift_res (best_hash (qy_store q))) (\<lambda>h. http_message OK (hash_to_hex (rt_lib R) h) TTL_SHORT))"
| "run_route R Q now qs b RTipHeight q = (q, http_message OK (dec_nat (best_height (qy_store q))) TTL_SHORT)"
| "run_route R Q now qs b (RBlocks start_height) q =
     (q, rest_blocks R Q (qy_store q) (Option.bind start_height (parse_uint 64)))"
| "run_route R Q now qs b (RBlockHeight height) q = (q, rest_block_height R (qy_store q) height)"
| "run_route R Q now qs b (RBlock hash) q = (q, rest_block R Q (qy_store q) hash)"
| "run_route R Q now qs b (RBlockStatus hash) q = (q, rest_block_status R (qy_store q) hash)"
| "run_route R Q now qs b (RBlockTxids hash) q = (q, rest_block_txids R Q (qy_store q) hash)"
| "run_route R Q now qs b (RBlockHeader hash) q = (q, rest_block_header R (qy_store q) hash)"
| "run_route R Q now qs b (RBlockRaw hash) q = (q, rest_block_raw R Q (qy_store q) hash)"
| "run_route R Q now qs b (RBlockTxid hash index) q = (q, rest_block_txid R Q (qy_store q) hash index)"
| "run_route R Q now qs b (RBlockTxs hash start_index) q = (q, rest_block_txs R Q q hash start_index)"
| "run_route R Q now qs b (RScript ty s) q = rest_script R Q ty s q"
| "run_route R Q now qs b (RScriptTxs ty s) q = (q, rest_script_txs R Q q ty s)"
| "run_route R Q now qs b (RScriptTxsChain ty s last_seen) q = (q, rest_script_txs_chain R Q q ty s last_seen)"
| "run_route R Q now qs b (RScriptTxsMempool ty s) q = (q, rest_script_txs_mempool R Q q ty s)"
| "run_route R Q now qs b (RScriptUtxo ty s) q = rest_script_utxo R Q ty s q"
| "run_route R Q now qs b (RAddressPrefix pre) q = (q, rest_address_prefix R Q (qy_store q) pre)"
| "run_route R Q now qs b (RTx hash) q = (q, rest_tx R Q q hash)"
| "run_route R Q now qs b (RTxHex hash) q = (q, rest_tx_raw R Q q True hash)"
| "run_route R Q now qs b (RTxRaw hash) q = (q, rest_tx_raw R Q q False hash)"
| "run_route R Q now qs b (RTxStatus hash) q = (q, rest_tx_status R Q q hash)"
| "run_route R Q now qs b (RTxMerkleProof hash) q = (q, rest_tx_merkle_proof R Q (qy_store q) hash)"
| "run_route R Q now qs b (RTxMerkleblockProof hash) q = (q, rest_tx_merkleblock_proof R Q (qy_store q) hash)"
| "run_route R Q now qs b (RTxOutspend hash index) q = (q, rest_tx_outspend R Q q hash index)"
| "run_route R Q now qs b (RTxOutspends hash) q = (q, rest_tx_outspends R Q q hash)"
| "run_route R Q now qs b RBroadcastGet q = rest_broadcast R Q (broadcast_param R qs) q"
| "run_route R Q now qs b RBroadcastPost q = rest_broadcast R Q (broadcast_body b) q"
| "run_route R Q now qs b RMempool q = (q, json_response (j_backlog_stats (mp_backlog (qy_mempool q))) TTL_SHORT)"
| "run_route R Q now qs b RMempoolTxids q =
     (q, json_response (JArr (map (j_hash (rt_lib R)) (mp_txids (qy_mempool q)))) TTL_SHORT)"
| "run_route R Q now qs b RMempoolRecent q =
     (q, json_response (JArr (map (j_tx_overview (rt_lib R)) (recent_txs_overview (qy_mempool q)))) TTL_MEMPOOL_RECENT)"
| "run_route R Q now qs b (RMempoolTxs start_index) q = (q, mempool_txs_response R q (start_index_of start_index))"
| "run_route R Q now qs b (RColors last_seen) q = rest_colors R Q last_seen q"
| "run_route R Q now qs b (RColor color_str) q = rest_color R Q color_str q"
| "run_route R Q now qs b (RColorTxs color_str) q = (q, rest_color_txs R Q q color_str None)"
| "run_route R Q now qs b (RColorTxsChain color_str last_seen) q = (q, rest_color_txs R Q q color_str last_seen)"
| "run_route R Q now qs b RFeeEstimates q = rest_fee_estimates Q now q"

definition handle_request :: "rest_env \<Rightarrow> 'd chain_query \<Rightarrow> nat \<Rightarrow> http_method \<Rightarrow> string \<Rightarrow> string option \<Rightarrow> bytes \<Rightarrow>
    'd query \<Rightarrow> 'd query \<times> response http" where
  "handle_request R Q now m path query_string b q =
     (case route_of m (path_segments path) of
        None \<Rightarrow> (q, not_found (''endpoint does not exist '' @ path))
      | Some r \<Rightarrow> run_route R Q now query_string b r q)"

text \<open>
  What the server answers: an error becomes a response with its status and message, and the configured origins
  are added to every response. A panic (\<open>None\<close>) gives no answer.
\<close>

definition cors_header :: "string option \<Rightarrow> (string \<times> string) list" where
  "cors_header origins = (case origins of Some o' \<Rightarrow> [(''Access-Control-Allow-Origin'', o')] | None \<Rightarrow> [])"

definition serve_request :: "rest_env \<Rightarrow> 'd chain_query \<Rightarrow> nat \<Rightarrow> http_method \<Rightarrow> string \<Rightarrow> string option \<Rightarrow> bytes \<Rightarrow>
    'd query \<Rightarrow> 'd query \<times> response option" where
  "serve_request R Q now m path query_string b q =
     (case handle_request R Q now m path query_string b q of (q', r) \<Rightarrow>
        (q', map_option (\<lambda>resp. resp\<lparr>rs_headers := rs_headers resp @ cors_header (cf_cors (rt_config R))\<rparr>)
           (case r of
              Inr resp \<Rightarrow> Some resp
            | Inl (HttpError status msg) \<Rightarrow>
                Some \<lparr>rs_status = status, rs_headers = [(''Content-Type'', ''text/plain'')], rs_body = BodyText msg\<rparr>
            | Inl (HttpPanic m) \<Rightarrow> None)))"

end
