(* ===== verification/Rest_Properties.thy ===== *)
theory Rest_Properties
  imports Rest Electrum_Types Caches
begin

text \<open>
  Properties of the HTTP interface: its statuses, the pages of a block, the walk down the chain of
  \<^verbatim>\<open>/blocks\<close>, and the Merkle proofs, which agree with those of the Electrum server and verify.
\<close>

section \<open>Results\<close>

named_theorems http_simps \<open>results of HTTP handlers\<close>

lemma h_then_eq_Inr [simp]: "h_then r f = Inr y \<longleftrightarrow> (\<exists>x. r = Inr x \<and> f x = Inr y)"
  by (cases r) simp_all

lemma lift_res_eq_Inr [simp]: "lift_res r = Inr x \<longleftrightarrow> r = Inr x"
  by (cases r) (simp_all add: lift_res_def)

lemma lift_res_Inr [simp]: "lift_res (Inr x) = Inr x"
  by (simp add: lift_res_def)

lemma not_found_neq_Inr [simp]: "not_found m \<noteq> Inr x" "bad_request m \<noteq> Inr x"
  by (simp_all add: not_found_def bad_request_def)

lemma ok_or_else_eq_Inr [simp]: "ok_or_else (not_found m) r f = Inr y \<longleftrightarrow> (\<exists>x. r = Some x \<and> f x = Inr y)"
    "ok_or_else (bad_request m) r f = Inr y \<longleftrightarrow> (\<exists>x. r = Some x \<and> f x = Inr y)"
  by (simp_all add: ok_or_else_def split: option.splits)

lemma found_eq_Inr [simp]: "found m r f = Inr y \<longleftrightarrow> (\<exists>x. r = Inr (Some x) \<and> f x = Inr y)"
  by (auto simp: found_def)

lemma found_Some [http_simps]: "found m (Inr (Some x)) f = f x"
  by (simp add: found_def ok_or_else_def)

section \<open>Pages of a block\<close>

lemma block_page_Inr: "block_page txids i = Inr page \<longleftrightarrow>
    i < length txids \<and> i mod 25 = 0 \<and> page = take 25 (drop i txids)"
  by (auto simp: block_page_def CHAIN_TXS_PER_PAGE_def)

text \<open>The pages at 0, 25, 50, ... are the transactions of the block, in order.\<close>

lemma block_pages_concat:
  "concat (map (\<lambda>k. take 25 (drop (25 * k) xs)) [0..<n]) = take (25 * n) xs"
proof (induction n)
  case (Suc n)
  have "take (25 * Suc n) xs = take (25 * n + 25) xs" by (simp add: add.commute)
  also have "\<dots> = take (25 * n) xs @ take 25 (drop (25 * n) xs)" by (rule take_add)
  finally show ?case using Suc by simp
qed simp

lemma block_pages_cover:
  "25 * n \<ge> length txids \<Longrightarrow> concat (map (\<lambda>k. take 25 (drop (25 * k) txids)) [0..<n]) = txids"
  by (simp only: block_pages_concat take_all)

section \<open>Walking down the chain\<close>

lemma get_block_with_meta_at:
  assumes "hl_ok (sto_headers st)" "i < length (hl_headers (sto_headers st))"
    "get_block_meta Q st (he_hash (hl_headers (sto_headers st) ! i)) = Inr (Some m)"
  shows "get_block_with_meta Q st (he_hash (hl_headers (sto_headers st) ! i)) =
    Inr (Some \<lparr>bhm_header_entry = hl_headers (sto_headers st) ! i, bhm_meta = m\<rparr>)"
proof -
  have "header_by_hash st (he_hash (hl_headers (sto_headers st) ! i)) = Some (hl_headers (sto_headers st) ! i)"
    using assms(1,2) by (simp add: header_by_hash_def header_by_blockhash_def hl_ok_def heights_ok_def)
  with assms(3) show ?thesis by (simp add: get_block_with_meta_def)
qed

lemma blocks_from_walk:
  assumes ok: "hl_ok (sto_headers st)" and zero: "0 \<notin> he_hash ` set (hl_headers (sto_headers st))"
    and metas: "\<And>i. i < length (hl_headers (sto_headers st)) \<Longrightarrow>
      get_block_meta Q st (he_hash (hl_headers (sto_headers st) ! i)) = Inr (Some (meta i))"
    and i: "i < length (hl_headers (sto_headers st))"
  shows "blocks_from Q st n (he_hash (hl_headers (sto_headers st) ! i)) =
    Inr (map (\<lambda>j. \<lparr>bhm_header_entry = hl_headers (sto_headers st) ! j, bhm_meta = meta j\<rparr>) (rev [Suc i - n ..< Suc i]))"
  using i
proof (induction n arbitrary: i)
  case 0
  then show ?case by simp
next
  case (Suc n)
  let ?es = "hl_headers (sto_headers st)" and ?f = "\<lambda>j. \<lparr>bhm_header_entry = hl_headers (sto_headers st) ! j, bhm_meta = meta j\<rparr>"
  have at: "get_block_with_meta Q st (he_hash (?es ! i)) = Inr (Some (?f i))"
    by (rule get_block_with_meta_at [OF ok Suc.prems metas [OF Suc.prems]])
  have prev: "bh_prev_blockhash (he_header (?es ! i)) = (if i = 0 then 0 else he_hash (?es ! (i - 1)))"
    using ok Suc.prems linked_prev unfolding hl_ok_def by blast
  show ?case
  proof (cases i)
    case 0
    then show ?thesis using at prev by (simp add: http_simps Let_def)
  next
    case (Suc k)
    with Suc.prems have k: "k < length ?es" by simp
    then have "he_hash (?es ! k) \<noteq> 0" using zero by (metis image_eqI nth_mem)
    then show ?thesis using at prev Suc.IH [OF k] Suc by (simp add: http_simps Let_def)
  qed
qed

section \<open>Colours\<close>

text \<open>A path that names no colour identifier panics instead of being a bad request.\<close>

lemma rest_color_panics:
  assumes "wb_color_from_hex (rt_web R) s = None"
  shows "rest_color R Q s q = (q, Inl (HttpPanic ''unwrap''))" "rest_color_txs R Q q s last_seen = Inl (HttpPanic ''unwrap'')"
  using assms by (simp_all add: rest_color_def rest_color_txs_def parse_color_def lift_res_def expect_def panic_def)

section \<open>Confirming blocks\<close>

lemma tx_confirming_block_height:
  assumes "hl_ok (sto_headers st)" "tx_confirming_block Q st txid = Inr (Some b)"
  shows "bid_height b < length (hl_headers (sto_headers st))"
proof -
  from assms(2) obtain e where e: "b = block_id_from e"
    and s: "snext (sfilter_map (\<lambda>row. and_then (tx_conf_row_from_row row) (\<lambda>conf.
      Inr (header_by_blockhash (sto_headers st) (tcr_blockhash conf))))
      (map Inr (db_iter_scan (rdb (cq_ext Q)) (sto_txstore st) (tx_conf_row_filter (full_hash txid))))) = Inr (Some e)"
    by (auto simp: tx_confirming_block_def)
  have "\<exists>h. header_by_blockhash (sto_headers st) h = Some e" if "snext (sfilter_map (\<lambda>row. and_then (tx_conf_row_from_row row) (\<lambda>conf.
      Inr (header_by_blockhash (sto_headers st) (tcr_blockhash conf)))) (map Inr rows)) = Inr (Some e)" for rows
    using that by (induction rows) (auto split: sum.splits option.splits)
  with s obtain h where "header_by_blockhash (sto_headers st) h = Some e" by blast
  then have "e \<in> set (hl_headers (sto_headers st))" using header_by_blockhash_ok [OF assms(1)] by blast
  then obtain i where "i < length (hl_headers (sto_headers st))" "hl_headers (sto_headers st) ! i = e" by (auto simp: in_set_conv_nth)
  then show ?thesis using assms(1) linked_heights [of 0 0 "hl_headers (sto_headers st)" i] e
    by (simp add: block_id_from_def hl_ok_def)
qed

section \<open>Properties\<close>

text \<open>
  C15: on a consistent chain of headers whose blocks have metadata, \<^verbatim>\<open>/blocks\<close> (from the tip) and
  \<^verbatim>\<open>/blocks/:height\<close> answer with the blocks at that height and below it, in descending order and without
  gaps, at most ten of them, and stop at the genesis block; a height above the tip is not found.
\<close>

theorem rest_blocks_walk:
  assumes "hl_ok (sto_headers st)" "0 \<notin> he_hash ` set (hl_headers (sto_headers st))"
    "hl_headers (sto_headers st) \<noteq> []"
    and "\<And>i. i < length (hl_headers (sto_headers st)) \<Longrightarrow>
      get_block_meta Q st (he_hash (hl_headers (sto_headers st) ! i)) = Inr (Some (meta i))"
  shows "rest_blocks R Q st start_height =
    (let h = (case start_height of Some h \<Rightarrow> h | None \<Rightarrow> best_height st) in
     if h < length (hl_headers (sto_headers st)) then
       json_response (JArr (map (\<lambda>j. block_value R \<lparr>bhm_header_entry = hl_headers (sto_headers st) ! j, bhm_meta = meta j\<rparr>)
         (rev [Suc h - 10 ..< Suc h]))) TTL_SHORT
     else not_found ''Block not found'')"
proof -
  let ?es = "hl_headers (sto_headers st)"
  have walk: "h_then (blocks_from Q st BLOCK_LIMIT (he_hash (?es ! h))) (\<lambda>blocks. json_response (JArr (map (block_value R) blocks)) TTL_SHORT) =
      json_response (JArr (map (\<lambda>j. block_value R \<lparr>bhm_header_entry = ?es ! j, bhm_meta = meta j\<rparr>) (rev [Suc h - 10 ..< Suc h]))) TTL_SHORT"
    if "h < length ?es" for h
    using blocks_from_walk [OF assms(1,2,4) that, of BLOCK_LIMIT] by (simp add: BLOCK_LIMIT_def rev_map o_def)
  show ?thesis
  proof (cases start_height)
    case None
    have tip: "best_hash st = Inr (he_hash (?es ! (length ?es - 1)))" "best_height st = length ?es - 1"
      using header_list_tip_ok [OF assms(1)] assms(3)
      by (simp_all add: best_hash_def last_hash_def last_conv_nth best_height_def header_list_len_def)
    show ?thesis using walk [of "length ?es - 1"] assms(3) by (simp add: rest_blocks_def None tip Let_def)
  next
    case (Some h)
    have "cq_header_by_height st h = Inr (if h < length ?es then Some (?es ! h) else None)"
      using header_by_height_ok [OF assms(1)] by (simp add: cq_header_by_height_def header_by_height_def)
    then show ?thesis using walk [of h]
      by (simp add: rest_blocks_def Some found_def ok_or_else_def not_found_def Let_def)
  qed
qed

text \<open>
  C14: when \<^verbatim>\<open>/tx/:txid/merkle-proof\<close> answers, the transaction is at the position it says of the block that
  confirms it, and a client that folds the branch from the transaction's id arrives at the Merkle root of the
  block's transactions; the Electrum method for that transaction and height gives the same object.
\<close>

theorem merkle_proof_verifies:
  assumes "rest_tx_merkle_proof R (re_query E) (qy_store q) s = Inr resp"
    and "rt_lib R = cq_lib (re_query E)"
    and "hl_ok (sto_headers (qy_store q))" "length (hl_headers (sto_headers (qy_store q))) < 2 ^ 64"
  shows "\<exists>txid b txids branch pos.
    hash_from_hex (rt_lib R) s = Some txid \<and> tx_confirming_block (re_query E) (qy_store q) txid = Inr (Some b) \<and>
    get_block_txids (re_query E) (qy_store q) (bid_hash b) = Inr (Some txids) \<and> pos < length txids \<and> txids ! pos = txid \<and>
    fold_branch (tap (cq_ext (re_query E))) txid pos branch = merkle_root (tap (cq_ext (re_query E))) txids \<and>
    rs_body resp = BodyJson (JObj [(''block_height'', j_nat (bid_height b)), (''merkle'', j_hashes (rt_lib R) branch), (''pos'', j_nat pos)]) \<and>
    blockchain_transaction_get_merkle E q [JStr s, j_nat (bid_height b)] =
      Inr (JObj [(''block_height'', j_nat (bid_height b)), (''merkle'', j_hashes (rt_lib R) branch), (''pos'', j_nat pos)])"
proof -
  from assms(1) obtain txid b branch pos where txid: "hash_from_hex (rt_lib R) s = Some txid"
    and b: "tx_confirming_block (re_query E) (qy_store q) txid = Inr (Some b)"
    and proof': "get_tx_merkle_proof (re_query E) (qy_store q) txid (bid_hash b) = Inr (branch, pos)"
    and body: "rs_body resp = BodyJson (JObj [(''block_height'', j_nat (bid_height b)), (''merkle'', j_hashes (rt_lib R) branch), (''pos'', j_nat pos)])"
    by (auto simp: rest_tx_merkle_proof_def parse_hash_param_def json_response_def j_hashes_def)
  obtain txids where t: "get_block_txids (re_query E) (qy_store q) (bid_hash b) = Inr (Some txids)" "pos < length txids"
    "txids ! pos = txid" "fold_branch (tap (cq_ext (re_query E))) txid pos branch = merkle_root (tap (cq_ext (re_query E))) txids"
    using get_tx_merkle_proof_verifies [OF proof'] by blast
  have "unat (of_nat (bid_height b) :: u64) = bid_height b" using tx_confirming_block_height [OF assms(3) b] assms(4) by (intro unat_of_nat_less) simp
  then have "usize_from_value (Some (j_nat (bid_height b))) ''height'' = Inr (bid_height b)"
    by (simp add: usize_from_value_def j_nat_def)
  moreover have "hash_from_value (cq_lib (re_query E)) (Some (JStr s)) = Inr txid"
    using txid assms(2) by (simp add: hash_from_value_def)
  ultimately have "blockchain_transaction_get_merkle E q [JStr s, j_nat (bid_height b)] =
      Inr (JObj [(''block_height'', j_nat (bid_height b)), (''merkle'', j_hashes (rt_lib R) branch), (''pos'', j_nat pos)])"
    using b proof' assms(2) by (simp add: blockchain_transaction_get_merkle_def param_def)
  with txid b t body show ?thesis by blast
qed

section \<open>Examples\<close>

text \<open>A node in light mode, all of whose blocks have the same metadata and one transaction.\<close>

definition ex_block_json :: json where
  "ex_block_json =
     JObj [(''tx'', JArr [j_hash lib_ref 5]), (''nTx'', j_u64 1), (''size'', j_u64 100), (''weight'', j_u64 400)]"

definition ex_light_rpc :: rpc where
  "ex_light_rpc name ps = Inr [ex_block_json]"

definition ex_light_query :: "kv list chain_query" where
  "ex_light_query = ex_chain_query\<lparr>cq_rpc := ex_light_rpc, cq_light_mode := True\<rparr>"

definition ex_rest_env :: rest_env where
  "ex_rest_env = \<lparr>rt_lib = lib_ref, rt_tap = tapyrus_ref, rt_web = ex_web, rt_config = ex_server_config\<rparr>"

definition ex_meta :: block_meta where
  "ex_meta = \<lparr>bm_tx_count = 1, bm_size = 100, bm_weight = 400\<rparr>"

lemma ex_light_getblock:
  "cq_light_mode ex_light_query" "ok_res (getblock_raw lib_ref (cq_rpc ex_light_query) h v) = Inr (Some ex_block_json)"
  "cq_lib ex_light_query = lib_ref"
  by (simp_all add: ex_light_query_def ex_chain_query_def ok_res_def getblock_raw_def rpc_request_def ex_light_rpc_def assert_res_def)

lemma ex_light_meta: "get_block_meta ex_light_query st h = Inr (Some ex_meta)"
proof -
  have "js_block_meta ex_block_json = Some ex_meta"
    by (simp add: ex_block_json_def js_block_meta_def js_struct_def js_field_def js_u32_def ex_meta_def List.map_filter_def)
  then show ?thesis by (simp add: get_block_meta_def ex_light_getblock expect_def)
qed

lemma rest_blocks_walk_witness:
  "rest_blocks ex_rest_env ex_light_query ex_cached_store (Some 1) =
     json_response (JArr (map (block_value ex_rest_env)
       [\<lparr>bhm_header_entry = ex_entry 1 11 10, bhm_meta = ex_meta\<rparr>, \<lparr>bhm_header_entry = ex_entry 0 10 0, bhm_meta = ex_meta\<rparr>])) TTL_SHORT"
proof -
  have h: "hl_headers (sto_headers ex_cached_store) = [ex_entry 0 10 0, ex_entry 1 11 10, ex_entry 2 12 11]"
    by (simp add: ex_chain_def)
  have "hl_ok (sto_headers ex_cached_store)" using ex_chain_ok by simp
  moreover have "0 \<notin> he_hash ` set (hl_headers (sto_headers ex_cached_store))" unfolding h by (simp add: ex_entry_def)
  moreover have "hl_headers (sto_headers ex_cached_store) \<noteq> []" unfolding h by simp
  ultimately show ?thesis
    using rest_blocks_walk [of ex_cached_store ex_light_query "\<lambda>_. ex_meta" ex_rest_env "Some 1"]
    unfolding h by (simp add: ex_light_meta)
qed

definition ex_light_env :: "kv list rpc_env" where
  "ex_light_env = ex_env\<lparr>re_query := ex_light_query\<rparr>"

abbreviation ex_cached_query :: "kv list query" where
  "ex_cached_query \<equiv> query_new ex_cached_store (mempool_new 0)"

lemma ex_light_confirming: "tx_confirming_block ex_light_query ex_cached_store = tx_confirming_block ex_chain_query ex_cached_store"
  by (simp add: fun_eq_iff tx_confirming_block_def ex_light_query_def)

lemma ex_light_txids: "get_block_txids ex_light_query st h = Inr (Some [5])"
proof -
  have "js_hash lib_ref (j_hash lib_ref 5) = Some 5" by (rule ref_lib.js_hash_j_hash)
  then have "js_list (js_hash lib_ref) (JArr [j_hash lib_ref 5]) = Some [5]" by simp
  moreover have "json_index_mut ex_block_json ''tx'' = Inr (JArr [j_hash lib_ref 5])"
    by (simp add: ex_block_json_def json_index_def)
  ultimately show ?thesis by (simp add: get_block_txids_def ex_light_getblock expect_def del: js_list.simps)
qed

lemma ex_merkle_proof:
  "rest_tx_merkle_proof ex_rest_env ex_light_query ex_cached_store (ref_hash_to_hex 5) =
     json_response (JObj [(''block_height'', j_nat 0), (''merkle'', JArr []), (''pos'', j_nat 0)])
       (ttl_by_depth (Some 0) ex_cached_store)"
proof -
  have "hash_from_hex lib_ref (hash_to_hex lib_ref 5) = Some 5" by (rule ref_lib.hash_from_to_hex)
  then have h: "ref_hash_from_hex (ref_hash_to_hex 5) = Some 5" by (simp add: lib_ref_def)
  have "get_tx_merkle_proof ex_light_query ex_cached_store 5 10 = Inr ([], 0)"
    by (simp add: get_tx_merkle_proof_def ex_light_txids position_def create_merkle_branch_and_root_def merkle_loop.simps)
  then show ?thesis
    using h ex_confirming
    by (simp add: rest_tx_merkle_proof_def parse_hash_param_def ok_or_else_def http_simps ex_light_confirming ex_rest_env_def lib_ref_def
      block_id_from_def ex_entry_def)
qed

lemma merkle_proof_verifies_witness:
  "\<exists>b branch pos. tx_confirming_block ex_light_query ex_cached_store 5 = Inr (Some b) \<and>
     fold_branch tapyrus_ref 5 pos branch = merkle_root tapyrus_ref [5]"
proof -
  have r: "rest_tx_merkle_proof ex_rest_env (re_query ex_light_env) (qy_store ex_cached_query) (ref_hash_to_hex 5) =
    Inr \<lparr>rs_status = OK, rs_headers = [(''Content-Type'', ''application/json''), cache_control (ttl_by_depth (Some 0) ex_cached_store)],
      rs_body = BodyJson (JObj [(''block_height'', j_nat 0), (''merkle'', JArr []), (''pos'', j_nat 0)])\<rparr>"
    using ex_merkle_proof by (simp add: ex_light_env_def query_new_def json_response_def)
  have L: "rt_lib ex_rest_env = cq_lib (re_query ex_light_env)"
    by (simp add: ex_rest_env_def ex_light_env_def ex_light_query_def ex_chain_query_def)
  have ok: "hl_ok (sto_headers (qy_store ex_cached_query))" "length (hl_headers (sto_headers (qy_store ex_cached_query))) < 2 ^ 64"
    using ex_chain_ok by (simp_all add: query_new_def ex_chain_def)
  have h: "hash_from_hex (rt_lib ex_rest_env) (ref_hash_to_hex 5) = Some 5"
    using ref_lib.hash_from_to_hex [of 5] by (simp add: ex_rest_env_def lib_ref_def)
  have t: "tap (cq_ext ex_light_query) = tapyrus_ref" "re_query ex_light_env = ex_light_query"
    by (simp_all add: ex_light_env_def ex_light_query_def ex_chain_query_def ext_ref_def)
  have q: "qy_store ex_cached_query = ex_cached_store" by (simp add: query_new_def)
  from merkle_proof_verifies [OF r L ok] show ?thesis
    unfolding h t q ex_light_txids by auto
qed

end
