(* ===== verification/Discovery.thy ===== *)
theory Discovery
  imports Config
begin

text \<open>
  The discovery of Electrum servers (\<^verbatim>\<open>src/src/electrum/discovery.rs\<close> and \<^verbatim>\<open>discovery/default_servers.rs\<close>)
  and the client it checks them with (\<^verbatim>\<open>src/src/electrum/client.rs\<close>): peers announce their services, a thread
  checks one queued service after another, and the services that answered are listed. These modules are in the
  source tree, but \<^verbatim>\<open>src/src/electrum/mod.rs\<close> does not declare them.
\<close>

section \<open>Data\<close>

text \<open>Instants of the monotonic clock, in nanoseconds.\<close>

type_synonym instant = nat

definition HEALTH_CHECK_FREQ :: nat where "HEALTH_CHECK_FREQ = 3600000000000"
definition MAX_CONSECUTIVE_FAILURES :: nat where "MAX_CONSECUTIVE_FAILURES = 24"
definition MAX_QUEUE_SIZE :: nat where "MAX_QUEUE_SIZE = 500"
definition MAX_SERVERS_PER_REQUEST :: nat where "MAX_SERVERS_PER_REQUEST = 3"
definition MAX_SERVICES_PER_REQUEST :: nat where "MAX_SERVICES_PER_REQUEST = 6"

datatype server_addr = Clearnet ip_addr | Onion string

datatype service = Tcp u16 | Ssl u16

record health_check =
  hc_addr :: server_addr
  hc_hostname :: string
  hc_service :: service
  hc_is_default :: bool
  hc_added_by :: "ip_addr option"
  hc_last_check :: "instant option"
  hc_last_healthy :: "instant option"
  hc_consecutive_failures :: nat

record discovered =
  sv_services :: "service list"
  sv_hostname :: string
  sv_features :: server_features

datatype server_entry = ServerEntry server_addr string "string list"

text \<open>The queue holds the jobs of the binary heap in some order.\<close>

record discovery =
  dm_queue :: "health_check list"
  dm_healthy :: "(server_addr, discovered) hashmap"
  dm_our_version :: protocol_version
  dm_our_addrs :: "server_addr list"
  dm_our_features :: server_features
  dm_announce :: bool
  dm_tor_proxy :: "socket_addr option"

text \<open>
  What discovery asks of the platform: name resolution, the text of IP addresses, the lower case of a (Unicode)
  host name, and which of the greatest jobs is at the top of the heap, which the standard library leaves open
  when several are.
\<close>

record discovery_env =
  de_host :: host
  de_ip_from_str :: "string \<Rightarrow> ip_addr option"
  de_ip_to_string :: "ip_addr \<Rightarrow> string"
  de_to_lowercase :: "string \<Rightarrow> string"
  de_top :: "health_check list \<Rightarrow> nat"

section \<open>Addresses and services\<close>

definition server_addr_resolve :: "discovery_env \<Rightarrow> string \<Rightarrow> server_addr res" where
  "server_addr_resolve E host =
     (if suffix ''.onion'' host then Inr (Onion host)
      else case de_ip_from_str E host of
        Some ip \<Rightarrow> Inr (Clearnet ip)
      | None \<Rightarrow>
          and_then (ok_or ''hostname resolution failed'' (hs_to_socket_addrs (de_host E) (host @ '':1''))) (\<lambda>addrs.
          and_then (ok_or ''hostname resolution failed'' (case addrs of [] \<Rightarrow> None | a # _ \<Rightarrow> Some a)) (\<lambda>a.
            Inr (Clearnet (fst a)))))"

fun server_addr_to_string :: "discovery_env \<Rightarrow> server_addr \<Rightarrow> string" where
  "server_addr_to_string E (Clearnet ip) = de_ip_to_string E ip"
| "server_addr_to_string E (Onion hostname) = hostname"

definition serialize_server_addr :: "discovery_env \<Rightarrow> server_addr \<Rightarrow> json" where
  "serialize_server_addr E a = JStr (server_addr_to_string E a)"

fun service_to_string :: "service \<Rightarrow> string" where
  "service_to_string (Tcp port) = CHR ''t'' # dec_nat (unat port)"
| "service_to_string (Ssl port) = CHR ''s'' # dec_nat (unat port)"

text \<open>The classes of addresses that \<^verbatim>\<open>std::net\<close> defines: loopback, unspecified, multicast and private.\<close>

fun is_loopback :: "ip_addr \<Rightarrow> bool" where
  "is_loopback (V4 a) = (drop_bit 24 a = 127)"
| "is_loopback (V6 a) = (a = 1)"

fun is_unspecified :: "ip_addr \<Rightarrow> bool" where
  "is_unspecified (V4 a) = (a = 0)"
| "is_unspecified (V6 a) = (a = 0)"

fun is_multicast :: "ip_addr \<Rightarrow> bool" where
  "is_multicast (V4 a) = (drop_bit 28 a = 14)"
| "is_multicast (V6 a) = (drop_bit 120 a = 255)"

definition is_private :: "u32 \<Rightarrow> bool" where
  "is_private a \<longleftrightarrow> drop_bit 24 a = 10 \<or> drop_bit 20 a = 2753 \<or> drop_bit 16 a = 49320"

fun is_remote_addr :: "server_addr \<Rightarrow> bool" where
  "is_remote_addr (Onion hostname) = True"
| "is_remote_addr (Clearnet ip) =
     (\<not> is_loopback ip \<and> \<not> is_unspecified ip \<and> \<not> is_multicast ip \<and>
      \<not> (case ip of V4 ipv4 \<Rightarrow> is_private ipv4 | V6 a \<Rightarrow> False))"

section \<open>Health checks\<close>

definition health_check_new :: "server_addr \<Rightarrow> string \<Rightarrow> service \<Rightarrow> ip_addr option \<Rightarrow> health_check" where
  "health_check_new addr hostname service added_by =
     \<lparr>hc_addr = addr, hc_hostname = hostname, hc_service = service, hc_is_default = (added_by = None),
      hc_added_by = added_by, hc_last_check = None, hc_last_healthy = None, hc_consecutive_failures = 0\<rparr>"

definition is_healthy :: "health_check \<Rightarrow> bool" where
  "is_healthy job =
     (case (hc_last_check job, hc_last_healthy job) of
        (Some last_check, Some last_healthy) \<Rightarrow> last_check = last_healthy
      | _ \<Rightarrow> False)"

definition should_retry :: "health_check \<Rightarrow> bool" where
  "should_retry job \<longleftrightarrow>
     (hc_last_healthy job \<noteq> None \<or> hc_is_default job) \<and> hc_consecutive_failures job < MAX_CONSECUTIVE_FAILURES"

text \<open>\<^verbatim>\<open>Ord\<close>: the order of \<^verbatim>\<open>last_check\<close>, where no check comes before any, reversed.\<close>

fun option_cmp :: "nat option \<Rightarrow> nat option \<Rightarrow> ordering" where
  "option_cmp None None = Equal"
| "option_cmp None (Some b) = Less"
| "option_cmp (Some a) None = Greater"
| "option_cmp (Some a) (Some b) = usize_cmp a b"

fun ordering_reverse :: "ordering \<Rightarrow> ordering" where
  "ordering_reverse Less = Greater"
| "ordering_reverse Equal = Equal"
| "ordering_reverse Greater = Less"

definition health_check_cmp :: "health_check \<Rightarrow> health_check \<Rightarrow> ordering" where
  "health_check_cmp a b = ordering_reverse (option_cmp (hc_last_check a) (hc_last_check b))"

definition health_check_eq :: "health_check \<Rightarrow> health_check \<Rightarrow> bool" where
  "health_check_eq a b \<longleftrightarrow> hc_hostname a = hc_hostname b \<and> hc_service a = hc_service b"

text \<open>The heap's promise: its top is one of the greatest jobs.\<close>

locale job_heap =
  fixes top_of :: "health_check list \<Rightarrow> nat"
  assumes top_index: "q \<noteq> [] \<Longrightarrow> top_of q < length q"
    and top_greatest: "job \<in> set q \<Longrightarrow> health_check_cmp job (q ! top_of q) \<noteq> Greater"

definition heap_peek :: "discovery_env \<Rightarrow> health_check list \<Rightarrow> health_check option" where
  "heap_peek E q = (if q = [] then None else Some (q ! de_top E q))"

definition heap_pop :: "discovery_env \<Rightarrow> health_check list \<Rightarrow> (health_check \<times> health_check list) option" where
  "heap_pop E q =
     (if q = [] then None else Some (q ! de_top E q, take (de_top E q) q @ drop (Suc (de_top E q)) q))"

section \<open>The client\<close>

text \<open>
  A connected peer: its answers to \<^verbatim>\<open>server.features\<close> and \<^verbatim>\<open>server.add_peer\<close>; the network, which may connect
  directly, over TLS or through a proxy. Both belong to the \<^verbatim>\<open>electrum_client\<close> crate, whose errors are
  messages here; \<^verbatim>\<open>?\<close> makes them the server's errors.
\<close>

record server_features_res =
  fr_server_version :: string
  fr_protocol_min :: string
  fr_protocol_max :: string
  fr_pruning :: "int option"
  fr_hash_function :: "string option"

record peer =
  pe_server_features :: "string + server_features_res"
  pe_server_add_peer :: "server_features \<Rightarrow> string + bool"

record peer_net =
  pn_tcp :: "ip_addr \<times> u16 \<Rightarrow> string + peer"
  pn_ssl :: "string \<times> u16 \<Rightarrow> string + peer"
  pn_proxy :: "string \<times> u16 \<Rightarrow> socket_addr \<Rightarrow> string + peer"

fun electrum_result :: "string + 'a \<Rightarrow> 'a res" where
  "electrum_result (Inl m) = bail m"
| "electrum_result (Inr x) = Inr x"

datatype client = ClientTcp peer | ClientSsl peer | ClientProxyTcp peer

definition client_new :: "peer_net \<Rightarrow> ip_addr \<times> u16 \<Rightarrow> client res" where
  "client_new N socket_addr = and_then (electrum_result (pn_tcp N socket_addr)) (\<lambda>c. Inr (ClientTcp c))"

definition client_new_ssl :: "peer_net \<Rightarrow> string \<times> u16 \<Rightarrow> client res" where
  "client_new_ssl N domain_addr = and_then (electrum_result (pn_ssl N domain_addr)) (\<lambda>c. Inr (ClientSsl c))"

definition client_new_proxy :: "peer_net \<Rightarrow> string \<times> u16 \<Rightarrow> socket_addr \<Rightarrow> client res" where
  "client_new_proxy N target_addr proxy_addr =
     and_then (electrum_result (pn_proxy N target_addr proxy_addr)) (\<lambda>c. Inr (ClientProxyTcp c))"

definition server_features_try_from :: "server_features_res \<Rightarrow> server_features res" where
  "server_features_try_from f =
     and_then (chain_err ''invalid protocol_min'' (protocol_version_from_str (fr_protocol_min f))) (\<lambda>protocol_min.
     and_then (chain_err ''invalid protocol_max'' (protocol_version_from_str (fr_protocol_max f))) (\<lambda>protocol_max.
     and_then (ok_or ''missing hash_function'' (fr_hash_function f)) (\<lambda>hash_function.
       Inr \<lparr>sf_hosts = [], sf_server_version = fr_server_version f, sf_protocol_min = protocol_min,
         sf_protocol_max = protocol_max, sf_pruning = map_option (\<lambda>p. unat (word_of_int p :: u64)) (fr_pruning f),
         sf_hash_function = hash_function\<rparr>)))"

fun client_server_features :: "client \<Rightarrow> server_features res" where
  "client_server_features (ClientTcp c) = and_then (electrum_result (pe_server_features c)) server_features_try_from"
| "client_server_features (ClientSsl c) = and_then (electrum_result (pe_server_features c)) server_features_try_from"
| "client_server_features (ClientProxyTcp c) = and_then (electrum_result (pe_server_features c)) server_features_try_from"

fun client_server_add_peer :: "client \<Rightarrow> server_features \<Rightarrow> bool res" where
  "client_server_add_peer (ClientTcp c) f = electrum_result (pe_server_add_peer c f)"
| "client_server_add_peer (ClientSsl c) f = electrum_result (pe_server_add_peer c f)"
| "client_server_add_peer (ClientProxyTcp c) f = electrum_result (pe_server_add_peer c f)"

section \<open>The discovery manager\<close>

definition verify_compatibility :: "discovery \<Rightarrow> server_features \<Rightarrow> unit res" where
  "verify_compatibility M features =
     (if \<not> (sf_protocol_min features \<le> dm_our_version M \<and> dm_our_version M \<le> sf_protocol_max features)
      then bail ''incompatible protocol versions''
      else if sf_hash_function features \<noteq> ''sha256'' then bail ''incompatible hash function''
      else Inr ())"

definition add_default_servers :: "discovery \<Rightarrow> network_type \<Rightarrow> discovery" where
  "add_default_servers M network = (case network of Prod \<Rightarrow> M | Dev \<Rightarrow> M)"

definition discovery_new ::
  "discovery_env \<Rightarrow> network_type \<Rightarrow> server_features \<Rightarrow> protocol_version \<Rightarrow> bool \<Rightarrow> socket_addr option \<Rightarrow> discovery" where
  "discovery_new E our_network our_features our_version announce tor_proxy =
     (let our_addrs = List.map_filter
        (\<lambda>hostname. case server_addr_resolve E hostname of Inr a \<Rightarrow> Some a | Inl e \<Rightarrow> None)
        (map fst (sf_hosts our_features)) in
      add_default_servers
        \<lparr>dm_queue = [], dm_healthy = [], dm_our_version = our_version, dm_our_addrs = our_addrs,
         dm_our_features = our_features, dm_announce = announce, dm_tor_proxy = tor_proxy\<rparr> our_network)"

text \<open>The services that already have a job, by address.\<close>

definition existing_services :: "health_check list \<Rightarrow> (server_addr, service list) hashmap" where
  "existing_services q =
     foldl (\<lambda>m job. hm_insert (hc_addr job)
       (List.insert (hc_service job) (case hm_get m (hc_addr job) of Some s \<Rightarrow> s | None \<Rightarrow> [])) m) [] q"

definition candidate_host ::
  "discovery_env \<Rightarrow> discovery \<Rightarrow> ip_addr \<Rightarrow> string \<times> server_ports \<Rightarrow> (server_addr \<times> string \<times> server_ports) option" where
  "candidate_host E M added_by = (\<lambda>(hostname, ports).
     let hostname = de_to_lowercase E hostname in
     if 100 < length hostname then None
     else case server_addr_resolve E hostname of
       Inl e \<Rightarrow> None
     | Inr addr \<Rightarrow>
         if \<not> is_remote_addr addr \<or> addr \<in> set (dm_our_addrs M) then None
         else case addr of
           Clearnet ip \<Rightarrow> if ip \<noteq> added_by then None else Some (addr, hostname, ports)
         | Onion h \<Rightarrow> Some (addr, hostname, ports))"

definition port_services :: "server_ports \<Rightarrow> service list" where
  "port_services ports =
     (case sp_tcp_port ports of Some p \<Rightarrow> [Tcp p] | None \<Rightarrow> []) @
     (case sp_ssl_port ports of Some p \<Rightarrow> [Ssl p] | None \<Rightarrow> [])"

definition host_jobs ::
  "(server_addr, service list) hashmap \<Rightarrow> ip_addr \<Rightarrow> server_addr \<times> string \<times> server_ports \<Rightarrow> health_check list" where
  "host_jobs existing added_by = (\<lambda>(addr, hostname, ports).
     map (\<lambda>service. health_check_new addr hostname service (Some added_by))
       (filter (\<lambda>service. case hm_get existing addr of None \<Rightarrow> True | Some s \<Rightarrow> service \<notin> set s) (port_services ports)))"

definition request_jobs :: "discovery_env \<Rightarrow> discovery \<Rightarrow> ip_addr \<Rightarrow> server_features \<Rightarrow> health_check list" where
  "request_jobs E M added_by features =
     take MAX_SERVICES_PER_REQUEST
       (concat (map (host_jobs (existing_services (dm_queue M)) added_by)
         (List.map_filter (candidate_host E M added_by) (take MAX_SERVERS_PER_REQUEST (sf_hosts features)))))"

definition add_server_request ::
  "discovery_env \<Rightarrow> ip_addr \<Rightarrow> server_features \<Rightarrow> discovery \<Rightarrow> discovery res" where
  "add_server_request E added_by features M =
     and_then (verify_compatibility M features) (\<lambda>_.
     if \<not> length (dm_queue M) < MAX_QUEUE_SIZE then bail ''queue size exceeded''
     else let jobs = request_jobs E M added_by features in
       if \<not> length (dm_queue M) + length jobs \<le> MAX_QUEUE_SIZE then bail ''queue size exceeded''
       else Inr (M\<lparr>dm_queue := dm_queue M @ jobs\<rparr>))"

definition add_default_server :: "discovery_env \<Rightarrow> string \<Rightarrow> service list \<Rightarrow> discovery \<Rightarrow> discovery res" where
  "add_default_server E hostname services M =
     and_then (server_addr_resolve E hostname) (\<lambda>addr.
       Inr (M\<lparr>dm_queue := dm_queue M @ map (\<lambda>service. health_check_new addr hostname service None) services\<rparr>))"

definition feature_strs :: "discovered \<Rightarrow> string list" where
  "feature_strs s =
     [CHR ''v'' # protocol_version_to_string (sf_protocol_max (sv_features s))] @
     (case sf_pruning (sv_features s) of Some p \<Rightarrow> [CHR ''p'' # dec_nat p] | None \<Rightarrow> []) @
     map service_to_string (sv_services s)"

definition get_servers :: "discovery \<Rightarrow> server_entry list" where
  "get_servers M = map (\<lambda>(addr, server). ServerEntry addr (sv_hostname server) (feature_strs server)) (dm_healthy M)"

fun serialize_server_entry :: "discovery_env \<Rightarrow> server_entry \<Rightarrow> json" where
  "serialize_server_entry E (ServerEntry addr hostname strs) =
     JArr [serialize_server_addr E addr, JStr hostname, JArr (map JStr strs)]"

section \<open>Checking a service\<close>

definition server_new :: "string \<Rightarrow> server_features \<Rightarrow> discovered" where
  "server_new hostname features = \<lparr>sv_services = [], sv_hostname = hostname, sv_features = features\<rparr>"

definition save_healthy_service :: "health_check \<Rightarrow> server_features \<Rightarrow> discovery \<Rightarrow> discovery" where
  "save_healthy_service job features M =
     (let server = (case hm_get (dm_healthy M) (hc_addr job) of
          Some s \<Rightarrow> s | None \<Rightarrow> server_new (hc_hostname job) features) in
      M\<lparr>dm_healthy := hm_insert (hc_addr job)
        (server\<lparr>sv_services := List.insert (hc_service job) (sv_services server)\<rparr>) (dm_healthy M)\<rparr>)"

definition remove_unhealthy_service :: "health_check \<Rightarrow> discovery \<Rightarrow> discovery res" where
  "remove_unhealthy_service job M =
     (case hm_get (dm_healthy M) (hc_addr job) of
        None \<Rightarrow> panic ''missing expected server, corrupted state''
      | Some server \<Rightarrow>
          and_then (assert_res (hc_service job \<in> set (sv_services server)) ''server.services.remove'') (\<lambda>_.
          let services = remove1 (hc_service job) (sv_services server) in
          Inr (M\<lparr>dm_healthy :=
            (if services = [] then hm_remove (hc_addr job) (dm_healthy M)
             else hm_insert (hc_addr job) (server\<lparr>sv_services := services\<rparr>) (dm_healthy M))\<rparr>)))"

definition check_server :: "peer_net \<Rightarrow> discovery \<Rightarrow> server_addr \<Rightarrow> string \<Rightarrow> service \<Rightarrow> server_features res" where
  "check_server N M addr hostname service =
     and_then
       (case (addr, service) of
          (Clearnet ip, Tcp port) \<Rightarrow> client_new N (ip, port)
        | (Clearnet ip, Ssl port) \<Rightarrow> client_new_ssl N (hostname, port)
        | (Onion hostname, Tcp port) \<Rightarrow>
            and_then (ok_or ''no tor proxy configured, onion hosts are unsupported'' (dm_tor_proxy M))
              (\<lambda>tor_proxy. client_new_proxy N (hostname, port) tor_proxy)
        | (Onion hostname, Ssl port) \<Rightarrow> bail ''ssl over onion is unsupported'') (\<lambda>client.
     and_then (client_server_features client) (\<lambda>features.
     and_then (verify_compatibility M features) (\<lambda>_.
     if dm_announce M
     then and_then (client_server_add_peer client (dm_our_features M)) (\<lambda>reciprocates.
       if reciprocates then Inr features else bail ''server does not reciprocate'')
     else Inr features)))"

text \<open>
  A health check in two halves, between which other threads may use the manager: taking the job, unless it is too
  early for the next one, and recording its outcome.
\<close>

definition take_job :: "discovery_env \<Rightarrow> instant \<Rightarrow> discovery \<Rightarrow> (health_check \<times> discovery) option" where
  "take_job E now M =
     (if (case heap_peek E (dm_queue M) of
            None \<Rightarrow> True
          | Some job \<Rightarrow> (case hc_last_check job of None \<Rightarrow> False | Some t \<Rightarrow> now - t < HEALTH_CHECK_FREQ))
      then None
      else map_option (\<lambda>(job, q). (job, M\<lparr>dm_queue := q\<rparr>)) (heap_pop E (dm_queue M)))"

definition push_job :: "health_check \<Rightarrow> discovery \<Rightarrow> discovery" where
  "push_job job M = M\<lparr>dm_queue := dm_queue M @ [job]\<rparr>"

definition record_outcome ::
  "instant \<Rightarrow> health_check \<Rightarrow> server_features res \<Rightarrow> discovery \<Rightarrow> discovery \<times> unit res" where
  "record_outcome now job outcome M =
     (case outcome of
        Inr features \<Rightarrow>
          (push_job (job\<lparr>hc_last_check := Some now, hc_last_healthy := Some now, hc_consecutive_failures := 0\<rparr>)
             (if is_healthy job then M else save_healthy_service job features M), Inr ())
      | Inl e \<Rightarrow>
          (case (if is_healthy job then remove_unhealthy_service job M else Inr M) of
             Inl p \<Rightarrow> (M, Inl p)
           | Inr M \<Rightarrow>
               let job = job\<lparr>hc_last_check := Some now, hc_consecutive_failures := hc_consecutive_failures job + 1\<rparr> in
               (if should_retry job then push_job job M else M, Inl e)))"

definition run_health_check ::
  "discovery_env \<Rightarrow> peer_net \<Rightarrow> instant \<Rightarrow> instant \<Rightarrow> discovery \<Rightarrow> discovery \<times> unit res" where
  "run_health_check E N began ended M =
     (case take_job E began M of
        None \<Rightarrow> (M, Inr ())
      | Some (job, M) \<Rightarrow>
          record_outcome ended job (check_server N M (hc_addr job) (hc_hostname job) (hc_service job)) M)"

text \<open>
  The jobs thread, for the rounds given: the network of each round and the instants it began and ended at. An
  error is logged; a panic ends the thread.
\<close>

fun jobs_thread :: "discovery_env \<Rightarrow> (peer_net \<times> instant \<times> instant) list \<Rightarrow> discovery \<Rightarrow> discovery res" where
  "jobs_thread E [] M = Inr M"
| "jobs_thread E ((N, began, ended) # rounds) M =
     (case run_health_check E N began ended M of
        (M, Inl e) \<Rightarrow> if is_panic e then Inl e else jobs_thread E rounds M
      | (M, Inr _) \<Rightarrow> jobs_thread E rounds M)"

end
