(* ===== verification/Discovery_Invariant.thy ===== *)
theory Discovery_Invariant
  imports Discovery
begin

text \<open>
  The table of healthy services agrees with the health checks: it lists a service exactly when the job of that
  service succeeded when it was last run. This is what the checks rely on when they take a service off the table.
\<close>

section \<open>The invariant\<close>

definition job_key :: "health_check \<Rightarrow> server_addr \<times> service" where
  "job_key job = (hc_addr job, hc_service job)"

definition job_ok :: "instant \<Rightarrow> health_check \<Rightarrow> bool" where
  "job_ok now job \<longleftrightarrow>
     (case hc_last_check job of None \<Rightarrow> hc_last_healthy job = None
      | Some c \<Rightarrow> c \<le> now \<and> (case hc_last_healthy job of None \<Rightarrow> True | Some h \<Rightarrow> h \<le> c))"

definition table_ok :: "(server_addr, discovered) hashmap \<Rightarrow> bool" where
  "table_ok h \<longleftrightarrow> hm_ok h \<and> (\<forall>a server. hm_get h a = Some server \<longrightarrow> sv_services server \<noteq> [] \<and> distinct (sv_services server))"

definition listed :: "discovery \<Rightarrow> server_addr \<times> service \<Rightarrow> bool" where
  "listed M = (\<lambda>(a, s). \<exists>server. hm_get (dm_healthy M) a = Some server \<and> s \<in> set (sv_services server))"

text \<open>The jobs are those of the queue and the one being run, if any.\<close>

definition jobs_agree :: "instant \<Rightarrow> discovery \<Rightarrow> health_check list \<Rightarrow> bool" where
  "jobs_agree now M jobs \<longleftrightarrow>
     distinct (map job_key jobs) \<and> (\<forall>job \<in> set jobs. job_ok now job) \<and> table_ok (dm_healthy M) \<and>
     (\<forall>k. listed M k \<longleftrightarrow> (\<exists>job \<in> set jobs. job_key job = k \<and> is_healthy job))"

definition discovery_inv :: "instant \<Rightarrow> discovery \<Rightarrow> bool" where
  "discovery_inv now M \<longleftrightarrow> jobs_agree now M (dm_queue M)"

text \<open>The same without the jobs being for distinct services.\<close>

definition table_agrees :: "instant \<Rightarrow> discovery \<Rightarrow> bool" where
  "table_agrees now M \<longleftrightarrow>
     (\<forall>job \<in> set (dm_queue M). job_ok now job) \<and> table_ok (dm_healthy M) \<and>
     (\<forall>k. listed M k \<longleftrightarrow> (\<exists>job \<in> set (dm_queue M). job_key job = k \<and> is_healthy job))"

lemma discovery_inv_distinct: "discovery_inv now M \<longleftrightarrow> distinct (map job_key (dm_queue M)) \<and> table_agrees now M"
  by (simp add: discovery_inv_def jobs_agree_def table_agrees_def)

lemma job_ok_mono: "job_ok now job \<Longrightarrow> now \<le> now' \<Longrightarrow> job_ok now' job"
  by (auto simp: job_ok_def split: option.splits)

lemma jobs_agree_mono: "jobs_agree now M jobs \<Longrightarrow> now \<le> now' \<Longrightarrow> jobs_agree now' M jobs"
  unfolding jobs_agree_def using job_ok_mono by blast

lemma jobs_agree_queue [simp]: "jobs_agree now (M\<lparr>dm_queue := q\<rparr>) jobs = jobs_agree now M jobs"
  by (simp add: jobs_agree_def listed_def)

lemma jobs_agree_rotate:
  "jobs_agree now M (xs @ job # ys) = jobs_agree now M (job # xs @ ys)"
  "jobs_agree now M (jobs @ [job]) = jobs_agree now M (job # jobs)"
  unfolding jobs_agree_def by auto

text \<open>A queue that agrees with its table keeps doing so when unchecked jobs for other services join it.\<close>

lemma jobs_agree_append:
  assumes "jobs_agree now M q" "distinct (map job_key jobs)"
    and "\<And>job. job \<in> set jobs \<Longrightarrow> hc_last_check job = None \<and> hc_last_healthy job = None \<and> job_key job \<notin> job_key ` set q"
  shows "jobs_agree now M (q @ jobs)"
  using assms unfolding jobs_agree_def
  by (fastforce simp: job_ok_def is_healthy_def)

section \<open>The table\<close>

lemma table_ok_insert:
  "table_ok h \<Longrightarrow> sv_services server \<noteq> [] \<Longrightarrow> distinct (sv_services server) \<Longrightarrow> table_ok (hm_insert a server h)"
  by (simp add: table_ok_def)

lemma table_ok_remove: "table_ok h \<Longrightarrow> table_ok (hm_remove a h)"
  by (simp add: table_ok_def)

lemma save_healthy_service_facts:
  assumes "table_ok (dm_healthy M)"
  shows "table_ok (dm_healthy (save_healthy_service job features M))"
    and "listed (save_healthy_service job features M) k \<longleftrightarrow> listed M k \<or> k = job_key job"
    and "dm_queue (save_healthy_service job features M) = dm_queue M"
proof -
  show "table_ok (dm_healthy (save_healthy_service job features M))"
    unfolding save_healthy_service_def Let_def
    using assms by (auto intro!: table_ok_insert split: option.splits simp: table_ok_def server_new_def List.insert_def)
  show "listed (save_healthy_service job features M) k \<longleftrightarrow> listed M k \<or> k = job_key job"
    by (cases k) (auto simp: save_healthy_service_def Let_def listed_def job_key_def server_new_def split: option.splits)
  show "dm_queue (save_healthy_service job features M) = dm_queue M"
    by (simp add: save_healthy_service_def Let_def)
qed

lemma remove_unhealthy_service_returns:
  assumes "table_ok (dm_healthy M)" "listed M (job_key job)"
  obtains M' where "remove_unhealthy_service job M = Inr M'" "table_ok (dm_healthy M')"
    "\<And>k. listed M' k \<longleftrightarrow> listed M k \<and> k \<noteq> job_key job" "dm_queue M' = dm_queue M"
proof -
  from assms(2) obtain server where s: "hm_get (dm_healthy M) (hc_addr job) = Some server" "hc_service job \<in> set (sv_services server)"
    by (auto simp: listed_def job_key_def)
  with assms(1) have d: "distinct (sv_services server)" by (simp add: table_ok_def)
  let ?s = "remove1 (hc_service job) (sv_services server)"
  let ?h = "if ?s = [] then hm_remove (hc_addr job) (dm_healthy M)
    else hm_insert (hc_addr job) (server\<lparr>sv_services := ?s\<rparr>) (dm_healthy M)"
  have r: "remove_unhealthy_service job M = Inr (M\<lparr>dm_healthy := ?h\<rparr>)"
    using s by (simp add: remove_unhealthy_service_def assert_res_def Let_def)
  have mem: "x \<in> set ?s \<longleftrightarrow> x \<in> set (sv_services server) \<and> x \<noteq> hc_service job" for x
    using d by auto
  have "table_ok ?h" using assms(1) d by (auto intro!: table_ok_remove table_ok_insert)
  moreover have "listed (M\<lparr>dm_healthy := ?h\<rparr>) k \<longleftrightarrow> listed M k \<and> k \<noteq> job_key job" for k
  proof (cases "?s = []")
    case True
    then have "set (sv_services server) \<subseteq> {hc_service job}" using mem by auto
    with True s show ?thesis by (cases k) (auto simp: listed_def job_key_def)
  next
    case False
    with s mem show ?thesis by (cases k) (auto simp: listed_def job_key_def)
  qed
  ultimately show ?thesis using that [OF r] by simp
qed

section \<open>Running a check\<close>

lemma take_job_facts:
  assumes "job_heap (de_top E)" "take_job E now M = Some (job, M')"
  obtains xs ys where "dm_queue M = xs @ job # ys" "M' = M\<lparr>dm_queue := xs @ ys\<rparr>"
    "\<And>t. hc_last_check job = Some t \<Longrightarrow> t + HEALTH_CHECK_FREQ \<le> now"
    "\<And>j. j \<in> set (dm_queue M) \<Longrightarrow> health_check_cmp j job \<noteq> Greater"
proof -
  let ?q = "dm_queue M" and ?i = "de_top E (dm_queue M)"
  from assms(2) have ne: "?q \<noteq> []" by (auto simp: take_job_def heap_peek_def)
  then have i: "?i < length ?q" using job_heap.top_index [OF assms(1)] by blast
  have job: "job = ?q ! ?i" and M': "M' = M\<lparr>dm_queue := take ?i ?q @ drop (Suc ?i) ?q\<rparr>"
    using assms(2) ne by (auto simp: take_job_def heap_peek_def heap_pop_def split: option.splits if_splits)
  have "t + HEALTH_CHECK_FREQ \<le> now" if "hc_last_check job = Some t" for t
    using assms(2) ne that job by (auto simp: take_job_def heap_peek_def HEALTH_CHECK_FREQ_def split: if_splits)
  moreover have "?q = take ?i ?q @ job # drop (Suc ?i) ?q" using i job by (simp add: id_take_nth_drop)
  ultimately show ?thesis using that M' job_heap.top_greatest [OF assms(1)] job by blast
qed

lemma record_outcome_keeps:
  assumes inv: "jobs_agree now M (job # dm_queue M)" and le: "now \<le> now'"
    and later: "\<And>t. hc_last_check job = Some t \<Longrightarrow> t < now'"
    and r: "record_outcome now' job outcome M = (M', r)"
  shows "discovery_inv now' M'" "r = (case outcome of Inl e \<Rightarrow> Inl e | Inr f \<Rightarrow> Inr ())"
proof -
  let ?q = "dm_queue M"
  have ag: "distinct (map job_key (job # ?q))" "\<And>j. j \<in> set ?q \<Longrightarrow> job_ok now' j" "job_ok now job" "table_ok (dm_healthy M)"
    using inv le job_ok_mono unfolding jobs_agree_def by auto
  have healthy: "listed M k \<longleftrightarrow> (k = job_key job \<and> is_healthy job) \<or> (\<exists>j \<in> set ?q. job_key j = k \<and> is_healthy j)" for k
    using inv unfolding jobs_agree_def by (auto simp del: split_paired_All)
  have other: "job_key j \<noteq> job_key job" if "j \<in> set ?q" for j using ag(1) that by simp (metis image_eqI)
  have "discovery_inv now' M' \<and> r = (case outcome of Inl e \<Rightarrow> Inl e | Inr f \<Rightarrow> Inr ())"
  proof (cases outcome)
    case (Inr features)
    let ?job = "job\<lparr>hc_last_check := Some now', hc_last_healthy := Some now', hc_consecutive_failures := 0\<rparr>"
    let ?M = "if is_healthy job then M else save_healthy_service job features M"
    have "table_ok (dm_healthy ?M)" "dm_queue ?M = ?q" "\<And>k. listed ?M k \<longleftrightarrow> listed M k \<or> k = job_key job"
      using save_healthy_service_facts [OF ag(4)] ag(4) healthy by auto
    then have "jobs_agree now' ?M (?job # dm_queue ?M)"
      unfolding jobs_agree_def using ag healthy other by (auto simp: job_key_def job_ok_def is_healthy_def)
    with r Inr show ?thesis
      by (auto simp: record_outcome_def push_job_def discovery_inv_def jobs_agree_rotate simp del: if_split)
  next
    case (Inl e)
    let ?job = "job\<lparr>hc_last_check := Some now', hc_consecutive_failures := hc_consecutive_failures job + 1\<rparr>"
    have unhealthy: "\<not> is_healthy ?job" "job_ok now' ?job" "job_key ?job = job_key job"
      using ag(3) later le by (auto simp: job_ok_def is_healthy_def job_key_def split: option.splits)
    obtain M'' where M'': "(if is_healthy job then remove_unhealthy_service job M else Inr M) = Inr M''"
      "table_ok (dm_healthy M'')" "dm_queue M'' = ?q" "\<And>k. listed M'' k \<longleftrightarrow> listed M k \<and> k \<noteq> job_key job"
    proof (cases "is_healthy job")
      case True
      then have "listed M (job_key job)" using healthy by blast
      from remove_unhealthy_service_returns [OF ag(4) this] True that show ?thesis by auto
    next
      case False
      then have "\<And>k. listed M k \<longleftrightarrow> listed M k \<and> k \<noteq> job_key job" using healthy other by blast
      with False ag(4) that show ?thesis by simp
    qed
    have "jobs_agree now' M'' (?job # ?q)" "jobs_agree now' M'' ?q"
      unfolding jobs_agree_def using M''(2,4) ag healthy unhealthy other by auto
    then have "discovery_inv now' (push_job ?job M'')" "discovery_inv now' M''"
      using M''(3) by (simp_all add: push_job_def discovery_inv_def jobs_agree_rotate)
    with r Inl M''(1) show ?thesis by (auto simp: record_outcome_def Let_def)
  qed
  then show "discovery_inv now' M'" "r = (case outcome of Inl e \<Rightarrow> Inl e | Inr f \<Rightarrow> Inr ())" by simp_all
qed

text \<open>Checking a service fails with ordinary errors only.\<close>

definition ordinary :: "'a res \<Rightarrow> bool" where
  "ordinary r \<longleftrightarrow> (\<forall>e. r = Inl e \<longrightarrow> \<not> is_panic e)"

lemma ordinary_Inr [intro]: "ordinary (Inr x)"
  by (simp add: ordinary_def)

lemma ordinary_and_then [intro]: "ordinary r \<Longrightarrow> (\<And>x. ordinary (f x)) \<Longrightarrow> ordinary (and_then r f)"
  by (auto simp: ordinary_def and_then_eq_Inl)

lemma ordinary_results [intro]:
  "ordinary (bail m)" "ordinary (ok_or m r)" "ordinary (electrum_result s)" "ordinary q \<Longrightarrow> ordinary (chain_err m q)"
  by (cases r; cases s; cases q; simp add: ordinary_def bail_def ok_or_def chain_err_def)+

lemma ordinary_version: "ordinary (protocol_version_from_str s)"
  unfolding protocol_version_from_str_def Let_def by (intro ordinary_and_then ordinary_results ordinary_Inr)

lemma ordinary_client:
  "ordinary (client_new N a)" "ordinary (client_new_ssl N d)" "ordinary (client_new_proxy N d p)"
  "ordinary (client_server_features c)" "ordinary (client_server_add_peer c f)"
proof -
  have "ordinary (server_features_try_from r)" for r
    unfolding server_features_try_from_def by (intro ordinary_and_then ordinary_results ordinary_version ordinary_Inr)
  then show "ordinary (client_server_features c)" by (cases c) (auto intro!: ordinary_and_then ordinary_results)
qed (cases c; auto simp: client_new_def client_new_ssl_def client_new_proxy_def)+

lemma ordinary_check_server: "ordinary (check_server N M addr hostname service)"
proof -
  have "ordinary (verify_compatibility M f)" for f by (auto simp: verify_compatibility_def)
  then show ?thesis unfolding check_server_def
    by (intro ordinary_and_then) (auto intro: ordinary_client intro!: ordinary_and_then ordinary_client split: server_addr.split service.split)
qed

text \<open>Rounds of the jobs thread on a clock that does not go back.\<close>

fun rounds_ok :: "instant \<Rightarrow> (peer_net \<times> instant \<times> instant) list \<Rightarrow> bool" where
  "rounds_ok now [] = True"
| "rounds_ok now ((N, began, ended) # rounds) \<longleftrightarrow> now \<le> began \<and> began \<le> ended \<and> rounds_ok ended rounds"

fun rounds_end :: "instant \<Rightarrow> (peer_net \<times> instant \<times> instant) list \<Rightarrow> instant" where
  "rounds_end now [] = now"
| "rounds_end now ((N, began, ended) # rounds) = rounds_end ended rounds"

lemma run_health_check_keeps:
  assumes heap: "job_heap (de_top E)" and inv: "discovery_inv now M" and le: "now \<le> began" "began \<le> ended"
    and r: "run_health_check E N began ended M = (M', r)"
  shows "discovery_inv ended M'" "ordinary r"
proof -
  have inv': "jobs_agree began M (dm_queue M)" using inv jobs_agree_mono le(1) unfolding discovery_inv_def by blast
  have "discovery_inv ended M' \<and> ordinary r"
  proof (cases "take_job E began M")
    case None
    with r inv' le(2) show ?thesis using jobs_agree_mono by (auto simp: run_health_check_def discovery_inv_def)
  next
    case (Some p)
    then obtain job M1 where p: "take_job E began M = Some (job, M1)" by (cases p) simp
    from take_job_facts [OF heap p] obtain xs ys where q: "dm_queue M = xs @ job # ys" "M1 = M\<lparr>dm_queue := xs @ ys\<rparr>"
      and due: "\<And>t. hc_last_check job = Some t \<Longrightarrow> t + HEALTH_CHECK_FREQ \<le> began" by blast
    have agree: "jobs_agree began M1 (job # dm_queue M1)"
      using inv' unfolding q by (simp add: jobs_agree_rotate)
    have later: "t < ended" if "hc_last_check job = Some t" for t
      using due [OF that] le(2) by (simp add: HEALTH_CHECK_FREQ_def)
    from r p have r': "record_outcome ended job (check_server N M1 (hc_addr job) (hc_hostname job) (hc_service job)) M1 = (M', r)"
      by (simp add: run_health_check_def)
    have "ordinary r"
      using record_outcome_keeps(2) [OF agree le(2) later r'] ordinary_check_server [of N M1 "hc_addr job" "hc_hostname job" "hc_service job"]
      by (auto simp: ordinary_def split: sum.splits)
    with record_outcome_keeps(1) [OF agree le(2) later r'] show ?thesis by blast
  qed
  then show "discovery_inv ended M'" "ordinary r" by simp_all
qed

section \<open>Requests\<close>

lemma existing_services_spec:
  "(case hm_get (existing_services q) a of None \<Rightarrow> True | Some s \<Rightarrow> service \<notin> set s) \<longleftrightarrow> (a, service) \<notin> job_key ` set q"
proof (induction q rule: rev_induct)
  case Nil
  then show ?case by (simp add: existing_services_def)
next
  case (snoc job q)
  have "existing_services (q @ [job]) = hm_insert (hc_addr job)
      (List.insert (hc_service job) (case hm_get (existing_services q) (hc_addr job) of Some s \<Rightarrow> s | None \<Rightarrow> [])) (existing_services q)"
    by (simp add: existing_services_def)
  with snoc show ?case by (auto simp: job_key_def split: option.splits)
qed

lemma candidate_host_facts:
  assumes "candidate_host E M added_by host = Some (addr, hostname, ports)"
  shows "is_remote_addr addr" "addr \<notin> set (dm_our_addrs M)" "\<And>ip. addr = Clearnet ip \<Longrightarrow> ip = added_by" "length hostname \<le> 100"
  using assms by (auto simp: candidate_host_def Let_def split: prod.splits if_splits sum.splits server_addr.splits)

lemma request_jobs_facts:
  assumes "job \<in> set (request_jobs E M added_by features)"
  shows "is_remote_addr (hc_addr job)" "hc_addr job \<notin> set (dm_our_addrs M)" "\<And>ip. hc_addr job = Clearnet ip \<Longrightarrow> ip = added_by"
    "length (hc_hostname job) \<le> 100" "job_key job \<notin> job_key ` set (dm_queue M)"
    "hc_last_check job = None" "hc_last_healthy job = None" "\<not> hc_is_default job"
proof -
  from assms obtain host addr hostname ports service where
    h: "candidate_host E M added_by host = Some (addr, hostname, ports)"
    and job: "job = health_check_new addr hostname service (Some added_by)"
    and s: "case hm_get (existing_services (dm_queue M)) addr of None \<Rightarrow> True | Some s \<Rightarrow> service \<notin> set s"
    unfolding request_jobs_def host_jobs_def List.map_filter_def by (fastforce dest!: in_set_takeD)
  show "is_remote_addr (hc_addr job)" "hc_addr job \<notin> set (dm_our_addrs M)" "length (hc_hostname job) \<le> 100"
    "hc_last_check job = None" "hc_last_healthy job = None" "\<not> hc_is_default job"
    using candidate_host_facts [OF h] by (simp_all add: job health_check_new_def)
  show "hc_addr job = Clearnet ip \<Longrightarrow> ip = added_by" for ip
    using candidate_host_facts(3) [OF h] by (simp add: job health_check_new_def)
  show "job_key job \<notin> job_key ` set (dm_queue M)"
    using s unfolding existing_services_spec by (simp add: job job_key_def health_check_new_def)
qed

section \<open>Properties\<close>

lemma remove_unhealthy_service_panics:
  "remove_unhealthy_service job M = Inl e \<Longrightarrow> is_panic e"
  "(\<exists>e. remove_unhealthy_service job M = Inl e) \<longleftrightarrow> \<not> listed M (job_key job)"
  by (auto simp: remove_unhealthy_service_def listed_def job_key_def assert_res_def panic_def Let_def split: option.splits if_splits)

lemma record_outcome_panics:
  assumes "ordinary outcome"
  shows "(\<exists>m. snd (record_outcome now job outcome M) = panic m) \<longleftrightarrow>
    is_healthy job \<and> \<not> listed M (job_key job) \<and> (\<exists>e. outcome = Inl e)"
proof (cases outcome)
  case (Inl e)
  have panics: "is_panic x \<longleftrightarrow> (\<exists>m. x = Panic m)" for x by (cases x) simp_all
  note remove = remove_unhealthy_service_panics [of job M]
  from assms Inl have "\<not> is_panic e" by (simp add: ordinary_def)
  with Inl remove panics show ?thesis
    by (cases "remove_unhealthy_service job M") (auto simp: record_outcome_def panic_def Let_def)
qed (simp add: record_outcome_def panic_def)

lemma jobs_thread_keeps_table:
  assumes "job_heap (de_top E)"
  shows "discovery_inv now M \<Longrightarrow> rounds_ok now rounds \<Longrightarrow>
    \<exists>M'. jobs_thread E rounds M = Inr M' \<and> discovery_inv (rounds_end now rounds) M'"
proof (induction rounds arbitrary: now M)
  case Nil
  then show ?case by simp
next
  case (Cons round rounds)
  obtain N began ended where round: "round = (N, began, ended)" by (cases round)
  obtain M1 r where r: "run_health_check E N began ended M = (M1, r)" by (cases "run_health_check E N began ended M")
  have "discovery_inv ended M1" "ordinary r"
    using run_health_check_keeps [OF assms(1) Cons.prems(1) _ _ r] Cons.prems(2) by (simp_all add: round)
  with Cons.IH [of ended M1] Cons.prems(2) r show ?case
    by (cases r) (simp_all add: round ordinary_def)
qed

text \<open>
  C22: when the health checks panic. A round panics exactly when the job it takes succeeded when it was last run,
  its service is not in the table, and the check fails. That cannot happen while no two jobs are for one service
  and the table lists exactly the services whose last check succeeded: on a clock that does not go back the jobs
  thread then gets through any number of rounds, whatever the peers answer, and keeps both.
\<close>

theorem jobs_thread_panics:
  assumes "job_heap (de_top E)"
  shows "((\<exists>m. snd (run_health_check E N began ended M) = panic m) \<longleftrightarrow>
      (\<exists>job M1. take_job E began M = Some (job, M1) \<and> is_healthy job \<and> \<not> listed M (job_key job) \<and>
         (\<exists>e. check_server N M1 (hc_addr job) (hc_hostname job) (hc_service job) = Inl e))) \<and>
    (distinct (map job_key (dm_queue M)) \<and> table_agrees now M \<and> rounds_ok now rounds \<longrightarrow>
      (\<exists>M'. jobs_thread E rounds M = Inr M' \<and>
         distinct (map job_key (dm_queue M')) \<and> table_agrees (rounds_end now rounds) M'))"
proof
  show "(\<exists>m. snd (run_health_check E N began ended M) = panic m) \<longleftrightarrow>
      (\<exists>job M1. take_job E began M = Some (job, M1) \<and> is_healthy job \<and> \<not> listed M (job_key job) \<and>
         (\<exists>e. check_server N M1 (hc_addr job) (hc_hostname job) (hc_service job) = Inl e))"
  proof (cases "take_job E began M")
    case None
    then show ?thesis by (simp add: run_health_check_def panic_def)
  next
    case (Some p)
    then obtain job M1 where t: "take_job E began M = Some (job, M1)" by (cases p) simp
    then obtain q where "M1 = M\<lparr>dm_queue := q\<rparr>" by (auto simp: take_job_def split: if_splits)
    then have "listed M1 k \<longleftrightarrow> listed M k" for k by (simp add: listed_def)
    with t record_outcome_panics [OF ordinary_check_server] show ?thesis by (simp add: run_health_check_def)
  qed
  show "distinct (map job_key (dm_queue M)) \<and> table_agrees now M \<and> rounds_ok now rounds \<longrightarrow>
      (\<exists>M'. jobs_thread E rounds M = Inr M' \<and>
         distinct (map job_key (dm_queue M')) \<and> table_agrees (rounds_end now rounds) M')"
    using jobs_thread_keeps_table [OF assms] by (simp add: discovery_inv_distinct)
qed

text \<open>
  C23: a request adds at most six jobs and never takes the queue over 500; every job it adds is for a service that
  had none, of a remote address other than our own, which is the requester's unless it is an onion host; and when
  the added jobs are for distinct services, the queue and the table of healthy services still agree.
\<close>

theorem add_server_request_admits:
  assumes "add_server_request E added_by features M = Inr M'"
  shows "\<exists>jobs. M' = M\<lparr>dm_queue := dm_queue M @ jobs\<rparr> \<and> length jobs \<le> 6 \<and> length (dm_queue M') \<le> 500 \<and>
    (\<forall>job \<in> set jobs. is_remote_addr (hc_addr job) \<and> hc_addr job \<notin> set (dm_our_addrs M) \<and>
       (\<forall>ip. hc_addr job = Clearnet ip \<longrightarrow> ip = added_by) \<and> length (hc_hostname job) \<le> 100 \<and>
       job_key job \<notin> job_key ` set (dm_queue M)) \<and>
    (discovery_inv now M \<longrightarrow> distinct (map job_key jobs) \<longrightarrow> discovery_inv now M')"
proof -
  let ?jobs = "request_jobs E M added_by features"
  have M': "M' = M\<lparr>dm_queue := dm_queue M @ ?jobs\<rparr>" "length (dm_queue M) + length ?jobs \<le> 500"
    using assms by (auto simp: add_server_request_def Let_def MAX_QUEUE_SIZE_def split: if_splits)
  moreover have "length ?jobs \<le> 6" by (simp add: request_jobs_def MAX_SERVICES_PER_REQUEST_def)
  moreover have "discovery_inv now M'" if "discovery_inv now M" "distinct (map job_key ?jobs)"
    using jobs_agree_append [OF that(1) [unfolded discovery_inv_def] that(2)] request_jobs_facts(5-7)
    by (simp add: discovery_inv_def M'(1))
  ultimately show ?thesis using request_jobs_facts(1-5) by (intro exI [of _ ?jobs]) auto
qed

section \<open>Examples\<close>

text \<open>The heap of a queue that takes the first of the jobs that were not checked for longest.\<close>

fun first_greatest :: "health_check list \<Rightarrow> nat" where
  "first_greatest [] = 0"
| "first_greatest [job] = 0"
| "first_greatest (job # q) =
     (if health_check_cmp (q ! first_greatest q) job = Greater then Suc (first_greatest q) else 0)"

definition check_rank :: "health_check \<Rightarrow> nat" where
  "check_rank job = (case hc_last_check job of None \<Rightarrow> 0 | Some t \<Rightarrow> Suc t)"

lemma health_check_cmp_Greater: "health_check_cmp a b = Greater \<longleftrightarrow> check_rank a < check_rank b"
  by (cases "hc_last_check a"; cases "hc_last_check b") (simp_all add: health_check_cmp_def check_rank_def usize_cmp_def)

lemma first_greatest_index: "q \<noteq> [] \<Longrightarrow> first_greatest q < length q"
  by (induction q rule: first_greatest.induct) auto

lemma first_greatest_least: "\<forall>job \<in> set q. check_rank (q ! first_greatest q) \<le> check_rank job"
  by (induction q rule: first_greatest.induct) (auto simp: health_check_cmp_Greater)

interpretation first_heap: job_heap first_greatest
  using first_greatest_index first_greatest_least by unfold_locales (auto simp: health_check_cmp_Greater not_less)

definition ex_discovery_env :: discovery_env where
  "ex_discovery_env =
     \<lparr>de_host = \<lparr>hs_to_socket_addrs = (\<lambda>s. Some [(V4 16909060, 1)]), hs_home_dir = None, hs_read = (\<lambda>p. None)\<rparr>,
      de_ip_from_str = (\<lambda>s. None), de_ip_to_string = (\<lambda>ip. ''1.2.3.4''), de_to_lowercase = (\<lambda>s. s),
      de_top = first_greatest\<rparr>"

definition ex_discovery_features :: "string list \<Rightarrow> server_features" where
  "ex_discovery_features hosts =
     \<lparr>sf_hosts = map (\<lambda>h. (h, \<lparr>sp_tcp_port = Some 50001, sp_ssl_port = None\<rparr>)) hosts, sf_server_version = ''x'',
      sf_protocol_min = ProtocolVersion 1 4, sf_protocol_max = ProtocolVersion 1 4, sf_pruning = None,
      sf_hash_function = ''sha256''\<rparr>"

definition ex_manager :: discovery where
  "ex_manager =
     \<lparr>dm_queue = [], dm_healthy = [], dm_our_version = ProtocolVersion 1 4, dm_our_addrs = [],
      dm_our_features = ex_discovery_features [], dm_announce = False, dm_tor_proxy = None\<rparr>"

text \<open>Networks all of whose servers answer, and none of whose does.\<close>

definition ex_net_up :: peer_net where
  "ex_net_up =
     \<lparr>pn_tcp = (\<lambda>a. Inr \<lparr>pe_server_features = Inr \<lparr>fr_server_version = ''x'', fr_protocol_min = ''1.4'',
        fr_protocol_max = ''1.4'', fr_pruning = None, fr_hash_function = Some ''sha256''\<rparr>, pe_server_add_peer = (\<lambda>f. Inr True)\<rparr>),
      pn_ssl = (\<lambda>d. Inl ''refused''), pn_proxy = (\<lambda>t p. Inl ''refused'')\<rparr>"

definition ex_net_down :: peer_net where
  "ex_net_down = \<lparr>pn_tcp = (\<lambda>a. Inl ''refused''), pn_ssl = (\<lambda>d. Inl ''refused''), pn_proxy = (\<lambda>t p. Inl ''refused'')\<rparr>"

definition ex_job :: "string \<Rightarrow> health_check" where
  "ex_job hostname = health_check_new (Clearnet (V4 16909060)) hostname (Tcp 50001) (Some (V4 16909060))"

lemmas ex_discovery_defs = ex_discovery_env_def ex_discovery_features_def ex_manager_def ex_net_up_def ex_net_down_def ex_job_def

named_theorems ex_discovery_simps \<open>evaluating the examples\<close>

lemma ex_manager_fields [ex_discovery_simps]:
  "dm_queue ex_manager = []" "dm_healthy ex_manager = []" "dm_our_addrs ex_manager = []" "dm_announce ex_manager = False"
  "dm_our_version ex_manager = ProtocolVersion 1 4"
  by (simp_all add: ex_manager_def)

lemma ex_remote [ex_discovery_simps]: "is_remote_addr (Clearnet (V4 16909060))"
  by (simp add: is_private_def)

lemma ex_env_fields [ex_discovery_simps]: "de_to_lowercase ex_discovery_env s = s" "de_top ex_discovery_env = first_greatest"
  by (simp_all add: ex_discovery_env_def)

lemma ex_resolve [ex_discovery_simps]: "server_addr_resolve ex_discovery_env [c] = Inr (Clearnet (V4 16909060))"
  by (simp add: server_addr_resolve_def ex_discovery_env_def ok_or_def suffix_def)

lemma ex_candidate:
  "dm_our_addrs M = [] \<Longrightarrow>
     candidate_host ex_discovery_env M (V4 16909060) ([c], p) = Some (Clearnet (V4 16909060), [c], p)"
  by (simp add: candidate_host_def ex_discovery_simps del: is_remote_addr.simps)

lemma ex_request_jobs:
  assumes "dm_our_addrs M = []" "dm_queue M = []"
  shows "request_jobs ex_discovery_env M (V4 16909060) (ex_discovery_features [[c], [d]]) = [ex_job [c], ex_job [d]]"
    "request_jobs ex_discovery_env M (V4 16909060) (ex_discovery_features [[c]]) = [ex_job [c]]"
  by (simp_all add: request_jobs_def ex_discovery_features_def MAX_SERVICES_PER_REQUEST_def MAX_SERVERS_PER_REQUEST_def
    List.map_filter_def ex_candidate [OF assms(1)] host_jobs_def existing_services_def port_services_def ex_job_def assms(2))

lemma ex_compatible: "dm_our_version M = ProtocolVersion 1 4 \<Longrightarrow> verify_compatibility M (ex_discovery_features hosts) = Inr ()"
  by (simp add: verify_compatibility_def ex_discovery_features_def)

lemma ex_request:
  "add_server_request ex_discovery_env (V4 16909060) (ex_discovery_features [''a'', ''b'']) ex_manager =
     Inr (ex_manager\<lparr>dm_queue := [ex_job ''a'', ex_job ''b'']\<rparr>)"
  by (simp add: add_server_request_def ex_compatible ex_request_jobs ex_manager_fields MAX_QUEUE_SIZE_def)

text \<open>The servers of the example answer with the features of no host.\<close>

lemma ex_check:
  assumes "dm_our_version M = ProtocolVersion 1 4" "\<not> dm_announce M"
  shows "check_server ex_net_up M (Clearnet ip) h (Tcp port) = Inr (ex_discovery_features [])"
    "check_server ex_net_down M (Clearnet ip) h (Tcp port) = bail ''refused''"
proof -
  have "protocol_version_from_str ''1.4'' = Inr (ProtocolVersion 1 4)"
    by (simp add: protocol_version_from_str_def parse_uint_def dec_digit_def)
  then have "server_features_try_from \<lparr>fr_server_version = ''x'', fr_protocol_min = ''1.4'', fr_protocol_max = ''1.4'',
      fr_pruning = None, fr_hash_function = Some ''sha256''\<rparr> = Inr (ex_discovery_features [])"
    by (simp add: server_features_try_from_def chain_err_def ok_or_def ex_discovery_features_def)
  then show "check_server ex_net_up M (Clearnet ip) h (Tcp port) = Inr (ex_discovery_features [])"
    using assms by (simp add: check_server_def client_new_def ex_net_up_def ex_compatible)
  show "check_server ex_net_down M (Clearnet ip) h (Tcp port) = bail ''refused''"
    by (simp add: check_server_def client_new_def ex_net_down_def bail_def)
qed

lemma ex_job_fields [ex_discovery_simps]:
  "hc_last_check (ex_job h) = None" "hc_last_healthy (ex_job h) = None" "hc_addr (ex_job h) = Clearnet (V4 16909060)"
  "hc_service (ex_job h) = Tcp 50001" "hc_hostname (ex_job h) = h" "\<not> hc_is_default (ex_job h)"
  by (simp_all add: ex_job_def health_check_new_def)

lemmas check_evaluation = take_job_def heap_peek_def heap_pop_def health_check_cmp_def usize_cmp_def HEALTH_CHECK_FREQ_def
  run_health_check_def record_outcome_def save_healthy_service_def remove_unhealthy_service_def push_job_def
  is_healthy_def should_retry_def MAX_CONSECUTIVE_FAILURES_def server_new_def assert_res_def panic_def Let_def

lemma ex_rounds:
  "jobs_thread ex_discovery_env
     [(ex_net_up, 0, 0), (ex_net_up, 0, 0), (ex_net_down, 3600000000000, 3600000000000), (ex_net_down, 3600000000000, 3600000000000)]
     (ex_manager\<lparr>dm_queue := [ex_job ''a'', ex_job ''b'']\<rparr>) = panic ''missing expected server, corrupted state''"
  by (simp add: check_evaluation ex_discovery_simps ex_check bail_def)

text \<open>
  Without distinct services the agreement is lost: two host names of one address make two jobs for one service
  when they come in one request, and once the service has answered and then stops answering, the second of the
  jobs panics.
\<close>

lemma duplicate_jobs_panic:
  "\<exists>features M rounds. add_server_request ex_discovery_env (V4 16909060) features ex_manager = Inr M \<and> rounds_ok 0 rounds \<and>
     jobs_thread ex_discovery_env rounds M = panic ''missing expected server, corrupted state''"
  using ex_request ex_rounds by (meson le_refl rounds_ok.simps zero_le)

text \<open>So does a request for the service whose job is just being run, which the queue does not hold.\<close>

lemma request_during_check:
  "\<exists>job M M'. take_job ex_discovery_env 0 (ex_manager\<lparr>dm_queue := [ex_job ''a'']\<rparr>) = Some (job, M) \<and>
     add_server_request ex_discovery_env (V4 16909060) (ex_discovery_features [''a'']) M = Inr M' \<and>
     job_key job \<in> job_key ` set (dm_queue M')"
proof -
  have "take_job ex_discovery_env 0 (ex_manager\<lparr>dm_queue := [ex_job ''a'']\<rparr>) = Some (ex_job ''a'', ex_manager\<lparr>dm_queue := []\<rparr>)"
    by (simp add: check_evaluation ex_discovery_simps)
  moreover have "add_server_request ex_discovery_env (V4 16909060) (ex_discovery_features [''a'']) (ex_manager\<lparr>dm_queue := []\<rparr>) =
      Inr (ex_manager\<lparr>dm_queue := [ex_job ''a'']\<rparr>)"
    by (simp add: add_server_request_def ex_compatible ex_request_jobs ex_manager_fields MAX_QUEUE_SIZE_def)
  ultimately show ?thesis by force
qed

lemma jobs_thread_panics_witness:
  "\<exists>M'. jobs_thread ex_discovery_env [(ex_net_up, 0, 1), (ex_net_down, 3600000000001, 3600000000001)]
      (ex_manager\<lparr>dm_queue := [ex_job ''a'']\<rparr>) = Inr M' \<and> table_agrees 3600000000001 M'"
proof -
  let ?M = "ex_manager\<lparr>dm_queue := [ex_job ''a'']\<rparr>"
  have "distinct (map job_key (dm_queue ?M))" "table_agrees 0 ?M"
    by (simp_all add: table_agrees_def table_ok_def listed_def job_ok_def is_healthy_def ex_discovery_simps)
  moreover have "job_heap (de_top ex_discovery_env)" using first_heap.job_heap_axioms by (simp add: ex_env_fields)
  ultimately show ?thesis
    using jobs_thread_panics [of ex_discovery_env ex_net_up 0 0 ?M 0 "[(ex_net_up, 0, 1), (ex_net_down, 3600000000001, 3600000000001)]"]
    by (simp del: jobs_thread.simps) blast
qed

lemma add_server_request_admits_witness:
  "\<exists>jobs. ex_manager\<lparr>dm_queue := [ex_job ''a'', ex_job ''b'']\<rparr> = ex_manager\<lparr>dm_queue := dm_queue ex_manager @ jobs\<rparr> \<and> length jobs \<le> 6"
  using add_server_request_admits [OF ex_request] by blast

end
