(* ===== verification/Server.thy ===== *)
theory Server
  imports Electrum
begin

text \<open>
  The server as a whole (\<^verbatim>\<open>src/src/bin/electrs.rs\<close>): opening the store, the first update, the pre-caching of
  statistics (\<^verbatim>\<open>src/src/new_index/precache.rs\<close>), and the loop that follows the node, with the indexer, the
  mempool and the notification of the Electrum clients put together.
\<close>

section \<open>Pre-caching\<close>

text \<open>
  \<^verbatim>\<open>BufRead::lines\<close>: the lines without their ends, \<^verbatim>\<open>\\n\<close> or \<^verbatim>\<open>\\r\\n\<close>; nothing follows a final end of line,
  and a line that is not UTF-8 is an error.
\<close>

fun split_lines :: "bytes \<Rightarrow> bytes list" where
  "split_lines [] = []"
| "split_lines (b # bs) =
     (if b = 10 then [] # split_lines bs
      else case split_lines bs of
        [] \<Rightarrow> [[b]]
      | l # ls \<Rightarrow> (if b = 13 \<and> take 1 bs = [10] then l # ls else (b # l) # ls))"

definition read_line :: "bytes \<Rightarrow> string res" where
  "read_line l = ok_or ''cannot read scripthash line'' (from_utf8 l)"

text \<open>\<^verbatim>\<open>full_hash\<close> of a slice: its first 32 bytes, and a panic if there are fewer.\<close>

definition full_hash_of_slice :: "bytes \<Rightarrow> hash res" where
  "full_hash_of_slice bs =
     and_then (assert_res (32 \<le> length bs) ''range end index 32 out of range'') (\<lambda>_. Inr (bytes_hash (take 32 bs)))"

definition precache_address_to_scripthash :: "tapyrus \<Rightarrow> web \<Rightarrow> string \<Rightarrow> scripthash res" where
  "precache_address_to_scripthash T W addr =
     and_then (ok_or ''invalid address'' (wb_address_from_str W addr)) (\<lambda>(net, script).
       Inr (compute_script_hash T script))"

definition precache_to_scripthash :: "lib \<Rightarrow> tapyrus \<Rightarrow> web \<Rightarrow> string \<Rightarrow> string \<Rightarrow> scripthash res" where
  "precache_to_scripthash L T W script_type script_str =
     (if script_type = ''address'' then precache_address_to_scripthash T W script_str
      else if script_type = ''scripthash'' then
        and_then (ok_or ''invalid hex'' (hex_decode L script_str)) full_hash_of_slice
      else if script_type = ''scriptpubkey'' then
        and_then (ok_or ''invalid hex'' (hex_decode L script_str)) (\<lambda>bs. Inr (compute_script_hash T bs))
      else bail ''Invalid script type'')"

definition scripthashes_from_file :: "lib \<Rightarrow> tapyrus \<Rightarrow> web \<Rightarrow> host \<Rightarrow> string \<Rightarrow> scripthash list res" where
  "scripthashes_from_file L T W H path =
     and_then (ok_or ''cannot open precache scripthash file'' (hs_read H path)) (\<lambda>contents.
       map_res (\<lambda>l.
         and_then (read_line l) (\<lambda>line.
         let cols = split_on (CHR '','') line in
         and_then (expect ''index out of bounds'' (if 1 < length cols then Some () else None)) (\<lambda>_.
           precache_to_scripthash L T W (cols ! 0) (cols ! 1))))
         (split_lines contents))"

text \<open>The thread pool works through the script hashes in some order; here it is that of the file.\<close>

definition precache :: "'d chain_query \<Rightarrow> scripthash list \<Rightarrow> 'd store \<Rightarrow> 'd store \<times> unit res" where
  "precache Q scripthashes st =
     fold (\<lambda>scripthash r. st_then r (\<lambda>_ st. st_then (chain_stats Q st scripthash) (\<lambda>_ st. (st, Inr ()))))
       scripthashes (st, Inr ())"

section \<open>Starting\<close>

definition electrs_fetch_from :: "config \<Rightarrow> 'd ext \<Rightarrow> 'd store \<Rightarrow> fetch_from" where
  "electrs_fetch_from cfg E st =
     (let jsonrpc_import = (if \<not> cf_jsonrpc_import cfg then done_initial_sync E st else cf_jsonrpc_import cfg) in
      if jsonrpc_import then Tapyrusd else BlkFiles)"

text \<open>
  The store is shared: that of the indexer is that of the queries. \<open>sr_notifications\<close> is what was sent to the
  Electrum notifier. The mempool and the caches of \<open>Query\<close> are in \<open>sr_query\<close>.
\<close>

record 'd server =
  sr_indexer :: "'d indexer"
  sr_query :: "'d query"
  sr_tip :: blockhash
  sr_notifications :: "notification_msg list"

abbreviation sr_store :: "'d server \<Rightarrow> 'd store" where
  "sr_store s \<equiv> qy_store (sr_query s)"

text \<open>What the server finds outside while it updates: the node, its block files, and the clock.\<close>

record outside =
  os_rpc :: rpc
  os_dial :: "unit res"
  os_blk_files :: "bytes list res"
  os_now :: nat

text \<open>\<^verbatim>\<open>Daemon::new\<close> has connected; the databases are those found in the directory \<^verbatim>\<open>newindex\<close>.\<close>

definition start_server ::
  "'d chain_query \<Rightarrow> web \<Rightarrow> host \<Rightarrow> config \<Rightarrow> outside \<Rightarrow> 'd \<times> 'd \<times> 'd \<Rightarrow> 'd server res option" where
  "start_server Q W H cfg W0 = (\<lambda>(txstore, history, cache).
     let E = cq_ext Q; L = cq_lib Q; Q = Q\<lparr>cq_rpc := os_rpc W0\<rparr> in
     case store_open E (cf_light_mode cfg) txstore history cache of
       Inl e \<Rightarrow> Some (Inl e)
     | Inr st \<Rightarrow>
         map_option (\<lambda>(ix, r).
           and_then r (\<lambda>tip.
           and_then (snd (st_then
               (case cf_precache_scripts cfg of
                  None \<Rightarrow> (ix_store ix, Inr ())
                | Some precache_file \<Rightarrow>
                    (case unwrap ''cannot load scripts to precache''
                        (scripthashes_from_file L (tap E) W H precache_file) of
                       Inl e \<Rightarrow> (ix_store ix, Inl e)
                     | Inr scripthashes \<Rightarrow> precache Q scripthashes (ix_store ix)))
               (\<lambda>_ st. (st, Inr st)))) (\<lambda>st.
           and_then (mempool_update Q st (cf_index_unspendables cfg) (os_now W0) (mempool_new (os_now W0))) (\<lambda>mp.
             Inr \<lparr>sr_indexer = ix\<lparr>ix_store := st\<rparr>, sr_query = query_new st mp, sr_tip = tip, sr_notifications = []\<rparr>))))
           (indexer_update E L (os_rpc W0) (os_dial W0) (os_blk_files W0)
              (indexer_open st (electrs_fetch_from cfg E st) (config_indexer cfg))))"

section \<open>Following the node\<close>

text \<open>
  One turn of the loop: whether a signal came, the node when it is asked for its best block, and what the
  updates find after that.
\<close>

record tick =
  tk_signal :: "unit res"
  tk_tip_rpc :: rpc
  tk_update :: outside
  tk_mempool :: outside

definition update_index :: "'d chain_query \<Rightarrow> outside \<Rightarrow> 'd server \<Rightarrow> ('d server \<times> blockhash res) option" where
  "update_index Q W0 s =
     map_option (\<lambda>(ix, r). (s\<lparr>sr_indexer := ix, sr_query := (sr_query s)\<lparr>qy_store := ix_store ix\<rparr>\<rparr>, r))
       (indexer_update (cq_ext Q) (cq_lib Q) (os_rpc W0) (os_dial W0) (os_blk_files W0)
          ((sr_indexer s)\<lparr>ix_store := sr_store s\<rparr>))"

definition update_mempool :: "'d chain_query \<Rightarrow> config \<Rightarrow> outside \<Rightarrow> 'd server \<Rightarrow> 'd server \<times> unit res" where
  "update_mempool Q cfg W0 s =
     (case mempool_update (Q\<lparr>cq_rpc := os_rpc W0\<rparr>) (sr_store s) (cf_index_unspendables cfg) (os_now W0)
         (qy_mempool (sr_query s)) of
        Inl e \<Rightarrow> (s, Inl e)
      | Inr mp \<Rightarrow> (s\<lparr>sr_query := (sr_query s)\<lparr>qy_mempool := mp\<rparr>\<rparr>, Inr ()))"

text \<open>\<^verbatim>\<open>RPC::notify\<close>, and what dropping the Electrum server sends.\<close>

definition rpc_notify :: "'d server \<Rightarrow> 'd server" where
  "rpc_notify s = s\<lparr>sr_notifications := sr_notifications s @ [Periodic]\<rparr>"

definition rpc_drop :: "'d server \<Rightarrow> 'd server" where
  "rpc_drop s = s\<lparr>sr_notifications := sr_notifications s @ [Exit]\<rparr>"

text \<open>A turn answers whether the loop goes on.\<close>

definition server_tick :: "'d chain_query \<Rightarrow> config \<Rightarrow> tick \<Rightarrow> 'd server \<Rightarrow> ('d server \<times> bool res) option" where
  "server_tick Q cfg t s =
     (case tk_signal t of
        Inl err \<Rightarrow> Some (s, if is_panic err then Inl err else Inr False)
      | Inr _ \<Rightarrow>
          (case getbestblockhash (cq_lib Q) (tk_tip_rpc t) of
             Inl e \<Rightarrow> Some (s, Inl e)
           | Inr current_tip \<Rightarrow>
               map_option (\<lambda>r.
                 st_then r (\<lambda>_ s.
                 st_then (update_mempool Q cfg (tk_mempool t) s) (\<lambda>_ s.
                   (rpc_notify s, Inr True))))
                 (if current_tip \<noteq> sr_tip s
                  then map_option (\<lambda>r. st_then r (\<lambda>_ s. (s\<lparr>sr_tip := current_tip\<rparr>, Inr ())))
                         (update_index Q (tk_update t) s)
                  else Some (s, Inr ()))))"

text \<open>
  The loop over the given turns. It answers whether the server is still running after them; either way out of
  the loop drops the Electrum server. An update that does not return is \<open>None\<close>.
\<close>

fun server_loop :: "'d chain_query \<Rightarrow> config \<Rightarrow> tick list \<Rightarrow> 'd server \<Rightarrow> ('d server \<times> bool res) option" where
  "server_loop Q cfg [] s = Some (s, Inr True)"
| "server_loop Q cfg (t # ts) s =
     (case server_tick Q cfg t s of
        None \<Rightarrow> None
      | Some (s, Inr True) \<Rightarrow> server_loop Q cfg ts s
      | Some (s, r) \<Rightarrow> Some (rpc_drop s, r))"

definition run_server ::
  "'d chain_query \<Rightarrow> web \<Rightarrow> host \<Rightarrow> config \<Rightarrow> outside \<Rightarrow> 'd \<times> 'd \<times> 'd \<Rightarrow> tick list \<Rightarrow> ('d server option \<times> bool res) option" where
  "run_server Q W H cfg W0 dbs ts =
     (case start_server Q W H cfg W0 dbs of
        None \<Rightarrow> None
      | Some (Inl e) \<Rightarrow> Some (None, Inl e)
      | Some (Inr s) \<Rightarrow> map_option (\<lambda>(s, r). (Some s, r)) (server_loop Q cfg ts s))"

end
