(* ===== verification/Server_Properties.thy ===== *)
theory Server_Properties
  imports Server Caches
begin

text \<open>
  The index follows the node: what the main loop keeps of the store, the remembered tip and the clients'
  notifications, and what happens when the node moves between the two questions of a turn.
\<close>

section \<open>Following the node\<close>

text \<open>The chain of headers and the database end at the remembered tip.\<close>

definition in_sync :: "'d ext \<Rightarrow> 'd server \<Rightarrow> bool" where
  "in_sync E s \<longleftrightarrow> header_list_tip (sto_headers (sr_store s)) = Inr (sr_tip s) \<and>
     db_get (rdb E) (sto_txstore (sr_store s)) tip_key = Some (hash_bytes (sr_tip s))"

text \<open>The node has the same best block when the loop asks for it and when the indexer does.\<close>

definition steady :: "lib \<Rightarrow> tick \<Rightarrow> bool" where
  "steady L t \<longleftrightarrow> getbestblockhash L (os_rpc (tk_update t)) = getbestblockhash L (tk_tip_rpc t)"

lemma update_index_Inr:
  assumes "rocksdb (rdb (cq_ext Q))" "update_index Q W0 s = Some (s', Inr tip)"
  shows "getbestblockhash (cq_lib Q) (os_rpc W0) = Inr tip" "in_sync (cq_ext Q) (s'\<lparr>sr_tip := tip\<rparr>)"
    "sr_notifications s' = sr_notifications s" "qy_mempool (sr_query s') = qy_mempool (sr_query s)"
proof -
  obtain ix where ix: "indexer_update (cq_ext Q) (cq_lib Q) (os_rpc W0) (os_dial W0) (os_blk_files W0)
      ((sr_indexer s)\<lparr>ix_store := sr_store s\<rparr>) = Some (ix, Inr tip)"
    and s': "s' = s\<lparr>sr_indexer := ix, sr_query := (sr_query s)\<lparr>qy_store := ix_store ix\<rparr>\<rparr>"
    using assms(2) by (auto simp: update_index_def)
  show "getbestblockhash (cq_lib Q) (os_rpc W0) = Inr tip" "in_sync (cq_ext Q) (s'\<lparr>sr_tip := tip\<rparr>)"
    using indexer_update_Inr [OF assms(1) ix] by (simp_all add: in_sync_def s')
  show "sr_notifications s' = sr_notifications s" "qy_mempool (sr_query s') = qy_mempool (sr_query s)"
    by (simp_all add: s')
qed

lemma update_mempool_Inr:
  "update_mempool Q cfg W0 s = (s', Inr u) \<Longrightarrow> \<exists>mp. s' = s\<lparr>sr_query := (sr_query s)\<lparr>qy_mempool := mp\<rparr>\<rparr>"
  by (auto simp: update_mempool_def split: sum.splits)

text \<open>A turn after which the loop goes on: what it asked, and the steps it took.\<close>

lemma server_tick_goes_on:
  assumes "server_tick Q cfg t s = Some (s', Inr True)"
  obtains tip s1 mp where "getbestblockhash (cq_lib Q) (tk_tip_rpc t) = Inr tip"
    "tip = sr_tip s \<and> s1 = s \<or> tip \<noteq> sr_tip s \<and> (\<exists>s0 tip'. update_index Q (tk_update t) s = Some (s0, Inr tip') \<and> s1 = s0\<lparr>sr_tip := tip\<rparr>)"
    "s' = rpc_notify (s1\<lparr>sr_query := (sr_query s1)\<lparr>qy_mempool := mp\<rparr>\<rparr>)"
proof -
  from assms obtain tip where tip: "getbestblockhash (cq_lib Q) (tk_tip_rpc t) = Inr tip"
    by (auto simp: server_tick_def split: sum.splits if_splits)
  from assms tip obtain s1 where s1: "st_then (s1, Inr ()) (\<lambda>_ s. st_then (update_mempool Q cfg (tk_mempool t) s) (\<lambda>_ s.
        (rpc_notify s, Inr True))) = (s', Inr True)"
    "tip = sr_tip s \<and> s1 = s \<or> tip \<noteq> sr_tip s \<and> (\<exists>s0 tip'. update_index Q (tk_update t) s = Some (s0, Inr tip') \<and> s1 = s0\<lparr>sr_tip := tip\<rparr>)"
    by (auto simp: server_tick_def st_then_eq_Inr split: sum.splits if_splits)
  from s1(1) obtain s2 where "update_mempool Q cfg (tk_mempool t) s1 = (s2, Inr ())" "s' = rpc_notify s2"
    by (auto simp: st_then_eq_Inr)
  with update_mempool_Inr that [OF tip s1(2)] show ?thesis by metis
qed

lemma in_sync_mempool [simp]:
  "in_sync E (rpc_notify (s\<lparr>sr_query := (sr_query s)\<lparr>qy_mempool := mp\<rparr>\<rparr>)) = in_sync E s"
  by (simp add: in_sync_def rpc_notify_def)

lemma server_tick_in_sync:
  assumes "rocksdb (rdb (cq_ext Q))" "in_sync (cq_ext Q) s" "steady (cq_lib Q) t" "server_tick Q cfg t s = Some (s', Inr True)"
  shows "in_sync (cq_ext Q) s' \<and> getbestblockhash (cq_lib Q) (tk_tip_rpc t) = Inr (sr_tip s') \<and>
    sr_notifications s' = sr_notifications s @ [Periodic]"
proof -
  obtain tip s1 mp where tip: "getbestblockhash (cq_lib Q) (tk_tip_rpc t) = Inr tip"
    and s1: "tip = sr_tip s \<and> s1 = s \<or> tip \<noteq> sr_tip s \<and> (\<exists>s0 tip'. update_index Q (tk_update t) s = Some (s0, Inr tip') \<and> s1 = s0\<lparr>sr_tip := tip\<rparr>)"
    and s': "s' = rpc_notify (s1\<lparr>sr_query := (sr_query s1)\<lparr>qy_mempool := mp\<rparr>\<rparr>)"
    by (rule server_tick_goes_on [OF assms(4)])
  have "in_sync (cq_ext Q) s1 \<and> sr_tip s1 = tip \<and> sr_notifications s1 = sr_notifications s"
    using s1
  proof
    assume "tip = sr_tip s \<and> s1 = s"
    with assms(2) show ?thesis by simp
  next
    assume "tip \<noteq> sr_tip s \<and> (\<exists>s0 tip'. update_index Q (tk_update t) s = Some (s0, Inr tip') \<and> s1 = s0\<lparr>sr_tip := tip\<rparr>)"
    then obtain s0 tip' where u: "update_index Q (tk_update t) s = Some (s0, Inr tip')" and s1: "s1 = s0\<lparr>sr_tip := tip\<rparr>"
      by blast
    have "tip' = tip" using update_index_Inr(1) [OF assms(1) u] tip assms(3) by (simp add: steady_def)
    with update_index_Inr(2,3) [OF assms(1) u] show ?thesis by (simp add: s1)
  qed
  with tip s' show ?thesis by (simp add: rpc_notify_def in_sync_def)
qed

lemma server_tick_False:
  "server_tick Q cfg t s = Some (s', Inr False) \<Longrightarrow> s' = s \<and> (\<exists>err. tk_signal t = Inl err \<and> \<not> is_panic err)"
  by (auto simp: server_tick_def st_then_eq_Inr split: sum.splits if_splits)

text \<open>
  What makes a turn fail: a panic while it waits for a signal, the node's answer for its best block, the update
  of the index when that block is a new one, or the update of the mempool after it.
\<close>

definition turn_fails :: "'d chain_query \<Rightarrow> config \<Rightarrow> tick \<Rightarrow> 'd server \<Rightarrow> error \<Rightarrow> bool" where
  "turn_fails Q cfg t s e \<longleftrightarrow>
     tk_signal t = Inl e \<and> is_panic e \<or>
     tk_signal t = Inr () \<and>
       (getbestblockhash (cq_lib Q) (tk_tip_rpc t) = Inl e \<or>
        (\<exists>tip. getbestblockhash (cq_lib Q) (tk_tip_rpc t) = Inr tip \<and>
           (tip \<noteq> sr_tip s \<and> (\<exists>s0. update_index Q (tk_update t) s = Some (s0, Inl e)) \<or>
            (\<exists>s0. (if tip = sr_tip s then s0 = s else \<exists>tip'. update_index Q (tk_update t) s = Some (s0, Inr tip')) \<and>
               snd (update_mempool Q cfg (tk_mempool t) (s0\<lparr>sr_tip := tip\<rparr>)) = Inl e))))"

lemma update_index_Inl:
  assumes "rocksdb (rdb (cq_ext Q))" "update_index Q W0 s = Some (s', Inl e)"
  shows "is_panic e \<or> in_sync (cq_ext Q) s' = in_sync (cq_ext Q) s" "sr_notifications s' = sr_notifications s"
proof -
  obtain ix where ix: "indexer_update (cq_ext Q) (cq_lib Q) (os_rpc W0) (os_dial W0) (os_blk_files W0)
      ((sr_indexer s)\<lparr>ix_store := sr_store s\<rparr>) = Some (ix, Inl e)"
    and s': "s' = s\<lparr>sr_indexer := ix, sr_query := (sr_query s)\<lparr>qy_store := ix_store ix\<rparr>\<rparr>"
    using assms(2) by (auto simp: update_index_def)
  from indexer_update_outcome [OF assms(1) ix]
  show "is_panic e \<or> in_sync (cq_ext Q) s' = in_sync (cq_ext Q) s" by (auto simp: in_sync_def s' same_tip_def)
  show "sr_notifications s' = sr_notifications s" by (simp add: s')
qed

lemma update_mempool_Inl: "update_mempool Q cfg W0 s = (s', Inl e) \<Longrightarrow> s' = s"
  by (auto simp: update_mempool_def split: sum.splits)

text \<open>A turn that fails stops for such a reason, and unless it panics leaves the index in step.\<close>

lemma server_tick_fails:
  assumes "rocksdb (rdb (cq_ext Q))" "in_sync (cq_ext Q) s" "steady (cq_lib Q) t" "server_tick Q cfg t s = Some (s', Inl e)"
  shows "turn_fails Q cfg t s e" "is_panic e \<or> in_sync (cq_ext Q) s'" "sr_notifications s' = sr_notifications s"
proof -
  have "turn_fails Q cfg t s e \<and> (is_panic e \<or> in_sync (cq_ext Q) s') \<and> sr_notifications s' = sr_notifications s"
  proof (cases "tk_signal t")
    case (Inl err)
    with assms show ?thesis by (auto simp: server_tick_def turn_fails_def split: if_splits)
  next
    case wait: (Inr u)
    show ?thesis
    proof (cases "getbestblockhash (cq_lib Q) (tk_tip_rpc t)")
      case (Inl err)
      with assms wait show ?thesis by (auto simp: server_tick_def turn_fails_def)
    next
      case best: (Inr tip)
      let ?go = "\<lambda>s1. st_then (update_mempool Q cfg (tk_mempool t) s1) (\<lambda>_ s. (rpc_notify s, Inr True))"
      have go: "snd (update_mempool Q cfg (tk_mempool t) s1) = Inl e \<and> s' = s1" if "?go s1 = (s', Inl e)" for s1
        using that update_mempool_Inl [of Q cfg "tk_mempool t" s1]
        by (cases "update_mempool Q cfg (tk_mempool t) s1"; cases "snd (update_mempool Q cfg (tk_mempool t) s1)") auto
      show ?thesis
      proof (cases "tip = sr_tip s")
        case True
        with assms(4) wait best have "?go s = (s', Inl e)" by (simp add: server_tick_def)
        with go [of s] assms(2) wait best True show ?thesis by (auto simp: turn_fails_def)
      next
        case False
        with assms(4) wait best obtain s0 r where u: "update_index Q (tk_update t) s = Some (s0, r)"
          and then_go: "st_then (st_then (s0, r) (\<lambda>_ s. (s\<lparr>sr_tip := tip\<rparr>, Inr ()))) (\<lambda>_ s. ?go s) = (s', Inl e)"
          by (auto simp: server_tick_def)
        show ?thesis
        proof (cases r)
          case (Inl err)
          with then_go u update_index_Inl [OF assms(1), of "tk_update t" s s0 err] assms(2) wait best False
          show ?thesis by (auto simp: turn_fails_def)
        next
          case (Inr tip')
          have "tip' = tip" using update_index_Inr(1) [OF assms(1)] u Inr best assms(3) by (simp add: steady_def)
          with update_index_Inr(2,3) [OF assms(1)] u Inr
          have "in_sync (cq_ext Q) (s0\<lparr>sr_tip := tip\<rparr>)" "sr_notifications s0 = sr_notifications s" by simp_all
          moreover have "?go (s0\<lparr>sr_tip := tip\<rparr>) = (s', Inl e)" using then_go Inr by simp
          ultimately show ?thesis using go [of "s0\<lparr>sr_tip := tip\<rparr>"] u Inr wait best False by (auto simp: turn_fails_def)
        qed
      qed
    qed
  qed
  then show "turn_fails Q cfg t s e" "is_panic e \<or> in_sync (cq_ext Q) s'" "sr_notifications s' = sr_notifications s"
    by simp_all
qed

text \<open>Starting: the first update leaves the index in step, and pre-caching writes to the cache only.\<close>

lemma fold_cache_keeps:
  "sto_headers (fold (\<lambda>(k, v) st. st\<lparr>sto_cache := f k v st\<rparr>) kvs st) = sto_headers st \<and>
   sto_txstore (fold (\<lambda>(k, v) st. st\<lparr>sto_cache := f k v st\<rparr>) kvs st) = sto_txstore st"
  by (induction kvs arbitrary: st) auto

lemma chain_stats_keeps:
  "sto_headers (fst (chain_stats Q st sh)) = sto_headers st" "sto_txstore (fst (chain_stats Q st sh)) = sto_txstore st"
  by (simp_all add: chain_stats_def fold_cache_keeps split: sum.split option.split prod.split)

lemma precache_keeps:
  "sto_headers (fst (precache Q shs st)) = sto_headers st \<and> sto_txstore (fst (precache Q shs st)) = sto_txstore st"
proof -
  let ?step = "\<lambda>sh r. st_then r (\<lambda>_ st. st_then (chain_stats Q st sh) (\<lambda>_ st. (st, Inr ())))"
  have "sto_headers (fst (?step sh r)) = sto_headers (fst r) \<and> sto_txstore (fst (?step sh r)) = sto_txstore (fst r)"
    for sh and r :: "_ \<times> unit res"
  proof (cases r)
    case (Pair st' e)
    obtain st'' e' where c: "chain_stats Q st' sh = (st'', e')" by (cases "chain_stats Q st' sh")
    have "sto_headers st'' = sto_headers st'" "sto_txstore st'' = sto_txstore st'"
      using chain_stats_keeps [of Q st' sh] by (simp_all add: c)
    then show ?thesis using Pair c by (cases e; cases e') auto
  qed
  then have "sto_headers (fst (fold ?step shs r)) = sto_headers (fst r) \<and> sto_txstore (fst (fold ?step shs r)) = sto_txstore (fst r)" for r
    by (induction shs arbitrary: r) simp_all
  then show ?thesis by (simp add: precache_def)
qed

lemma st_then_cases: "snd (st_then r (\<lambda>_ st. (st, Inr st))) = Inr y \<longleftrightarrow> y = fst r \<and> (\<exists>x. snd r = Inr x)"
  by (cases r; cases "snd r") auto

lemma start_server_in_sync:
  assumes "rocksdb (rdb (cq_ext Q))" "start_server Q W H cfg W0 dbs = Some (Inr s)"
  shows "in_sync (cq_ext Q) s" "getbestblockhash (cq_lib Q) (os_rpc W0) = Inr (sr_tip s)" "sr_notifications s = []"
proof -
  let ?E = "cq_ext Q" and ?Q = "Q\<lparr>cq_rpc := os_rpc W0\<rparr>"
  obtain txstore history cache where dbs: "dbs = (txstore, history, cache)" by (cases dbs)
  from assms(2) obtain st where open_st: "store_open ?E (cf_light_mode cfg) txstore history cache = Inr st"
    by (auto simp: start_server_def dbs Let_def split: sum.splits)
  let ?update = "indexer_update ?E (cq_lib Q) (os_rpc W0) (os_dial W0) (os_blk_files W0)
      (indexer_open st (electrs_fetch_from cfg ?E st) (config_indexer cfg))"
  let ?cached = "\<lambda>ix. case cf_precache_scripts cfg of
      None \<Rightarrow> (ix_store ix, Inr ())
    | Some precache_file \<Rightarrow>
        (case unwrap ''cannot load scripts to precache'' (scripthashes_from_file (cq_lib Q) (tap ?E) W H precache_file) of
           Inl e \<Rightarrow> (ix_store ix, Inl e)
         | Inr scripthashes \<Rightarrow> precache ?Q scripthashes (ix_store ix))"
  have "map_option (\<lambda>(ix, r).
      and_then r (\<lambda>tip.
      and_then (snd (st_then (?cached ix) (\<lambda>_ st. (st, Inr st)))) (\<lambda>st.
      and_then (mempool_update ?Q st (cf_index_unspendables cfg) (os_now W0) (mempool_new (os_now W0))) (\<lambda>mp.
        Inr \<lparr>sr_indexer = ix\<lparr>ix_store := st\<rparr>, sr_query = query_new st mp, sr_tip = tip, sr_notifications = []\<rparr>)))) ?update = Some (Inr s)"
    using assms(2) by (simp only: start_server_def dbs Let_def prod.case open_st sum.case)
  then obtain ix r where up: "?update = Some (ix, r)" and run: "and_then r (\<lambda>tip.
      and_then (snd (st_then (?cached ix) (\<lambda>_ st. (st, Inr st)))) (\<lambda>st.
      and_then (mempool_update ?Q st (cf_index_unspendables cfg) (os_now W0) (mempool_new (os_now W0))) (\<lambda>mp.
        Inr \<lparr>sr_indexer = ix\<lparr>ix_store := st\<rparr>, sr_query = query_new st mp, sr_tip = tip, sr_notifications = []\<rparr>))) = Inr s"
    by (cases ?update) auto
  then obtain tip st2 mp where tip: "r = Inr tip" and c: "snd (st_then (?cached ix) (\<lambda>_ st. (st, Inr st))) = Inr st2"
    and s: "s = \<lparr>sr_indexer = ix\<lparr>ix_store := st2\<rparr>, sr_query = query_new st2 mp, sr_tip = tip, sr_notifications = []\<rparr>"
    unfolding and_then_eq_Inr by blast
  have u: "?update = Some (ix, Inr tip)" using up tip by simp
  have st2: "st2 = ix_store ix \<or> (\<exists>shs. st2 = fst (precache ?Q shs (ix_store ix)))"
    using c unfolding st_then_cases by (auto split: option.splits sum.splits)
  from st2 have "sto_headers st2 = sto_headers (ix_store ix)" "sto_txstore st2 = sto_txstore (ix_store ix)"
    using precache_keeps by auto
  with indexer_update_Inr [OF assms(1) u]
  show "in_sync ?E s" "getbestblockhash (cq_lib Q) (os_rpc W0) = Inr (sr_tip s)" "sr_notifications s = []"
    by (simp_all add: in_sync_def s query_new_def)
qed

section \<open>Properties\<close>

lemma in_sync_drop [simp]: "in_sync E (rpc_drop s) = in_sync E s"
  by (simp add: in_sync_def rpc_drop_def)

lemma in_sync_fetch: "in_sync E s \<Longrightarrow> electrs_fetch_from cfg E (sr_store s) = Tapyrusd"
  by (auto simp: electrs_fetch_from_def done_initial_sync_def in_sync_def Let_def)

lemma loop_turns: "server_loop Q cfg (take n ts) s = Some (sn, Inr True) \<Longrightarrow> rocksdb (rdb (cq_ext Q)) \<Longrightarrow>
    in_sync (cq_ext Q) s \<Longrightarrow> list_all (steady (cq_lib Q)) ts \<Longrightarrow> n \<le> length ts \<Longrightarrow>
    in_sync (cq_ext Q) sn \<and> sr_notifications sn = sr_notifications s @ replicate n Periodic \<and>
    (if n = 0 then sr_tip sn = sr_tip s else getbestblockhash (cq_lib Q) (tk_tip_rpc (ts ! (n - 1))) = Inr (sr_tip sn))"
proof (induction n arbitrary: ts s)
  case 0
  then show ?case by simp
next
  case (Suc n)
  then obtain t us where ts: "ts = t # us" by (cases ts) simp_all
  with Suc.prems(1) obtain s1 where go: "server_tick Q cfg t s = Some (s1, Inr True)"
    and rest: "server_loop Q cfg (take n us) s1 = Some (sn, Inr True)"
    by (auto split: option.splits sum.splits bool.splits)
  have t: "steady (cq_lib Q) t" "list_all (steady (cq_lib Q)) us" "n \<le> length us" using Suc.prems(4,5) ts by simp_all
  note s1 = server_tick_in_sync [OF Suc.prems(2,3) t(1) go]
  with Suc.IH [OF rest Suc.prems(2) _ t(2,3)] show ?case by (cases n) (auto simp: ts)
qed

lemma loop_stops: "server_loop Q cfg ts s = Some (s', r) \<Longrightarrow>
    \<exists>n \<le> length ts. \<exists>sn. server_loop Q cfg (take n ts) s = Some (sn, Inr True) \<and>
      (r = Inr True \<and> n = length ts \<and> s' = sn \<or>
       r \<noteq> Inr True \<and> n < length ts \<and> (\<exists>s1. server_tick Q cfg (ts ! n) sn = Some (s1, r) \<and> s' = rpc_drop s1))"
proof (induction ts arbitrary: s)
  case Nil
  then show ?case by simp
next
  case (Cons t ts)
  from Cons.prems obtain s1 r1 where tick: "server_tick Q cfg t s = Some (s1, r1)"
    by (auto split: option.splits)
  show ?case
  proof (cases "r1 = Inr True")
    case True
    with tick Cons.prems have "server_loop Q cfg ts s1 = Some (s', r)" by simp
    from Cons.IH [OF this] obtain n sn where n: "n \<le> length ts" "server_loop Q cfg (take n ts) s1 = Some (sn, Inr True)"
      "r = Inr True \<and> n = length ts \<and> s' = sn \<or>
       r \<noteq> Inr True \<and> n < length ts \<and> (\<exists>s1. server_tick Q cfg (ts ! n) sn = Some (s1, r) \<and> s' = rpc_drop s1)"
      by blast
    with tick True show ?thesis by (intro exI [of _ "Suc n"] conjI exI [of _ sn]) auto
  next
    case False
    with tick Cons.prems have "s' = rpc_drop s1 \<and> r = r1" by (auto split: sum.splits bool.splits)
    with tick False show ?thesis by (intro exI [of _ 0] conjI exI [of _ s]) auto
  qed
qed

lemma stopped_turn:
  assumes "rocksdb (rdb (cq_ext Q))" "in_sync (cq_ext Q) s" "steady (cq_lib Q) t"
    and "server_tick Q cfg t s = Some (s', r)" "r \<noteq> Inr True"
  shows "sr_notifications s' = sr_notifications s \<and>
    (case r of
       Inr running \<Rightarrow> \<not> running \<and> s' = s \<and> (\<exists>err. tk_signal t = Inl err \<and> \<not> is_panic err)
     | Inl e \<Rightarrow> turn_fails Q cfg t s e \<and> (is_panic e \<or> in_sync (cq_ext Q) s'))"
proof (cases r)
  case (Inl e)
  with server_tick_fails [OF assms(1-3)] assms(4) show ?thesis by simp
next
  case (Inr running)
  with server_tick_False [of Q cfg t s s'] assms(4,5) show ?thesis by (cases running) auto
qed

text \<open>
  C6: the index follows the node. As long as the node keeps its best block while a turn of the main loop looks at
  it, a server that started in step with its databases is, after the turns it went through, at the best block the
  node named in the last of them: remembered, stored, and at the end of the chain of headers, and it has told the
  Electrum clients once a turn. It goes through all turns given, unless in one a signal stops it or something
  fails: the node, asked for its best block, the update of the index, the update of the mempool, or a panic. Then
  the clients are told to close. Unless it panicked, it ends in step with its databases, and the next start will
  fetch over JSON-RPC.
\<close>

theorem server_follows_node:
  assumes "rocksdb (rdb (cq_ext Q))" "in_sync (cq_ext Q) s" "\<forall>t \<in> set ts. steady (cq_lib Q) t"
    and "server_loop Q cfg ts s = Some (s', r)"
  shows "\<exists>n \<le> length ts. \<exists>sn. server_loop Q cfg (take n ts) s = Some (sn, Inr True) \<and> in_sync (cq_ext Q) sn \<and>
    (if n = 0 then sr_tip sn = sr_tip s else getbestblockhash (cq_lib Q) (tk_tip_rpc (ts ! (n - 1))) = Inr (sr_tip sn)) \<and>
    sr_notifications s' = sr_notifications s @ replicate n Periodic @ (if r = Inr True then [] else [Exit]) \<and>
    (case r of
       Inr running \<Rightarrow> in_sync (cq_ext Q) s' \<and> electrs_fetch_from cfg (cq_ext Q) (sr_store s') = Tapyrusd \<and>
         (if running then n = length ts \<and> s' = sn
          else n < length ts \<and> s' = rpc_drop sn \<and> (\<exists>err. tk_signal (ts ! n) = Inl err \<and> \<not> is_panic err))
     | Inl e \<Rightarrow> n < length ts \<and> turn_fails Q cfg (ts ! n) sn e \<and>
         (is_panic e \<or> in_sync (cq_ext Q) s' \<and> electrs_fetch_from cfg (cq_ext Q) (sr_store s') = Tapyrusd))"
proof -
  obtain n sn where n: "n \<le> length ts" "server_loop Q cfg (take n ts) s = Some (sn, Inr True)"
    and stop: "r = Inr True \<and> n = length ts \<and> s' = sn \<or>
      r \<noteq> Inr True \<and> n < length ts \<and> (\<exists>s1. server_tick Q cfg (ts ! n) sn = Some (s1, r) \<and> s' = rpc_drop s1)"
    using loop_stops [OF assms(4)] by blast
  have ts: "list_all (steady (cq_lib Q)) ts" using assms(3) by (simp add: list_all_iff)
  note sn = loop_turns [OF n(2) assms(1,2) ts n(1)]
  have fetch: "in_sync (cq_ext Q) s' \<Longrightarrow> electrs_fetch_from cfg (cq_ext Q) (sr_store s') = Tapyrusd" by (rule in_sync_fetch)
  have "sr_notifications s' = sr_notifications s @ replicate n Periodic @ (if r = Inr True then [] else [Exit]) \<and>
    (case r of
       Inr running \<Rightarrow> in_sync (cq_ext Q) s' \<and> electrs_fetch_from cfg (cq_ext Q) (sr_store s') = Tapyrusd \<and>
         (if running then n = length ts \<and> s' = sn
          else n < length ts \<and> s' = rpc_drop sn \<and> (\<exists>err. tk_signal (ts ! n) = Inl err \<and> \<not> is_panic err))
     | Inl e \<Rightarrow> n < length ts \<and> turn_fails Q cfg (ts ! n) sn e \<and>
         (is_panic e \<or> in_sync (cq_ext Q) s' \<and> electrs_fetch_from cfg (cq_ext Q) (sr_store s') = Tapyrusd))"
    using stop
  proof (elim disjE conjE exE)
    assume "r = Inr True" "n = length ts" "s' = sn"
    then show ?thesis using sn fetch by auto
  next
    fix s1
    assume s1: "r \<noteq> Inr True" "n < length ts" "server_tick Q cfg (ts ! n) sn = Some (s1, r)" "s' = rpc_drop s1"
    have "steady (cq_lib Q) (ts ! n)" using s1(2) assms(3) by simp
    note turn = stopped_turn [OF assms(1) conjunct1 [OF sn] this s1(3,1)]
    have sync: "in_sync (cq_ext Q) s' = in_sync (cq_ext Q) s1" by (simp add: s1(4))
    have "sr_notifications s' = sr_notifications sn @ [Exit]" using turn by (simp add: s1(4) rpc_drop_def)
    with s1 turn sync sn fetch show ?thesis by (cases r) auto
  qed
  with n sn show ?thesis by blast
qed

text \<open>
  Without that, the index can be left behind: the loop remembers the best block it was told before the update, not
  the one the update arrived at. If the node moves on in between and later moves back, the remembered tip is the
  node's best block again, and the loop leaves the index where it is.
\<close>

lemma server_tick_node_moved:
  assumes "rocksdb (rdb (cq_ext Q))" "server_tick Q cfg t s = Some (s', Inr True)"
    and "getbestblockhash (cq_lib Q) (tk_tip_rpc t) = Inr old" "old \<noteq> sr_tip s"
    and "getbestblockhash (cq_lib Q) (os_rpc (tk_update t)) = Inr new"
  shows "sr_tip s' = old" "header_list_tip (sto_headers (sr_store s')) = Inr new"
proof -
  obtain s0 tip' mp where u: "update_index Q (tk_update t) s = Some (s0, Inr tip')"
    and s': "s' = rpc_notify (s0\<lparr>sr_tip := old, sr_query := (sr_query s0)\<lparr>qy_mempool := mp\<rparr>\<rparr>)"
    using assms(3,4) by (auto intro: server_tick_goes_on [OF assms(2)])
  from update_index_Inr(1,2) [OF assms(1) u] assms(5) have "header_list_tip (sto_headers (sr_store s0)) = Inr new"
    by (simp add: in_sync_def)
  then show "sr_tip s' = old" "header_list_tip (sto_headers (sr_store s')) = Inr new"
    by (simp_all add: s' rpc_notify_def)
qed

lemma server_tick_node_back:
  assumes "server_tick Q cfg t s = Some (s', Inr True)" "getbestblockhash (cq_lib Q) (tk_tip_rpc t) = Inr (sr_tip s)"
  shows "sr_store s' = sr_store s" "sr_tip s' = sr_tip s"
proof -
  obtain mp where s': "s' = rpc_notify (s\<lparr>sr_query := (sr_query s)\<lparr>qy_mempool := mp\<rparr>\<rparr>)"
    using assms(2) by (auto intro: server_tick_goes_on [OF assms(1)])
  show "sr_store s' = sr_store s" "sr_tip s' = sr_tip s" by (simp_all add: s' rpc_notify_def)
qed

section \<open>Examples\<close>

definition ex_server_rpc :: rpc where
  "ex_server_rpc name ps =
     (if name = ''getbestblockhash'' then Inr [j_hash lib_ref 12]
      else if name = ''getrawmempool'' then Inr [JObj []] else Inr [])"

definition ex_outside :: outside where
  "ex_outside = \<lparr>os_rpc = ex_server_rpc, os_dial = Inr (), os_blk_files = Inr [], os_now = 0\<rparr>"

definition ex_tick :: "unit res \<Rightarrow> tick" where
  "ex_tick r = \<lparr>tk_signal = r, tk_tip_rpc = ex_server_rpc, tk_update = ex_outside, tk_mempool = ex_outside\<rparr>"

definition ex_running :: "kv list server" where
  "ex_running = (let st = ex_cached_store\<lparr>sto_txstore := [(tip_key, hash_bytes 12)]\<rparr> in
     \<lparr>sr_indexer = ex_indexer\<lparr>ix_store := st\<rparr>, sr_query = query_new st (mempool_new 0), sr_tip = 12, sr_notifications = []\<rparr>)"

lemma ex_running_fields:
  "sr_tip ex_running = 12" "sr_notifications ex_running = []" "qy_mempool (sr_query ex_running) = mempool_new 0"
  "header_list_tip (sto_headers (sr_store ex_running)) = Inr 12"
  "db_get (rdb ext_ref) (sto_txstore (sr_store ex_running)) tip_key = Some (hash_bytes 12)"
  "sr_query ex_running\<lparr>qy_mempool := mempool_new 0\<rparr> = sr_query ex_running" "ex_running\<lparr>sr_query := sr_query ex_running\<rparr> = ex_running"
proof -
  have "header_list_tip ex_chain = Inr 12"
    by (simp add: header_list_tip_def last_hash_def ex_header_defs assert_res_def)
  then show "header_list_tip (sto_headers (sr_store ex_running)) = Inr 12"
    by (simp add: ex_running_def query_new_def Let_def)
  show "db_get (rdb ext_ref) (sto_txstore (sr_store ex_running)) tip_key = Some (hash_bytes 12)"
    by (simp add: ex_running_def query_new_def Let_def ext_ref_def rocksdb_ref_def db_get_def)
qed (simp_all add: ex_running_def query_new_def Let_def)

lemma mempool_add_nothing: "mempool_add Q st u [] mp = Inr mp"
  by (simp add: mempool_add_def mp_store_txs_def mp_get_prevouts_def mp_lookup_txos_def lookup_avail_txos_def lookup_txos_def
      List.map_filter_def hm_collect_def Let_def)

lemma server_follows_node_witness:
  "\<forall>cfg. \<exists>s'. server_loop ex_chain_query cfg [ex_tick (Inr ()), ex_tick (Inl (Interrupt 15))] ex_running = Some (s', Inr False) \<and>
     in_sync ext_ref s' \<and> sr_notifications s' = [Periodic, Exit]"
proof (rule allI)
  fix cfg
  have best: "getbestblockhash lib_ref ex_server_rpc = Inr 12"
    by (simp add: getbestblockhash_def rpc_request_def ex_server_rpc_def parse_hash_value_def j_hash_def ok_or_def
        assert_res_def ref_lib.hash_from_to_hex)
  have L: "cq_lib ex_chain_query = lib_ref" "cq_ext ex_chain_query = ext_ref" by (simp_all add: ex_chain_query_def)
  have pool: "mempool_update (ex_chain_query\<lparr>cq_rpc := ex_server_rpc\<rparr>) st u 0 (mempool_new 0) = Inr (mempool_new 0)" for st u
    by (simp add: mempool_update_def L getmempool_def rpc_request_def ex_server_rpc_def ok_or_def assert_res_def hm_collect_def
        chain_err_def mp_txids_def mempool_new_def gettransactions_def mempool_add_nothing mempool_remove_def retain_entries_def update_backlog_stats_def Let_def
        BACKLOG_STATS_TTL_def)
  have tick: "server_tick ex_chain_query cfg (ex_tick (Inr ())) ex_running = Some (rpc_notify ex_running, Inr True)"
    by (simp add: server_tick_def ex_tick_def best L update_mempool_def ex_outside_def pool ex_running_fields)
  have stop: "server_tick ex_chain_query cfg (ex_tick (Inl (Interrupt 15))) s = Some (s, Inr False)" for s
    by (simp add: server_tick_def ex_tick_def)
  have loop: "server_loop ex_chain_query cfg [ex_tick (Inr ()), ex_tick (Inl (Interrupt 15))] ex_running =
      Some (rpc_drop (rpc_notify ex_running), Inr False)"
    by (simp add: tick stop)
  have sync: "in_sync (cq_ext ex_chain_query) ex_running"
    by (simp add: in_sync_def ex_running_fields L)
  have db: "rocksdb (rdb (cq_ext ex_chain_query))" by (simp add: L ext_ref_def ref_db.rocksdb_axioms)
  have steady: "\<forall>t \<in> set [ex_tick (Inr ()), ex_tick (Inl (Interrupt 15))]. steady (cq_lib ex_chain_query) t"
    by (simp add: steady_def ex_tick_def ex_outside_def)
  have "in_sync ext_ref (rpc_drop (rpc_notify ex_running))"
    using server_follows_node [OF db sync steady loop] unfolding L by auto
  moreover have "sr_notifications (rpc_drop (rpc_notify ex_running)) = [Periodic, Exit]"
    by (simp add: rpc_drop_def rpc_notify_def ex_running_fields)
  ultimately show "\<exists>s'. server_loop ex_chain_query cfg [ex_tick (Inr ()), ex_tick (Inl (Interrupt 15))] ex_running = Some (s', Inr False) \<and>
     in_sync ext_ref s' \<and> sr_notifications s' = [Periodic, Exit]"
    using loop by blast
qed

end
