(* ===== verification/Tools.thy ===== *)
theory Tools
  imports Server
begin

text \<open>
  The programs that print statistics of a stored index: the scripts with many transactions
  (\<^verbatim>\<open>src/src/bin/popular-scripts.rs\<close>) and the fingerprints of transactions with two outputs
  (\<^verbatim>\<open>src/src/bin/tx-fingerprint-stats.rs\<close>). What they print is a list of lines.
\<close>

section \<open>Popular scripts\<close>

text \<open>The loop of the raw iterator, which ends at an error; the current script, its number of entries and the lines so far.\<close>

fun popular_loop :: "lib \<Rightarrow> bincode \<Rightarrow> kv option list \<Rightarrow> hash \<Rightarrow> nat \<Rightarrow> string list \<Rightarrow> (hash \<times> nat \<times> string list) res" where
  "popular_loop L BE [] cur entries out = Inr (cur, entries, out)"
| "popular_loop L BE (None # items) cur entries out = Inr (cur, entries, out)"
| "popular_loop L BE (Some (key, value) # items) cur entries out =
     (if \<not> prefix [byte CHR ''H''] key then Inr (cur, entries, out)
      else and_then (tx_history_row_from_row BE \<lparr>row_key = key, row_value = value\<rparr>) (\<lambda>entry.
        if cur \<noteq> thk_hash entry then
          popular_loop L BE items (thk_hash entry) 1
            (if 100 < entries then out @ [hex_encode L (hash_bytes cur) @ '' '' @ dec_nat entries] else out)
        else popular_loop L BE items cur (entries + 1) out))"

definition popular_scripts :: "lib \<Rightarrow> 'd ext \<Rightarrow> 'd \<Rightarrow> string list res" where
  "popular_scripts L E history =
     and_then (popular_loop L (bo E) (rdb_iter_from (rdb E) history [byte CHR ''H'']) 0 0 []) (\<lambda>(cur, entries, out).
       Inr (out @ (if 4000 \<le> entries then [''scripthash,'' @ hex_encode L (hash_bytes cur) @ '','' @ dec_nat entries] else [])))"

section \<open>Fingerprints\<close>

record fingerprint =
  fp_uih :: nat
  fp_multi_spend :: bool
  fp_reuse :: bool

definition min_value :: "u64 list \<Rightarrow> u64 res" where
  "min_value vs = expect ''unwrap'' (if vs = [] then None else Some (Min (set vs)))"

text \<open>The values of the outputs and of those spent, in \<^verbatim>\<open>u64\<close> arithmetic.\<close>

definition fingerprint_of :: "transaction \<Rightarrow> (outpoint, txout) hashmap \<Rightarrow> fingerprint res" where
  "fingerprint_of tx prevouts =
     (let outs = map txo_value (tx_output tx); ins = map (txo_value \<circ> snd) prevouts;
          total_out = sum_list outs; total_in = sum_list ins in
      and_then (min_value outs) (\<lambda>small_out.
      and_then (min_value ins) (\<lambda>smallest_in.
        let large_out = Max (set outs); fee = total_in - total_out;
            spks = map (txo_script_pubkey \<circ> snd) prevouts in
        Inr \<lparr>fp_uih =
            (if total_in - smallest_in > large_out + fee then 2
             else if total_in - smallest_in > small_out + fee then 1 else 0),
          fp_multi_spend = (\<not> distinct spks),
          fp_reuse = list_ex (\<lambda>out. txo_script_pubkey out \<in> set spks) (tx_output tx)\<rparr>)))"

definition fingerprint_line :: "lib \<Rightarrow> tapyrus \<Rightarrow> transaction \<Rightarrow> block_id \<Rightarrow> fingerprint \<Rightarrow> string" where
  "fingerprint_line L T tx b f =
     hash_to_hex L (malfix_txid T tx) @ '','' @ dec_nat (bid_height b) @ '','' @ dec_nat (unat (tx_lock_time tx)) @ '','' @
     dec_nat (fp_uih f) @ '','' @ dec_nat (of_bool (fp_multi_spend f)) @ '','' @ dec_nat (of_bool (fp_reuse f))"

text \<open>What the loop does with one stored transaction: nothing, or a line with its class.\<close>

definition fingerprint_step :: "'d chain_query \<Rightarrow> 'd store \<Rightarrow> bytes \<Rightarrow> (string \<times> nat) option res" where
  "fingerprint_step Q st value =
     (let L = cq_lib Q; T = tap (cq_ext Q) in
      and_then (expect ''failed to parse Transaction'' (deserialize_tx T value)) (\<lambda>tx.
        if length (tx_output tx) \<noteq> 2 \<or> tx_is_coin_base T tx then Inr None
        else and_then (tx_confirming_block Q st (malfix_txid T tx)) (\<lambda>blockid.
          case blockid of
            None \<Rightarrow> Inr None
          | Some b \<Rightarrow>
              and_then (chain_lookup_txos Q st (remdups (map txi_previous_output (filter has_prevout (tx_input tx))))) (\<lambda>prevouts.
              and_then (fingerprint_of tx prevouts) (\<lambda>f.
                Inr (Some (fingerprint_line L T tx b f, fp_uih f)))))))"

fun fingerprint_loop :: "'d chain_query \<Rightarrow> 'd store \<Rightarrow> kv option list \<Rightarrow> (string \<times> nat) list res" where
  "fingerprint_loop Q st [] = Inr []"
| "fingerprint_loop Q st (None # items) = Inr []"
| "fingerprint_loop Q st (Some (key, value) # items) =
     (if \<not> prefix [byte CHR ''T''] key then Inr []
      else and_then (fingerprint_step Q st value) (\<lambda>r.
        and_then (fingerprint_loop Q st items) (\<lambda>rs. Inr (case r of None \<Rightarrow> rs | Some x \<Rightarrow> x # rs))))"

text \<open>The lines, and how many transactions there are of each class.\<close>

definition fingerprint_stats :: "'d chain_query \<Rightarrow> 'd store \<Rightarrow> (string list \<times> nat list) res" where
  "fingerprint_stats Q st =
     and_then (fingerprint_loop Q st (rdb_iter_from (rdb (cq_ext Q)) (sto_txstore st) [byte CHR ''T''])) (\<lambda>rs.
       Inr (map fst rs, map (\<lambda>c. length (filter (\<lambda>r. snd r = c) rs)) [0, 1, 2]))"

section \<open>What is printed\<close>

text \<open>
  On an index whose rows are grouped by script, a line is printed for every script but the last that has more
  than 100 entries, and one for the last if it has at least 4000.
\<close>

definition group_lines :: "lib \<Rightarrow> (hash \<times> nat) list \<Rightarrow> string list" where
  "group_lines L gs = map (\<lambda>(h, n). hex_encode L (hash_bytes h) @ '' '' @ dec_nat n) (filter (\<lambda>(h, n). 100 < n) gs)"

text \<open>The item of a history key under the iterator.\<close>

definition history_item :: "bincode \<Rightarrow> tx_history_key \<Rightarrow> kv option" where
  "history_item BE k = Some (row_key (tx_history_row_into_row BE k), row_value (tx_history_row_into_row BE k))"

definition readable :: "tx_history_key \<Rightarrow> bool" where
  "readable k \<longleftrightarrow> thk_code k = byte CHR ''H'' \<and> (\<forall>f. thk_txinfo k = Funding f \<longrightarrow> fi_open_asset f = None)"

lemma popular_loop_item:
  assumes "bincode_laws BE" "readable k"
  shows "popular_loop L BE (history_item BE k # items) cur entries out =
    (if cur \<noteq> thk_hash k then popular_loop L BE items (thk_hash k) 1 (out @ group_lines L [(cur, entries)])
     else popular_loop L BE items cur (entries + 1) out)"
proof -
  have "tx_history_row_from_row BE (tx_history_row_into_row BE k) = Inr k"
    using assms by (simp add: history_row_roundtrip readable_def)
  then have "tx_history_row_from_row BE \<lparr>row_key = row_key (tx_history_row_into_row BE k),
      row_value = row_value (tx_history_row_into_row BE k)\<rparr> = Inr k" by (simp add: tx_history_row_from_row_def)
  then show ?thesis
    using assms(2) by (simp add: history_item_def readable_def group_lines_def tx_history_row_into_row_def)
qed

lemma popular_loop_group:
  assumes "bincode_laws BE" "\<forall>k \<in> set ks. readable k \<and> thk_hash k = cur"
  shows "popular_loop L BE (map (history_item BE) ks @ items) cur n out = popular_loop L BE items cur (n + length ks) out"
  using assms(2) by (induction ks arbitrary: n) (simp_all add: popular_loop_item [OF assms(1)])

lemma popular_loop_groups:
  assumes laws: "bincode_laws BE"
  shows "\<forall>k \<in> set ks. readable k \<Longrightarrow> map thk_hash ks = concat (map (\<lambda>(h, m). replicate m h) gs) \<Longrightarrow>
    distinct (cur # map fst gs) \<Longrightarrow> \<forall>(h, m) \<in> set gs. 0 < m \<Longrightarrow>
    popular_loop L BE (map (history_item BE) ks) cur n out =
      Inr (fst (last ((cur, n) # gs)), snd (last ((cur, n) # gs)), out @ group_lines L (butlast ((cur, n) # gs)))"
proof (induction gs arbitrary: ks cur n out)
  case Nil
  then show ?case by (simp add: group_lines_def)
next
  case (Cons g gs)
  obtain h m where g: "g = (h, m)" by (cases g)
  let ?rest = "drop m ks"
  have split: "map thk_hash (take m ks) = replicate m h" "map thk_hash ?rest = concat (map (\<lambda>(h, m). replicate m h) gs)"
    using Cons.prems(2) by (simp_all add: g take_map [symmetric] drop_map [symmetric])
  have m: "0 < m" and ne: "cur \<noteq> h" using Cons.prems(3,4) by (auto simp: g)
  have len: "length (take m ks) = m" using arg_cong [OF split(1), of length] by simp
  with m obtain k ks' where t: "take m ks = k # ks'" by (cases "take m ks") auto
  have "set (map thk_hash (take m ks)) \<subseteq> {h}" unfolding split(1) by (simp add: set_replicate_conv_if)
  with t len have hash: "thk_hash k = h" "\<forall>k \<in> set ks'. thk_hash k = h" "length ks' = m - 1" by auto
  have ks: "ks = k # ks' @ ?rest" using t append_take_drop_id [of m ks] by simp
  have read: "readable k" "\<forall>k \<in> set ks'. readable k" "\<forall>k \<in> set ?rest. readable k"
    using Cons.prems(1) ks by (metis Un_iff list.set_intros(1) set_append list.set_intros(2))+
  have "popular_loop L BE (map (history_item BE) ks) cur n out =
      popular_loop L BE (map (history_item BE) ?rest) h (1 + length ks') (out @ group_lines L [(cur, n)])"
    by (subst ks) (use popular_loop_item [OF laws read(1)] popular_loop_group [OF laws, of ks' h] read(2) hash ne in simp)
  also have "\<dots> = Inr (fst (last ((h, m) # gs)), snd (last ((h, m) # gs)), (out @ group_lines L [(cur, n)]) @ group_lines L (butlast ((h, m) # gs)))"
    using Cons.IH [OF read(3) split(2)] Cons.prems(3,4) hash(3) m by (simp add: g)
  finally show ?case by (simp add: g group_lines_def)
qed

lemma popular_scripts_groups:
  assumes "bincode_laws (bo E)" "rdb_iter_from (rdb E) history [byte CHR ''H''] = map (history_item (bo E)) ks"
    and "\<forall>k \<in> set ks. readable k" "map thk_hash ks = concat (map (\<lambda>(h, m). replicate m h) gs)"
    and "distinct (0 # map fst gs)" "\<forall>(h, m) \<in> set gs. 0 < m" "gs \<noteq> []"
  shows "popular_scripts L E history = Inr (group_lines L (butlast gs) @
    (if 4000 \<le> snd (last gs) then [''scripthash,'' @ hex_encode L (hash_bytes (fst (last gs))) @ '','' @ dec_nat (snd (last gs))] else []))"
  using popular_loop_groups [OF assms(1,3-6), of L 0 "[]"] assms(7)
  by (simp add: popular_scripts_def assms(2) group_lines_def)

end
