(* ===== verification/Metrics.thy ===== *)
theory Metrics
  imports Daemon Fees
begin

text \<open>
  Metrics (\<^verbatim>\<open>src/src/metrics.rs\<close>): the registration of the metrics the program keeps, each of which must not
  fail, and the process statistics read from \<^verbatim>\<open>/proc\<close>. The encoding of the metrics and the HTTP server that
  shows them are those of libraries.
\<close>

section \<open>Registration\<close>

datatype metric_kind = Counter_Metric | Counter_Vec | Gauge_Metric | Gauge_Vec | Histogram_Metric | Histogram_Vec

record metric =
  mt_kind :: metric_kind
  mt_name :: string
  mt_help :: string
  mt_labels :: "string list"

text \<open>The library: whether it makes a metric from its options, and the registry, which may refuse one.\<close>

record 'r prometheus =
  pm_with_opts :: "metric \<Rightarrow> bool"
  pm_new :: 'r
  pm_register :: "'r \<Rightarrow> metric \<Rightarrow> 'r option"

definition metrics_register :: "'r prometheus \<Rightarrow> metric \<Rightarrow> 'r \<Rightarrow> 'r res" where
  "metrics_register P m reg =
     and_then (expect ''unwrap'' (if pm_with_opts P m then Some () else None)) (\<lambda>_.
       expect ''unwrap'' (pm_register P reg m))"

fun metrics_register_all :: "'r prometheus \<Rightarrow> metric list \<Rightarrow> 'r \<Rightarrow> 'r res" where
  "metrics_register_all P [] reg = Inr reg"
| "metrics_register_all P (m # ms) reg = and_then (metrics_register P m reg) (metrics_register_all P ms)"

definition exporter_metrics :: "metric list" where
  "exporter_metrics =
     [\<lparr>mt_kind = Gauge_Metric, mt_name = ''process_memory_rss'', mt_help = ''Resident memory size [bytes]'', mt_labels = []\<rparr>,
      \<lparr>mt_kind = Gauge_Vec, mt_name = ''process_cpu_usage'', mt_help = ''CPU usage by this process [seconds]'', mt_labels = [''type'']\<rparr>,
      \<lparr>mt_kind = Gauge_Metric, mt_name = ''process_fs_fds'', mt_help = ''# of file descriptors'', mt_labels = []\<rparr>]"

definition daemon_metrics :: "metric list" where
  "daemon_metrics =
     [\<lparr>mt_kind = Histogram_Vec, mt_name = ''daemon_rpc'', mt_help = ''Tapyrusd RPC latency (in seconds)'', mt_labels = [''method'']\<rparr>,
      \<lparr>mt_kind = Histogram_Vec, mt_name = ''daemon_bytes'', mt_help = ''Tapyrusd RPC size (in bytes)'', mt_labels = [''method'', ''dir'']\<rparr>]"

definition indexer_metrics :: "metric list" where
  "indexer_metrics =
     [\<lparr>mt_kind = Histogram_Vec, mt_name = ''index_duration'', mt_help = ''Index update duration (in seconds)'', mt_labels = [''step'']\<rparr>]"

definition chain_query_metrics :: "metric list" where
  "chain_query_metrics =
     [\<lparr>mt_kind = Histogram_Vec, mt_name = ''query_duration'', mt_help = ''Index query duration (in seconds)'', mt_labels = [''name'']\<rparr>]"

definition mempool_metrics :: "metric list" where
  "mempool_metrics =
     [\<lparr>mt_kind = Histogram_Vec, mt_name = ''mempool_latency'', mt_help = ''Mempool requests latency (in seconds)'', mt_labels = [''part'']\<rparr>,
      \<lparr>mt_kind = Histogram_Vec, mt_name = ''mempool_delta'', mt_help = ''# of transactions added/removed'', mt_labels = [''type'']\<rparr>,
      \<lparr>mt_kind = Gauge_Vec, mt_name = ''mempool_count'', mt_help = ''# of elements currently at the mempool'', mt_labels = [''type'']\<rparr>]"

definition electrum_metrics :: "metric list" where
  "electrum_metrics =
     [\<lparr>mt_kind = Histogram_Vec, mt_name = ''electrum_rpc'', mt_help = ''Electrum RPC latency (seconds)'', mt_labels = [''method'']\<rparr>,
      \<lparr>mt_kind = Gauge_Metric, mt_name = ''electrum_clients'', mt_help = ''# of Electrum clients'', mt_labels = []\<rparr>,
      \<lparr>mt_kind = Gauge_Metric, mt_name = ''electrum_subscriptions'', mt_help = ''# of Electrum subscriptions'', mt_labels = []\<rparr>]"

text \<open>In the order of \<^verbatim>\<open>run_server\<close>.\<close>

definition server_metrics :: "metric list" where
  "server_metrics = exporter_metrics @ daemon_metrics @ indexer_metrics @ chain_query_metrics @ mempool_metrics @ electrum_metrics"

subsection \<open>The library's promise\<close>

text \<open>
  The data model of Prometheus: letters, digits and underscores (and colons in names), not starting with a digit;
  some help; distinct labels, none of them \<^verbatim>\<open>le\<close> in a histogram.
\<close>

definition metric_char :: "char \<Rightarrow> bool" where
  "metric_char c \<longleftrightarrow>
     (let n = of_char c :: nat in 97 \<le> n \<and> n \<le> 122 \<or> 65 \<le> n \<and> n \<le> 90 \<or> 48 \<le> n \<and> n \<le> 57 \<or> n = 95)"

definition metric_word :: "string \<Rightarrow> bool" where
  "metric_word s \<longleftrightarrow> s \<noteq> [] \<and> list_all metric_char s \<and> (let n = of_char (hd s) :: nat in n < 48 \<or> 57 < n)"

definition metric_wf :: "metric \<Rightarrow> bool" where
  "metric_wf m \<longleftrightarrow> metric_word (mt_name m) \<and> mt_help m \<noteq> [] \<and> list_all metric_word (mt_labels m) \<and>
     distinct (mt_labels m) \<and> ''le'' \<notin> set (mt_labels m)"

locale prometheus =
  fixes P :: "'r prometheus" and names :: "'r \<Rightarrow> string set"
  assumes with_opts: "metric_wf m \<Longrightarrow> pm_with_opts P m"
    and names_new: "names (pm_new P) = {}"
    and register: "metric_wf m \<Longrightarrow> mt_name m \<notin> names reg \<Longrightarrow>
      \<exists>reg'. pm_register P reg m = Some reg' \<and> names reg' = insert (mt_name m) (names reg)"
    and register_twice: "mt_name m \<in> names reg \<Longrightarrow> pm_register P reg m = None"
begin

lemma register_all:
  assumes "list_all metric_wf ms" "distinct (map mt_name ms)" "mt_name ` set ms \<inter> names reg = {}"
  shows "\<exists>reg'. metrics_register_all P ms reg = Inr reg' \<and> names reg' = names reg \<union> mt_name ` set ms"
  using assms
proof (induction ms arbitrary: reg)
  case Nil
  then show ?case by simp
next
  case (Cons m ms)
  from Cons.prems obtain reg1 where r: "pm_register P reg m = Some reg1" "names reg1 = insert (mt_name m) (names reg)"
    using register [of m reg] by auto
  with Cons.prems with_opts [of m] have "metrics_register P m reg = Inr reg1" by (simp add: metrics_register_def expect_def)
  with Cons.IH [of reg1] Cons.prems r(2) show ?case by auto
qed

lemma register_again: "mt_name m \<in> names reg \<Longrightarrow> \<exists>msg. metrics_register P m reg = panic msg"
  using register_twice by (auto simp: metrics_register_def expect_def panic_def)

end

text \<open>A registry that is the list of its names.\<close>

definition prometheus_ref :: "string list prometheus" where
  "prometheus_ref = \<lparr>pm_with_opts = metric_wf, pm_new = [],
     pm_register = (\<lambda>reg m. if mt_name m \<in> set reg then None else Some (mt_name m # reg))\<rparr>"

interpretation ref_metrics: prometheus prometheus_ref set
  by unfold_locales (auto simp: prometheus_ref_def)

lemma server_metrics_wf: "list_all metric_wf server_metrics"
  by code_simp

lemma server_metrics_distinct: "distinct (map mt_name server_metrics)"
  by code_simp

text \<open>Starting the server registers every metric; making a second mempool, for example, would panic.\<close>

lemma start_registers_metrics:
  assumes "prometheus P names"
  shows "\<exists>reg. metrics_register_all P server_metrics (pm_new P) = Inr reg \<and>
    (\<forall>m \<in> set server_metrics. \<exists>msg. metrics_register P m reg = panic msg)"
proof -
  obtain reg where "metrics_register_all P server_metrics (pm_new P) = Inr reg" "names reg = mt_name ` set server_metrics"
    using prometheus.register_all [OF assms server_metrics_wf server_metrics_distinct, of "pm_new P"] prometheus.names_new [OF assms]
    by auto
  then show ?thesis using prometheus.register_again [OF assms] by auto
qed

section \<open>Process statistics\<close>

text \<open>The characters with the property White_Space, in UTF-8.\<close>

definition whitespace :: "string list" where
  "whitespace =
     map (\<lambda>n. [char_of n]) [32, 9, 10, 11, 12, 13 :: nat] @
     map (map char_of) [[0xC2, 0x85], [0xC2, 0xA0], [0xE1, 0x9A, 0x80], [0xE2, 0x80, 0xA8], [0xE2, 0x80, 0xA9],
       [0xE2, 0x80, 0xAF], [0xE2, 0x81, 0x9F], [0xE3, 0x80, 0x80 :: nat]] @
     map (\<lambda>n. map char_of [0xE2, 0x80, n]) [0x80..<0x8B :: nat]"

definition whitespace_length :: "string \<Rightarrow> nat" where
  "whitespace_length s = (case find (\<lambda>w. prefix w s) whitespace of None \<Rightarrow> 0 | Some w \<Rightarrow> length w)"

text \<open>\<^verbatim>\<open>split_whitespace\<close>, with the word read so far.\<close>

function split_words :: "string \<Rightarrow> string \<Rightarrow> string list" where
  "split_words word [] = (if word = [] then [] else [word])"
| "split_words word (c # s) =
     (let n = whitespace_length (c # s) in
      if n = 0 then split_words (word @ [c]) s
      else (if word = [] then [] else [word]) @ split_words [] (drop n (c # s)))"
  by pat_completeness auto
termination split_words
  by (relation "measure (\<lambda>(word, s). length s)") auto

declare split_words.simps(2) [simp del]

definition split_whitespace :: "string \<Rightarrow> string list" where
  "split_whitespace s = split_words [] s"

text \<open>Double-precision floats: a processor time is non-negative and stays in the normal range.\<close>

datatype f64 = F64 rat | F64_Infinity | F64_NaN

definition f64_round :: "rat \<Rightarrow> rat" where
  "f64_round q =
     (if q \<le> 0 then 0
      else
        let (n, d) = quotient_of q;
            e = int (floorlog 2 (nat n)) - int (floorlog 2 (nat d)) - 53;
            e' = (if q / pow2 e < 2 ^ 53 then e else e + 1)
        in of_int (round_half_even (q / pow2 e')) * pow2 e')"

definition f64_div :: "nat \<Rightarrow> nat \<Rightarrow> f64" where
  "f64_div a b =
     (if b = 0 then if a = 0 then F64_NaN else F64_Infinity
      else F64 (f64_round (f64_round (of_nat a) / f64_round (of_nat b))))"

record process_stats =
  ps_utime :: f64
  ps_rss :: u64
  ps_fds :: nat

text \<open>
  What the process finds: \<^verbatim>\<open>/proc/self/stat\<close>, the entries of \<^verbatim>\<open>/proc/self/fd\<close>, the size of a page and the clock
  ticks per second. The texts of the errors are shortened by the list of the parts.
\<close>

record process_env =
  pe_macos :: bool
  pe_stat :: "string option"
  pe_fds :: "nat option"
  pe_page_size :: u64
  pe_ticks :: "nat option"

definition parse_part :: "string list \<Rightarrow> nat \<Rightarrow> string \<Rightarrow> nat res" where
  "parse_part parts index name =
     and_then (ok_or (''missing '' @ name) (if index < length parts then Some (parts ! index) else None)) (\<lambda>part.
       ok_or (''invalid '' @ name) (parse_uint 64 part))"

definition parse_stats :: "process_env \<Rightarrow> process_stats res" where
  "parse_stats V =
     (if pe_macos V then Inr \<lparr>ps_utime = F64 0, ps_rss = 0, ps_fds = 0\<rparr>
      else
        and_then (ok_or ''failed to read stats'' (pe_stat V)) (\<lambda>value_text.
        let parts = split_whitespace value_text in
        and_then (expect ''failed to get _SC_CLK_TCK'' (pe_ticks V)) (\<lambda>ticks_per_second.
        and_then (parse_part parts 13 ''utime'') (\<lambda>utime.
        and_then (parse_part parts 23 ''rss'') (\<lambda>rss.
        and_then (ok_or ''failed to read fd directory'' (pe_fds V)) (\<lambda>fds.
          Inr \<lparr>ps_utime = f64_div utime ticks_per_second, ps_rss = of_nat rss * pe_page_size V, ps_fds = fds\<rparr>))))))"

text \<open>One turn of the exporter: the gauges for the user time, the memory and the files, which an error leaves as they are.\<close>

record process_gauges =
  pg_cpu :: f64
  pg_rss :: int
  pg_fds :: int

definition exporter_turn :: "process_env \<Rightarrow> process_gauges \<Rightarrow> process_gauges res" where
  "exporter_turn V g =
     (case parse_stats V of
        Inr st \<Rightarrow> Inr \<lparr>pg_cpu = ps_utime st, pg_rss = sint (ps_rss st), pg_fds = sint (of_nat (ps_fds st) :: u64)\<rparr>
      | Inl e \<Rightarrow> if is_panic e then Inl e else Inr g)"

subsection \<open>The fields\<close>

definition plain_word :: "string \<Rightarrow> bool" where
  "plain_word w \<longleftrightarrow> w \<noteq> [] \<and> list_all (\<lambda>c. let n = of_char c :: nat in 33 \<le> n \<and> n \<le> 126) w"

lemma whitespace_heads: "w \<in> set whitespace \<Longrightarrow> w = c # s \<Longrightarrow>
    (of_char c :: nat) \<in> {9, 10, 11, 12, 13, 32} \<or> 126 < (of_char c :: nat)"
  by (auto simp: whitespace_def)

lemma whitespace_nonempty: "[] \<notin> set whitespace"
  by (simp add: whitespace_def)

lemma whitespace_length_plain:
  assumes "33 \<le> (of_char c :: nat)" "(of_char c :: nat) \<le> 126"
  shows "whitespace_length (c # s) = 0"
proof -
  have "\<not> prefix w (c # s)" if "w \<in> set whitespace" for w
    using whitespace_heads [OF that] whitespace_nonempty that assms by (cases w) (auto simp: prefix_Cons)
  then have "find (\<lambda>w. prefix w (c # s)) whitespace = None" by (auto simp: find_None_iff)
  then show ?thesis by (simp add: whitespace_length_def)
qed

lemma whitespace_length_space: "whitespace_length (CHR '' '' # s) = 1"
proof -
  have "char_of (32 :: nat) = CHR '' ''" by code_simp
  then show ?thesis by (simp add: whitespace_length_def whitespace_def)
qed

lemma split_words_plain: "list_all (\<lambda>c. 33 \<le> (of_char c :: nat) \<and> (of_char c :: nat) \<le> 126) w \<Longrightarrow> split_words word (w @ s) = split_words (word @ w) s"
proof (induction w arbitrary: word)
  case (Cons c w)
  then show ?case by (simp add: split_words.simps(2) [of word c] whitespace_length_plain)
qed simp

definition join_words :: "string list \<Rightarrow> string" where
  "join_words ws = concat (map (\<lambda>w. w @ '' '') ws)"

lemma split_join: "list_all plain_word ws \<Longrightarrow> split_whitespace (join_words ws) = ws"
proof (induction ws)
  case Nil
  show ?case by (simp add: split_whitespace_def join_words_def)
next
  case (Cons w ws)
  then have w: "list_all (\<lambda>c. 33 \<le> (of_char c :: nat) \<and> (of_char c :: nat) \<le> 126) w" "w \<noteq> []" by (simp_all add: plain_word_def Let_def)
  have "split_words [] (join_words (w # ws)) = split_words w (CHR '' '' # join_words ws)"
    using split_words_plain [OF w(1), of "[]"] by (simp add: join_words_def)
  also have "\<dots> = w # split_words [] (join_words ws)" using w(2) by (simp add: split_words.simps(2) whitespace_length_space)
  finally show ?case using Cons by (simp add: split_whitespace_def)
qed

text \<open>
  The fields are counted in words: those after the name of the executable are read as documented when the name
  is one word, and one too early for each space in it.
\<close>

lemma parse_stats_fields:
  assumes "list_all plain_word (pid # comm @ rest)" "comm \<noteq> []" "length comm \<le> 12"
    and "\<not> pe_macos V" "pe_stat V = Some (join_words (pid # comm @ rest))" "pe_ticks V = Some ticks" "pe_fds V = Some fds"
    and "23 - length comm \<le> length rest"
    and "parse_uint 64 (rest ! (12 - length comm)) = Some utime" "parse_uint 64 (rest ! (22 - length comm)) = Some rss"
  shows "parse_stats V = Inr \<lparr>ps_utime = f64_div utime ticks, ps_rss = of_nat rss * pe_page_size V, ps_fds = fds\<rparr>"
proof -
  have n: "(pid # comm @ rest) ! 13 = rest ! (12 - length comm)" "(pid # comm @ rest) ! 23 = rest ! (22 - length comm)"
    using assms(3) by (simp_all add: nth_append nth_Cons')
  have "23 < length (pid # comm @ rest)" using assms(3,8) by simp
  then have "parse_part (pid # comm @ rest) 13 nm = ok_or (''invalid '' @ nm) (parse_uint 64 (rest ! (12 - length comm)))"
    "parse_part (pid # comm @ rest) 23 nm = ok_or (''invalid '' @ nm) (parse_uint 64 (rest ! (22 - length comm)))" for nm
    unfolding parse_part_def n [symmetric] by (simp_all add: ok_or_def)
  then show ?thesis using assms(4-7,9,10) split_join [OF assms(1)]
    by (simp add: parse_stats_def ok_or_def expect_def)
qed

end
