(* ===== verification/Spec2Isabelle.thy ===== *)
theory Spec2Isabelle
  imports Query Mempool_Invariant Histories Served_History Headers Transactions Fees Merkle Open_Assets Rows Db Color Stats
    Rpc_Server Rest_Properties Discovery_Invariant Server_Properties Tools Metrics
begin

text \<open>
  A verification development for esplora-tapyrus, the indexer and API server of the Tapyrus chain. File names
  are relative to the repository; functions are named as in the code.

  \<^bold>\<open>The program.\<close> The main loop (\<^verbatim>\<open>src/src/bin/electrs.rs\<close>) follows a Tapyrus node. When the node's best block
  changes, the indexer fetches the missing blocks, over JSON-RPC or from the node's block files, writes rows
  for their transactions, outputs, spends and coloured coins into three key-value databases, and adopts the
  new chain of headers. The mempool keeps an index of the unconfirmed transactions in memory. Queries over the
  confirmed chain (\<^verbatim>\<open>ChainQuery\<close>) and over both (\<^verbatim>\<open>Query\<close>) serve the HTTP interface and the Electrum server,
  whose connections are told after each turn of the main loop to look for changes of what they subscribed to.

  \<^bold>\<open>Theories and sources.\<close>

  \<^item> \<open>Prelude\<close>: machine words, byte strings, errors and panics as values (\<open>'a res\<close>, from \<^verbatim>\<open>src/src/errors.rs\<close>),
    hash maps as association lists (iterated in the order of the list; \<open>Color\<close> shows its history for every
    order), iterators as streams, decoders.
  \<^item> \<open>Chain\<close> (\<^verbatim>\<open>chain.rs\<close>): scripts, colours, transactions, blocks, networks. \<open>Externals\<close>: the interfaces of the
    tapyrus library, bincode and RocksDB, as records of functions with their documented laws as locales;
    \<open>Reference\<close> instantiates each on concrete functions, on which the concrete runs are evaluated.
  \<^item> \<open>Headers\<close> (\<^verbatim>\<open>util/block.rs\<close>): the chain of headers \<open>header_list\<close>, its construction, reorganisation and lookups.
    \<open>Transactions\<close> (\<^verbatim>\<open>util/transaction.rs\<close>, \<^verbatim>\<open>util/script.rs\<close>), \<open>Fees\<close> (\<^verbatim>\<open>util/fees.rs\<close>), \<open>Merkle\<close>
    (\<^verbatim>\<open>util/electrum_merkle.rs\<close>), \<open>Open_Assets\<close> (\<^verbatim>\<open>open_assets/mod.rs\<close>, \<^verbatim>\<open>compute_assets\<close>).
  \<^item> \<open>Rows\<close>, \<open>Color\<close>, \<open>Stats\<close> (\<^verbatim>\<open>new_index/schema.rs\<close>, \<^verbatim>\<open>new_index/color.rs\<close>): every row type at byte level, the
    history of coloured coins, the statistics of scripts and colours. \<open>Db\<close> (\<^verbatim>\<open>new_index/db.rs\<close>): the wrapper of
    RocksDB.
  \<^item> \<open>Json\<close>, \<open>Daemon\<close> (\<^verbatim>\<open>daemon.rs\<close>, \<^verbatim>\<open>signal.rs\<close>): JSON values, the connection to the node with its retries, the
    RPC methods. \<open>Fetch\<close> (\<^verbatim>\<open>new_index/fetch.rs\<close>): both ways of fetching blocks.
  \<^item> \<open>Indexer\<close> (\<^verbatim>\<open>new_index/schema.rs\<close>, \<^verbatim>\<open>Store\<close> and \<^verbatim>\<open>Indexer\<close>), \<open>Chain_Query\<close> (\<^verbatim>\<open>ChainQuery\<close>) with \<open>Caches\<close>,
    \<open>Histories\<close>, \<open>Index_History\<close> and \<open>Served_History\<close> (which put the indexer and the queries together),
    \<open>Mempool\<close> with \<open>Mempool_Invariant\<close> (\<^verbatim>\<open>new_index/mempool.rs\<close>), \<open>Query\<close> (\<^verbatim>\<open>new_index/query.rs\<close>).
  \<^item> \<open>Protocol\<close> (\<^verbatim>\<open>electrum/mod.rs\<close>, and the part of \<^verbatim>\<open>util/electrum_merkle.rs\<close> that reads the chain), \<open>Config\<close>
    (\<^verbatim>\<open>config.rs\<close>), \<open>Web\<close> (the JSON of the values that both interfaces return, the serde instances of
    \<^verbatim>\<open>open_assets/mod.rs\<close>).
  \<^item> \<open>Electrum\<close> (\<^verbatim>\<open>electrum/server.rs\<close>): the commands, \<open>session\<close> (\<^verbatim>\<open>Connection\<close>), its subscriptions and loops;
    \<open>Electrum_Types\<close> and \<open>Electrum_Session\<close> hold its properties. \<open>Rpc_Server\<close> (\<^verbatim>\<open>RPC\<close>) has the threads around the
    connections.
  \<^item> \<open>Rest\<close> (\<^verbatim>\<open>rest.rs\<close>): the routes, their handlers and responses; \<open>Rest_Properties\<close> its properties.
  \<^item> \<open>Discovery\<close> with \<open>Discovery_Invariant\<close> (\<^verbatim>\<open>electrum/discovery.rs\<close>, \<^verbatim>\<open>electrum/client.rs\<close>): the checks of other
    servers, which \<^verbatim>\<open>electrum/mod.rs\<close> does not declare.
  \<^item> \<open>Server\<close> with \<open>Server_Properties\<close> (\<^verbatim>\<open>bin/electrs.rs\<close>, \<^verbatim>\<open>new_index/precache.rs\<close>): the main loop, which puts the
    indexer, the mempool and the notifications together.
  \<^item> \<open>Tools\<close> (\<^verbatim>\<open>bin/popular-scripts.rs\<close>, \<^verbatim>\<open>bin/tx-fingerprint-stats.rs\<close>): the programs that print statistics.
  \<^item> \<open>Metrics\<close> (\<^verbatim>\<open>metrics.rs\<close>): the registration of the metrics and the process statistics.

  \<^bold>\<open>State and effects.\<close> The state of a component is a record (\<open>store\<close>, \<open>indexer\<close>, \<open>mempool\<close>, \<open>query\<close>, \<open>session\<close>,
  \<open>discovery\<close>, \<open>server\<close>); an operation that changes it returns it, also when it ends with an error. A panic is
  an error of its own kind, which no handler of ordinary errors catches. Locks are not represented: an
  operation under a lock is one step. Where threads meet, their steps are explicit: \<open>Electrum_Session\<close> has an
  inductive relation of the steps of a connection in its surroundings, \<open>Rpc_Server\<close> one of the steps of the
  acceptor, the notifier, the main thread, the connections and their readers, with the channels, the readers'
  buffers and the one lock that is held across a wait; each connection of \<open>Rpc_Server\<close> is such a session. The turns of
  the main loop and of the health checks are lists of what each turn finds outside. Integers have the width
  of the code (\<^verbatim>\<open>usize\<close> is 64 bits, as \<open>nat\<close> with the wrap-around written out where it can occur); arithmetic
  wraps, as in the release profile.

  \<^bold>\<open>Parameters.\<close> \<open>tapyrus\<close>, \<open>bincode\<close>, \<open>rocksdb\<close> (locales of the same names and \<open>kv_store\<close>), \<open>lib\<close> (hexadecimal,
  base64, JSON text; \<open>lib_laws\<close>), \<open>web\<close> (text forms of library types), \<open>rpc\<close> (what the node answers), \<open>node\<close>
  (the connection), \<open>host\<close> (name resolution, files), \<open>prometheus\<close> (the registry of metrics, a locale),
  \<open>discovery_env\<close>, \<open>peer_net\<close> (other servers), and the environments of each turn. In \<open>discovery_env\<close> the text of IP
  addresses and the case of letters are parameters too. \<open>job_heap\<close> is the promise of the standard library's heap, which leaves open which of several greatest
  jobs is on top.

  \<^bold>\<open>Partial functions and bounds.\<close> Loops that may not end are \<open>partial_function (option)\<close>: waiting for signals,
  reconnecting, retrying, following headers back to a known one, and the computation of open assets, whose
  loop does not end when the inputs carry too few units; properties state when they return. Every other
  recursion is structural or has a measure. The loops \<^verbatim>\<open>handle_replies\<close>, \<^verbatim>\<open>run_server\<close> and \<^verbatim>\<open>spawn_jobs_thread\<close>
  run over a list of events of any length.

  \<^bold>\<open>What is shown.\<close> Of the headers: the invariant through reorganisations, lookups, reloading (C1 to C3). Of the
  main loop: the index follows the node until a signal, or an error of the node or of an update, stops it. Of the
  Electrum server: replies in order with the id of the request,
  on every connection whatever the threads do, typed replies, exact notifications of scripts and of the tip, a
  shutdown that waits for every connection, and completes exactly when there is room for what each reader has
  still to send. Of the mempool: its invariant, agreement with the indexer, agreement with the
  node's mempool. Of the databases: exact scans, round trips of the rows. Of the index: a script's history is
  exactly what the indexed blocks contain of it, and a query lists every transaction of it that is in the chain,
  both in a store that was opened, whose history database holds the compatibility bytes besides the rows.
  Of the queries: pages of histories, transparency of the cache of unspent outputs, statistics. Of the HTTP
  interface: the walk down the chain, Merkle proofs that verify. Of the node's client: retries, block files.
  Of discovery: while the jobs are for distinct services, the table of healthy servers agrees with the checks and no
  round of them panics. Some properties state what the code does
  where it is not what it means to do (open assets that never return, clashing keys, doubled statistics);
  lemmas next to the properties show further ones, such as \<open>server_tick_node_moved\<close>, \<open>rest_color_panics\<close>,
  \<open>open_asset_not_read_back\<close>, \<open>stats_cache_seek_mismatch\<close>, \<open>read_error_never_done\<close>,
  \<open>late_connection_not_told\<close>, \<open>stale_row_lists_spent\<close> and \<open>duplicate_jobs_panic\<close>.

  \<^bold>\<open>Not modelled.\<close> The latencies and sizes that are observed and the logging, which no answer depends on; the
  threads, sockets and channels themselves (\<^verbatim>\<open>util/mod.rs\<close>, the hyper server); the parsing of the command line by clap;
  flushing, compaction and options of RocksDB, which do not change the contents; \<^verbatim>\<open>app.rs\<close>, which refers to modules that no longer
  exist; the help texts.
\<close>

end
